(* ===== verification/GoStd.thy ===== *)
theory GoStd
  imports Complex_Main "HOL-Library.Word" "HOL-Library.Sublist"
begin

text \<open>
  The parts of the Go standard library the modelled code uses: \<open>int64\<close> arithmetic,
  \<open>time.Time\<close> and \<open>time.Duration\<close>, the civil calendar behind \<open>AddDate\<close>, and the
  string functions of package \<open>strings\<close>.

  A \<open>time.Time\<close> is the number of nanoseconds since the Unix epoch, an unbounded \<open>int\<close>;
  a \<open>time.Duration\<close> is an \<open>int64\<close> count of nanoseconds, so \<open>Time.Sub\<close> saturates as Go's
  does. Strings are byte strings; only ASCII white space and ASCII case are known to
  \<open>TrimSpace\<close>, \<open>ToLower\<close> and \<open>ToUpper\<close>.
\<close>

section \<open>Machine integers\<close>

type_synonym i64 = "64 word"

text \<open>Reading a mathematical integer as the \<open>int64\<close> with the same low bits.\<close>

definition wrap64 :: "int \<Rightarrow> int" where
  "wrap64 x = sint (word_of_int x :: i64)"

definition int64_ok :: "int \<Rightarrow> bool" where
  "int64_ok x \<longleftrightarrow> - (2 ^ 63) \<le> x \<and> x < 2 ^ 63"

lemma wrap64_id: "int64_ok x \<Longrightarrow> wrap64 x = x"
  unfolding wrap64_def int64_ok_def
  by (simp add: signed_take_bit_int_eq_self sint_sbintrunc')

lemma wrap64_ok: "int64_ok (wrap64 x)"
  unfolding wrap64_def int64_ok_def
  using sint_greater_eq [where w = "word_of_int x :: i64"] sint_less [where w = "word_of_int x :: i64"]
  by simp

text \<open>Go's integer division truncates towards zero.\<close>

definition go_div :: "int \<Rightarrow> int \<Rightarrow> int" where
  "go_div a b = sgn a * sgn b * (\<bar>a\<bar> div \<bar>b\<bar>)"

lemma go_div_nonneg: "0 \<le> a \<Longrightarrow> 0 < b \<Longrightarrow> go_div a b = a div b"
  by (cases "a = 0") (simp_all add: go_div_def)

section \<open>Time\<close>

type_synonym gotime = int
type_synonym duration = int

definition second :: duration where "second = 1000000000"
definition minute :: duration where "minute = 60 * second"
definition hour :: duration where "hour = 60 * minute"
definition day :: duration where "day = 24 * hour"

lemmas time_units = day_def hour_def minute_def second_def

lemma time_units_pos [simp]: "0 < second" "0 < minute" "0 < hour" "0 < day"
  by (simp_all add: time_units)

definition after :: "gotime \<Rightarrow> gotime \<Rightarrow> bool" where "after a b \<longleftrightarrow> b < a"
definition before :: "gotime \<Rightarrow> gotime \<Rightarrow> bool" where "before a b \<longleftrightarrow> a < b"

definition maxDuration :: int where "maxDuration = 2 ^ 63 - 1"
definition minDuration64 :: int where "minDuration64 = - (2 ^ 63)"

text \<open>\<open>Time.Sub\<close>: the exact difference, clamped to the range of \<open>Duration\<close>.\<close>

definition time_sub :: "gotime \<Rightarrow> gotime \<Rightarrow> duration" where
  "time_sub a b = max minDuration64 (min maxDuration (a - b))"

lemma time_sub_exact: "int64_ok (a - b) \<Longrightarrow> time_sub a b = a - b"
  by (simp add: time_sub_def int64_ok_def minDuration64_def maxDuration_def)

lemma time_sub_pos: "0 < time_sub a b \<longleftrightarrow> b < a"
  by (auto simp: time_sub_def minDuration64_def maxDuration_def)

lemma time_sub_le: "b \<le> a \<Longrightarrow> time_sub a b \<le> a - b"
  by (auto simp: time_sub_def minDuration64_def)

lemma time_sub_nonneg: "b \<le> a \<Longrightarrow> 0 \<le> time_sub a b"
  by (auto simp: time_sub_def minDuration64_def maxDuration_def)

lemma time_sub_mono: "b' \<le> b \<Longrightarrow> time_sub a b \<le> time_sub a b'"
  by (auto simp: time_sub_def)

lemma time_sub_ub: "time_sub a b \<le> maxDuration"
  by (auto simp: time_sub_def minDuration64_def maxDuration_def)

section \<open>The civil calendar\<close>

text \<open>
  \<open>daysFromCivil y m d\<close> is the day number (0 is 1970-01-01) of a proleptic Gregorian date,
  with years counted from March; \<open>civilFromDays\<close> is its inverse, by the cycle arithmetic
  of package \<open>time\<close> (400, 100, 4 and 1 year cycles). Times of day are read in the zone of
  the deployment, UTC+8 without daylight saving (\<open>localOffset\<close>).
\<close>

definition localOffset :: duration where "localOffset = 8 * hour"

definition daysFromCivil :: "int \<Rightarrow> int \<Rightarrow> int \<Rightarrow> int" where
  "daysFromCivil y m d =
     (let y' = (if m \<le> 2 then y - 1 else y); m' = (if m \<le> 2 then m + 9 else m - 3)
      in 365 * y' + y' div 4 - y' div 100 + y' div 400 + (153 * m' + 2) div 5 + d - 1 - 719468)"

definition civilFromDays :: "int \<Rightarrow> int \<times> int \<times> int" where
  "civilFromDays z =
     (let z = z + 719468;
          era = z div 146097; d0 = z mod 146097;
          c = min 3 (d0 div 36524); d1 = d0 - 36524 * c;
          q = d1 div 1461; d2 = d1 - 1461 * q;
          a = min 3 (d2 div 365); d3 = d2 - 365 * a;
          y = 400 * era + 100 * c + 4 * q + a;
          m' = (5 * d3 + 2) div 153;
          dd = d3 - (153 * m' + 2) div 5 + 1
      in (if m' < 10 then (y, m' + 3, dd) else (y + 1, m' - 9, dd)))"

text \<open>\<open>t.AddDate(0, months, 0)\<close>: the same day of the target month, overflowing into the
  next one where that month is shorter, and the same time of day.\<close>

definition addMonths :: "gotime \<Rightarrow> int \<Rightarrow> gotime" where
  "addMonths t months =
     (let l = t + localOffset; dn = l div day; tod = l mod day; (y, m, d) = civilFromDays dn;
          k = 12 * y + (m - 1) + months
      in day * (daysFromCivil (k div 12) (k mod 12 + 1) 1 + (d - 1)) + tod - localOffset)"

text \<open>\<open>t.AddDate(0, 0, days)\<close>.\<close>

definition addDays :: "gotime \<Rightarrow> int \<Rightarrow> gotime" where
  "addDays t days = t + day * days"

section \<open>Strings\<close>

definition isSpace :: "char \<Rightarrow> bool" where
  "isSpace c \<longleftrightarrow> (of_char c :: nat) \<in> {9, 10, 11, 12, 13, 32}"

definition trimLeft :: "string \<Rightarrow> string" where
  "trimLeft s = dropWhile isSpace s"

definition trimRight :: "string \<Rightarrow> string" where
  "trimRight s = rev (dropWhile isSpace (rev s))"

definition trimSpace :: "string \<Rightarrow> string" where
  "trimSpace s = trimRight (trimLeft s)"

definition lowerChar :: "char \<Rightarrow> char" where
  "lowerChar c = (let n = (of_char c :: nat) in if 65 \<le> n \<and> n \<le> 90 then char_of (n + 32) else c)"

definition upperChar :: "char \<Rightarrow> char" where
  "upperChar c = (let n = (of_char c :: nat) in if 97 \<le> n \<and> n \<le> 122 then char_of (n - 32) else c)"

definition toLower :: "string \<Rightarrow> string" where "toLower s = map lowerChar s"
definition toUpper :: "string \<Rightarrow> string" where "toUpper s = map upperChar s"

definition containsAny :: "string \<Rightarrow> string \<Rightarrow> bool" where
  "containsAny s chars \<longleftrightarrow> list_ex (\<lambda>c. c \<in> set chars) s"

text \<open>\<open>strings.Split(s, sep)\<close> for a one byte separator: never empty.\<close>

fun splitOn :: "char \<Rightarrow> string \<Rightarrow> string list" where
  "splitOn sep [] = [[]]"
| "splitOn sep (c # cs) =
     (if c = sep then [] # splitOn sep cs
      else (case splitOn sep cs of [] \<Rightarrow> [[c]] | w # ws \<Rightarrow> (c # w) # ws))"

fun joinWith :: "char \<Rightarrow> string list \<Rightarrow> string" where
  "joinWith sep [] = []"
| "joinWith sep [w] = w"
| "joinWith sep (w # v # ws) = w @ sep # joinWith sep (v # ws)"

lemma splitOn_nonempty [simp]: "splitOn sep s \<noteq> []"
  by (induction s) (auto split: list.splits)

lemma joinWith_splitOn [simp]: "joinWith sep (splitOn sep s) = s"
proof (induction s)
  case (Cons c cs)
  obtain w ws where w: "splitOn sep cs = w # ws"
    by (cases "splitOn sep cs") auto
  with Cons show ?case by (cases ws) auto
qed simp

lemma splitOn_noSep: "w \<in> set (splitOn sep s) \<Longrightarrow> sep \<notin> set w"
proof (induction s arbitrary: w)
  case (Cons c cs)
  obtain v ws where v: "splitOn sep cs = v # ws"
    by (cases "splitOn sep cs") auto
  with Cons show ?case by (force split: if_splits)
qed simp

lemma splitOn_joinWith:
  "ws \<noteq> [] \<Longrightarrow> \<forall>w \<in> set ws. sep \<notin> set w \<Longrightarrow> splitOn sep (joinWith sep ws) = ws"
proof (induction sep ws rule: joinWith.induct)
  case (2 sep w)
  then have "sep \<notin> set w" by simp
  then show ?case by (simp, induction w) auto
next
  case (3 sep w v ws)
  then have IH: "splitOn sep (joinWith sep (v # ws)) = v # ws" and w: "sep \<notin> set w" by auto
  from w have "splitOn sep (w @ sep # s) = w # splitOn sep s" for s
    by (induction w) auto
  with IH show ?case by simp
qed simp

end
