(* ===== verification/Prelude.thy ===== *)
theory Prelude
  imports GoStd
begin

text \<open>
  Shared vocabulary: errors as values of a sum type, the fragment of SQL the control plane
  uses on tables (a table is the list of its rows, in insertion order), and the lemma
  collections the component theories use.

  MySQL reports as \<open>RowsAffected\<close> the rows an \<open>UPDATE\<close> matched \<^emph>\<open>and changed\<close>
  (the driver's default; the shipped DSN in \<open>.env.example\<close> does not set
  \<open>clientFoundRows\<close>): \<open>affected\<close> counts exactly those.
\<close>

named_theorems sqlsimp \<open>how the SQL primitives act on a table\<close>
named_theorems opdefs \<open>definitions of the operations of a component\<close>

section \<open>Errors\<close>

text \<open>
  The error values of the program: \<open>ErrNoRows\<close> is \<open>sql.ErrNoRows\<close>, \<open>ErrDuplicate\<close> a violated
  unique key, \<open>ErrConflict\<close> is \<open>errInstanceStateConflict\<close>, \<open>ErrAgent\<close> a failed node request,
  \<open>ErrCancelled\<close> a self-hosted command that was cancelled, and \<open>Msg\<close> any other
  \<open>errors.New\<close>, with its message in English.
\<close>

datatype error =
    ErrNoRows
  | ErrDuplicate
  | ErrConflict
  | ErrAgent string
  | ErrCancelled string
  | Msg string

definition bindE :: "'e + 'a \<Rightarrow> ('a \<Rightarrow> 'e + 'b) \<Rightarrow> 'e + 'b" where
  "bindE r k = (case r of Inl e \<Rightarrow> Inl e | Inr x \<Rightarrow> k x)"

definition guardE :: "bool \<Rightarrow> 'e \<Rightarrow> 'e + 'b \<Rightarrow> 'e + 'b" where
  "guardE b e k = (if b then k else Inl e)"

definition orElse :: "'a option \<Rightarrow> 'e \<Rightarrow> 'e + 'a" where
  "orElse x e = (case x of None \<Rightarrow> Inl e | Some v \<Rightarrow> Inr v)"

lemma bindE_simps [simp]:
  "bindE (Inl e) k = Inl e" "bindE (Inr x) k = k x"
  by (simp_all add: bindE_def)

lemma bindE_Inr_iff: "bindE r k = Inr y \<longleftrightarrow> (\<exists>x. r = Inr x \<and> k x = Inr y)"
  by (cases r) auto

lemma guardE_simps [simp]:
  "guardE True e k = k" "guardE False e k = Inl e"
  by (simp_all add: guardE_def)

lemma guardE_Inr_iff: "guardE b e k = Inr y \<longleftrightarrow> b \<and> k = Inr y"
  by (simp add: guardE_def)

lemma orElse_simps [simp]:
  "orElse None e = Inl e" "orElse (Some v) e = Inr v"
  by (simp_all add: orElse_def)

lemma orElse_Inr_iff: "orElse x e = Inr v \<longleftrightarrow> x = Some v"
  by (cases x) auto

lemmas resultE = bindE_Inr_iff guardE_Inr_iff orElse_Inr_iff

section \<open>SQL on tables\<close>

text \<open>Comparison of a nullable column with a value: \<open>NULL\<close> equals nothing.\<close>

definition sqlEq :: "'a option \<Rightarrow> 'a option \<Rightarrow> bool" where
  "sqlEq x y \<longleftrightarrow> (case (x, y) of (Some a, Some b) \<Rightarrow> a = b | _ \<Rightarrow> False)"

definition someAnd :: "('a \<Rightarrow> bool) \<Rightarrow> 'a option \<Rightarrow> bool" where
  "someAnd p x \<longleftrightarrow> (case x of None \<Rightarrow> False | Some a \<Rightarrow> p a)"

definition noneOr :: "('a \<Rightarrow> bool) \<Rightarrow> 'a option \<Rightarrow> bool" where
  "noneOr p x \<longleftrightarrow> (case x of None \<Rightarrow> True | Some a \<Rightarrow> p a)"

lemma sqlEq_simps [simp]:
  "sqlEq None y = False" "sqlEq x None = False" "sqlEq (Some a) (Some b) = (a = b)"
  by (auto simp: sqlEq_def split: option.splits)

lemma sqlEq_iff: "sqlEq x y \<longleftrightarrow> x = y \<and> x \<noteq> None"
  by (cases x; cases y) auto

lemma someAnd_simps [simp]:
  "someAnd p None = False" "someAnd p (Some a) = p a"
  by (simp_all add: someAnd_def)

lemma someAnd_iff: "someAnd p x \<longleftrightarrow> (\<exists>a. x = Some a \<and> p a)"
  by (cases x) auto

lemma noneOr_simps [simp]:
  "noneOr p None = True" "noneOr p (Some a) = p a"
  by (simp_all add: noneOr_def)

definition select :: "('r \<Rightarrow> bool) \<Rightarrow> 'r list \<Rightarrow> 'r option" where
  "select p t = List.find p t"

definition countRows :: "('r \<Rightarrow> bool) \<Rightarrow> 'r list \<Rightarrow> nat" where
  "countRows p t = length (filter p t)"

definition sumRows :: "('r \<Rightarrow> bool) \<Rightarrow> ('r \<Rightarrow> 'n :: monoid_add) \<Rightarrow> 'r list \<Rightarrow> 'n" where
  "sumRows p f t = sum_list (map f (filter p t))"

definition update :: "('r \<Rightarrow> bool) \<Rightarrow> ('r \<Rightarrow> 'r) \<Rightarrow> 'r list \<Rightarrow> 'r list" where
  "update p f t = map (\<lambda>r. if p r then f r else r) t"

definition affected :: "('r \<Rightarrow> bool) \<Rightarrow> ('r \<Rightarrow> 'r) \<Rightarrow> 'r list \<Rightarrow> nat" where
  "affected p f t = length (filter (\<lambda>r. p r \<and> f r \<noteq> r) t)"

lemma select_simps [simp]:
  "select p [] = None" "select p (r # t) = (if p r then Some r else select p t)"
  by (simp_all add: select_def)

lemma countRows_simps [simp]:
  "countRows p [] = 0" "countRows p (r # t) = (if p r then Suc (countRows p t) else countRows p t)"
  by (simp_all add: countRows_def)

lemma sumRows_simps [simp]:
  "sumRows p f [] = 0" "sumRows p f (r # t) = (if p r then f r + sumRows p f t else sumRows p f t)"
  by (simp_all add: sumRows_def)

lemma sumRows_append [simp]: "sumRows p f (xs @ ys) = sumRows p f xs + sumRows p f ys"
  by (simp add: sumRows_def)

lemma countRows_append [simp]: "countRows p (xs @ ys) = countRows p xs + countRows p ys"
  by (simp add: countRows_def)

lemma update_simps [simp]:
  "update p f [] = []" "update p f (r # t) = (if p r then f r else r) # update p f t"
  by (simp_all add: update_def)

lemma affected_simps [simp]:
  "affected p f [] = 0"
  "affected p f (r # t) = (if p r \<and> f r \<noteq> r then Suc (affected p f t) else affected p f t)"
  by (simp_all add: affected_def)

lemma length_update [simp]: "length (update p f t) = length t"
  by (simp add: update_def)

lemma select_SomeD: "select p t = Some r \<Longrightarrow> r \<in> set t \<and> p r"
  by (induction t) (auto split: if_splits)

lemma select_None: "select p t = None \<longleftrightarrow> (\<forall>r \<in> set t. \<not> p r)"
  by (induction t) auto

lemma in_update: "r \<in> set (update p f t) \<longleftrightarrow> (\<exists>r0 \<in> set t. r = (if p r0 then f r0 else r0))"
  by (auto simp: update_def)

lemma update_id: "(\<And>r. r \<in> set t \<Longrightarrow> p r \<Longrightarrow> f r = r) \<Longrightarrow> update p f t = t"
  by (induction t) auto

lemma affected_0: "affected p f t = 0 \<longleftrightarrow> update p f t = t"
  by (induction t) auto

lemma affected_zero_iff: "affected p f t = 0 \<longleftrightarrow> (\<forall>r \<in> set t. p r \<longrightarrow> f r = r)"
  by (induction t) auto

lemma map_update: "(\<And>r. k (f r) = k r) \<Longrightarrow> map k (update p f t) = map k t"
  by (induction t) auto

lemma sumRows_cong: "(\<And>r. r \<in> set t \<Longrightarrow> p r = q r) \<Longrightarrow> (\<And>r. r \<in> set t \<Longrightarrow> f r = g r)
  \<Longrightarrow> sumRows p f t = sumRows q g t"
  by (induction t) auto

section \<open>Tables with a primary key\<close>

text \<open>
  The interface every table of the schema offers: its rows can be read and rewritten, and
  \<open>key\<close> is its primary key. The laws say that writing one table is seen by reading it,
  and that it leaves every other component of the database (\<open>frame\<close>) alone.
\<close>

locale keyed_table =
  fixes rows :: "'db \<Rightarrow> 'r list"
    and put :: "('r list \<Rightarrow> 'r list) \<Rightarrow> 'db \<Rightarrow> 'db"
    and key :: "'r \<Rightarrow> 'k"
  assumes rows_put: "rows (put h d) = h (rows d)"
    and put_put: "put h (put g d) = put (h \<circ> g) d"
    and put_id: "h (rows d) = rows d \<Longrightarrow> put h d = d"
begin

definition unique :: "'db \<Rightarrow> bool" where
  "unique d \<longleftrightarrow> distinct (map key (rows d))"

lemma unique_update:
  assumes "unique d" and "\<And>r. key (f r) = key r"
  shows "unique (put (update p f) d)"
  using assms by (simp add: unique_def rows_put map_update)

lemma unique_insert:
  assumes "unique d" and "key r \<notin> key ` set (rows d)"
  shows "unique (put (\<lambda>t. t @ [r]) d)"
  using assms by (auto simp: unique_def rows_put)

text \<open>The same for a database given only by its rows.\<close>

lemma unique_rows_update:
  assumes "unique d" and "rows d' = update p f (rows d)" and "\<And>r. p r \<Longrightarrow> key (f r) = key r"
  shows "unique d'"
proof -
  have "map key (update p f t) = map key t" for t
    using assms(3) by (induction t) auto
  then show ?thesis using assms(1,2) by (simp add: unique_def)
qed

lemma unique_rows_same: "unique d \<Longrightarrow> rows d' = rows d \<Longrightarrow> unique d'"
  by (simp add: unique_def)

lemma unique_rows_insert:
  "unique d \<Longrightarrow> rows d' = rows d @ [r] \<Longrightarrow> key r \<notin> key ` set (rows d) \<Longrightarrow> unique d'"
  by (auto simp: unique_def)

lemma key_unique:
  assumes "unique d" "r \<in> set (rows d)" "s \<in> set (rows d)" "key r = key s"
  shows "r = s"
  using assms by (simp add: unique_def distinct_map inj_on_def)

lemma select_key:
  assumes "unique d" "r \<in> set (rows d)" "\<And>s. p s \<Longrightarrow> key s = key r" "p r"
  shows "select p (rows d) = Some r"
proof (cases "select p (rows d)")
  case None
  then show ?thesis using assms by (auto simp: select_None)
next
  case (Some s)
  then have "s \<in> set (rows d)" "p s" by (auto dest: select_SomeD)
  then show ?thesis using Some assms key_unique by metis
qed

text \<open>An \<open>UPDATE\<close> whose condition fixes the primary key affects at most one row.\<close>

lemma affected_le_1:
  assumes u: "unique d" and k: "\<And>r. p r \<Longrightarrow> key r = x"
  shows "affected p f (rows d) \<le> 1"
proof -
  have "affected p f t \<le> 1" if "distinct (map key t)" for t
    using that
  proof (induction t)
    case (Cons r t)
    show ?case
    proof (cases "p r")
      case True
      with Cons.prems k have "\<forall>s \<in> set t. \<not> p s" by force
      then have "affected p f t = 0" by (simp add: affected_zero_iff)
      then show ?thesis by simp
    qed (use Cons in simp)
  qed simp
  then show ?thesis using u by (simp add: unique_def)
qed

lemma affected_key:
  assumes u: "unique d" and r: "r \<in> set (rows d)" and k: "\<And>s. p s \<Longrightarrow> key s = key r"
  shows "affected p f (rows d) = 1 \<longleftrightarrow> p r \<and> f r \<noteq> r"
proof -
  have le: "affected p f (rows d) \<le> 1" by (rule affected_le_1 [OF u k])
  have "affected p f (rows d) = 0 \<longleftrightarrow> \<not> (p r \<and> f r \<noteq> r)"
    using key_unique [OF u] k r by (auto simp: affected_zero_iff)
  with le show ?thesis by linarith
qed

text \<open>The row with a given key after such an \<open>UPDATE\<close>.\<close>

lemma row_after_update:
  assumes u: "unique d" and r: "r \<in> set (rows d)" and kf: "\<And>s. key (f s) = key s"
    and s: "s \<in> set (rows (put (update p f) d))" "key s = key r"
  shows "s = (if p r then f r else r)"
proof -
  from s obtain s0 where s0: "s0 \<in> set (rows d)" "s = (if p s0 then f s0 else s0)"
    by (auto simp: rows_put in_update)
  with kf s have "key s0 = key r" by (auto split: if_splits)
  with key_unique [OF u s0(1) r] s0 show ?thesis by simp
qed

text \<open>A loop that handles the rows selected by \<open>p\<close> one after the other, each by its key.\<close>

lemma fold_rows:
  assumes "distinct (map key ts)"
    and "\<And>i d. i \<in> set ts \<Longrightarrow> rows (step i d) = map (\<lambda>x. if key x = key i then g i x else x) (rows d)"
    and "\<And>i x. key (g i x) = key x"
  shows "rows (fold step ts d) = map (\<lambda>x. case select (\<lambda>i. key i = key x) ts of None \<Rightarrow> x | Some i \<Rightarrow> g i x) (rows d)"
  using assms(1,2)
proof (induction ts arbitrary: d)
  case (Cons i ts)
  have none: "select (\<lambda>j. key j = key x) ts = None" if "key x = key i" for x
    using Cons.prems(1) that unfolding select_None by (metis distinct.simps(2) imageI list.map(2) list.set_map)
  have "rows (fold step ts (step i d)) = map (\<lambda>x. case select (\<lambda>j. key j = key x) ts of None \<Rightarrow> x | Some j \<Rightarrow> g j x) (rows (step i d))"
    using Cons by simp
  also have "rows (step i d) = map (\<lambda>x. if key x = key i then g i x else x) (rows d)" using Cons.prems(2) by simp
  finally show ?case by (auto simp: none assms(3) eq_commute)
qed simp

lemma fold_filter_rows:
  assumes u: "unique d"
    and s: "\<And>i e. i \<in> set (rows d) \<Longrightarrow> p i \<Longrightarrow> rows (step i e) = map (\<lambda>x. if key x = key i then g i x else x) (rows e)"
    and k: "\<And>i x. key (g i x) = key x"
  shows "rows (fold step (filter p (rows d)) d) = map (\<lambda>x. if p x then g x x else x) (rows d)"
proof -
  have "distinct (map key (filter p (rows d)))" using u by (simp add: unique_def distinct_map_filter)
  from fold_rows [OF this _ k, where step = step and d = d] s
  have "rows (fold step (filter p (rows d)) d)
      = map (\<lambda>x. case select (\<lambda>i. key i = key x) (filter p (rows d)) of None \<Rightarrow> x | Some i \<Rightarrow> g i x) (rows d)" by simp
  also have "\<dots> = map (\<lambda>x. if p x then g x x else x) (rows d)"
  proof (rule map_cong [OF refl])
    fix x assume x: "x \<in> set (rows d)"
    show "(case select (\<lambda>i. key i = key x) (filter p (rows d)) of None \<Rightarrow> x | Some i \<Rightarrow> g i x) = (if p x then g x x else x)"
    proof (cases "select (\<lambda>i. key i = key x) (filter p (rows d))")
      case None
      then have "\<not> p x" using x by (auto simp: select_None)
      then show ?thesis using None by simp
    next
      case (Some i)
      then have "i \<in> set (rows d)" "p i" "key i = key x" by (auto dest: select_SomeD)
      then have "i = x" using key_unique [OF u _ x] by blast
      then show ?thesis using Some \<open>p i\<close> by simp
    qed
  qed
  finally show ?thesis .
qed

lemma affected_one_row:
  assumes "affected p f (rows d) = Suc n"
  shows "\<exists>r \<in> set (rows d). p r \<and> f r \<noteq> r"
  using assms affected_zero_iff [of p f "rows d"] by fastforce

end

end
