(* ===== verification/Schema.thy ===== *)
theory Schema
  imports Prelude
begin

text \<open>
  The data of the control plane (\<open>src/src/control_plane.go\<close>, \<open>platform_upgrade.go\<close>,
  \<open>plan_change.go\<close>, \<open>refund.go\<close>, \<open>commercial_benefits.go\<close>, \<open>tickets.go\<close>): one record per
  table, with the columns the modelled statements read or write, and the database as the
  record of its tables and of the server clock. A nullable column is an \<open>option\<close>; a Go field
  read through \<open>COALESCE(column,'')\<close> keeps its \<open>option\<close>, with \<open>None\<close> for the empty string.
  Status strings are datatypes whose constructors are the literals of the code. CPU quotas
  (\<open>float64\<close>, \<open>DOUBLE\<close> columns) are rationals, amounts in fen are unbounded integers.
  Columns for display only (names, notes, formatted specs, access addresses) are left out.
\<close>

type_synonym id = string

section \<open>Status vocabularies\<close>

datatype istatus =
    Deploying | DeploymentFailed | Running | Stopped | DestroyScheduled | Destroyed | Purged
  | Missing | UnknownRuntime | Updating | OtherStatus string

datatype ostatus =
    OrderPending | OrderReview | OrderDeploy | OrderActive | OrderExpired | OrderCancel
  | OrderReject | OrderRefund | OrderDeploymentFailed | OrderExchanged

datatype tstatus =
    TaskPending | TaskRunning | TaskDone | TaskFailed | TaskReview | TaskCanceled | TaskDiscarded

datatype action =
    Create | RetryDeploy | Start | Stop | Update | Restart | Reinstall | Destroy | Purge
  | Resize | CompensateResize | HostAccess | Bandwidth | OtherAction string

datatype reason = Refunded | Manual | Expired | FailedDeployment | UserNoRefund | OtherReason string

datatype nodekind = Platform | SelfHosted

datatype agentstate = OpRunning | OpSucceeded | OpFailed | OpUnknown

text \<open>Idempotency keys are strings concatenated from these parts.\<close>

datatype taskkey =
    CreateKey id | RenewKey id | RenewStartKey id id | LifecycleKey action id gotime
  | ActionKey action id gotime | ResizeKey id id | CompensateKey id | HostAccessKey id
  | DesiredKey id string | SelfHostedKey id

datatype businesskey =
    PurchaseKey id | ReleaseKey id | RefundKey id | CancelKey id | InstanceRefundKey id id

datatype entrytype =
    ManualDebit | ManualCredit | EntryPurchase | EntryRenewal | EntryRefund
  | PlanChangePending | PlanChangeRelease | PlanChangePurchase | PlanChangeRefund

datatype payload =
    NoPayload | SelfHostedPayload
  | ResizePayload (rp_change: id) (rp_cpu: rat) (rp_memory: int) (rp_wasRunning: bool)
  | ReinstallPayload (ri_ref: string) (ri_version: string) (ri_digest: string) (ri_terminal: bool)

section \<open>Rows\<close>

record inst =
  i_id :: id
  i_owner :: id
  i_image :: string
  i_version :: string
  i_digest :: "string option"
  i_status :: istatus
  i_runtime :: "istatus option"
  i_container :: string
  i_cpu :: rat
  i_memory :: int
  i_node :: "id option"
  i_order :: "id option"
  i_route :: string
  i_createdAt :: gotime
  i_expires :: "gotime option"
  i_destroyAt :: "gotime option"
  i_destroyReason :: "reason option"
  i_destroyedAt :: "gotime option"
  i_purgeAt :: "gotime option"
  i_retentionDays :: int
  i_archivedAt :: "gotime option"
  i_activeTask :: "id option"
  i_activeToken :: "string option"
  i_activeExpires :: "gotime option"
  i_generation :: int
  i_resourceVersion :: int
  i_hostEnabled :: bool
  i_hostApplied :: bool
  i_selfhosted :: bool
  i_observed :: "(rat \<times> int) option"
  i_desiredPower :: string
  i_recreateNonce :: string
  i_deletionIntent :: "string option"
  i_specHash :: "string option"

record controlTask =
  t_id :: id
  t_instance :: id
  t_action :: action
  t_key :: taskkey
  t_status :: tstatus
  t_attempts :: nat
  t_lastError :: "string option"
  t_runAfter :: gotime
  t_createdAt :: gotime
  t_updatedAt :: gotime
  t_claimedAt :: "gotime option"
  t_claimExpires :: "gotime option"
  t_worker :: "string option"
  t_token :: "string option"
  t_heartbeat :: "gotime option"
  t_recovery :: nat
  t_agentOp :: "id option"
  t_agentState :: "agentstate option"
  t_generation :: int
  t_payload :: payload
  t_finishedAt :: "gotime option"

record order =
  o_id :: id
  o_owner :: id
  o_plan :: id
  o_image :: id
  o_instance :: "id option"
  o_amount :: int
  o_list :: int
  o_discount :: int
  o_status :: ostatus
  o_source :: "string option"
  o_walletEntry :: "id option"
  o_renewal :: "id option"
  o_node :: "id option"
  o_selVersion :: "string option"
  o_selDigest :: "string option"
  o_start :: "gotime option"
  o_expires :: "gotime option"
  o_refundedAt :: "gotime option"
  o_refundAmount :: int
  o_refundEntry :: "id option"
  o_replacement :: bool
  o_exchange :: "id option"
  o_replaces :: "id option"
  o_program :: "id option"
  o_bonusDays :: int
  o_tier :: "(int \<times> int \<times> int) option"
  o_createdAt :: gotime
  o_updatedAt :: gotime

record payment =
  pay_id :: id
  pay_order :: id
  pay_payer :: id
  pay_amount :: int
  pay_reference :: string
  pay_status :: string
  pay_reviewer :: "id option"

record wallet =
  w_user :: id
  w_balance :: int

record walletEntry =
  we_id :: id
  we_user :: id
  we_amount :: int
  we_after :: int
  we_type :: entrytype
  we_actor :: id
  we_order :: "id option"
  we_change :: "id option"
  we_key :: "businesskey option"
  we_createdAt :: gotime

record plan =
  p_id :: id
  p_cpu :: rat
  p_memory :: int
  p_monthly :: int
  p_enabled :: bool

record catalogImage =
  g_id :: id
  g_ref :: string
  g_digest :: string
  g_version :: string
  g_enabled :: bool
  g_terminalOnly :: bool

record imageVersion =
  v_id :: id
  v_image :: id
  v_tag :: string
  v_digest :: string
  v_enabled :: bool
  v_status :: string
  v_lastError :: "string option"
  v_publishedAt :: "gotime option"

record imagePull =
  ip_version :: id
  ip_node :: id
  ip_status :: string
  ip_digest :: "string option"

record node =
  n_id :: id
  n_kind :: nodekind
  n_device :: "id option"
  n_cpuTotal :: rat
  n_memTotal :: int
  n_cpuDetected :: rat
  n_memDetected :: int
  n_enabled :: bool
  n_heartbeat :: "gotime option"
  n_apiVersion :: int
  n_capabilities :: "string list"
  n_lastError :: "string option"
  n_owner :: "id option"
  n_name :: string
  n_ready :: bool
  n_issues :: "(string \<times> string) list"
  n_cpuQuota :: rat
  n_memQuota :: int
  n_autoQuota :: bool

record planPriceTier =
  pt_plan :: id
  pt_months :: int
  pt_bps :: int
  pt_enabled :: bool

datatype benefitType = FixedDiscount | PercentDiscount | BonusDays
datatype triggerType = Automatic | PromoCode | Targeted
datatype audience = AllUsers | FirstPaid | FirstPlan | Expiring | Lapsed | TargetedUsers
datatype programStatus = Draft | Scheduled | Active | Paused | Ended
datatype scope = PurchaseScope | RenewalScope | BothScopes | PlanChangeScope

record benefitProgram =
  bp_id :: id
  bp_status :: programStatus
  bp_trigger :: triggerType
  bp_scope :: scope
  bp_type :: benefitType
  bp_value :: int
  bp_minAmount :: int
  bp_plans :: "id list"
  bp_months :: "int list"
  bp_audience :: audience
  bp_starts :: "gotime option"
  bp_ends :: "gotime option"
  bp_perUser :: int
  bp_total :: int
  bp_used :: int
  bp_cashBudget :: int
  bp_cashSpent :: int
  bp_daysLimit :: int
  bp_daysUsed :: int
  bp_priority :: int
  bp_codePerUser :: int
  bp_createdAt :: gotime

record benefitCode =
  bc_id :: id
  bc_program :: id
  bc_hash :: string
  bc_enabled :: bool
  bc_starts :: "gotime option"
  bc_ends :: "gotime option"
  bc_total :: int
  bc_used :: int

record benefitGrant =
  bg_id :: id
  bg_program :: id
  bg_owner :: id
  bg_available :: bool
  bg_expires :: "gotime option"
  bg_order :: "id option"

record redemption =
  br_program :: id
  br_code :: "id option"
  br_grant :: "id option"
  br_owner :: id
  br_order :: id
  br_discount :: int
  br_days :: int

datatype pcstatus = Processing | NeedsReview | Succeeded | Failed
datatype saga = Applying | Observing | Compensating | Settled | SagaCancelled
datatype fund = FundPending | FundReserved | FundBlocked | FundSettled | FundReleased

record planChange =
  pc_id :: id
  pc_instance :: id
  pc_owner :: id
  pc_sourcePlan :: id
  pc_targetPlan :: id
  pc_sourceCpu :: rat
  pc_sourceMem :: int
  pc_targetCpu :: rat
  pc_targetMem :: int
  pc_charge :: int
  pc_reservation :: int
  pc_refund :: int
  pc_status :: pcstatus
  pc_saga :: saga
  pc_fund :: fund
  pc_key :: taskkey
  pc_pendingEntry :: "id option"
  pc_settlementEntry :: "id option"
  pc_exchange :: "id option"
  pc_task :: "id option"
  pc_compTask :: "id option"
  pc_cancelAt :: "gotime option"
  pc_verify :: string
  pc_verifyError :: "string option"
  pc_observed :: "(rat \<times> int) option"
  pc_error :: "string option"
  pc_updatedAt :: gotime
  pc_completedAt :: "gotime option"

record exchange =
  ex_id :: id
  ex_instance :: id
  ex_owner :: id
  ex_target :: id
  ex_effective :: gotime
  ex_task :: id
  ex_status :: string
  ex_refund :: int
  ex_charge :: int
  ex_key :: taskkey

record exchangeItem =
  xi_exchange :: id
  xi_source :: id
  xi_start :: gotime
  xi_end :: gotime
  xi_refund :: int
  xi_charge :: int
  xi_bps :: int
  xi_months :: int
  xi_program :: "id option"
  xi_discount :: int
  xi_replacement :: "id option"

record settlement =
  rs_id :: id
  rs_instance :: id
  rs_owner :: id
  rs_order :: id
  rs_total :: int
  rs_ends :: gotime
  rs_purge :: gotime

record settlementItem =
  si_settlement :: id
  si_order :: id
  si_refund :: int
  si_entry :: "id option"

record agentOperation =
  ao_id :: id
  ao_task :: id
  ao_instance :: id
  ao_node :: id
  ao_action :: action
  ao_token :: "string option"
  ao_desired :: string
  ao_status :: agentstate
  ao_observed :: "string option"

record instanceOperation =
  op_task :: id
  op_instance :: id
  op_generation :: int
  op_kind :: action
  op_status :: string
  op_key :: taskkey

record condition =
  cd_instance :: id
  cd_type :: string
  cd_true :: bool
  cd_reason :: string
  cd_task :: id
  cd_generation :: int

datatype ticketStatus = TicketOpen | TicketInProgress | TicketClosed
datatype ticketPriority = NormalPriority | HighPriority | UrgentPriority

record ticket =
  tk_id :: id
  tk_owner :: id
  tk_category :: string
  tk_priority :: ticketPriority
  tk_subject :: string
  tk_instance :: "id option"
  tk_order :: "id option"
  tk_status :: ticketStatus
  tk_lastAdmin :: "id option"
  tk_closedAt :: "gotime option"
  tk_createdAt :: gotime
  tk_updatedAt :: gotime

record ticketMessage =
  tm_id :: id
  tm_ticket :: id
  tm_sender :: id
  tm_role :: string
  tm_body :: string
  tm_createdAt :: gotime

record cloudUser =
  u_id :: id
  u_hostAllowed :: bool

text \<open>The tables of the tunnel: enrolled devices with the hash of their credential, one-time enrollment
  tokens (by hash), browser authorisations, the routes of devices, and the readiness history of nodes.\<close>

datatype deviceStatus = DeviceEnabled | DeviceRevoked | RebindRequired

record device =
  dv_id :: id
  dv_owner :: id
  dv_key :: string
  dv_credential :: string
  dv_status :: deviceStatus
  dv_rebind :: bool
  dv_heartbeat :: "gotime option"

record enrollToken =
  et_id :: id
  et_owner :: id
  et_hash :: string
  et_node :: string
  et_expires :: gotime
  et_used :: "gotime option"
  et_revoked :: "gotime option"
  et_device :: "id option"

datatype authStatus = AuthPending | AuthApproved

record authorization =
  au_id :: id
  au_name :: string
  au_key :: string
  au_poll :: string
  au_status :: authStatus
  au_expires :: gotime
  au_owner :: "id option"
  au_device :: "id option"
  au_credential :: "string option"
  au_delivered :: "gotime option"

datatype routeStatus = RoutePaused | RouteEnabled | RouteDisabled

record tunnelRoute =
  tr_id :: id
  tr_owner :: id
  tr_device :: id
  tr_key :: string
  tr_status :: routeStatus

record readinessEvent =
  re_node :: id
  re_ready :: bool
  re_code :: string
  re_message :: string

text \<open>The logs: audit trail, task events and user notifications, without their display text.\<close>

record auditLog =
  al_actor :: id
  al_action :: string
  al_target :: id

record taskEvent =
  te_task :: id
  te_event :: string

record notification =
  nt_user :: id
  nt_kind :: string
  nt_ref :: id

section \<open>The database\<close>

record db =
  now :: gotime
  users :: "cloudUser list"
  plans :: "plan list"
  images :: "catalogImage list"
  imageVersions :: "imageVersion list"
  imagePulls :: "imagePull list"
  tiers :: "planPriceTier list"
  programs :: "benefitProgram list"
  codes :: "benefitCode list"
  grants :: "benefitGrant list"
  redemptions :: "redemption list"
  nodes :: "node list"
  devices :: "device list"
  enrollTokens :: "enrollToken list"
  authorizations :: "authorization list"
  tunnelRoutes :: "tunnelRoute list"
  readinessEvents :: "readinessEvent list"
  instances :: "inst list"
  tasks :: "controlTask list"
  orders :: "order list"
  payments :: "payment list"
  wallets :: "wallet list"
  walletEntries :: "walletEntry list"
  planChanges :: "planChange list"
  exchanges :: "exchange list"
  exchangeItems :: "exchangeItem list"
  settlements :: "settlement list"
  settlementItems :: "settlementItem list"
  agentOperations :: "agentOperation list"
  instanceOperations :: "instanceOperation list"
  conditions :: "condition list"
  tickets :: "ticket list"
  ticketMessages :: "ticketMessage list"
  notificationEvents :: "(id \<times> string) list"
  auditLogs :: "auditLog list"
  taskEvents :: "taskEvent list"
  notifications :: "notification list"

text \<open>Empty database and blank rows, from which concrete states are built by update.\<close>

definition emptyDb :: "gotime \<Rightarrow> db" where
  "emptyDb t = \<lparr>now = t, users = [], plans = [], images = [], imageVersions = [], imagePulls = [], tiers = [],
     programs = [], codes = [], grants = [], redemptions = [], nodes = [], devices = [],
     enrollTokens = [], authorizations = [], tunnelRoutes = [], readinessEvents = [],
     instances = [], tasks = [], orders = [], payments = [], wallets = [], walletEntries = [],
     planChanges = [], exchanges = [], exchangeItems = [], settlements = [],
     settlementItems = [], agentOperations = [], instanceOperations = [], conditions = [],
     tickets = [], ticketMessages = [], notificationEvents = [], auditLogs = [],
     taskEvents = [], notifications = []\<rparr>"

definition blankInst :: inst where
  "blankInst = \<lparr>i_id = [], i_owner = [], i_image = [], i_version = [], i_digest = None,
     i_status = Deploying, i_runtime = None, i_container = [], i_cpu = 1, i_memory = 1024,
     i_node = None, i_order = None, i_route = [], i_createdAt = 0, i_expires = None,
     i_destroyAt = None, i_destroyReason = None, i_destroyedAt = None, i_purgeAt = None,
     i_retentionDays = 0, i_archivedAt = None, i_activeTask = None, i_activeToken = None,
     i_activeExpires = None, i_generation = 0, i_resourceVersion = 1, i_hostEnabled = False,
     i_hostApplied = False, i_selfhosted = False, i_observed = None, i_desiredPower = [],
     i_recreateNonce = [], i_deletionIntent = None, i_specHash = None\<rparr>"

definition newTask :: "id \<Rightarrow> id \<Rightarrow> action \<Rightarrow> taskkey \<Rightarrow> gotime \<Rightarrow> gotime \<Rightarrow> controlTask" where
  "newTask tid iid act key runAfter t =
     \<lparr>t_id = tid, t_instance = iid, t_action = act, t_key = key, t_status = TaskPending,
      t_attempts = 0, t_lastError = None, t_runAfter = runAfter, t_createdAt = t,
      t_updatedAt = t, t_claimedAt = None, t_claimExpires = None, t_worker = None,
      t_token = None, t_heartbeat = None, t_recovery = 0, t_agentOp = None,
      t_agentState = None, t_generation = 0, t_payload = NoPayload, t_finishedAt = None\<rparr>"

definition blankOrder :: order where
  "blankOrder = \<lparr>o_id = [], o_owner = [], o_plan = [], o_image = [], o_instance = None,
     o_amount = 0, o_list = 0, o_discount = 0, o_status = OrderPending, o_source = None,
     o_walletEntry = None, o_renewal = None, o_node = None, o_selVersion = None,
     o_selDigest = None, o_start = None, o_expires = None, o_refundedAt = None,
     o_refundAmount = 0, o_refundEntry = None, o_replacement = False, o_exchange = None,
     o_replaces = None, o_program = None, o_bonusDays = 0, o_tier = None, o_createdAt = 0,
     o_updatedAt = 0\<rparr>"

section \<open>The tables satisfy the table interface\<close>

interpretation instTab: keyed_table instances instances_update i_id
  by unfold_locales (auto simp: comp_def)

interpretation taskTab: keyed_table tasks tasks_update t_id
  by unfold_locales (auto simp: comp_def)

interpretation orderTab: keyed_table orders orders_update o_id
  by unfold_locales (auto simp: comp_def)

interpretation walletTab: keyed_table wallets wallets_update w_user
  by unfold_locales (auto simp: comp_def)

interpretation changeTab: keyed_table planChanges planChanges_update pc_id
  by unfold_locales (auto simp: comp_def)

interpretation ticketTab: keyed_table tickets tickets_update tk_id
  by unfold_locales (auto simp: comp_def)

section \<open>Logging\<close>

definition writeAudit :: "id \<Rightarrow> string \<Rightarrow> id \<Rightarrow> db \<Rightarrow> db" where
  "writeAudit actor act target db =
     db\<lparr>auditLogs := auditLogs db @ [\<lparr>al_actor = actor, al_action = act, al_target = target\<rparr>]\<rparr>"

definition appendTaskEvent :: "id \<Rightarrow> string \<Rightarrow> db \<Rightarrow> db" where
  "appendTaskEvent tid event db =
     db\<lparr>taskEvents := taskEvents db @ [\<lparr>te_task = tid, te_event = event\<rparr>]\<rparr>"

definition createNotification :: "id \<Rightarrow> string \<Rightarrow> id \<Rightarrow> db \<Rightarrow> db" where
  "createNotification user kind ref db =
     db\<lparr>notifications := notifications db @ [\<lparr>nt_user = user, nt_kind = kind, nt_ref = ref\<rparr>]\<rparr>"

lemmas logdefs = writeAudit_def appendTaskEvent_def createNotification_def

lemma log_frame [simp]:
  "instances (writeAudit a b c db) = instances db" "tasks (writeAudit a b c db) = tasks db"
  "orders (writeAudit a b c db) = orders db" "wallets (writeAudit a b c db) = wallets db"
  "walletEntries (writeAudit a b c db) = walletEntries db" "now (writeAudit a b c db) = now db"
  "nodes (writeAudit a b c db) = nodes db" "planChanges (writeAudit a b c db) = planChanges db"
  "tickets (writeAudit a b c db) = tickets db" "payments (writeAudit a b c db) = payments db"
  "instances (appendTaskEvent x y db) = instances db" "tasks (appendTaskEvent x y db) = tasks db"
  "orders (appendTaskEvent x y db) = orders db" "wallets (appendTaskEvent x y db) = wallets db"
  "walletEntries (appendTaskEvent x y db) = walletEntries db" "now (appendTaskEvent x y db) = now db"
  "nodes (appendTaskEvent x y db) = nodes db" "planChanges (appendTaskEvent x y db) = planChanges db"
  "tickets (appendTaskEvent x y db) = tickets db" "payments (appendTaskEvent x y db) = payments db"
  "instances (createNotification u v w db) = instances db"
  "tasks (createNotification u v w db) = tasks db"
  "orders (createNotification u v w db) = orders db"
  "wallets (createNotification u v w db) = wallets db"
  "walletEntries (createNotification u v w db) = walletEntries db"
  "now (createNotification u v w db) = now db" "nodes (createNotification u v w db) = nodes db"
  "planChanges (createNotification u v w db) = planChanges db"
  "tickets (createNotification u v w db) = tickets db"
  "payments (createNotification u v w db) = payments db"
  by (simp_all add: logdefs)

section \<open>Inserting rows\<close>

text \<open>\<open>INSERT\<close> into the tables whose keys matter: the primary key, and for tasks the unique
  idempotency key, are checked by MySQL.\<close>

definition insertInst :: "inst \<Rightarrow> db \<Rightarrow> error + db" where
  "insertInst r db = (if i_id r \<in> i_id ` set (instances db) then Inl ErrDuplicate
     else Inr (db\<lparr>instances := instances db @ [r]\<rparr>))"

definition insertTask :: "controlTask \<Rightarrow> db \<Rightarrow> error + db" where
  "insertTask r db = (if t_id r \<in> t_id ` set (tasks db) \<or> t_key r \<in> t_key ` set (tasks db) then Inl ErrDuplicate
     else Inr (db\<lparr>tasks := tasks db @ [r]\<rparr>))"

definition insertOrder :: "order \<Rightarrow> db \<Rightarrow> error + db" where
  "insertOrder r db = (if o_id r \<in> o_id ` set (orders db) then Inl ErrDuplicate
     else Inr (db\<lparr>orders := orders db @ [r]\<rparr>))"

lemma insertInst_Inr: "insertInst r d = Inr d' \<longleftrightarrow>
    i_id r \<notin> i_id ` set (instances d) \<and> d' = d\<lparr>instances := instances d @ [r]\<rparr>"
  by (auto simp: insertInst_def)

lemma insertTask_Inr: "insertTask r d = Inr d' \<longleftrightarrow>
    t_id r \<notin> t_id ` set (tasks d) \<and> t_key r \<notin> t_key ` set (tasks d) \<and> d' = d\<lparr>tasks := tasks d @ [r]\<rparr>"
  by (auto simp: insertTask_def)

lemma insertOrder_Inr: "insertOrder r d = Inr d' \<longleftrightarrow>
    o_id r \<notin> o_id ` set (orders d) \<and> d' = d\<lparr>orders := orders d @ [r]\<rparr>"
  by (auto simp: insertOrder_def)

lemmas insertE = insertInst_Inr insertTask_Inr insertOrder_Inr

end
