(* ===== verification/Lifecycle.thy ===== *)
theory Lifecycle
  imports Schema
begin

text \<open>
  The instance state machine of \<open>control_plane.go\<close>: the table of legal transitions
  (\<open>canTransitionInstance\<close>) and the conditional update every lifecycle operation goes through
  (\<open>transitionInstance\<close>). The interface \<open>lifecycle_op\<close> states what an operation on the
  database must respect; the later theories interpret it on their operations.
\<close>

section \<open>The transition table\<close>

fun allowed :: "istatus \<Rightarrow> istatus list" where
  "allowed Deploying = [Running, DeploymentFailed]"
| "allowed DeploymentFailed = [Deploying, DestroyScheduled]"
| "allowed Running = [Stopped, DestroyScheduled]"
| "allowed Stopped = [Running, DestroyScheduled]"
| "allowed DestroyScheduled = [Running, Stopped, Destroyed]"
| "allowed Destroyed = [Purged]"
| "allowed _ = []"

definition canTransitionInstance :: "istatus \<Rightarrow> istatus \<Rightarrow> bool" where
  "canTransitionInstance src dst \<longleftrightarrow> (if src = dst then True else dst \<in> set (allowed src))"

text \<open>
  \<open>transitionInstance\<close>: refuse an empty list of expected states and any illegal edge, then
  one \<open>UPDATE ... WHERE id=? AND status IN (expected)\<close>. The optional runtime status and the
  extra assignments (\<open>extraSet\<close>, a function on the row) are applied together with the new
  status; the result is whether exactly one row changed.
\<close>

datatype transitionError = MissingState | Illegal istatus istatus

fun firstIllegal :: "istatus list \<Rightarrow> istatus \<Rightarrow> istatus option" where
  "firstIllegal [] nxt = None"
| "firstIllegal (c # cs) nxt = (if \<not> canTransitionInstance c nxt then Some c else firstIllegal cs nxt)"

definition transitionRow ::
  "istatus \<Rightarrow> istatus option \<Rightarrow> (inst \<Rightarrow> inst) \<Rightarrow> inst \<Rightarrow> inst" where
  "transitionRow nxt runtime extraSet r =
     (let r1 = r\<lparr>i_status := nxt\<rparr>;
          r2 = (case runtime of None \<Rightarrow> r1 | Some rt \<Rightarrow> r1\<lparr>i_runtime := Some rt\<rparr>)
      in extraSet r2)"

definition transitionInstance ::
  "id \<Rightarrow> istatus list \<Rightarrow> istatus \<Rightarrow> istatus option \<Rightarrow> (inst \<Rightarrow> inst) \<Rightarrow> db
     \<Rightarrow> transitionError + bool \<times> db" where
  "transitionInstance iid expected nxt runtime extraSet db =
     (if expected = [] then Inl MissingState
      else case firstIllegal expected nxt of
        Some current \<Rightarrow> Inl (Illegal current nxt)
      | None \<Rightarrow>
          let p = (\<lambda>r. i_id r = iid \<and> i_status r \<in> set expected);
              f = transitionRow nxt runtime extraSet
          in Inr (affected p f (instances db) = 1, db\<lparr>instances := update p f (instances db)\<rparr>))"

text \<open>Callers that ignore the error keep the database: the statement was never sent.\<close>

definition transitionOr :: "db \<Rightarrow> transitionError + bool \<times> db \<Rightarrow> db" where
  "transitionOr db r = (case r of Inl _ \<Rightarrow> db | Inr (_, db') \<Rightarrow> db')"

section \<open>The transition graph\<close>

lemma canTransition_refl [simp]: "canTransitionInstance s s"
  by (simp add: canTransitionInstance_def)

lemma firstIllegal_None: "firstIllegal cs n = None \<longleftrightarrow> (\<forall>c \<in> set cs. canTransitionInstance c n)"
  by (induction cs) auto

lemma firstIllegal_Some: "firstIllegal cs n = Some c \<Longrightarrow> c \<in> set cs \<and> \<not> canTransitionInstance c n"
  by (induction cs) (auto split: if_splits)

text \<open>Reachability in the graph; \<open>lifeStep\<close> is one proper edge.\<close>

inductive lifeStep :: "istatus \<Rightarrow> istatus \<Rightarrow> bool" where
  lifeStep: "canTransitionInstance a b \<Longrightarrow> a \<noteq> b \<Longrightarrow> lifeStep a b"

inductive_cases lifeStepE: "lifeStep a b"
inductive_simps lifeStep_simps:
  "lifeStep Deploying b" "lifeStep DeploymentFailed b" "lifeStep Running b" "lifeStep Stopped b"
  "lifeStep DestroyScheduled b" "lifeStep Destroyed b" "lifeStep Purged b"

lemma lifeStep_allowed: "lifeStep a b \<longleftrightarrow> b \<in> set (allowed a)"
  by (cases a; cases b) (auto simp: lifeStep.simps canTransitionInstance_def)

definition alive :: "istatus \<Rightarrow> bool" where
  "alive s \<longleftrightarrow> s \<in> {Deploying, DeploymentFailed, Running, Stopped, DestroyScheduled}"

lemma no_way_back:
  assumes "canTransitionInstance\<^sup>*\<^sup>* a b" and "\<not> alive a" shows "\<not> alive b"
  using assms
proof (induction rule: rtranclp_induct)
  case (step b c)
  then show ?case
    by (cases b; cases c) (auto simp: canTransitionInstance_def alive_def)
qed

lemma purged_final: "canTransitionInstance\<^sup>*\<^sup>* Purged b \<Longrightarrow> b = Purged"
  by (induction rule: rtranclp_induct) (auto simp: canTransitionInstance_def split: if_splits)

text \<open>Destruction is always announced: every path into \<open>Destroyed\<close> from a live state passes
  through \<open>DestroyScheduled\<close>.\<close>

lemma destroy_is_announced:
  assumes "canTransitionInstance a Destroyed" and "a \<noteq> Destroyed" shows "a = DestroyScheduled"
  using assms by (cases a) (auto simp: canTransitionInstance_def)

section \<open>What an operation on the database must respect\<close>

text \<open>
  \<open>statusPath d d'\<close>: every instance of \<open>d\<close> is still in \<open>d'\<close>, at the same position with
  the same key, and its status moved along a path of legal transitions.
\<close>

definition statusPath :: "db \<Rightarrow> db \<Rightarrow> bool" where
  "statusPath d d' \<longleftrightarrow>
     length (instances d) \<le> length (instances d') \<and>
     (\<forall>k < length (instances d).
        i_id (instances d' ! k) = i_id (instances d ! k) \<and>
        canTransitionInstance\<^sup>*\<^sup>* (i_status (instances d ! k)) (i_status (instances d' ! k)))"

lemma statusPath_refl [simp]: "statusPath d d"
  by (simp add: statusPath_def)

lemma statusPath_trans: "statusPath a b \<Longrightarrow> statusPath b c \<Longrightarrow> statusPath a c"
  unfolding statusPath_def by (metis (no_types, lifting) order.strict_trans2 order.trans rtranclp_trans)

lemma statusPath_same: "instances d' = instances d \<Longrightarrow> statusPath d d'"
  by (simp add: statusPath_def)

lemma statusPath_append: "instances d' = instances d @ xs \<Longrightarrow> statusPath d d'"
  by (simp add: statusPath_def nth_append)

lemma statusPath_update:
  assumes "instances d' = update p f (instances d)"
    and "\<And>r. p r \<Longrightarrow> i_id (f r) = i_id r"
    and "\<And>r. r \<in> set (instances d) \<Longrightarrow> p r \<Longrightarrow> canTransitionInstance (i_status r) (i_status (f r))"
  shows "statusPath d d'"
  using assms by (auto simp: statusPath_def update_def)

text \<open>The contract of a lifecycle operation, and what follows for any sequence of calls.\<close>

locale lifecycle_op =
  fixes step :: "'a \<Rightarrow> db \<Rightarrow> db"
  assumes path: "statusPath d (step a d)"
begin

lemma run_path: "statusPath d (fold step as d)"
  by (induction as arbitrary: d) (auto intro: statusPath_trans path)

lemma run_dead:
  assumes "k < length (instances d)" and "\<not> alive (i_status (instances d ! k))"
  shows "\<not> alive (i_status (instances (fold step as d) ! k))"
  using assms run_path [of d as] no_way_back unfolding statusPath_def by blast

lemma run_purged:
  assumes "k < length (instances d)" and "i_status (instances d ! k) = Purged"
  shows "i_status (instances (fold step as d) ! k) = Purged"
  using assms run_path [of d as] purged_final unfolding statusPath_def by metis

end

section \<open>transitionInstance\<close>

lemma transitionRow_sel [simp]:
  "i_id (transitionRow n rt (\<lambda>r. r) r) = i_id r"
  "i_status (transitionRow n rt (\<lambda>r. r) r) = n"
  by (simp_all add: transitionRow_def Let_def split: option.splits)

lemma transition_Inr:
  assumes "transitionInstance iid ex n rt f d = Inr (b, d')"
  shows "ex \<noteq> [] \<and> (\<forall>c \<in> set ex. canTransitionInstance c n) \<and>
    d' = d\<lparr>instances := update (\<lambda>r. i_id r = iid \<and> i_status r \<in> set ex) (transitionRow n rt f) (instances d)\<rparr> \<and>
    b = (affected (\<lambda>r. i_id r = iid \<and> i_status r \<in> set ex) (transitionRow n rt f) (instances d) = 1)"
  using assms
  by (auto simp: transitionInstance_def Let_def firstIllegal_None split: if_splits option.splits)

text \<open>The extra assignments of the callers never touch the key or the status.\<close>

definition frameSet :: "(inst \<Rightarrow> inst) \<Rightarrow> bool" where
  "frameSet f \<longleftrightarrow> (\<forall>r. i_id (f r) = i_id r \<and> i_status (f r) = i_status r)"

lemma frameSet_id [simp]: "frameSet (\<lambda>r. r)"
  by (simp add: frameSet_def)

lemma transitionRow_frame:
  "frameSet f \<Longrightarrow> i_id (transitionRow n rt f r) = i_id r \<and> i_status (transitionRow n rt f r) = n"
  by (simp add: transitionRow_def frameSet_def Let_def split: option.splits)

lemma transition_path:
  assumes "frameSet f" "transitionInstance iid ex n rt f d = Inr (b, d')"
  shows "statusPath d d'"
  using transition_Inr [OF assms(2)] transitionRow_frame [OF assms(1), of n rt]
  by (auto intro!: statusPath_update)

lemma transitionOr_path: "frameSet f \<Longrightarrow> statusPath d (transitionOr d (transitionInstance iid ex n rt f d))"
  by (auto simp: transitionOr_def transition_path split: sum.splits)

lemma transition_frame:
  assumes "transitionInstance iid ex n rt f d = Inr (b, d')"
  shows "tasks d' = tasks d" "orders d' = orders d" "wallets d' = wallets d"
    "walletEntries d' = walletEntries d" "now d' = now d" "planChanges d' = planChanges d"
    "nodes d' = nodes d"
  using transition_Inr [OF assms] by auto

interpretation transition_life: lifecycle_op
  "\<lambda>(iid, ex, n, rt) d. transitionOr d (transitionInstance iid ex n rt (\<lambda>r. r) d)"
  by unfold_locales (auto intro: transitionOr_path)

section \<open>Properties\<close>

text \<open>An illegal edge is refused before any statement is sent: if one of the expected
  states has no edge to the target, \<open>transitionInstance\<close> fails, naming such a state.\<close>

theorem transition_refuses_illegal:
  assumes "ex \<noteq> []" and "\<exists>c \<in> set ex. \<not> canTransitionInstance c n"
  shows "\<exists>c \<in> set ex. \<not> canTransitionInstance c n \<and> transitionInstance iid ex n rt f d = Inl (Illegal c n)"
proof -
  obtain c where "firstIllegal ex n = Some c"
    using assms(2) by (cases "firstIllegal ex n") (auto simp: firstIllegal_None)
  with assms(1) firstIllegal_Some show ?thesis by (fastforce simp: transitionInstance_def)
qed

theorem transition_refuses_illegal_witness:
  "\<exists>c \<in> set [Running, Purged]. \<not> canTransitionInstance c Stopped \<and>
     transitionInstance ''i'' [Running, Purged] Stopped None (\<lambda>r. r) (emptyDb 0) = Inl (Illegal c Stopped)"
  by (rule transition_refuses_illegal) (simp_all add: canTransitionInstance_def)

text \<open>The conditional update is exact: on a database with unique instance ids, a call for
  the instance \<open>r\<close> reports success exactly when its current status is one of the expected ones
  and the assignment changes the row; then \<open>r\<close> has the new status and the extra columns, and
  every other row is as before; when the status is not expected, nothing is written.\<close>

theorem transition_exact:
  assumes u: "instTab.unique d" and r: "r \<in> set (instances d)" and f: "frameSet f"
    and t: "transitionInstance (i_id r) ex n rt f d = Inr (b, d')"
  shows "(b \<longleftrightarrow> i_status r \<in> set ex \<and> transitionRow n rt f r \<noteq> r) \<and>
    (i_status r \<notin> set ex \<longrightarrow> d' = d) \<and>
    (\<forall>s \<in> set (instances d'). i_id s = i_id r \<longrightarrow>
       s = (if i_status r \<in> set ex then transitionRow n rt f r else r)) \<and>
    (\<forall>s. i_id s \<noteq> i_id r \<longrightarrow> (s \<in> set (instances d') \<longleftrightarrow> s \<in> set (instances d)))"
proof -
  define p :: "inst \<Rightarrow> bool" where "p = (\<lambda>s. i_id s = i_id r \<and> i_status s \<in> set ex)"
  define g :: "inst \<Rightarrow> inst" where "g = transitionRow n rt f"
  have kg: "i_id (g s) = i_id s" for s by (simp add: g_def transitionRow_frame [OF f])
  have d': "d' = instances_update (update p g) d" and b: "b = (affected p g (instances d) = 1)"
    using transition_Inr [OF t] by (simp_all add: p_def g_def)
  have "b \<longleftrightarrow> p r \<and> g r \<noteq> r"
    unfolding b by (rule instTab.affected_key [OF u r]) (simp add: p_def)
  moreover have "d' = d" if "i_status r \<notin> set ex"
  proof -
    have "update p g (instances d) = instances d"
      using that instTab.key_unique [OF u _ r] by (intro update_id) (auto simp: p_def)
    then show ?thesis by (simp add: d')
  qed
  moreover have "s = (if p r then g r else r)" if "s \<in> set (instances d')" "i_id s = i_id r" for s
    using instTab.row_after_update [OF u r kg, of s p] that by (simp add: d')
  moreover have "s \<in> set (instances d') \<longleftrightarrow> s \<in> set (instances d)" if "i_id s \<noteq> i_id r" for s
  proof -
    have "\<not> p s" "\<And>s0. p s0 \<Longrightarrow> g s0 \<noteq> s" using that kg by (auto simp: p_def)
    then show ?thesis by (auto simp: d' in_update split: if_splits)
  qed
  ultimately show ?thesis by (auto simp: p_def g_def)
qed

definition exampleRunning :: db where
  "exampleRunning = (emptyDb 0)\<lparr>instances := [blankInst\<lparr>i_id := ''a'', i_status := Running\<rparr>,
     blankInst\<lparr>i_id := ''b'', i_status := Destroyed\<rparr>]\<rparr>"

lemma exampleRunning_unique: "instTab.unique exampleRunning"
  by (simp add: instTab.unique_def exampleRunning_def emptyDb_def blankInst_def)

theorem transition_exact_witness:
  "\<exists>d'. transitionInstance ''a'' [Running, Stopped] DestroyScheduled None (\<lambda>r. r) exampleRunning = Inr (True, d')"
proof -
  let ?r = "blankInst\<lparr>i_id := ''a'', i_status := Running\<rparr>"
  obtain b d' where t: "transitionInstance (i_id ?r) [Running, Stopped] DestroyScheduled None (\<lambda>r. r)
      exampleRunning = Inr (b, d')"
    by (simp add: transitionInstance_def canTransitionInstance_def Let_def)
  have "?r \<in> set (instances exampleRunning)" by (simp add: exampleRunning_def)
  from transition_exact [OF exampleRunning_unique this frameSet_id t]
  have b by (auto simp: transitionRow_def blankInst_def)
  with t show ?thesis by simp
qed

text \<open>No resurrection: through any sequence of conditional updates, whatever the expected
  states and targets, an instance that was destroyed or purged never becomes live again, and a
  purged instance stays purged.\<close>

theorem no_resurrection:
  assumes "k < length (instances d)" and "\<not> alive (i_status (instances d ! k))"
  shows "\<not> alive (i_status (instances
      (fold (\<lambda>(iid, ex, n, rt) d. transitionOr d (transitionInstance iid ex n rt (\<lambda>r. r) d)) calls d) ! k)) \<and>
    (i_status (instances d ! k) = Purged \<longrightarrow> i_status (instances
      (fold (\<lambda>(iid, ex, n, rt) d. transitionOr d (transitionInstance iid ex n rt (\<lambda>r. r) d)) calls d) ! k) = Purged)"
  using assms by (auto dest: transition_life.run_dead transition_life.run_purged)

theorem no_resurrection_witness:
  "\<not> alive (i_status (instances
      (fold (\<lambda>(iid, ex, n, rt) d. transitionOr d (transitionInstance iid ex n rt (\<lambda>r. r) d))
         [(''b'', [Destroyed], Purged, None), (''b'', [Stopped], Running, None)] exampleRunning) ! 1))"
  using no_resurrection [of 1 exampleRunning "[(''b'', [Destroyed], Purged, None), (''b'', [Stopped], Running, None)]"]
  by (simp add: exampleRunning_def emptyDb_def alive_def)

end
