(* ===== verification/Pricing.thy ===== *)
theory Pricing
  imports Schema
begin

text \<open>
  The money arithmetic of \<open>plan_change.go\<close>, \<open>refund.go\<close> and \<open>commercial_benefits.go\<close>:
  prorating a paid amount over a service window, the fixed 30-day monthly rate, price tiers
  and the refund cut-off. Windows are Go times in nanoseconds; the \<open>int64\<close> products of the
  code are written with \<open>wrap64\<close>, so that what keeps them from overflowing is a theorem.
\<close>

section \<open>Prorating\<close>

text \<open>\<open>prorateFen\<close> of \<open>plan_change.go\<close>.\<close>

definition prorateFen :: "int \<Rightarrow> gotime \<Rightarrow> gotime \<Rightarrow> gotime \<Rightarrow> int" where
  "prorateFen amount totalStart totalEnd src =
     (if \<not> after totalEnd totalStart \<or> \<not> after totalEnd src then 0
      else let frm = (if before src totalStart then totalStart else src);
               totalSeconds = go_div (time_sub totalEnd totalStart) second;
               remainingSeconds = go_div (time_sub totalEnd frm) second
           in if amount \<le> 0 \<or> totalSeconds \<le> 0 \<or> remainingSeconds \<le> 0 then 0
              else go_div (wrap64 (amount * remainingSeconds)) totalSeconds)"

text \<open>\<open>prorateMonthlyFen\<close>: the fixed 30-day denominator.\<close>

definition monthSeconds :: int where "monthSeconds = 30 * 24 * 60 * 60"

definition prorateMonthlyFen :: "int \<Rightarrow> gotime \<Rightarrow> gotime \<Rightarrow> int" where
  "prorateMonthlyFen monthlyFen start end_at =
     (if monthlyFen \<le> 0 \<or> \<not> after end_at start then 0
      else let seconds = go_div (time_sub end_at start) second
           in if seconds \<le> 0 then 0 else go_div (wrap64 (monthlyFen * seconds)) monthSeconds)"

definition planChangeTierMonths :: "gotime \<Rightarrow> gotime \<Rightarrow> int" where
  "planChangeTierMonths start end_at =
     (let days = go_div (time_sub end_at start) (24 * hour)
      in if days \<ge> 360 then 12 else if days \<ge> 180 then 6 else if days \<ge> 90 then 3 else 1)"

definition planChangeOrderRefundFen :: "int \<Rightarrow> gotime \<Rightarrow> gotime \<Rightarrow> gotime \<Rightarrow> int" where
  "planChangeOrderRefundFen actualPaidFen start end_at t =
     (if actualPaidFen \<le> 0 \<or> \<not> after end_at start then 0 else prorateFen actualPaidFen start end_at t)"

text \<open>A quote is valid for at most five minutes; \<open>None\<close> is the zero time.\<close>

definition validPlanChangeQuoteExpiry :: "gotime option \<Rightarrow> gotime \<Rightarrow> bool" where
  "validPlanChangeQuoteExpiry expiresAt t =
     (case expiresAt of None \<Rightarrow> False
      | Some e \<Rightarrow> if \<not> after e t then False else \<not> after e (t + 5 * minute))"

section \<open>Price tiers\<close>

definition validSubscriptionMonths :: "int \<Rightarrow> bool" where
  "validSubscriptionMonths months \<longleftrightarrow> months = 1 \<or> months = 3 \<or> months = 6 \<or> months = 12"

text \<open>\<open>tierPrice\<close>: list price of a subscription and whether a tier applied, with its rate in
  basis points (10000 when there is none).\<close>

definition tierPrice :: "id \<Rightarrow> int \<Rightarrow> int \<Rightarrow> db \<Rightarrow> error + int \<times> bool \<times> int" where
  "tierPrice planID months monthly db =
     (case select (\<lambda>r. pt_plan r = planID \<and> pt_months r = months \<and> pt_enabled r) (tiers db) of
        None \<Rightarrow> Inr (monthly * months, False, 10000)
      | Some r \<Rightarrow>
          (let bps = pt_bps r
           in if bps < 0 \<or> bps > 10000 then Inl (Msg ''invalid tier discount'')
              else Inr (go_div (monthly * months * bps) 10000, True, bps)))"

text \<open>\<open>planChangeTargetRate\<close>: the longest tier the remaining period reaches.\<close>

definition planChangeTargetRate :: "id \<Rightarrow> int \<Rightarrow> gotime \<Rightarrow> gotime \<Rightarrow> db \<Rightarrow> error + int \<times> int" where
  "planChangeTargetRate planID monthly start end_at db =
     (if monthly < 0 then Inl (Msg ''invalid target price'')
      else let months = planChangeTierMonths start end_at in
        bindE (tierPrice planID months monthly db) (\<lambda>(_, _, bps).
          if bps < 0 \<or> bps > 10000 then Inl (Msg ''invalid target tier price'')
          else Inr (months, bps)))"

section \<open>The refund cut-off\<close>

text \<open>\<open>refundCutoffAt\<close> of \<open>refund.go\<close>: midnight, Asia/Shanghai (UTC+8), three calendar days
  after the day of the request.\<close>

definition refundPrepaidDays :: int where "refundPrepaidDays = 3"
definition refundRetentionDays :: int where "refundRetentionDays = 30"
definition refundDay :: duration where "refundDay = 24 * hour"

definition refundCutoffAt :: "gotime \<Rightarrow> gotime" where
  "refundCutoffAt t =
     (let zone = 8 * hour; localDay = (t + zone) div day
      in day * (localDay + refundPrepaidDays) - zone)"

section \<open>Lemmas\<close>

text \<open>Amounts and windows for which the \<open>int64\<close> products are exact: any price below ten
  billion fen and any window \<open>time.Duration\<close> can express below twenty-nine years.\<close>

definition priceOk :: "int \<Rightarrow> bool" where "priceOk a \<longleftrightarrow> 0 \<le> a \<and> a \<le> 10 ^ 10"
definition windowOk :: "gotime \<Rightarrow> gotime \<Rightarrow> bool" where
  "windowOk s e \<longleftrightarrow> s \<le> e \<and> e - s \<le> 900000000 * second"

lemma seconds_of:
  assumes "s \<le> e" shows "go_div (time_sub e s) second = time_sub e s div second"
  using assms by (simp add: go_div_nonneg time_sub_nonneg)

lemma seconds_bounds:
  assumes "s \<le> e"
  shows "0 \<le> time_sub e s div second" "time_sub e s div second \<le> (e - s) div second"
    "time_sub e s div second \<le> maxDuration"
proof -
  show "0 \<le> time_sub e s div second" using assms time_sub_nonneg by (simp add: pos_imp_zdiv_nonneg_iff)
  show "time_sub e s div second \<le> (e - s) div second" using assms time_sub_le by (simp add: zdiv_mono1)
  have "time_sub e s div second \<le> maxDuration div second"
    using time_sub_ub by (simp add: zdiv_mono1)
  also have "\<dots> \<le> maxDuration" by (simp add: maxDuration_def second_def)
  finally show "time_sub e s div second \<le> maxDuration" .
qed

lemma window_seconds:
  assumes "windowOk s e" shows "time_sub e s div second \<le> 900000000"
proof -
  have "time_sub e s div second \<le> (e - s) div second"
    using assms seconds_bounds by (simp add: windowOk_def)
  also have "\<dots> \<le> 900000000 * second div second"
    using assms by (intro zdiv_mono1) (auto simp: windowOk_def)
  finally show ?thesis by (simp add: second_def)
qed

lemma product_ok:
  assumes "priceOk a" "0 \<le> n" "n \<le> 900000000" shows "int64_ok (a * n)"
proof -
  have "a * n \<le> 10 ^ 10 * 900000000" using assms by (intro mult_mono) (auto simp: priceOk_def)
  moreover have "0 \<le> a * n" using assms by (simp add: priceOk_def)
  ultimately show ?thesis by (simp add: int64_ok_def)
qed

text \<open>Inside the safe ranges the code computes the exact quotient.\<close>

lemma prorate_exact:
  assumes a: "priceOk a" and w: "windowOk s e" and t: "t < e" and s: "s < e"
  shows "prorateFen a s e t =
    (let tot = time_sub e s div second; left = time_sub e (max s t) div second
     in if a \<le> 0 \<or> tot \<le> 0 \<or> left \<le> 0 then 0 else a * left div tot)"
proof -
  let ?f = "max s t"
  have f: "(if before t s then s else t) = ?f" by (auto simp: before_def)
  have "windowOk ?f e" using w t by (auto simp: windowOk_def)
  then have ok: "int64_ok (a * (time_sub e ?f div second))" if "0 < time_sub e ?f div second"
    using that product_ok [OF a] window_seconds by simp
  have fe: "?f \<le> e" using t s by simp
  show ?thesis
  proof (cases "a \<le> 0 \<or> time_sub e s div second \<le> 0 \<or> time_sub e ?f div second \<le> 0")
    case True
    then show ?thesis using t s fe
      by (auto simp: prorateFen_def after_def f Let_def seconds_of simp del: max_less_iff_conj)
  next
    case False
    then have "go_div (wrap64 (a * (time_sub e ?f div second))) (time_sub e s div second) =
        a * (time_sub e ?f div second) div (time_sub e s div second)"
      using ok by (simp add: wrap64_id go_div_nonneg)
    with False show ?thesis using t s fe
      by (auto simp: prorateFen_def after_def f Let_def seconds_of)
  qed
qed

lemma prorate_past: "e \<le> t \<Longrightarrow> prorateFen a s e t = 0"
  by (simp add: prorateFen_def after_def)

lemma prorate_bounds:
  assumes a: "priceOk a" and w: "windowOk s e"
  shows "0 \<le> prorateFen a s e t \<and> prorateFen a s e t \<le> a"
proof (cases "t < e \<and> s < e")
  case True
  let ?tot = "time_sub e s div second" and ?left = "time_sub e (max s t) div second"
  have le: "?left \<le> ?tot" by (intro zdiv_mono1 time_sub_mono) simp_all
  show ?thesis
  proof (cases "a \<le> 0 \<or> ?tot \<le> 0 \<or> ?left \<le> 0")
    case False
    have "a * ?left div ?tot \<le> a * ?tot div ?tot"
      using False by (intro zdiv_mono1 mult_left_mono [OF le]) auto
    moreover have "0 \<le> a * ?left" using False by (intro mult_nonneg_nonneg) auto
    then have "0 \<le> a * ?left div ?tot" using False by (simp add: pos_imp_zdiv_nonneg_iff)
    ultimately show ?thesis using True False by (simp add: prorate_exact [OF a w] Let_def)
  qed (use True a in \<open>auto simp: prorate_exact [OF a w] Let_def priceOk_def\<close>)
next
  case False
  then have "prorateFen a s e t = 0" by (auto simp: prorateFen_def after_def)
  then show ?thesis using a by (simp add: priceOk_def)
qed

lemma prorate_antimono:
  assumes a: "priceOk a" and w: "windowOk s e" and t: "t1 \<le> t2"
  shows "prorateFen a s e t2 \<le> prorateFen a s e t1"
proof (cases "t2 < e \<and> s < e")
  case True
  let ?tot = "time_sub e s div second" and ?l = "\<lambda>t. time_sub e (max s t) div second"
  have le: "?l t2 \<le> ?l t1" using t by (intro zdiv_mono1 time_sub_mono) auto
  have p1: "prorateFen a s e t1 = (if a \<le> 0 \<or> ?tot \<le> 0 \<or> ?l t1 \<le> 0 then 0 else a * ?l t1 div ?tot)"
    and p2: "prorateFen a s e t2 = (if a \<le> 0 \<or> ?tot \<le> 0 \<or> ?l t2 \<le> 0 then 0 else a * ?l t2 div ?tot)"
    using True t by (simp_all add: prorate_exact [OF a w] Let_def)
  show ?thesis
  proof (cases "a \<le> 0 \<or> ?tot \<le> 0 \<or> ?l t2 \<le> 0")
    case False
    then have "a * ?l t2 div ?tot \<le> a * ?l t1 div ?tot"
      using mult_left_mono [OF le, of a] by (simp add: zdiv_mono1)
    with False le show ?thesis by (auto simp: p1 p2)
  qed (use prorate_bounds [OF a w, of t1] p2 in auto)
next
  case False
  then have "prorateFen a s e t2 = 0" by (auto simp: prorateFen_def after_def)
  then show ?thesis using prorate_bounds [OF a w] by simp
qed

lemma prorate_full:
  assumes a: "priceOk a" and w: "windowOk s e" and l: "second \<le> e - s" and t: "t \<le> s"
  shows "prorateFen a s e t = a"
proof -
  have se: "s < e" "t < e" using l t time_units_pos(1) by linarith+
  have "second \<le> time_sub e s"
    using l by (auto simp: time_sub_def minDuration64_def maxDuration_def second_def)
  then have "0 < time_sub e s div second"
    using zdiv_mono1 [of second "time_sub e s" second] by (simp add: second_def)
  then show ?thesis
    using a t se by (simp add: prorate_exact [OF a w] Let_def max_absorb1 priceOk_def)
qed

lemma monthly_exact:
  assumes a: "priceOk a" and w: "windowOk s e" and "s < e"
  shows "prorateMonthlyFen a s e = a * (time_sub e s div second) div monthSeconds"
proof -
  let ?n = "time_sub e s div second"
  have n: "0 \<le> ?n" "?n \<le> 900000000" using w window_seconds seconds_bounds by (auto simp: windowOk_def)
  have "go_div (wrap64 (a * ?n)) monthSeconds = a * ?n div monthSeconds"
    using product_ok [OF a n] a n by (simp add: wrap64_id go_div_nonneg monthSeconds_def priceOk_def)
  moreover have "a = 0" if "a \<le> 0" using a that by (simp add: priceOk_def)
  moreover have "?n = 0" if "?n \<le> 0" using n that by simp
  ultimately show ?thesis using assms(3)
    by (auto simp: prorateMonthlyFen_def after_def seconds_of Let_def)
qed

lemma monthly_nonneg:
  assumes "priceOk a" and "windowOk s e"
  shows "0 \<le> prorateMonthlyFen a s e"
proof (cases "s < e")
  case True
  then show ?thesis using assms seconds_bounds(1) [of s e]
    by (simp add: monthly_exact priceOk_def monthSeconds_def pos_imp_zdiv_nonneg_iff)
qed (simp add: prorateMonthlyFen_def after_def)

lemma tierPrice_bounds:
  assumes "tierPrice pid months monthly d = Inr (lst, tiered, bps)" "0 \<le> monthly" "0 \<le> months"
  shows "0 \<le> lst \<and> lst \<le> monthly * months \<and> 0 \<le> bps \<and> bps \<le> 10000"
proof (cases "select (\<lambda>r. pt_plan r = pid \<and> pt_months r = months \<and> pt_enabled r) (tiers d)")
  case None
  then show ?thesis using assms by (auto simp: tierPrice_def)
next
  case (Some r)
  then have b: "0 \<le> pt_bps r" "pt_bps r \<le> 10000" "bps = pt_bps r"
    and l: "lst = go_div (monthly * months * pt_bps r) 10000"
    using assms by (auto simp: tierPrice_def Let_def split: if_splits)
  have "monthly * months * pt_bps r \<le> monthly * months * 10000"
    using b assms by (intro mult_left_mono) auto
  then have "monthly * months * pt_bps r div 10000 \<le> monthly * months" by simp
  moreover have "0 \<le> monthly * months * pt_bps r" using b assms by simp
  ultimately show ?thesis using b l by (simp add: go_div_nonneg pos_imp_zdiv_nonneg_iff)
qed

section \<open>Properties\<close>

text \<open>Prorating is sound: for a price of up to ten billion fen and a window of up to 28
  years the \<open>int64\<close> product does not overflow, so the credit is never negative and never more
  than what was paid, it does not grow as time passes, it is the whole amount before the window
  starts and nothing once it has ended.\<close>

theorem prorate_sound:
  assumes "priceOk a" and "windowOk s e"
  shows "0 \<le> prorateFen a s e t \<and> prorateFen a s e t \<le> a \<and>
    (t \<le> t' \<longrightarrow> prorateFen a s e t' \<le> prorateFen a s e t) \<and>
    (second \<le> e - s \<and> t \<le> s \<longrightarrow> prorateFen a s e t = a) \<and>
    (e \<le> t \<longrightarrow> prorateFen a s e t = 0)"
  using assms prorate_bounds prorate_antimono prorate_full prorate_past by blast

theorem prorate_sound_witness:
  "0 \<le> prorateFen 3000 0 (30 * day) (12 * day) \<and> prorateFen 3000 0 (30 * day) (12 * day) \<le> 3000 \<and>
   prorateFen 3000 0 (30 * day) 0 = 3000"
proof -
  have ok: "priceOk 3000" "windowOk 0 (30 * day)"
    by (simp_all add: priceOk_def windowOk_def time_units)
  show ?thesis
    using prorate_sound [OF ok, of "12 * day" 0] prorate_sound [OF ok, of 0 0]
    by (simp add: time_units)
qed

text \<open>The \<open>int64\<close> guard matters: outside that range the product of \<open>prorateFen\<close> wraps, and
  a paid amount can be prorated to a negative credit.\<close>

theorem prorate_overflow:
  "prorateFen (10 ^ 12) 0 (365 * day) 0 < 0"
  by (simp add: prorateFen_def after_def before_def time_sub_def time_units maxDuration_def
      minDuration64_def go_div_def Let_def wrap64_def signed_take_bit_int_eq_self_iff)

text \<open>The refund cut-off is a local midnight more than two and at most three days ahead,
  whatever the time of day of the request: the request day and the two following calendar days
  stay in service.\<close>

theorem refund_cutoff:
  "(refundCutoffAt t + 8 * hour) mod day = 0 \<and>
   t + 2 * day < refundCutoffAt t \<and> refundCutoffAt t \<le> t + 3 * day"
proof -
  define l where "l = t + 8 * hour"
  define q where "q = day * (l div day)"
  have l: "l = q + l mod day" "0 \<le> l mod day" "l mod day < day" by (simp_all add: q_def)
  have c: "refundCutoffAt t = q + 3 * day - 8 * hour"
    by (simp add: refundCutoffAt_def Let_def refundPrepaidDays_def q_def l_def algebra_simps)
  have "(refundCutoffAt t + 8 * hour) mod day = 0" by (simp add: c q_def)
  moreover have "l + 2 * day < q + 3 * day" "q + 3 * day \<le> l + 3 * day" using l by linarith+
  ultimately show ?thesis by (simp add: c l_def)
qed

text \<open>A price tier never raises the price and never makes it negative, and its rate is a
  share of at most 10000 basis points, for purchases and for package changes.\<close>

theorem tier_price_bounded:
  assumes "tierPrice pid months monthly d = Inr (lst, tiered, bps)" "0 \<le> monthly" "0 \<le> months"
  shows "0 \<le> lst \<and> lst \<le> monthly * months \<and> 0 \<le> bps \<and> bps \<le> 10000"
  using assms by (rule tierPrice_bounds)

theorem tier_price_bounded_witness:
  "\<exists>lst tiered bps. tierPrice ''p'' 12 3000 ((emptyDb 0)\<lparr>tiers := [\<lparr>pt_plan = ''p'',
     pt_months = 12, pt_bps = 8000, pt_enabled = True\<rparr>]\<rparr>) = Inr (lst, tiered, bps) \<and>
     lst \<le> 3000 * 12 \<and> lst = 28800"
proof -
  let ?d = "(emptyDb 0)\<lparr>tiers := [\<lparr>pt_plan = ''p'', pt_months = 12, pt_bps = 8000, pt_enabled = True\<rparr>]\<rparr>"
  have t: "tierPrice ''p'' 12 3000 ?d = Inr (28800, True, 8000)"
    by (simp add: tierPrice_def Let_def go_div_def)
  show ?thesis using t tier_price_bounded [OF t] by auto
qed

end
