(* ===== verification/Wallet.thy ===== *)
theory Wallet
  imports Schema
begin

text \<open>
  XCoin wallets and their ledger (\<open>platform_upgrade.go\<close>). A wallet row holds the balance; every
  change of it comes with a \<open>xcloud_wallet_entries\<close> row. The statements the settlement code uses
  (\<open>setBalance\<close>, \<open>addBalance\<close>, \<open>insertEntry\<close>) are followed by the invariant
  \<open>ledgerOk\<close> (balances are the sums of their entries and never negative) and by the contract
  \<open>wallet_op\<close> that the purchase, refund and plan-change transactions are shown to meet.
\<close>

section \<open>Statements\<close>

definition walletOf :: "id \<Rightarrow> db \<Rightarrow> int option" where
  "walletOf user db = map_option w_balance (select (\<lambda>w. w_user w = user) (wallets db))"

definition setBalance :: "id \<Rightarrow> int \<Rightarrow> db \<Rightarrow> db" where
  "setBalance user b db =
     db\<lparr>wallets := update (\<lambda>w. w_user w = user) (\<lambda>w. w\<lparr>w_balance := b\<rparr>) (wallets db)\<rparr>"

definition addBalance :: "id \<Rightarrow> int \<Rightarrow> db \<Rightarrow> db" where
  "addBalance user delta db =
     db\<lparr>wallets := update (\<lambda>w. w_user w = user) (\<lambda>w. w\<lparr>w_balance := w_balance w + delta\<rparr>) (wallets db)\<rparr>"

text \<open>\<open>business_key\<close> is a unique key: a second entry with the same key is refused.\<close>

definition insertEntry :: "walletEntry \<Rightarrow> db \<Rightarrow> error + db" where
  "insertEntry e db =
     (if we_key e \<noteq> None \<and> we_key e \<in> we_key ` set (walletEntries db) then Inl ErrDuplicate
      else Inr (db\<lparr>walletEntries := walletEntries db @ [e]\<rparr>))"

text \<open>\<open>syncCloudUser\<close>: the first login creates an empty wallet.\<close>

definition syncCloudUser :: "id \<Rightarrow> db \<Rightarrow> db" where
  "syncCloudUser user db =
     (let db1 = (if select (\<lambda>u. u_id u = user) (users db) = None
                 then db\<lparr>users := users db @ [\<lparr>u_id = user, u_hostAllowed = False\<rparr>]\<rparr> else db)
      in if walletOf user db1 = None
         then db1\<lparr>wallets := wallets db1 @ [\<lparr>w_user = user, w_balance = 0\<rparr>]\<rparr> else db1)"

text \<open>\<open>adjustWallet\<close>: a manual credit or debit by an administrator.\<close>

definition adjustWallet :: "id \<Rightarrow> id \<Rightarrow> int \<Rightarrow> id \<Rightarrow> db \<Rightarrow> error + walletEntry \<times> db" where
  "adjustWallet wid userID amount actor db =
     (if amount = 0 then Inl (Msg ''amount must not be zero'')
      else bindE (orElse (walletOf userID db) (Msg ''user has no wallet'')) (\<lambda>balance.
        let nxt = balance + amount in
        if nxt < 0 then Inl (Msg ''insufficient balance'')
        else
          let entry = \<lparr>we_id = wid, we_user = userID, we_amount = amount, we_after = nxt,
                we_type = (if amount > 0 then ManualCredit else ManualDebit), we_actor = actor,
                we_order = None, we_change = None, we_key = None, we_createdAt = now db\<rparr>
          in bindE (insertEntry entry (setBalance userID nxt db)) (\<lambda>db1.
             Inr (entry, createNotification userID ''wallet'' wid db1))))"

section \<open>The ledger invariant\<close>

definition entrySum :: "id \<Rightarrow> db \<Rightarrow> int" where
  "entrySum user db = sumRows (\<lambda>e. we_user e = user) we_amount (walletEntries db)"

definition ledgerOk :: "db \<Rightarrow> bool" where
  "ledgerOk db \<longleftrightarrow> walletTab.unique db \<and>
     (\<forall>w \<in> set (wallets db). 0 \<le> w_balance w \<and> w_balance w = entrySum (w_user w) db)"

text \<open>While a transaction runs, one wallet may be off by the entries already written:
  \<open>drift user x\<close> says that its entries exceed its balance by \<open>x\<close> and every other wallet is
  settled.\<close>

definition drift :: "id \<Rightarrow> int \<Rightarrow> int \<Rightarrow> db \<Rightarrow> bool" where
  "drift user b x db \<longleftrightarrow> walletTab.unique db \<and> walletOf user db = Some b \<and>
     entrySum user db = b + x \<and>
     (\<forall>w \<in> set (wallets db). w_user w \<noteq> user \<longrightarrow> 0 \<le> w_balance w \<and> w_balance w = entrySum (w_user w) db)"

lemma walletOf_SomeD:
  "walletOf u d = Some b \<Longrightarrow> \<exists>w \<in> set (wallets d). w_user w = u \<and> w_balance w = b"
  by (auto simp: walletOf_def dest: select_SomeD)

lemma walletOf_unique:
  "walletTab.unique d \<Longrightarrow> w \<in> set (wallets d) \<Longrightarrow> walletOf (w_user w) d = Some (w_balance w)"
  by (simp add: walletOf_def walletTab.select_key)

lemma ledger_drift: "ledgerOk d \<Longrightarrow> walletOf u d = Some b \<Longrightarrow> drift u b 0 d"
  by (auto simp: ledgerOk_def drift_def dest: walletOf_SomeD)

lemma ledger_balance: "ledgerOk d \<Longrightarrow> walletOf u d = Some b \<Longrightarrow> 0 \<le> b"
  by (auto simp: ledgerOk_def dest: walletOf_SomeD)

lemma drift_ledger:
  assumes d: "drift u b 0 d" and b: "0 \<le> b" shows "ledgerOk d"
  unfolding ledgerOk_def
proof (intro conjI ballI)
  show "walletTab.unique d" using d by (simp add: drift_def)
  fix w assume w: "w \<in> set (wallets d)"
  then have "walletOf (w_user w) d = Some (w_balance w)"
    using d walletOf_unique by (simp add: drift_def)
  then show "0 \<le> w_balance w" "w_balance w = entrySum (w_user w) d"
    using d b w by (cases "w_user w = u"; auto simp: drift_def)+
qed

lemma select_update_key:
  "(\<And>w. k (f w) = k w) \<Longrightarrow> select (\<lambda>w. k w = u) (update (\<lambda>w. k w = u) f t)
    = map_option f (select (\<lambda>w. k w = u) t)"
  by (induction t) auto

lemma drift_set:
  assumes "drift u b x d" shows "drift u (b + y) (x - y) (setBalance u (b + y) d)"
proof -
  have "walletOf u (setBalance u (b + y) d) = Some (b + y)"
    using assms by (auto simp: drift_def walletOf_def setBalance_def select_update_key)
  moreover have "walletTab.unique (setBalance u (b + y) d)"
    using assms by (auto simp: drift_def setBalance_def intro: walletTab.unique_rows_update)
  ultimately show ?thesis
    using assms by (auto simp: drift_def setBalance_def entrySum_def in_update split: if_splits)
qed

lemma drift_add:
  assumes "drift u b x d" shows "drift u (b + y) (x - y) (addBalance u y d)"
proof -
  have "walletOf u (addBalance u y d) = Some (b + y)"
    using assms by (auto simp: drift_def walletOf_def addBalance_def select_update_key)
  moreover have "walletTab.unique (addBalance u y d)"
    using assms by (auto simp: drift_def addBalance_def intro: walletTab.unique_rows_update)
  ultimately show ?thesis
    using assms by (auto simp: drift_def addBalance_def entrySum_def in_update split: if_splits)
qed

lemma drift_entry:
  assumes "drift u b x d" "insertEntry e d = Inr d'" "we_user e = u"
  shows "drift u b (x + we_amount e) d'"
  using assms
  by (auto simp: drift_def insertEntry_def walletOf_def entrySum_def walletTab.unique_def split: if_splits)

lemma drift_frame:
  assumes "wallets d' = wallets d" "walletEntries d' = walletEntries d"
  shows "drift u b x d' = drift u b x d"
  using assms by (simp add: drift_def walletOf_def entrySum_def walletTab.unique_def)

lemma ledger_frame:
  assumes "wallets d' = wallets d" "walletEntries d' = walletEntries d"
  shows "ledgerOk d' = ledgerOk d"
  using assms by (simp add: ledgerOk_def entrySum_def walletTab.unique_def)

lemma drift_debit:
  assumes "drift u b x d" "insertEntry e (setBalance u (b + we_amount e) d) = Inr d'" "we_user e = u"
  shows "drift u (b + we_amount e) x d'"
  using drift_entry [OF drift_set [OF assms(1)] assms(2,3)] by simp

lemma insertEntry_frame:
  assumes "insertEntry e d = Inr d'"
  shows "wallets d' = wallets d" "instances d' = instances d" "orders d' = orders d"
    "tasks d' = tasks d" "now d' = now d" "planChanges d' = planChanges d"
    "exchangeItems d' = exchangeItems d" "walletEntries d' = walletEntries d @ [e]"
  using assms by (auto simp: insertEntry_def split: if_splits)

lemma balance_frame [simp]:
  "instances (setBalance u b d) = instances d" "orders (setBalance u b d) = orders d"
  "tasks (setBalance u b d) = tasks d" "now (setBalance u b d) = now d"
  "planChanges (setBalance u b d) = planChanges d" "walletEntries (setBalance u b d) = walletEntries d"
  "instances (addBalance u b d) = instances d" "orders (addBalance u b d) = orders d"
  "tasks (addBalance u b d) = tasks d" "now (addBalance u b d) = now d"
  "planChanges (addBalance u b d) = planChanges d" "walletEntries (addBalance u b d) = walletEntries d"
  by (simp_all add: setBalance_def addBalance_def)

section \<open>The contract of a wallet transaction\<close>

definition commitOr :: "db \<Rightarrow> error + db \<Rightarrow> db" where
  "commitOr db r = (case r of Inl _ \<Rightarrow> db | Inr db' \<Rightarrow> db')"

locale wallet_op =
  fixes tx :: "'a \<Rightarrow> db \<Rightarrow> error + db"
  assumes keeps_ledger: "ledgerOk d \<Longrightarrow> tx a d = Inr d' \<Longrightarrow> ledgerOk d'"
begin

lemma step_ledger: "ledgerOk d \<Longrightarrow> ledgerOk (commitOr d (tx a d))"
  by (auto simp: commitOr_def keeps_ledger split: sum.splits)

lemma run_ledger: "ledgerOk d \<Longrightarrow> ledgerOk (fold (\<lambda>a d. commitOr d (tx a d)) as d)"
  by (induction as arbitrary: d) (auto simp: step_ledger)

text \<open>No balance ever goes below zero, at any point of any history.\<close>

lemma run_nonneg:
  "ledgerOk d \<Longrightarrow> walletOf u (fold (\<lambda>a d. commitOr d (tx a d)) as d) = Some b \<Longrightarrow> 0 \<le> b"
  using run_ledger ledger_balance by blast

end

lemma adjust_ledger:
  assumes "ledgerOk d" "adjustWallet wid u amount actor d = Inr (e, d')"
  shows "ledgerOk d'"
proof -
  obtain b d1 where b: "walletOf u d = Some b" "0 \<le> b + amount"
    and e: "we_user e = u" "we_amount e = amount"
    and i: "insertEntry e (setBalance u (b + we_amount e) d) = Inr d1"
    and d': "d' = createNotification u ''wallet'' wid d1"
    using assms(2) by (auto simp: adjustWallet_def resultE Let_def split: if_splits)
  have "drift u (b + amount) 0 d1"
    using drift_debit [OF ledger_drift [OF assms(1) b(1)] i e(1)] e by simp
  then have "ledgerOk d1" using b(2) by (rule drift_ledger)
  then show ?thesis using ledger_frame [of d' d1] by (simp add: d')
qed

interpretation adjust: wallet_op
  "\<lambda>(wid, u, amount, actor) d. bindE (adjustWallet wid u amount actor d) (\<lambda>(e, d'). Inr d')"
  by unfold_locales (auto simp: resultE dest: adjust_ledger)

lemma sync_ledger:
  assumes "ledgerOk d" and "\<forall>e \<in> set (walletEntries d). walletOf (we_user e) d \<noteq> None"
  shows "ledgerOk (syncCloudUser u d)"
proof (cases "walletOf u d")
  case None
  then have "\<forall>e \<in> set (walletEntries d). we_user e \<noteq> u" using assms(2) by auto
  then have "filter (\<lambda>e. we_user e = u) (walletEntries d) = []" by (simp add: filter_empty_conv)
  then have "entrySum u d = 0" by (simp add: entrySum_def sumRows_def)
  with None assms(1) show ?thesis
    by (auto simp: syncCloudUser_def Let_def ledgerOk_def walletOf_def entrySum_def
        walletTab.unique_def select_None)
next
  case (Some b)
  then have "wallets (syncCloudUser u d) = wallets d" "walletEntries (syncCloudUser u d) = walletEntries d"
    by (auto simp: syncCloudUser_def Let_def walletOf_def)
  then show ?thesis using assms(1) ledger_frame by blast
qed

section \<open>Properties\<close>

text \<open>A manual adjustment is exact: it fails for a zero amount, for a user without a wallet
  and for a debit below zero; otherwise the balance moves by the amount, the entry written records
  the amount and the balance after it, its type follows the sign, and no other wallet changes.\<close>

theorem adjust_exact:
  assumes "walletTab.unique d"
  shows "(case adjustWallet wid u amount actor d of
      Inl _ \<Rightarrow> amount = 0 \<or> walletOf u d = None \<or> (\<exists>b. walletOf u d = Some b \<and> b + amount < 0)
    | Inr (e, d') \<Rightarrow> \<exists>b. walletOf u d = Some b \<and> walletOf u d' = Some (b + amount) \<and> 0 \<le> b + amount \<and>
        we_amount e = amount \<and> we_after e = b + amount \<and>
        (we_type e = ManualCredit \<longleftrightarrow> 0 < amount) \<and> walletEntries d' = walletEntries d @ [e] \<and>
        (\<forall>v. v \<noteq> u \<longrightarrow> walletOf v d' = walletOf v d))"
proof (cases "adjustWallet wid u amount actor d")
  case (Inl e)
  then show ?thesis
    by (cases "walletOf u d") (auto simp: adjustWallet_def Let_def insertEntry_def split: if_splits)
next
  case (Inr x)
  then obtain e d' b where x: "x = (e, d')" and b: "walletOf u d = Some b" "0 \<le> b + amount"
    by (cases x) (auto simp: adjustWallet_def resultE Let_def split: if_splits)
  have other: "select (\<lambda>w. w_user w = v) (update (\<lambda>w. w_user w = u) f t) = select (\<lambda>w. w_user w = v) t"
    if "v \<noteq> u" "\<And>w. w_user (f w) = w_user w" for v f and t :: "wallet list"
    using that by (induction t) auto
  show ?thesis using Inr b
    by (auto simp: x adjustWallet_def insertEntry_def setBalance_def createNotification_def Let_def
        walletOf_def select_update_key other split: if_splits)
qed

theorem adjust_exact_witness:
  "\<exists>e d'. adjustWallet ''wal_1'' ''u'' (-40) ''admin''
      ((emptyDb 0)\<lparr>wallets := [\<lparr>w_user = ''u'', w_balance = 100\<rparr>]\<rparr>) = Inr (e, d') \<and>
    walletOf ''u'' d' = Some 60 \<and> we_after e = 60"
proof -
  let ?d = "(emptyDb 0)\<lparr>wallets := [\<lparr>w_user = ''u'', w_balance = 100\<rparr>]\<rparr>"
  have u: "walletTab.unique ?d" by (simp add: walletTab.unique_def)
  obtain e d' where r: "adjustWallet ''wal_1'' ''u'' (-40) ''admin'' ?d = Inr (e, d')"
    by (simp add: adjustWallet_def walletOf_def insertEntry_def Let_def emptyDb_def)
  show ?thesis using adjust_exact [OF u, where wid = "''wal_1''" and u = "''u''" and amount = "-40" and actor = "''admin''"] r
    by (simp add: walletOf_def)
qed

text \<open>Manual adjustments keep the ledger: after any sequence of them, failed ones included,
  every balance is the sum of the entries of its user and is not negative.\<close>

theorem adjustments_keep_ledger:
  assumes "ledgerOk d"
  shows "ledgerOk (fold (\<lambda>(wid, u, amount, actor) d. commitOr d
      (bindE (adjustWallet wid u amount actor d) (\<lambda>(e, d'). Inr d'))) calls d)"
  using adjust.run_ledger [OF assms, of calls] by (simp add: case_prod_unfold)

theorem adjustments_keep_ledger_witness:
  "ledgerOk (fold (\<lambda>(wid, u, amount, actor) d. commitOr d
      (bindE (adjustWallet wid u amount actor d) (\<lambda>(e, d'). Inr d')))
      [(''w1'', ''u'', 500, ''a''), (''w2'', ''u'', -700, ''a'')]
      ((emptyDb 0)\<lparr>wallets := [\<lparr>w_user = ''u'', w_balance = 0\<rparr>]\<rparr>))"
  by (rule adjustments_keep_ledger)
     (simp add: ledgerOk_def walletTab.unique_def entrySum_def emptyDb_def)

end
