(* ===== verification/Benefits.thy ===== *)
theory Benefits
  imports Pricing Wallet "HOL-Library.Product_Lexorder"
begin

text \<open>
  Benefit programs (\<open>commercial_benefits.go\<close>, \<open>commercial_benefit_handlers.go\<close>): which program
  applies to an order, the quote it gives, and the consumption of its budgets inside the
  settlement transaction. The keyed hash of promotion codes (SHA-256 with a secret of the
  deployment) is the parameter \<open>hash\<close>. The columns of the one code row a program has
  (\<open>LEFT JOIN xcloud_benefit_codes\<close>) that the quote reads are part of \<open>benefitProgram\<close>.
\<close>

section \<open>Codes and program validation\<close>

definition normalizeBenefitCode :: "string \<Rightarrow> string" where
  "normalizeBenefitCode value = toUpper (filter (\<lambda>c. c \<noteq> CHR '' '') (trimSpace value))"

definition benefitCodeMask :: "string \<Rightarrow> string" where
  "benefitCodeMask value =
     (let v = normalizeBenefitCode value
      in if length v \<le> 4 then ''****''
         else take 2 v @ replicate (length v - 4) CHR ''*'' @ drop (length v - 2) v)"

definition benefitCodeHash :: "(string \<Rightarrow> string) \<Rightarrow> string \<Rightarrow> string" where
  "benefitCodeHash hash value = hash (normalizeBenefitCode value)"

text \<open>The form an administrator submits, before validation.\<close>

record programForm =
  pf_id :: id
  pf_name :: string
  pf_goal :: string
  pf_status :: string
  pf_trigger :: string
  pf_audience :: string
  pf_scope :: string
  pf_type :: string
  pf_value :: int
  pf_minAmount :: int
  pf_perUser :: int
  pf_total :: int
  pf_cash :: int
  pf_days :: int
  pf_starts :: "gotime option"
  pf_ends :: "gotime option"
  pf_code :: string

definition oneOf :: "string \<Rightarrow> string list \<Rightarrow> bool" where
  "oneOf value values \<longleftrightarrow> value \<in> set values"

definition validBenefitProgram :: "programForm \<Rightarrow> error + unit" where
  "validBenefitProgram v =
     (let name = trimSpace (pf_name v) in
      guardE (name \<noteq> [] \<and> length name \<le> 128) (Msg ''name length'')
      (guardE (oneOf (pf_goal v) [''first_purchase'', ''multi_month'', ''renewal_recovery'', ''channel'']) (Msg ''goal'')
      (guardE (oneOf (pf_status v) [''draft'', ''scheduled'', ''active'', ''paused'', ''ended'']) (Msg ''status'')
      (guardE (oneOf (pf_trigger v) [''automatic'', ''promo_code'', ''targeted'']) (Msg ''trigger'')
      (guardE (oneOf (pf_audience v) [''all'', ''first_paid'', ''first_plan'', ''expiring'', ''lapsed'', ''targeted'']) (Msg ''audience'')
      (guardE (oneOf (pf_scope v) [''purchase'', ''renewal'', ''both'']) (Msg ''scope'')
      (guardE (oneOf (pf_type v) [''fixed_discount'', ''percent_discount'', ''bonus_days'']) (Msg ''type'')
      (guardE (\<not> (pf_value v \<le> 0 \<or> pf_type v = ''percent_discount'' \<and> pf_value v > 10000)) (Msg ''value'')
      (guardE (\<not> (pf_minAmount v < 0 \<or> pf_perUser v < 0 \<or> pf_total v < 0 \<or> pf_cash v < 0 \<or> pf_days v < 0)) (Msg ''limits'')
      (guardE (\<not> someAnd (\<lambda>e. someAnd (\<lambda>s. \<not> after e s) (pf_starts v)) (pf_ends v)) (Msg ''window'')
      (guardE (\<not> (pf_trigger v = ''promo_code'' \<and> normalizeBenefitCode (pf_code v) = [] \<and> pf_id v = [])) (Msg ''code'')
      (Inr ()))))))))))))"

section \<open>Eligibility and quotes\<close>

definition benefitDiscount :: "benefitProgram \<Rightarrow> int \<Rightarrow> int \<times> int" where
  "benefitDiscount p listAmount =
     (let (discount, days) = (case bp_type p of
            FixedDiscount \<Rightarrow> (bp_value p, 0)
          | PercentDiscount \<Rightarrow> (go_div (listAmount * bp_value p) 10000, 0)
          | BonusDays \<Rightarrow> (0, bp_value p))
      in (if discount > listAmount then listAmount else discount, days))"

text \<open>\<open>containsString\<close> and \<open>containsMonth\<close>: an empty list does not restrict.\<close>

definition containsItem :: "'a list \<Rightarrow> 'a \<Rightarrow> bool" where
  "containsItem items value \<longleftrightarrow> (if items = [] then True else value \<in> set items)"

definition paidOrder :: "order \<Rightarrow> bool" where
  "paidOrder r \<longleftrightarrow> sqlEq (o_source r) (Some ''wallet'') \<and> o_status r \<notin> {OrderCancel, OrderReject}"

definition grantRow :: "benefitProgram \<Rightarrow> id \<Rightarrow> db \<Rightarrow> benefitGrant option" where
  "grantRow p ownerID db = select (\<lambda>g. bg_program g = bp_id p \<and> bg_owner g = ownerID \<and>
     bg_available g \<and> noneOr (\<lambda>e. now db < e) (bg_expires g)) (grants db)"

text \<open>\<open>programEligible\<close>; the result is the pair of the verdict and the grant it would use.\<close>

definition programEligible ::
  "benefitProgram \<Rightarrow> id \<Rightarrow> scope \<Rightarrow> id \<Rightarrow> id \<Rightarrow> int \<Rightarrow> int \<Rightarrow> db \<Rightarrow> bool \<times> id option" where
  "programEligible p ownerID scope0 planID renewalInstanceID months listAmount db =
     (let scope = (if scope0 = PlanChangeScope then PurchaseScope else scope0);
          (discount, days) = benefitDiscount p listAmount
      in if (bp_status p \<noteq> Active \<and> bp_status p \<noteq> Scheduled) \<or>
            (bp_scope p \<noteq> BothScopes \<and> bp_scope p \<noteq> scope) \<or>
            someAnd (\<lambda>s. before (now db) s) (bp_starts p) \<or>
            someAnd (\<lambda>e. \<not> before (now db) e) (bp_ends p) \<or>
            listAmount < bp_minAmount p \<or> \<not> containsItem (bp_plans p) planID \<or>
            \<not> containsItem (bp_months p) months \<or> (bp_total p > 0 \<and> bp_used p \<ge> bp_total p)
         then (False, None)
         else if (bp_cashBudget p > 0 \<and> bp_cashSpent p + discount > bp_cashBudget p) \<or>
                 (bp_daysLimit p > 0 \<and> bp_daysUsed p + days > bp_daysLimit p)
         then (False, None)
         else if bp_perUser p > 0 \<and>
              int (countRows (\<lambda>r. br_program r = bp_id p \<and> br_owner r = ownerID) (redemptions db)) \<ge> bp_perUser p
         then (False, None)
         else if bp_audience p = FirstPaid \<and>
              countRows (\<lambda>r. o_owner r = ownerID \<and> paidOrder r) (orders db) > 0
         then (False, None)
         else if bp_audience p = FirstPlan \<and>
              countRows (\<lambda>r. o_owner r = ownerID \<and> o_plan r = planID \<and> paidOrder r) (orders db) > 0
         then (False, None)
         else if bp_audience p = Expiring \<and> (renewalInstanceID = [] \<or>
              countRows (\<lambda>i. i_id i = renewalInstanceID \<and> i_owner i = ownerID \<and>
                someAnd (\<lambda>e. now db < e \<and> e \<le> now db + 7 * day) (i_expires i)) (instances db) = 0)
         then (False, None)
         else if bp_audience p = Lapsed \<and> (renewalInstanceID = [] \<or>
              countRows (\<lambda>i. i_id i = renewalInstanceID \<and> i_owner i = ownerID \<and>
                someAnd (\<lambda>e. e \<le> now db) (i_expires i)) (instances db) = 0)
         then (False, None)
         else if bp_trigger p = Targeted \<or> bp_audience p = TargetedUsers
         then (case grantRow p ownerID db of None \<Rightarrow> (False, None) | Some g \<Rightarrow> (True, Some (bg_id g)))
         else (True, None))"

record benefitQuote =
  q_list :: int
  q_discount :: int
  q_amount :: int
  q_bonus :: int
  q_tierMonths :: int
  q_tierBps :: int
  q_program :: "benefitProgram option"
  q_code :: "id option"
  q_grant :: "id option"

definition plainQuote :: "int \<Rightarrow> int \<Rightarrow> int \<Rightarrow> benefitQuote" where
  "plainQuote listAmount tierMonths tierBps =
     \<lparr>q_list = listAmount, q_discount = 0, q_amount = listAmount, q_bonus = 0,
      q_tierMonths = tierMonths, q_tierBps = tierBps, q_program = None, q_code = None, q_grant = None\<rparr>"

text \<open>The programs the quote considers, in the order of the query.\<close>

definition activePrograms :: "db \<Rightarrow> benefitProgram list" where
  "activePrograms db = sort_key (\<lambda>p. (- bp_priority p, bp_createdAt p))
     (filter (\<lambda>p. bp_status p = Active \<or> bp_status p = Scheduled) (programs db))"

definition codeRow :: "(string \<Rightarrow> string) \<Rightarrow> string \<Rightarrow> benefitProgram \<Rightarrow> db \<Rightarrow> benefitCode option" where
  "codeRow hash promo p db = select (\<lambda>c. bc_program c = bp_id p \<and> bc_hash c = benefitCodeHash hash promo \<and>
     bc_enabled c \<and> noneOr (\<lambda>s. s \<le> now db) (bc_starts c) \<and> noneOr (\<lambda>e. now db < e) (bc_ends c)) (codes db)"

text \<open>The first promotion program with a valid code row.\<close>

fun matchCode :: "(string \<Rightarrow> string) \<Rightarrow> string \<Rightarrow> db \<Rightarrow> benefitProgram list \<Rightarrow> (benefitProgram \<times> id) option" where
  "matchCode hash promo db [] = None"
| "matchCode hash promo db (p # ps) =
     (if bp_trigger p \<noteq> PromoCode then matchCode hash promo db ps
      else case codeRow hash promo p db of Some c \<Rightarrow> Some (p, bc_id c) | None \<Rightarrow> matchCode hash promo db ps)"

definition withProgram :: "benefitProgram \<Rightarrow> id option \<Rightarrow> id option \<Rightarrow> benefitQuote \<Rightarrow> benefitQuote" where
  "withProgram p codeID grantID q =
     (let (discount, days) = benefitDiscount p (q_list q)
      in q\<lparr>q_program := Some p, q_code := codeID, q_grant := grantID, q_discount := discount,
            q_bonus := days, q_amount := q_list q - discount\<rparr>)"

text \<open>The automatic candidates, in the order of the query, and the stable sort by priority and
  then by discount.\<close>

definition candidates ::
  "id \<Rightarrow> scope \<Rightarrow> id \<Rightarrow> id \<Rightarrow> int \<Rightarrow> int \<Rightarrow> db \<Rightarrow> (benefitProgram \<times> id option) list" where
  "candidates ownerID scope planID renewalInstanceID months listAmount db =
     map (\<lambda>p. (p, snd (programEligible p ownerID scope planID renewalInstanceID months listAmount db)))
       (filter (\<lambda>p. \<not> (bp_trigger p = PromoCode \<or>
                 (scope = PlanChangeScope \<and> (bp_trigger p \<noteq> Automatic \<or> bp_type p = BonusDays))) \<and>
               fst (programEligible p ownerID scope planID renewalInstanceID months listAmount db))
         (activePrograms db))"

definition bestKey :: "int \<Rightarrow> benefitProgram \<Rightarrow> int \<times> int" where
  "bestKey listAmount p = (- bp_priority p, - fst (benefitDiscount p listAmount))"

definition quoteCommercialBenefit ::
  "(string \<Rightarrow> string) \<Rightarrow> id \<Rightarrow> scope \<Rightarrow> id \<Rightarrow> id \<Rightarrow> int \<Rightarrow> int \<Rightarrow> string \<Rightarrow> db \<Rightarrow> error + benefitQuote" where
  "quoteCommercialBenefit hash ownerID scope planID renewalInstanceID months monthly promoCode db =
     bindE (tierPrice planID months monthly db) (\<lambda>(listAmount, tiered, bps).
       let q = plainQuote listAmount (if tiered then months else 0) (if tiered then bps else 0);
           promo = normalizeBenefitCode promoCode
       in if promo \<noteq> []
          then case matchCode hash promo db (activePrograms db) of
              None \<Rightarrow> Inl (Msg ''promotion code invalid'')
            | Some (p, codeID) \<Rightarrow>
                (case programEligible p ownerID scope planID renewalInstanceID months listAmount db of
                   (False, _) \<Rightarrow> Inl (Msg ''promotion code does not apply'')
                 | (True, grantID) \<Rightarrow> Inr (withProgram p (Some codeID) grantID q))
          else case sort_key (\<lambda>m. bestKey listAmount (fst m))
                 (candidates ownerID scope planID renewalInstanceID months listAmount db) of
              [] \<Rightarrow> Inr q
            | (p, grantID) # _ \<Rightarrow> Inr (withProgram p None grantID q))"

section \<open>Consumption\<close>

definition snapshotTier :: "benefitQuote \<Rightarrow> int \<times> int \<times> int" where
  "snapshotTier q = (q_tierMonths q, q_list q, if q_tierBps q = 0 then 10000 else q_tierBps q)"

text \<open>Window condition of the two guarded updates.\<close>

definition windowOpen :: "gotime option \<Rightarrow> gotime option \<Rightarrow> gotime \<Rightarrow> bool" where
  "windowOpen starts ends t \<longleftrightarrow> noneOr (\<lambda>s. s \<le> t) starts \<and> noneOr (\<lambda>e. t < e) ends"

definition budgetRow :: "benefitQuote \<Rightarrow> benefitProgram \<Rightarrow> db \<Rightarrow> benefitProgram \<Rightarrow> bool" where
  "budgetRow q p db r \<longleftrightarrow> bp_id r = bp_id p \<and> (bp_status r = Active \<or> bp_status r = Scheduled) \<and>
     windowOpen (bp_starts r) (bp_ends r) (now db) \<and> (bp_total r = 0 \<or> bp_used r < bp_total r) \<and>
     (bp_cashBudget r = 0 \<or> bp_cashSpent r + q_discount q \<le> bp_cashBudget r) \<and>
     (bp_daysLimit r = 0 \<or> bp_daysUsed r + q_bonus q \<le> bp_daysLimit r)"

definition spend :: "benefitQuote \<Rightarrow> benefitProgram \<Rightarrow> benefitProgram" where
  "spend q r = r\<lparr>bp_used := bp_used r + 1, bp_cashSpent := bp_cashSpent r + q_discount q,
     bp_daysUsed := bp_daysUsed r + q_bonus q\<rparr>"

definition consumeCode :: "id \<Rightarrow> benefitProgram \<Rightarrow> benefitQuote \<Rightarrow> db \<Rightarrow> error + db" where
  "consumeCode ownerID p q db =
     (case q_code q of None \<Rightarrow> Inr db
      | Some cid \<Rightarrow>
          (let pr = (\<lambda>c. bc_id c = cid \<and> bc_enabled c \<and> windowOpen (bc_starts c) (bc_ends c) (now db) \<and>
                       (bc_total c = 0 \<or> bc_used c < bc_total c));
               f = (\<lambda>c. c\<lparr>bc_used := bc_used c + 1\<rparr>)
           in guardE (\<not> (bp_codePerUser p > 0 \<and>
                 int (countRows (\<lambda>r. sqlEq (br_code r) (Some cid) \<and> br_owner r = ownerID) (redemptions db))
                   \<ge> bp_codePerUser p)) (Msg ''code used up by user'')
              (guardE (affected pr f (codes db) = 1) (Msg ''code exhausted'')
                 (Inr (db\<lparr>codes := update pr f (codes db)\<rparr>)))))"

definition consumeGrant :: "id \<Rightarrow> id \<Rightarrow> benefitQuote \<Rightarrow> db \<Rightarrow> error + db" where
  "consumeGrant ownerID orderID q db =
     (case q_grant q of None \<Rightarrow> Inr db
      | Some gid \<Rightarrow>
          (let pr = (\<lambda>g. bg_id g = gid \<and> bg_owner g = ownerID \<and> bg_available g);
               f = (\<lambda>g. g\<lparr>bg_available := False, bg_order := Some orderID\<rparr>)
           in guardE (affected pr f (grants db) = 1) (Msg ''grant no longer valid'')
                (Inr (db\<lparr>grants := update pr f (grants db)\<rparr>))))"

definition setOrder :: "id \<Rightarrow> (order \<Rightarrow> order) \<Rightarrow> db \<Rightarrow> db" where
  "setOrder orderID f db = db\<lparr>orders := update (\<lambda>r. o_id r = orderID) f (orders db)\<rparr>"

definition consumeCommercialBenefitTx :: "id \<Rightarrow> id \<Rightarrow> benefitQuote \<Rightarrow> db \<Rightarrow> error + db" where
  "consumeCommercialBenefitTx ownerID orderID q db =
     (case q_program q of
        None \<Rightarrow> Inr (setOrder orderID (\<lambda>r. r\<lparr>o_tier := Some (snapshotTier q)\<rparr>) db)
      | Some p \<Rightarrow>
          guardE (\<not> (bp_perUser p > 0 \<and>
              int (countRows (\<lambda>r. br_program r = bp_id p \<and> br_owner r = ownerID) (redemptions db)) \<ge> bp_perUser p))
            (Msg ''benefit used up by user'')
          (guardE (affected (budgetRow q p db) (spend q) (programs db) = 1) (Msg ''benefit paused or exhausted'')
          (bindE (consumeCode ownerID p q (db\<lparr>programs := update (budgetRow q p db) (spend q) (programs db)\<rparr>)) (\<lambda>db1.
           bindE (consumeGrant ownerID orderID q db1) (\<lambda>db2.
           guardE (orderID \<notin> br_order ` set (redemptions db2)) ErrDuplicate
             (Inr (setOrder orderID
                (\<lambda>r. r\<lparr>o_program := Some (bp_id p), o_tier := Some (snapshotTier q), o_bonusDays := q_bonus q\<rparr>)
                (db2\<lparr>redemptions := redemptions db2 @ [\<lparr>br_program = bp_id p, br_code = q_code q,
                   br_grant = q_grant q, br_owner = ownerID, br_order = orderID,
                   br_discount = q_discount q, br_days = q_bonus q\<rparr>]\<rparr>))))))))"

definition consumePlanChangeAutomaticBenefitTx ::
  "id \<Rightarrow> id \<Rightarrow> id option \<Rightarrow> benefitQuote \<Rightarrow> db \<Rightarrow> error + db" where
  "consumePlanChangeAutomaticBenefitTx ownerID orderID programID q db =
     (case programID of
        None \<Rightarrow> consumeCommercialBenefitTx ownerID orderID
                  (plainQuote (q_list q) (q_tierMonths q) (q_tierBps q)) db
      | Some pid \<Rightarrow>
          (case select (\<lambda>p. bp_id p = pid) (programs db) of
             None \<Rightarrow> Inl (Msg ''plan change benefit is gone'')
           | Some p \<Rightarrow>
               if bp_trigger p \<noteq> Automatic \<or> bp_type p = BonusDays \<or>
                  (bp_scope p \<noteq> PurchaseScope \<and> bp_scope p \<noteq> BothScopes)
               then Inl (Msg ''plan change benefit has changed'')
               else consumeCommercialBenefitTx ownerID orderID (q\<lparr>q_program := Some p, q_bonus := 0\<rparr>) db))"

section \<open>Targeted grants\<close>

text \<open>The handlers \<open>adminGrantBenefit\<close> (insert ignoring the pairs already granted) and
  \<open>adminVoidBenefitGrant\<close>.\<close>

fun grantOwners :: "(nat \<Rightarrow> id) \<Rightarrow> id \<Rightarrow> gotime option \<Rightarrow> string list \<Rightarrow> db \<Rightarrow> db" where
  "grantOwners fresh programID expires [] db = db"
| "grantOwners fresh programID expires (u # us) db =
     (let ownerID = trimSpace u in
      if ownerID = [] \<or> countRows (\<lambda>g. bg_program g = programID \<and> bg_owner g = ownerID) (grants db) > 0
      then grantOwners fresh programID expires us db
      else grantOwners fresh programID expires us
        (db\<lparr>grants := grants db @ [\<lparr>bg_id = fresh (length (grants db)), bg_program = programID,
           bg_owner = ownerID, bg_available = True, bg_expires = expires, bg_order = None\<rparr>]\<rparr>))"

definition adminGrantBenefit ::
  "(nat \<Rightarrow> id) \<Rightarrow> id \<Rightarrow> id \<Rightarrow> gotime option \<Rightarrow> string list \<Rightarrow> db \<Rightarrow> error + db" where
  "adminGrantBenefit fresh actor programID expires owners db =
     (if owners = [] then Inl (Msg ''no users'')
      else case select (\<lambda>p. bp_id p = programID) (programs db) of
        None \<Rightarrow> Inl (Msg ''no such program'')
      | Some p \<Rightarrow> if bp_trigger p \<noteq> Targeted then Inl (Msg ''program is not targeted'')
                  else Inr (writeAudit actor ''benefit.grant'' programID
                              (grantOwners fresh programID expires owners db)))"

definition adminVoidBenefitGrant :: "id \<Rightarrow> id \<Rightarrow> id \<Rightarrow> db \<Rightarrow> error + db" where
  "adminVoidBenefitGrant actor programID grantID db =
     (let pr = (\<lambda>g. bg_id g = grantID \<and> bg_program g = programID \<and> bg_available g);
          f = (\<lambda>g. g\<lparr>bg_available := False\<rparr>)
      in if affected pr f (grants db) \<noteq> 1 then Inl (Msg ''grant used or missing'')
         else Inr (writeAudit actor ''benefit.grant.void'' grantID (db\<lparr>grants := update pr f (grants db)\<rparr>)))"

section \<open>Lemmas\<close>

interpretation programTab: keyed_table programs programs_update bp_id
  by unfold_locales (auto simp: comp_def)

interpretation grantTab: keyed_table grants grants_update bg_id
  by unfold_locales (auto simp: comp_def)

lemma discount_bounds:
  assumes "0 \<le> l" "0 \<le> bp_value p"
  shows "0 \<le> fst (benefitDiscount p l)" "fst (benefitDiscount p l) \<le> l" "0 \<le> snd (benefitDiscount p l)"
    "fst (benefitDiscount p l) = 0 \<or> snd (benefitDiscount p l) = 0"
  using assms by (auto simp: benefitDiscount_def Let_def go_div_nonneg pos_imp_zdiv_nonneg_iff
      split: benefitType.splits)

lemma active_in: "p \<in> set (activePrograms db) \<longleftrightarrow>
    p \<in> set (programs db) \<and> (bp_status p = Active \<or> bp_status p = Scheduled)"
  by (auto simp: activePrograms_def)

lemma matchCode_in: "matchCode h promo db ps = Some (p, c) \<Longrightarrow> p \<in> set ps"
  by (induction ps) (auto split: if_splits option.splits)

lemma withProgram_sel [simp]:
  "q_list (withProgram p c g q) = q_list q" "q_program (withProgram p c g q) = Some p"
  "q_discount (withProgram p c g q) = fst (benefitDiscount p (q_list q))"
  "q_bonus (withProgram p c g q) = snd (benefitDiscount p (q_list q))"
  "q_amount (withProgram p c g q) = q_list q - fst (benefitDiscount p (q_list q))"
  by (simp_all add: withProgram_def case_prod_unfold Let_def)

lemma plainQuote_sel [simp]:
  "q_list (plainQuote l m k) = l" "q_program (plainQuote l m k) = None"
  by (simp_all add: plainQuote_def)

text \<open>How a quote arises: from no program, or from an eligible active one.\<close>

lemma quote_cases:
  assumes "quoteCommercialBenefit h u sc pl ins months monthly promo db = Inr q"
  obtains l t b where "tierPrice pl months monthly db = Inr (l, t, b)"
      "q = plainQuote l (if t then months else 0) (if t then b else 0)"
    | l t b p c g where "tierPrice pl months monthly db = Inr (l, t, b)"
      "q = withProgram p c g (plainQuote l (if t then months else 0) (if t then b else 0))"
      "p \<in> set (activePrograms db)" "fst (programEligible p u sc pl ins months l db)"
proof -
  obtain l t b where tp: "tierPrice pl months monthly db = Inr (l, t, b)"
    using assms by (auto simp: quoteCommercialBenefit_def bindE_Inr_iff)
  show ?thesis
  proof (cases "normalizeBenefitCode promo = []")
    case True
    show ?thesis
    proof (cases "sort_key (\<lambda>m. bestKey l (fst m)) (candidates u sc pl ins months l db)")
      case Nil
      then show ?thesis using that(1) [OF tp] assms True
        by (simp add: quoteCommercialBenefit_def tp Let_def)
    next
      case (Cons m ms)
      then have "m \<in> set (candidates u sc pl ins months l db)"
        by (metis list.set_intros(1) set_sort)
      then obtain p where m: "m = (p, snd (programEligible p u sc pl ins months l db))"
        "p \<in> set (activePrograms db)" "fst (programEligible p u sc pl ins months l db)"
        by (auto simp: candidates_def)
      have "q = withProgram p None (snd m) (plainQuote l (if t then months else 0) (if t then b else 0))"
        using assms True Cons by (simp add: quoteCommercialBenefit_def tp Let_def m(1))
      then show ?thesis using that(2) [OF tp] m(2,3) by blast
    qed
  next
    case False
    then show ?thesis using that(2) [OF tp] assms
      by (auto simp: quoteCommercialBenefit_def tp Let_def split: option.splits prod.splits bool.splits
          dest!: matchCode_in)
  qed
qed

lemma tierPrice_nonneg:
  "tierPrice pl months monthly db = Inr (l, t, b) \<Longrightarrow> 0 \<le> months \<Longrightarrow> 0 \<le> monthly \<Longrightarrow> 0 \<le> l"
  by (auto simp: tierPrice_def Let_def go_div_nonneg pos_imp_zdiv_nonneg_iff
      split: option.splits if_splits)

section \<open>Budgets\<close>

text \<open>No program has given more than its limits (0 is unlimited).\<close>

definition withinBudget :: "benefitProgram \<Rightarrow> bool" where
  "withinBudget p \<longleftrightarrow> (bp_total p = 0 \<or> bp_used p \<le> bp_total p) \<and>
     (bp_cashBudget p = 0 \<or> bp_cashSpent p \<le> bp_cashBudget p) \<and>
     (bp_daysLimit p = 0 \<or> bp_daysUsed p \<le> bp_daysLimit p)"

definition budgetsOk :: "db \<Rightarrow> bool" where
  "budgetsOk db \<longleftrightarrow> (\<forall>p \<in> set (programs db). withinBudget p)"

text \<open>The contract of a transaction that may consume benefits: budgets stay within their limits
  and no money moves.\<close>

locale benefit_tx =
  fixes tx :: "'a \<Rightarrow> db \<Rightarrow> error + db"
  assumes keeps_budgets: "budgetsOk d \<Longrightarrow> tx a d = Inr d' \<Longrightarrow> budgetsOk d'"
    and no_money: "tx a d = Inr d' \<Longrightarrow> wallets d' = wallets d \<and> walletEntries d' = walletEntries d"
    and no_instances: "tx a d = Inr d' \<Longrightarrow> instances d' = instances d"
begin

lemma run_budgets: "budgetsOk d \<Longrightarrow> budgetsOk (fold (\<lambda>a d. commitOr d (tx a d)) as d)"
  by (induction as arbitrary: d) (auto simp: commitOr_def keeps_budgets split: sum.splits)

lemma run_ledger: "ledgerOk d \<Longrightarrow> ledgerOk (fold (\<lambda>a d. commitOr d (tx a d)) as d)"
proof (induction as arbitrary: d)
  case (Cons a as)
  have "ledgerOk (commitOr d (tx a d))"
  proof (cases "tx a d")
    case (Inr d')
    then have "ledgerOk d' = ledgerOk d" by (intro ledger_frame) (simp_all add: no_money)
    then show ?thesis using Inr Cons.prems by (simp add: commitOr_def)
  qed (simp add: commitOr_def Cons.prems)
  then show ?case using Cons.IH by simp
qed simp

end

lemma spend_changes: "spend q r \<noteq> r"
proof
  assume "spend q r = r"
  then have "bp_used (spend q r) = bp_used r" by simp
  then show False by (simp add: spend_def)
qed

lemma spend_budget: "budgetRow q p db r \<Longrightarrow> withinBudget (spend q r)"
  by (auto simp: budgetRow_def withinBudget_def spend_def)

lemma budgets_update:
  assumes "budgetsOk d" shows "\<forall>p \<in> set (update (budgetRow q p0 d) (spend q) (programs d)). withinBudget p"
  using assms spend_budget by (auto simp: budgetsOk_def in_update)

text \<open>A consumption, statement by statement.\<close>

lemma consumeCode_frame:
  assumes "consumeCode u p q d = Inr d'"
  shows "programs d' = programs d \<and> wallets d' = wallets d \<and> walletEntries d' = walletEntries d \<and>
    instances d' = instances d \<and> grants d' = grants d \<and> redemptions d' = redemptions d \<and>
    orders d' = orders d \<and> now d' = now d \<and> tasks d' = tasks d \<and> planChanges d' = planChanges d \<and>
    exchangeItems d' = exchangeItems d"
  using assms by (auto simp: consumeCode_def Let_def guardE_Inr_iff split: option.splits)

lemma consumeGrant_frame:
  assumes "consumeGrant u ord q d = Inr d'"
  shows "programs d' = programs d \<and> wallets d' = wallets d \<and> walletEntries d' = walletEntries d \<and>
    instances d' = instances d \<and> redemptions d' = redemptions d \<and> orders d' = orders d \<and>
    now d' = now d \<and> tasks d' = tasks d \<and> planChanges d' = planChanges d \<and>
    exchangeItems d' = exchangeItems d"
  using assms by (auto simp: consumeGrant_def Let_def guardE_Inr_iff split: option.splits)

lemma consume_cases:
  assumes "consumeCommercialBenefitTx u ord q d = Inr d'"
  obtains "q_program q = None" "d' = setOrder ord (\<lambda>r. r\<lparr>o_tier := Some (snapshotTier q)\<rparr>) d"
    | p d1 d2 where "q_program q = Some p"
      "affected (budgetRow q p d) (spend q) (programs d) = 1"
      "bp_perUser p > 0 \<Longrightarrow>
         int (countRows (\<lambda>r. br_program r = bp_id p \<and> br_owner r = u) (redemptions d)) < bp_perUser p"
      "consumeCode u p q (d\<lparr>programs := update (budgetRow q p d) (spend q) (programs d)\<rparr>) = Inr d1"
      "consumeGrant u ord q d1 = Inr d2" "ord \<notin> br_order ` set (redemptions d2)"
      "d' = setOrder ord
         (\<lambda>r. r\<lparr>o_program := Some (bp_id p), o_tier := Some (snapshotTier q), o_bonusDays := q_bonus q\<rparr>)
         (d2\<lparr>redemptions := redemptions d2 @ [\<lparr>br_program = bp_id p, br_code = q_code q,
            br_grant = q_grant q, br_owner = u, br_order = ord, br_discount = q_discount q,
            br_days = q_bonus q\<rparr>]\<rparr>)"
proof (cases "q_program q")
  case None
  then show ?thesis using assms that(1) by (simp add: consumeCommercialBenefitTx_def)
next
  case (Some p)
  then show ?thesis using assms that(2)
    by (fastforce simp: consumeCommercialBenefitTx_def resultE not_less)
qed

lemma consume_budgets:
  assumes b: "budgetsOk d" and c: "consumeCommercialBenefitTx u ord q d = Inr d'"
  shows "budgetsOk d'"
proof (rule consume_cases [OF c])
  fix p d1 d2
  assume "consumeCode u p q (d\<lparr>programs := update (budgetRow q p d) (spend q) (programs d)\<rparr>) = Inr d1"
    "consumeGrant u ord q d1 = Inr d2" and d': "d' = setOrder ord
         (\<lambda>r. r\<lparr>o_program := Some (bp_id p), o_tier := Some (snapshotTier q), o_bonusDays := q_bonus q\<rparr>)
         (d2\<lparr>redemptions := redemptions d2 @ [\<lparr>br_program = bp_id p, br_code = q_code q,
            br_grant = q_grant q, br_owner = u, br_order = ord, br_discount = q_discount q,
            br_days = q_bonus q\<rparr>]\<rparr>)"
  then have "programs d' = update (budgetRow q p d) (spend q) (programs d)"
    by (auto simp: setOrder_def dest!: consumeCode_frame consumeGrant_frame)
  then show ?thesis using budgets_update [OF b] by (simp add: budgetsOk_def)
qed (use b in \<open>simp add: budgetsOk_def setOrder_def\<close>)

text \<open>Consumption touches orders, programs, codes, grants and redemptions only.\<close>

lemma consume_frame_all:
  assumes c: "consumeCommercialBenefitTx u ord q d = Inr d'"
  shows "wallets d' = wallets d \<and> walletEntries d' = walletEntries d \<and> instances d' = instances d \<and>
    now d' = now d \<and> tasks d' = tasks d \<and> planChanges d' = planChanges d \<and> exchangeItems d' = exchangeItems d"
proof (rule consume_cases [OF c])
  fix p d1 d2
  assume c1: "consumeCode u p q (d\<lparr>programs := update (budgetRow q p d) (spend q) (programs d)\<rparr>) = Inr d1"
    and c2: "consumeGrant u ord q d1 = Inr d2"
    and d': "d' = setOrder ord
         (\<lambda>r. r\<lparr>o_program := Some (bp_id p), o_tier := Some (snapshotTier q), o_bonusDays := q_bonus q\<rparr>)
         (d2\<lparr>redemptions := redemptions d2 @ [\<lparr>br_program = bp_id p, br_code = q_code q,
            br_grant = q_grant q, br_owner = u, br_order = ord, br_discount = q_discount q,
            br_days = q_bonus q\<rparr>]\<rparr>)"
  show ?thesis using consumeCode_frame [OF c1] consumeGrant_frame [OF c2] by (simp add: d' setOrder_def)
qed (simp add: setOrder_def)

lemma consume_frame:
  assumes c: "consumeCommercialBenefitTx u ord q d = Inr d'"
  shows "wallets d' = wallets d" "walletEntries d' = walletEntries d" "instances d' = instances d"
    "now d' = now d" "tasks d' = tasks d" "planChanges d' = planChanges d" "exchangeItems d' = exchangeItems d"
  using consume_frame_all [OF c] by simp_all

lemma consumeAuto_consume:
  assumes "consumePlanChangeAutomaticBenefitTx u ord pid q d = Inr d'"
  shows "\<exists>q'. consumeCommercialBenefitTx u ord q' d = Inr d'"
  using assms by (auto simp: consumePlanChangeAutomaticBenefitTx_def split: option.splits if_splits)

lemma consumeAuto_frame:
  assumes "consumePlanChangeAutomaticBenefitTx u ord pid q d = Inr d'"
  shows "wallets d' = wallets d" "walletEntries d' = walletEntries d" "instances d' = instances d"
    "now d' = now d" "tasks d' = tasks d" "planChanges d' = planChanges d" "exchangeItems d' = exchangeItems d"
  using consumeAuto_consume [OF assms] consume_frame_all by blast+

interpretation consume: benefit_tx "\<lambda>(u, ord, q) d. consumeCommercialBenefitTx u ord q d"
  by unfold_locales (auto simp: consume_frame intro: consume_budgets)

interpretation consumeAuto: benefit_tx "\<lambda>(u, ord, pid, q) d. consumePlanChangeAutomaticBenefitTx u ord pid q d"
proof unfold_locales
  fix d d' :: db and a
  assume b: "budgetsOk d" and c: "(case a of (u, ord, pid, q) \<Rightarrow> \<lambda>d. consumePlanChangeAutomaticBenefitTx u ord pid q d) d = Inr d'"
  show "budgetsOk d'" using consumeAuto_consume consume_budgets b c by (cases a) fastforce
qed (auto simp: consumeAuto_frame)

section \<open>Properties\<close>

text \<open>C21. A quote is honest: its discount lies between zero and the list price, the amount to pay
  is the list price less the discount and never negative, a program gives money or days but not
  both, and the program it names is stored, in force and eligible for this order.\<close>

theorem quote_sound:
  assumes q: "quoteCommercialBenefit h u sc pl ins months monthly promo d = Inr q"
    and nonneg: "0 \<le> months" "0 \<le> monthly" "\<forall>p \<in> set (programs d). 0 \<le> bp_value p"
  shows "0 \<le> q_discount q \<and> q_discount q \<le> q_list q \<and> q_amount q = q_list q - q_discount q \<and>
    0 \<le> q_bonus q \<and> (q_discount q = 0 \<or> q_bonus q = 0) \<and>
    (\<forall>p. q_program q = Some p \<longrightarrow> p \<in> set (programs d) \<and>
       fst (programEligible p u sc pl ins months (q_list q) d))"
proof (rule quote_cases [OF q])
  fix l t b assume "tierPrice pl months monthly d = Inr (l, t, b)"
    "q = plainQuote l (if t then months else 0) (if t then b else 0)"
  then show ?thesis using tierPrice_nonneg nonneg by (simp add: plainQuote_def)
next
  fix l t b p c g
  assume t: "tierPrice pl months monthly d = Inr (l, t, b)"
    and q: "q = withProgram p c g (plainQuote l (if t then months else 0) (if t then b else 0))"
    and p: "p \<in> set (activePrograms d)" "fst (programEligible p u sc pl ins months l d)"
  have l: "q_list q = l" "q_list (plainQuote l m k) = l" for m k by (simp_all add: q plainQuote_def)
  show ?thesis using discount_bounds [of l p] tierPrice_nonneg [OF t nonneg(1,2)] nonneg(3) p
    by (auto simp: l q active_in)
qed

definition exampleProgram :: benefitProgram where
  "exampleProgram = \<lparr>bp_id = ''bp_1'', bp_status = Active, bp_trigger = Automatic, bp_scope = BothScopes,
     bp_type = PercentDiscount, bp_value = 2000, bp_minAmount = 0, bp_plans = [], bp_months = [],
     bp_audience = AllUsers, bp_starts = None, bp_ends = None, bp_perUser = 0, bp_total = 1, bp_used = 0,
     bp_cashBudget = 0, bp_cashSpent = 0, bp_daysLimit = 0, bp_daysUsed = 0, bp_priority = 0,
     bp_codePerUser = 0, bp_createdAt = 0\<rparr>"

definition exampleShop :: db where
  "exampleShop = (emptyDb 0)\<lparr>programs := [exampleProgram]\<rparr>"

lemma example_quote:
  "quoteCommercialBenefit h ''u'' PurchaseScope ''p'' [] 3 1000 [] exampleShop
     = Inr (withProgram exampleProgram None None (plainQuote 3000 0 0))"
  by (simp add: quoteCommercialBenefit_def exampleShop_def emptyDb_def tierPrice_def candidates_def
      activePrograms_def programEligible_def exampleProgram_def containsItem_def benefitDiscount_def
      normalizeBenefitCode_def trimSpace_def trimLeft_def trimRight_def toUpper_def Let_def)

lemma example_quote_values:
  "benefitDiscount exampleProgram 3000 = (600, 0)"
  by (simp add: benefitDiscount_def exampleProgram_def go_div_def)

theorem quote_sound_witness:
  "\<exists>q. quoteCommercialBenefit id ''u'' PurchaseScope ''p'' [] 3 1000 [] exampleShop = Inr q \<and>
     q_discount q = 600 \<and> q_amount q = 2400 \<and> q_discount q \<le> q_list q"
proof -
  have "\<forall>p \<in> set (programs exampleShop). 0 \<le> bp_value p" by (simp add: exampleShop_def exampleProgram_def)
  from quote_sound [OF example_quote [where h = id] _ _ this] show ?thesis
    by (simp add: example_quote example_quote_values)
qed

text \<open>Without a promotion code the customer gets the best automatic program: the quote names no
  program exactly when none qualifies, and the one it names is preferred to every other qualifying
  program, by priority and then by the discount it gives on this order.\<close>

theorem quote_best:
  assumes q: "quoteCommercialBenefit h u sc pl ins months monthly promo d = Inr q"
    and promo: "normalizeBenefitCode promo = []"
  shows "(q_program q = None \<longleftrightarrow> candidates u sc pl ins months (q_list q) d = []) \<and>
    (\<forall>p. q_program q = Some p \<longrightarrow>
       (\<exists>g. (p, g) \<in> set (candidates u sc pl ins months (q_list q) d) \<and> q_grant q = g) \<and>
       (\<forall>(r, k) \<in> set (candidates u sc pl ins months (q_list q) d).
          bp_priority r < bp_priority p \<or> bp_priority r = bp_priority p \<and>
          fst (benefitDiscount r (q_list q)) \<le> fst (benefitDiscount p (q_list q))))"
proof -
  obtain l t b where tp: "tierPrice pl months monthly d = Inr (l, t, b)"
    using q by (auto simp: quoteCommercialBenefit_def bindE_Inr_iff)
  let ?c = "candidates u sc pl ins months l d"
  let ?s = "sort_key (\<lambda>m. bestKey l (fst m)) ?c"
  show ?thesis
  proof (cases ?s)
    case Nil
    then have "?c = []" by (metis length_0_conv length_sort)
    moreover have "q = plainQuote l (if t then months else 0) (if t then b else 0)"
      using q promo Nil by (simp add: quoteCommercialBenefit_def tp Let_def)
    ultimately show ?thesis by (simp add: plainQuote_def)
  next
    case (Cons m ms)
    obtain p g where m: "m = (p, g)" by (cases m)
    have qe: "q = withProgram p None g (plainQuote l (if t then months else 0) (if t then b else 0))"
      using q promo Cons by (simp add: quoteCommercialBenefit_def tp Let_def m)
    have l: "q_list q = l" by (simp add: qe plainQuote_def)
    have mem: "(p, g) \<in> set ?c" using Cons m by (metis list.set_intros(1) set_sort)
    have "sorted (map (\<lambda>m. bestKey l (fst m)) (m # ms))" using Cons by (metis sorted_sort_key)
    then have "\<forall>r \<in> set (m # ms). bestKey l p \<le> bestKey l (fst r)" by (simp add: m)
    then have best: "\<forall>r \<in> set ?c. bestKey l p \<le> bestKey l (fst r)" by (metis Cons set_sort)
    have "q_program q = Some p" "q_grant q = g"
      by (simp_all add: qe withProgram_def case_prod_unfold Let_def)
    moreover have "?c \<noteq> []" using mem by auto
    moreover have "bp_priority r < bp_priority p \<or> bp_priority r = bp_priority p \<and>
          fst (benefitDiscount r l) \<le> fst (benefitDiscount p l)" if "(r, k) \<in> set ?c" for r k
      using best that by (fastforce simp: bestKey_def)
    ultimately show ?thesis using mem l by auto
  qed
qed

theorem quote_best_witness:
  "\<forall>(r, k) \<in> set (candidates ''u'' PurchaseScope ''p'' [] 3 3000 exampleShop).
     bp_priority r < 0 \<or> bp_priority r = 0 \<and> fst (benefitDiscount r 3000) \<le> 600"
proof -
  have n: "normalizeBenefitCode [] = []"
    by (simp add: normalizeBenefitCode_def trimSpace_def trimLeft_def trimRight_def toUpper_def)
  have "bp_priority exampleProgram = 0" by (simp add: exampleProgram_def)
  with quote_best [OF example_quote n] show ?thesis by (simp add: example_quote_values)
qed



text \<open>A targeted grant is used once: after a consumption with a grant, any consumption that names
  the same grant fails as long as the grant table is as it was left.\<close>

theorem grant_single_use:
  assumes c: "consumeCommercialBenefitTx u ord q d = Inr d1" and g: "q_grant q = Some g"
    and p: "q_program q \<noteq> None" and u: "grantTab.unique d"
    and d2: "grants d2 = grants d1" and q': "q_grant q' = Some g" "q_program q' \<noteq> None"
  shows "\<exists>e. consumeCommercialBenefitTx u' ord' q' d2 = Inl e"
proof (rule ccontr)
  assume "\<not> ?thesis"
  then obtain d3 where c': "consumeCommercialBenefitTx u' ord' q' d2 = Inr d3"
    by (cases "consumeCommercialBenefitTx u' ord' q' d2") auto
  let ?pr = "\<lambda>r. bg_id r = g \<and> bg_owner r = u \<and> bg_available r"
  let ?f = "\<lambda>r. r\<lparr>bg_available := False, bg_order := Some ord\<rparr>"
  have g1: "grants d1 = update ?pr ?f (grants d) \<and> affected ?pr ?f (grants d) = 1"
  proof (rule consume_cases [OF c])
    fix p e1 e2
    assume "consumeCode u p q (d\<lparr>programs := update (budgetRow q p d) (spend q) (programs d)\<rparr>) = Inr e1"
      "consumeGrant u ord q e1 = Inr e2" and "d1 = setOrder ord
         (\<lambda>r. r\<lparr>o_program := Some (bp_id p), o_tier := Some (snapshotTier q), o_bonusDays := q_bonus q\<rparr>)
         (e2\<lparr>redemptions := redemptions e2 @ [\<lparr>br_program = bp_id p, br_code = q_code q,
            br_grant = q_grant q, br_owner = u, br_order = ord, br_discount = q_discount q,
            br_days = q_bonus q\<rparr>]\<rparr>)"
    then show ?thesis using g
      by (auto simp: setOrder_def consumeGrant_def Let_def guardE_Inr_iff dest!: consumeCode_frame)
  qed (use p in simp)
  obtain r where r: "r \<in> set (grants d)" "?pr r"
    using grantTab.affected_one_row [of ?pr ?f d 0] g1 by auto
  have used: "\<not> bg_available s" if "s \<in> set (grants d1)" "bg_id s = g" for s
    using grantTab.row_after_update [OF u r(1), of ?f s ?pr] that g1 r by (auto simp: grantTab.rows_put)
  have "\<exists>s \<in> set (grants d2). bg_id s = g \<and> bg_available s"
  proof (rule consume_cases [OF c'])
    fix p e1 e2
    assume "consumeCode u' p q' (d2\<lparr>programs := update (budgetRow q' p d2) (spend q') (programs d2)\<rparr>) = Inr e1"
      "consumeGrant u' ord' q' e1 = Inr e2"
    then show ?thesis using q'(1)
      by (auto simp: consumeGrant_def Let_def guardE_Inr_iff
          dest!: consumeCode_frame grantTab.affected_one_row [of _ _ e1 0])
  qed (use q' in simp)
  with used d2 show False by auto
qed

theorem grant_single_use_witness:
  "\<exists>e d1. let q = withProgram exampleProgram None (Some ''g'') (plainQuote 3000 0 0);
       d = exampleShop\<lparr>grants := [\<lparr>bg_id = ''g'', bg_program = ''bp_1'', bg_owner = ''u'',
         bg_available = True, bg_expires = None, bg_order = None\<rparr>]\<rparr>
     in consumeCommercialBenefitTx ''u'' ''o1'' q d = Inr d1 \<and>
        consumeCommercialBenefitTx ''u'' ''o2'' q (exampleShop\<lparr>grants := grants d1\<rparr>) = Inl e"
proof -
  let ?q = "withProgram exampleProgram None (Some ''g'') (plainQuote 3000 0 0)"
  let ?d = "exampleShop\<lparr>grants := [\<lparr>bg_id = ''g'', bg_program = ''bp_1'', bg_owner = ''u'',
         bg_available = True, bg_expires = None, bg_order = None\<rparr>]\<rparr>"
  have q: "q_grant ?q = Some ''g''" "q_program ?q \<noteq> None" "q_code ?q = None"
    by (simp_all add: withProgram_def case_prod_unfold Let_def)
  have p: "bp_id exampleProgram = ''bp_1''" "bp_status exampleProgram = Active"
    "bp_starts exampleProgram = None" "bp_ends exampleProgram = None" "bp_perUser exampleProgram = 0"
    "bp_total exampleProgram = 1" "bp_used exampleProgram = 0" "bp_cashBudget exampleProgram = 0"
    "bp_daysLimit exampleProgram = 0"
    by (simp_all add: exampleProgram_def)
  obtain d1 where c: "consumeCommercialBenefitTx ''u'' ''o1'' ?q ?d = Inr d1"
    by (simp add: consumeCommercialBenefitTx_def consumeCode_def consumeGrant_def q budgetRow_def
        windowOpen_def spend_changes exampleShop_def emptyDb_def p Let_def)
  obtain e where "consumeCommercialBenefitTx ''u'' ''o2'' ?q (exampleShop\<lparr>grants := grants d1\<rparr>) = Inl e"
    using grant_single_use [OF c q(1,2) _ _ q(1,2), of "exampleShop\<lparr>grants := grants d1\<rparr>"]
    by (auto simp: grantTab.unique_def)
  with c show ?thesis by (auto simp: Let_def)
qed

end
