(* ===== verification/Catalog.thy ===== *)
theory Catalog
  imports Schema
begin

text \<open>
  The software catalog (\<open>control_plane.go\<close>, \<open>control_handlers.go\<close>): image references, tags and
  digests, saving images and versions, and the publication of a version, which pulls the image on
  every enabled node and releases the version only when all nodes report the same digest. The
  Agent's answer to a pull is the parameter \<open>pull\<close>: \<open>Inl\<close> a failed request, \<open>Inr\<close> the list of
  \<open>RepoDigests\<close>.
\<close>

section \<open>Tags and digests\<close>

definition tagChar :: "char \<Rightarrow> bool" where
  "tagChar c \<longleftrightarrow> (let n = (of_char c :: nat) in (97 \<le> n \<and> n \<le> 122) \<or> (65 \<le> n \<and> n \<le> 90) \<or>
     (48 \<le> n \<and> n \<le> 57) \<or> c = CHR ''.'' \<or> c = CHR ''_'' \<or> c = CHR ''-'')"

definition validImageTag :: "string \<Rightarrow> bool" where
  "validImageTag value \<longleftrightarrow>
     (if value = [] \<or> length value > 64 \<or> containsAny value [CHR '' '', CHR 0x09, CHR 0x0D, CHR 0x0A, CHR ''/'', CHR ''@'']
      then False else list_all tagChar value)"

definition hexChar :: "char \<Rightarrow> bool" where
  "hexChar c \<longleftrightarrow> (let n = (of_char c :: nat) in (48 \<le> n \<and> n \<le> 57) \<or> (97 \<le> n \<and> n \<le> 102))"

text \<open>The regular expression \<open>^sha256:[0-9a-f]{64}$\<close>.\<close>

definition imageDigestPattern :: "string \<Rightarrow> bool" where
  "imageDigestPattern s \<longleftrightarrow> take 7 s = ''sha256:'' \<and> length s = 71 \<and> list_all hexChar (drop 7 s)"

definition validImageDigest :: "string \<Rightarrow> bool" where
  "validImageDigest value \<longleftrightarrow> imageDigestPattern (toLower (trimSpace value))"

definition deploymentImage :: "string \<Rightarrow> string \<Rightarrow> string \<Rightarrow> string" where
  "deploymentImage imageRef version digest =
     (if validImageDigest digest then trimSpace imageRef @ ''@'' @ toLower (trimSpace digest)
      else trimSpace imageRef @ '':'' @ trimSpace version)"

text \<open>\<open>strings.Cut\<close> at the first \<open>@\<close>.\<close>

definition cutAt :: "string \<Rightarrow> (string \<times> string) option" where
  "cutAt s = (case dropWhile (\<lambda>c. c \<noteq> CHR ''@'') s of [] \<Rightarrow> None
     | _ # rest \<Rightarrow> Some (takeWhile (\<lambda>c. c \<noteq> CHR ''@'') s, rest))"

fun immutableDigest :: "string list \<Rightarrow> string" where
  "immutableDigest [] = []"
| "immutableDigest (v # vs) =
     (case cutAt (trimSpace v) of
        Some (_, digest) \<Rightarrow> if validImageDigest digest then toLower digest else immutableDigest vs
      | None \<Rightarrow> immutableDigest vs)"

section \<open>Saving images and versions\<close>

definition zeroDigest :: string where
  "zeroDigest = ''sha256:'' @ replicate 64 CHR ''0''"

text \<open>\<open>INSERT ... ON DUPLICATE KEY UPDATE\<close> on a table with the unique keys \<open>id\<close>,
  \<open>image_digest\<close> (nullable) and \<open>image_ref\<close>: the first key that collides selects the row to update.\<close>

definition upsertTarget :: "catalogImage \<Rightarrow> catalogImage list \<Rightarrow> id option" where
  "upsertTarget row t =
     map_option g_id
       (case select (\<lambda>g. g_id g = g_id row) t of Some g \<Rightarrow> Some g
        | None \<Rightarrow> case select (\<lambda>g. g_digest row \<noteq> [] \<and> g_digest g = g_digest row) t of Some g \<Rightarrow> Some g
        | None \<Rightarrow> select (\<lambda>g. g_ref g = g_ref row) t)"

definition upsertImage :: "catalogImage \<Rightarrow> db \<Rightarrow> db" where
  "upsertImage row db =
     (case upsertTarget row (images db) of
        None \<Rightarrow> db\<lparr>images := images db @ [row]\<rparr>
      | Some gid \<Rightarrow> db\<lparr>images := update (\<lambda>g. g_id g = gid)
          (\<lambda>g. g\<lparr>g_ref := g_ref row, g_version := g_version row, g_enabled := g_enabled row,
                g_terminalOnly := g_terminalOnly row\<rparr>) (images db)\<rparr>)"

definition saveImage :: "id \<Rightarrow> catalogImage \<Rightarrow> db \<Rightarrow> error + db" where
  "saveImage newImg value db =
     (let isNew = (g_id value = []);
          v0 = value\<lparr>g_id := (if isNew then newImg else g_id value), g_ref := trimSpace (g_ref value)\<rparr>;
          current = (if isNew then None else select (\<lambda>g. g_id g = g_id v0) (images db));
          checkDuplicate = (isNew \<or> current = None);
          digest0 = toLower (trimSpace (g_digest v0));
          digest = (if take 5 digest0 = ''seed:'' \<or> digest0 = zeroDigest then [] else digest0);
          row = v0\<lparr>g_version := (if g_version v0 = [] then ''latest'' else g_version v0), g_digest := digest\<rparr>
      in guardE (\<not> (g_ref v0 = [] \<or> containsAny (g_ref v0) [CHR '' '', CHR 0x09, CHR 0x0D, CHR 0x0A, CHR ''@'']))
           (Msg ''invalid image reference'')
         (guardE (case current of None \<Rightarrow> True | Some g \<Rightarrow> trimSpace (g_ref g) = g_ref v0)
           (Msg ''image reference is fixed'')
         (guardE (\<not> (checkDuplicate \<and> countRows (\<lambda>g. g_ref g = g_ref v0 \<and> g_id g \<noteq> g_id v0) (images db) > 0))
           (Msg ''image reference exists'')
         (guardE (digest = [] \<or> validImageDigest digest) (Msg ''invalid digest'')
         (Inr (upsertImage row db))))))"

definition saveImageVersion :: "id \<Rightarrow> imageVersion \<Rightarrow> db \<Rightarrow> error + imageVersion \<times> db" where
  "saveImageVersion newVer value db =
     (let tag = trimSpace (v_tag value);
          existing = (if v_id value = []
                      then select (\<lambda>v. v_image v = v_image value \<and> v_tag v = tag) (imageVersions db) else None);
          isNew = (v_id value = [] \<and> existing = None);
          vid = (if v_id value \<noteq> [] then v_id value
                 else case existing of Some v \<Rightarrow> v_id v | None \<Rightarrow> newVer)
      in guardE (validImageTag tag) (Msg ''invalid tag'')
         (guardE (countRows (\<lambda>g. g_id g = v_image value) (images db) = 1) (Msg ''no such image'')
         (if isNew
          then let row = value\<lparr>v_id := vid, v_tag := tag, v_digest := [], v_enabled := False, v_status := ''draft'',
                     v_lastError := None, v_publishedAt := None\<rparr>
               in Inr (row, db\<lparr>imageVersions := imageVersions db @ [row]\<rparr>)
          else case select (\<lambda>v. v_id v = vid \<and> v_image v = v_image value) (imageVersions db) of
              None \<Rightarrow> Inl (Msg ''no such version'')
            | Some current \<Rightarrow>
                if v_status current \<noteq> ''ready'' \<and> v_enabled value then Inl (Msg ''version not verified'')
                else Inr (current\<lparr>v_enabled := v_enabled value\<rparr>,
                  db\<lparr>imageVersions := update (\<lambda>v. v_id v = vid \<and> v_image v = v_image value)
                       (\<lambda>v. v\<lparr>v_enabled := v_enabled value\<rparr>) (imageVersions db)\<rparr>))))"

section \<open>Publication\<close>

definition setVersion :: "id \<Rightarrow> (imageVersion \<Rightarrow> imageVersion) \<Rightarrow> db \<Rightarrow> db" where
  "setVersion vid f db = db\<lparr>imageVersions := update (\<lambda>v. v_id v = vid) f (imageVersions db)\<rparr>"

definition markImageVersionFailed :: "id \<Rightarrow> string \<Rightarrow> db \<Rightarrow> db" where
  "markImageVersionFailed vid why =
     setVersion vid (\<lambda>v. v\<lparr>v_enabled := False, v_status := ''failed'', v_lastError := Some why\<rparr>)"

definition publishImageVersion :: "id \<Rightarrow> id \<Rightarrow> id \<Rightarrow> db \<Rightarrow> error + db" where
  "publishImageVersion imageID versionID actor db =
     (case select (\<lambda>v. v_id v = versionID \<and> v_image v = imageID \<and>
             countRows (\<lambda>g. g_id g = imageID) (images db) > 0) (imageVersions db) of
        None \<Rightarrow> Inl (Msg ''no such version'')
      | Some _ \<Rightarrow> Inr (writeAudit actor ''catalog.image_version.publish'' versionID
            (setVersion versionID (\<lambda>v. v\<lparr>v_enabled := False, v_status := ''syncing'', v_lastError := None\<rparr>) db)))"

definition putPull :: "imagePull \<Rightarrow> db \<Rightarrow> db" where
  "putPull r db =
     (let p = (\<lambda>x. ip_version x = ip_version r \<and> ip_node x = ip_node r)
      in if countRows p (imagePulls db) = 0 then db\<lparr>imagePulls := imagePulls db @ [r]\<rparr>
         else db\<lparr>imagePulls := update p (\<lambda>_. r) (imagePulls db)\<rparr>)"

text \<open>One node of the loop of \<open>pullImageOnNodes\<close>; the state is the expected digest so far and
  whether a failure was seen.\<close>

definition pullNode ::
  "(node \<Rightarrow> string \<Rightarrow> error + string list) \<Rightarrow> id \<Rightarrow> string \<Rightarrow> node \<Rightarrow> string \<times> bool \<times> db \<Rightarrow> string \<times> bool \<times> db" where
  "pullNode pull versionID img n = (\<lambda>(expected, failure, db).
     let row = (\<lambda>status dg. \<lparr>ip_version = versionID, ip_node = n_id n, ip_status = status, ip_digest = dg\<rparr>) in
     if ''image.pull.v1'' \<notin> set (n_capabilities n)
     then (expected, True, putPull (row ''unsupported'' None) db)
     else case pull n img of
         Inl e \<Rightarrow> (expected, True, putPull (row ''failed'' None) db)
       | Inr repoDigests \<Rightarrow>
           let digest = immutableDigest repoDigests in
           if digest = [] then (expected, True, putPull (row ''failed'' None) db)
           else if expected = [] then (digest, failure, putPull (row ''succeeded'' (Some digest)) db)
           else if expected \<noteq> digest then (expected, True, putPull (row ''failed'' (Some digest)) db)
           else (expected, failure, putPull (row ''succeeded'' (Some digest)) db))"

text \<open>\<open>ns\<close> is the answer of \<open>enabledNodes\<close>, read when the loop starts.\<close>

definition pullImageOnNodes ::
  "(node \<Rightarrow> string \<Rightarrow> error + string list) \<Rightarrow> node list \<Rightarrow> id \<Rightarrow> string \<Rightarrow> db \<Rightarrow> db" where
  "pullImageOnNodes pull ns versionID img db =
     (if ns = [] then markImageVersionFailed versionID ''no enabled node'' db
      else let (expected, failure, db1) = fold (pullNode pull versionID img) ns ([], False, db)
           in if failure \<or> expected = [] then markImageVersionFailed versionID ''verification failed'' db1
              else setVersion versionID
                (\<lambda>v. v\<lparr>v_digest := expected, v_enabled := True, v_status := ''ready'', v_lastError := None,
                       v_publishedAt := Some (now db1)\<rparr>) db1)"

text \<open>A version a customer can order (\<open>purchaseWithWallet\<close>).\<close>

definition purchasable :: "imageVersion \<Rightarrow> bool" where
  "purchasable v \<longleftrightarrow> v_enabled v \<and> v_status v = ''ready''"


section \<open>Lemmas\<close>

lemma lowerChar_idem [simp]: "lowerChar (lowerChar c) = lowerChar c"
  by (simp add: lowerChar_def Let_def)

lemma toLower_idem [simp]: "toLower (toLower s) = toLower s"
  by (simp add: toLower_def comp_def)

lemma lowerChar_space [simp]: "isSpace (lowerChar c) = isSpace c"
proof (cases "65 \<le> (of_char c :: nat) \<and> (of_char c :: nat) \<le> 90")
  case True
  then have "(of_char (lowerChar c) :: nat) = of_char c + 32" by (simp add: lowerChar_def)
  with True show ?thesis by (simp add: isSpace_def)
qed (auto simp: lowerChar_def Let_def)

lemma dropWhile_lower: "dropWhile isSpace (map lowerChar s) = map lowerChar (dropWhile isSpace s)"
  by (induction s) auto

lemma trim_lower: "trimSpace (toLower s) = toLower (trimSpace s)"
  by (simp add: trimSpace_def trimLeft_def trimRight_def toLower_def dropWhile_lower rev_map)

lemma valid_lower [simp]: "validImageDigest (toLower dg) = validImageDigest dg"
  by (simp add: validImageDigest_def trim_lower)

lemma immutableDigest_valid: "immutableDigest vs \<noteq> [] \<Longrightarrow> validImageDigest (immutableDigest vs)"
  by (induction vs) (auto split: option.splits if_splits)

lemma setVersion_row: "v \<in> set (imageVersions (setVersion vid f d)) \<Longrightarrow>
    \<exists>w \<in> set (imageVersions d). v = (if v_id w = vid then f w else w)"
  by (auto simp: setVersion_def in_update)

text \<open>What the loop has established about the nodes it has seen.\<close>

definition agreed :: "(node \<Rightarrow> string \<Rightarrow> error + string list) \<Rightarrow> string \<Rightarrow> string \<Rightarrow> node \<Rightarrow> bool" where
  "agreed pull img dg n \<longleftrightarrow> ''image.pull.v1'' \<in> set (n_capabilities n) \<and>
     (\<exists>r. pull n img = Inr r \<and> immutableDigest r = dg)"

lemma pullNode_fail: "fst (snd (pullNode pull vid img n (e, True, d)))"
  by (auto simp: pullNode_def Let_def split: sum.splits)

lemma pull_fail: "fst (snd (fold (pullNode pull vid img) ns (e, True, d)))"
proof (induction ns arbitrary: e d)
  case (Cons n ns)
  obtain e' b d' where "pullNode pull vid img n (e, True, d) = (e', b, d')" by (metis prod_cases3)
  with pullNode_fail [of pull vid img n e d] Cons show ?case by simp
qed simp

lemma pullNode_ok:
  assumes "pullNode pull vid img n (e, False, d) = (e', False, d')"
  shows "e' \<noteq> [] \<and> agreed pull img e' n \<and> (e \<noteq> [] \<longrightarrow> e' = e)"
  using assms by (auto simp: pullNode_def agreed_def Let_def split: if_splits sum.splits)

lemma pull_agree:
  assumes "fold (pullNode pull vid img) ns (e, False, d) = (e', False, d')" "e' \<noteq> []"
  shows "(\<forall>n \<in> set ns. agreed pull img e' n) \<and> (e \<noteq> [] \<longrightarrow> e' = e)"
  using assms
proof (induction ns arbitrary: e d)
  case (Cons n ns)
  obtain e1 b d1 where s: "pullNode pull vid img n (e, False, d) = (e1, b, d1)" by (metis prod_cases3)
  with Cons.prems pull_fail [of pull vid img ns e1 d1] have b: "\<not> b" by (cases b) auto
  note ok = pullNode_ok [OF s [simplified b]]
  from Cons.prems s b have "fold (pullNode pull vid img) ns (e1, False, d1) = (e', False, d')" by simp
  from Cons.IH [OF this Cons.prems(2)] ok show ?case by auto
qed simp

lemma putPull_versions [simp]: "imageVersions (putPull r d) = imageVersions d"
  by (simp add: putPull_def Let_def)

lemma pullNode_versions: "imageVersions (snd (snd (pullNode pull vid img n s))) = imageVersions (snd (snd s))"
  by (auto simp: pullNode_def Let_def split: prod.splits sum.splits)

lemma pull_versions: "imageVersions (snd (snd (fold (pullNode pull vid img) ns s))) = imageVersions (snd (snd s))"
  by (induction ns arbitrary: s) (auto simp: pullNode_versions)

section \<open>Properties\<close>

text \<open>A version is released only by consensus: after a publication, the version is ready only if
  there was an enabled node, every enabled node supports pulling and answered, and the digest each of
  them reported is the one recorded, a well-formed SHA-256 digest.\<close>

theorem publish_consensus:
  assumes "v \<in> set (imageVersions (pullImageOnNodes pull ns vid img d))" "v_id v = vid" "v_status v = ''ready''"
  shows "ns \<noteq> [] \<and> validImageDigest (v_digest v) \<and>
    (\<forall>n \<in> set ns. ''image.pull.v1'' \<in> set (n_capabilities n) \<and>
       (\<exists>r. pull n img = Inr r \<and> immutableDigest r = v_digest v))"
proof -
  have ready: False if m: "v \<in> set (imageVersions (markImageVersionFailed vid why x))" for why x
  proof -
    obtain w where w: "v = (if v_id w = vid then w\<lparr>v_enabled := False, v_status := ''failed'', v_lastError := Some why\<rparr> else w)"
      using setVersion_row [OF m [unfolded markImageVersionFailed_def]] by blast
    show False using assms(2,3) w by (cases "v_id w = vid") simp_all
  qed
  obtain e b d1 where f: "fold (pullNode pull vid img) ns ([], False, d) = (e, b, d1)" by (metis prod_cases3)
  have ns: "ns \<noteq> []"
    using assms(1) ready [of "''no enabled node''" d] by (cases "ns = []") (simp_all add: pullImageOnNodes_def)
  have ok: "\<not> b \<and> e \<noteq> []"
    using assms(1) ready [of "''verification failed''" d1] ns
    by (cases "b \<or> e = []") (simp_all add: pullImageOnNodes_def f)
  have a: "\<forall>n \<in> set ns. agreed pull img e n" using pull_agree [of pull vid img ns "[]" d e d1] f ok by simp
  have "v_digest v = e"
  proof -
    have "v \<in> set (imageVersions (setVersion vid (\<lambda>v. v\<lparr>v_digest := e, v_enabled := True, v_status := ''ready'',
        v_lastError := None, v_publishedAt := Some (now d1)\<rparr>) d1))"
      using assms(1) ns ok by (simp add: pullImageOnNodes_def f)
    then obtain w where w: "v = (if v_id w = vid then w\<lparr>v_digest := e, v_enabled := True, v_status := ''ready'',
        v_lastError := None, v_publishedAt := Some (now d1)\<rparr> else w)"
      by (blast dest: setVersion_row)
    show ?thesis using assms(2) w by (cases "v_id w = vid") simp_all
  qed
  moreover obtain n where "n \<in> set ns" using ns by (cases ns) auto
  then have "validImageDigest e" using a immutableDigest_valid ok by (auto simp: agreed_def)
  ultimately show ?thesis using ns a by (simp add: agreed_def)
qed

definition exampleDigest :: string where
  "exampleDigest = ''sha256:'' @ replicate 64 CHR ''a''"

definition exampleRepo :: string where "exampleRepo = ''repo@'' @ exampleDigest"

definition exampleNode :: node where
  "exampleNode = \<lparr>n_id = ''n1'', n_kind = Platform, n_device = None, n_cpuTotal = 4, n_memTotal = 8192,
     n_cpuDetected = 4, n_memDetected = 8192, n_enabled = True, n_heartbeat = Some 0,
     n_apiVersion = 2, n_capabilities = [''image.pull.v1''], n_lastError = None, n_owner = None, n_name = ''node'', n_ready = True,
     n_issues = [], n_cpuQuota = 0, n_memQuota = 0, n_autoQuota = True\<rparr>"

definition exampleVersion :: imageVersion where
  "exampleVersion = \<lparr>v_id = ''ver_1'', v_image = ''img_1'', v_tag = ''1.0'', v_digest = [], v_enabled = False,
     v_status = ''syncing'', v_lastError = None, v_publishedAt = None\<rparr>"

theorem publish_consensus_witness:
  "let d' = pullImageOnNodes (\<lambda>n i. Inr [exampleRepo]) [exampleNode] ''ver_1'' ''repo:1.0''
       ((emptyDb 0)\<lparr>imageVersions := [exampleVersion]\<rparr>)
   in map v_status (imageVersions d') = [''ready''] \<and> validImageDigest (v_digest (hd (imageVersions d')))"
proof -
  define d' where "d' = pullImageOnNodes (\<lambda>n i. Inr [exampleRepo]) [exampleNode] ''ver_1'' ''repo:1.0''
       ((emptyDb 0)\<lparr>imageVersions := [exampleVersion]\<rparr>)"
  define v where "v = exampleVersion\<lparr>v_digest := exampleDigest, v_enabled := True, v_status := ''ready'',
      v_lastError := None, v_publishedAt := Some 0\<rparr>"
  have i: "immutableDigest [exampleRepo] = exampleDigest" by code_simp
  have e: "exampleDigest \<noteq> []" by (simp add: exampleDigest_def)
  have v: "imageVersions d' = [v]"
    by (simp add: d'_def v_def pullImageOnNodes_def pullNode_def exampleNode_def i e putPull_def setVersion_def
        exampleVersion_def emptyDb_def Let_def del: immutableDigest.simps)
  have "v \<in> set (imageVersions d')" "v_id v = ''ver_1''" "v_status v = ''ready''"
    by (simp add: v, simp_all add: v_def exampleVersion_def)
  from publish_consensus [OF this(1) [unfolded d'_def] this(2,3)] have "validImageDigest (v_digest v)" by blast
  with \<open>v_status v = ''ready''\<close> v have "map v_status (imageVersions d') = [''ready''] \<and>
      validImageDigest (v_digest (hd (imageVersions d')))" by simp
  then show ?thesis by (simp add: d'_def Let_def)
qed

text \<open>Saving a new image can overwrite another: when its digest is already recorded for a stored
  image, the upsert matches that row through the unique key on the digest, and the stored image
  silently gets the new reference, although the reference of an image is meant to be fixed.\<close>

theorem save_image_overwrites:
  assumes "images d = [g]" "g_digest g = dg" "validImageDigest dg" "toLower (trimSpace dg) = dg" "dg \<noteq> zeroDigest"
    and "ref \<noteq> []" "trimSpace ref = ref" "ref \<noteq> g_ref g"
      "\<not> containsAny ref [CHR '' '', CHR 0x09, CHR 0x0D, CHR 0x0A, CHR ''@'']"
    and "fresh \<noteq> g_id g"
  shows "\<exists>d'. saveImage fresh \<lparr>g_id = [], g_ref = ref, g_digest = dg, g_version = ver, g_enabled = True,
      g_terminalOnly = False\<rparr> d = Inr d' \<and> map g_id (images d') = [g_id g] \<and> map g_ref (images d') = [ref]"
proof -
  have dg: "take 5 dg \<noteq> ''seed:''" "dg \<noteq> []"
  proof -
    from assms(3,4) have p: "take 7 dg = ''sha256:''" "length dg = 71"
      by (simp_all add: validImageDigest_def imageDigestPattern_def)
    have "take 5 dg = take 5 (take 7 dg)" by simp
    then show "take 5 dg \<noteq> ''seed:''" unfolding p(1) by simp
    show "dg \<noteq> []" using p(2) by auto
  qed
  show ?thesis using assms dg by (auto simp: saveImage_def Let_def upsertImage_def upsertTarget_def)
qed

theorem save_image_overwrites_witness:
  "\<exists>d'. saveImage ''img_2'' \<lparr>g_id = [], g_ref = ''other'', g_digest = exampleDigest, g_version = ''1'',
      g_enabled = True, g_terminalOnly = False\<rparr>
    ((emptyDb 0)\<lparr>images := [\<lparr>g_id = ''img_1'', g_ref = ''repo'', g_digest = exampleDigest, g_version = ''1'',
      g_enabled = True, g_terminalOnly = False\<rparr>]\<rparr>) = Inr d' \<and>
    map g_id (images d') = [''img_1''] \<and> map g_ref (images d') = [''other'']"
proof -
  have d: "validImageDigest exampleDigest" "toLower (trimSpace exampleDigest) = exampleDigest"
    "exampleDigest \<noteq> zeroDigest" "trimSpace ''other'' = ''other''"
    "\<not> containsAny ''other'' [CHR '' '', CHR 0x09, CHR 0x0D, CHR 0x0A, CHR ''@'']" by code_simp+
  show ?thesis
    using save_image_overwrites [of "(emptyDb 0)\<lparr>images := [\<lparr>g_id = ''img_1'', g_ref = ''repo'',
        g_digest = exampleDigest, g_version = ''1'', g_enabled = True, g_terminalOnly = False\<rparr>]\<rparr>",
        OF _ _ d(1-3) _ d(4) _ d(5), of _ "''img_2''" "''1''"]
    by simp
qed

end
