(* ===== verification/Orders.thy ===== *)
theory Orders
  imports Lifecycle Benefits Catalog
begin

text \<open>
  Orders (\<open>control_plane.go\<close>, \<open>platform_upgrade.go\<close>): manual orders with their payment review, the
  choice of the node that hosts a new instance, and the two wallet transactions, purchase and
  renewal. Each operation is one serializable transaction: \<open>Inl\<close> is its rollback. The fresh ids of
  \<open>newID\<close> are arguments; \<open>routeKey\<close> (a truncated SHA-256) and \<open>hash\<close> are parameters, and \<open>ttl\<close> is
  the heartbeat limit read from the environment.
\<close>

section \<open>Manual orders\<close>

definition createOrder :: "id \<Rightarrow> id \<Rightarrow> id \<Rightarrow> id \<Rightarrow> int \<Rightarrow> db \<Rightarrow> error + order \<times> db" where
  "createOrder oid ownerID planID imageID months db =
     (if months < 1 \<or> months > 60 then Inl (Msg ''1 to 60 months'')
      else bindE (orElse (select (\<lambda>p. p_id p = planID \<and> p_enabled p) (plans db)) (Msg ''plan not for sale'')) (\<lambda>p.
        bindE (orElse (select (\<lambda>g. g_id g = imageID \<and> g_enabled g) (images db)) (Msg ''image not for sale'')) (\<lambda>g.
        let r = blankOrder\<lparr>o_id := oid, o_owner := ownerID, o_plan := planID, o_image := imageID,
              o_amount := p_monthly p * months, o_createdAt := now db, o_updatedAt := now db\<rparr>
        in bindE (insertOrder r db) (\<lambda>db1. Inr (r, db1)))))"

text \<open>Updates of the order table guarded by a status, as \<open>cancelOrder\<close> and \<open>rejectOrder\<close> use them.\<close>

definition cancelOrder :: "id \<Rightarrow> id \<Rightarrow> db \<Rightarrow> error + db" where
  "cancelOrder oid ownerID db =
     (let p = (\<lambda>r. o_id r = oid \<and> o_owner r = ownerID \<and> o_status r \<in> {OrderPending, OrderReview});
          f = (\<lambda>r. r\<lparr>o_status := OrderCancel, o_updatedAt := now db\<rparr>)
      in if affected p f (orders db) \<noteq> 1 then Inl (Msg ''order cannot be cancelled'')
         else Inr (db\<lparr>orders := update p f (orders db)\<rparr>))"

definition submitPayment :: "id \<Rightarrow> id \<Rightarrow> id \<Rightarrow> string \<Rightarrow> db \<Rightarrow> error + db" where
  "submitPayment payID orderID ownerID reference0 db =
     (let reference = trimSpace reference0 in
      if length reference < 3 \<or> length reference > 128 then Inl (Msg ''reference length'')
      else bindE (orElse (select (\<lambda>r. o_id r = orderID \<and> o_owner r = ownerID) (orders db)) ErrNoRows) (\<lambda>r.
        if o_status r \<noteq> OrderPending then Inl (Msg ''order takes no payment'')
        else if reference \<in> pay_reference ` set (payments db) then Inl ErrDuplicate
        else Inr (db\<lparr>payments := payments db @ [\<lparr>pay_id = payID, pay_order = orderID, pay_payer = ownerID,
               pay_amount = o_amount r, pay_reference = reference, pay_status = ''submitted'', pay_reviewer = None\<rparr>],
             orders := update (\<lambda>x. o_id x = orderID)
               (\<lambda>x. x\<lparr>o_status := OrderReview, o_updatedAt := now db\<rparr>) (orders db)\<rparr>)))"

definition reviewPayments :: "string \<Rightarrow> id \<Rightarrow> id \<Rightarrow> db \<Rightarrow> db" where
  "reviewPayments status actor orderID db =
     db\<lparr>payments := update (\<lambda>p. pay_order p = orderID \<and> pay_status p = ''submitted'')
          (\<lambda>p. p\<lparr>pay_status := status, pay_reviewer := Some actor\<rparr>) (payments db)\<rparr>"

definition rejectOrder :: "id \<Rightarrow> id \<Rightarrow> db \<Rightarrow> error + db" where
  "rejectOrder oid actor db =
     (let p = (\<lambda>r. o_id r = oid \<and> o_status r \<in> {OrderPending, OrderReview});
          f = (\<lambda>r. r\<lparr>o_status := OrderReject, o_updatedAt := now db\<rparr>)
      in if affected p f (orders db) \<noteq> 1 then Inl (Msg ''order cannot be rejected'')
         else Inr (writeAudit actor ''order.reject'' oid
                (reviewPayments ''rejected'' actor oid (db\<lparr>orders := update p f (orders db)\<rparr>))))"

section \<open>Choosing a node\<close>

text \<open>Capacity reserved on a node: every instance that is not destroyed, purged or failed.\<close>

definition reserved :: "istatus \<Rightarrow> bool" where
  "reserved s \<longleftrightarrow> s \<in> {Deploying, Running, Stopped, DestroyScheduled}"

definition onNode :: "id \<Rightarrow> inst \<Rightarrow> bool" where
  "onNode nid i \<longleftrightarrow> i_node i = Some nid \<and> reserved (i_status i)"

definition usedCpu :: "id \<Rightarrow> db \<Rightarrow> rat" where
  "usedCpu nid db = sumRows (onNode nid) i_cpu (instances db)"

definition usedMem :: "id \<Rightarrow> db \<Rightarrow> int" where
  "usedMem nid db = sumRows (onNode nid) i_memory (instances db)"

definition healthy :: "duration \<Rightarrow> db \<Rightarrow> node \<Rightarrow> bool" where
  "healthy ttl db n \<longleftrightarrow> n_enabled n \<and> n_kind n = Platform \<and> someAnd (\<lambda>h. now db - ttl \<le> h) (n_heartbeat n)"

definition fits :: "rat \<Rightarrow> int \<Rightarrow> db \<Rightarrow> node \<Rightarrow> bool" where
  "fits cpu mem db n \<longleftrightarrow>
     \<not> (usedCpu (n_id n) db + cpu > n_cpuTotal n \<or> usedMem (n_id n) db + mem > n_memTotal n)"

definition nodeScore :: "rat \<Rightarrow> int \<Rightarrow> db \<Rightarrow> node \<Rightarrow> rat" where
  "nodeScore cpu mem db n = max ((usedCpu (n_id n) db + cpu) / n_cpuTotal n)
     (of_int (usedMem (n_id n) db + mem) / of_int (n_memTotal n))"

definition betterNode :: "rat \<Rightarrow> int \<Rightarrow> db \<Rightarrow> node \<Rightarrow> node option \<Rightarrow> node option" where
  "betterNode cpu mem db n best =
     (if \<not> fits cpu mem db n then best
      else case best of None \<Rightarrow> Some n
        | Some b \<Rightarrow> if nodeScore cpu mem db n < nodeScore cpu mem db b then Some n else best)"

definition selectNodeForPlan :: "duration \<Rightarrow> plan \<Rightarrow> db \<Rightarrow> error + node" where
  "selectNodeForPlan ttl p db =
     (let candidates = filter (healthy ttl db) (nodes db) in
      case fold (betterNode (p_cpu p) (p_memory p) db) candidates None of
        None \<Rightarrow> Inl (if candidates = [] then Msg ''no healthy node'' else Msg ''no node with capacity'')
      | Some n \<Rightarrow> Inr n)"

section \<open>New instances\<close>

definition containerName :: "(string \<Rightarrow> string) \<Rightarrow> id \<Rightarrow> string" where
  "containerName routeKey iid =
     ''xcloud-'' @ (case routeKey iid of c # cs \<Rightarrow> if c = CHR ''r'' then cs else c # cs | [] \<Rightarrow> [])"

text \<open>The instance row both \<open>confirmOrder\<close> and \<open>purchaseWithWallet\<close> insert.\<close>

definition deployRow ::
  "(string \<Rightarrow> string) \<Rightarrow> id \<Rightarrow> id \<Rightarrow> id \<Rightarrow> catalogImage \<Rightarrow> string \<Rightarrow> string option \<Rightarrow> plan \<Rightarrow> node \<Rightarrow> gotime \<Rightarrow> gotime \<Rightarrow> inst" where
  "deployRow routeKey iid ownerID oid img version digest p n expires t =
     blankInst\<lparr>i_id := iid, i_owner := ownerID, i_image := g_ref img, i_version := version,
       i_digest := digest, i_status := Deploying, i_container := containerName routeKey iid,
       i_createdAt := t, i_cpu := p_cpu p, i_memory := p_memory p, i_node := Some (n_id n),
       i_order := Some oid, i_route := routeKey (ownerID @ CHR 0x00 # iid), i_expires := Some expires\<rparr>"

definition nullable :: "string \<Rightarrow> string option" where
  "nullable s = (if s = [] then None else Some s)"

text \<open>Go's \<open>o.AmountFen / p.MonthlyFen\<close> panics when the plan is free; the handler's recovery turns
  it into an error and the deferred rollback undoes the transaction.\<close>

definition paidMonths :: "order \<Rightarrow> plan \<Rightarrow> error + int" where
  "paidMonths r p = (if p_monthly p = 0 then Inl (Msg ''runtime error: integer divide by zero'')
     else let months = go_div (o_amount r) (p_monthly p) in Inr (if months < 1 then 1 else months))"

text \<open>The renewal branch of \<open>confirmOrder\<close>.\<close>

definition resumedRuntime :: "istatus option \<Rightarrow> istatus" where
  "resumedRuntime rt = (case rt of None \<Rightarrow> Stopped | Some s \<Rightarrow> if s \<noteq> Running \<and> s \<noteq> Stopped then Stopped else s)"

definition renewedRow :: "gotime \<Rightarrow> inst \<Rightarrow> inst" where
  "renewedRow expires r = r\<lparr>i_expires := Some expires, i_purgeAt := None, i_destroyAt := None,
     i_destroyReason := None, i_destroyedAt := None\<rparr>"

definition liftT :: "transitionError + bool \<times> db \<Rightarrow> error + db" where
  "liftT r = (case r of Inl _ \<Rightarrow> Inl (Msg ''illegal transition'')
     | Inr (changed, db) \<Rightarrow> if changed then Inr db else Inl ErrConflict)"

definition confirmRenewal :: "id \<Rightarrow> id \<Rightarrow> order \<Rightarrow> plan \<Rightarrow> id \<Rightarrow> db \<Rightarrow> error + controlTask \<times> db" where
  "confirmRenewal taskID actor r p iid db =
     bindE (orElse (select (\<lambda>i. i_id i = iid \<and> i_owner i = o_owner r) (instances db)) (Msg ''instance is gone'')) (\<lambda>i.
     if someAnd (\<lambda>e. after e (now db)) (i_activeExpires i) then Inl (Msg ''lifecycle task in progress'')
     else if i_status i \<notin> {Running, Stopped, DestroyScheduled} then Inl (Msg ''instance cannot be resumed'')
     else
       let runtime = resumedRuntime (i_runtime i);
           base = (case i_expires i of Some e \<Rightarrow> if after e (now db) then e else now db | None \<Rightarrow> now db)
       in bindE (paidMonths r p) (\<lambda>months.
       let expires = addMonths base months;
           task = newTask taskID iid Start (RenewKey (o_id r)) (now db) (now db)
       in bindE (liftT (transitionInstance iid [i_status i] runtime (Some runtime) (renewedRow expires) db)) (\<lambda>db1.
       bindE (insertTask task
          (reviewPayments ''confirmed'' actor (o_id r)
            (setOrder (o_id r) (\<lambda>x. x\<lparr>o_instance := Some iid, o_status := OrderDeploy, o_start := Some base,
               o_expires := Some expires, o_updatedAt := now db\<rparr>) db1))) (\<lambda>db2.
       Inr (task, createNotification (o_owner r) ''order'' (o_id r)
         (appendTaskEvent taskID ''queued'' (writeAudit actor ''order.confirm_renewal'' (o_id r) db2)))))))"

definition confirmOrder ::
  "(string \<Rightarrow> string) \<Rightarrow> duration \<Rightarrow> id \<Rightarrow> id \<Rightarrow> id \<Rightarrow> id \<Rightarrow> db \<Rightarrow> error + controlTask \<times> db" where
  "confirmOrder routeKey ttl iid taskID oid actor db =
     bindE (orElse (select (\<lambda>r. o_id r = oid) (orders db)) ErrNoRows) (\<lambda>r.
     bindE (orElse (select (\<lambda>p. p_id p = o_plan r) (plans db)) ErrNoRows) (\<lambda>p.
     bindE (orElse (select (\<lambda>g. g_id g = o_image r) (images db)) ErrNoRows) (\<lambda>img.
     if o_status r \<noteq> OrderPending \<and> o_status r \<noteq> OrderReview then Inl (Msg ''order cannot be confirmed'')
     else if \<not> p_enabled p \<or> \<not> g_enabled img then Inl (Msg ''plan or image withdrawn'')
     else case o_renewal r of
       Some renewal \<Rightarrow> confirmRenewal taskID actor r p renewal db
     | None \<Rightarrow>
         (case selectNodeForPlan ttl p db of
            Inl _ \<Rightarrow> Inl (Msg ''out of capacity'')
          | Inr n \<Rightarrow>
              bindE (paidMonths r p) (\<lambda>months.
              let expires = addMonths (now db) months;
                  task = newTask taskID iid Create (CreateKey iid) (now db) (now db)
              in bindE (insertInst (deployRow routeKey iid (o_owner r) oid img (g_version img) None p n expires (now db)) db) (\<lambda>db1.
              bindE (insertTask task
                 (reviewPayments ''confirmed'' actor oid
                   (setOrder oid (\<lambda>x. x\<lparr>o_instance := Some iid, o_status := OrderDeploy, o_start := Some (now db),
                      o_expires := Some expires, o_updatedAt := now db\<rparr>) db1))) (\<lambda>db2.
              Inr (task, createNotification (o_owner r) ''order'' oid
                (appendTaskEvent taskID ''queued'' (writeAudit actor ''order.confirm'' oid db2)))))))))) "

section \<open>Wallet purchases\<close>

text \<open>The debit both transactions start with: nothing is written for a free order.\<close>

definition debitWallet :: "id \<Rightarrow> entrytype \<Rightarrow> id \<Rightarrow> id \<Rightarrow> int \<Rightarrow> int \<Rightarrow> db \<Rightarrow> error + db" where
  "debitWallet entryID kind ownerID orderID balance amount db =
     (if amount > 0 then
        insertEntry \<lparr>we_id = entryID, we_user = ownerID, we_amount = - amount, we_after = balance - amount,
            we_type = kind, we_actor = ownerID, we_order = Some orderID, we_change = None, we_key = None,
            we_createdAt = now db\<rparr> (setBalance ownerID (balance - amount) db)
      else Inr db)"

definition walletOrder ::
  "id \<Rightarrow> id \<Rightarrow> id \<Rightarrow> id \<Rightarrow> id \<Rightarrow> id \<Rightarrow> benefitQuote \<Rightarrow> ostatus \<Rightarrow> string \<Rightarrow> string option \<Rightarrow> gotime \<Rightarrow> gotime \<Rightarrow> gotime \<Rightarrow> order" where
  "walletOrder oid entryID ownerID planID imageID iid q status version digest start expires t =
     blankOrder\<lparr>o_id := oid, o_owner := ownerID, o_plan := planID, o_image := imageID, o_instance := Some iid,
       o_amount := q_amount q, o_list := q_list q, o_discount := q_discount q, o_status := status,
       o_source := Some ''wallet'', o_walletEntry := (if q_amount q > 0 then Some entryID else None),
       o_selVersion := Some version, o_selDigest := digest, o_start := Some start, o_expires := Some expires,
       o_createdAt := t, o_updatedAt := t\<rparr>"

text \<open>The fresh ids one call draws.\<close>

record freshIds =
  f_order :: id
  f_inst :: id
  f_task :: id
  f_entry :: id

definition purchaseDigest :: "id \<Rightarrow> string \<Rightarrow> db \<Rightarrow> error + string" where
  "purchaseDigest imageID version db =
     (case select (\<lambda>v. v_image v = imageID \<and> v_tag v = version \<and> purchasable v) (imageVersions db) of
        Some v \<Rightarrow> Inr (v_digest v)
      | None \<Rightarrow> if version \<noteq> ''latest'' then Inl (Msg ''image version not for sale'') else Inr [])"

definition purchaseWithWallet ::
  "(string \<Rightarrow> string) \<Rightarrow> (string \<Rightarrow> string) \<Rightarrow> duration \<Rightarrow> freshIds \<Rightarrow> id \<Rightarrow> id \<Rightarrow> id \<Rightarrow> string \<Rightarrow> int \<Rightarrow> string \<Rightarrow> db
     \<Rightarrow> error + (order \<times> controlTask) \<times> db" where
  "purchaseWithWallet hash routeKey ttl fresh ownerID planID imageID imageVersion months promo db =
     (if \<not> validSubscriptionMonths months then Inl (Msg ''1, 3, 6 or 12 months'')
      else bindE (orElse (select (\<lambda>p. p_id p = planID \<and> p_enabled p) (plans db)) (Msg ''plan not for sale'')) (\<lambda>p.
      bindE (orElse (select (\<lambda>g. g_id g = imageID \<and> g_enabled g) (images db)) (Msg ''image not for sale'')) (\<lambda>img.
      let version = (let v = trimSpace imageVersion in if v = [] then g_version img else v) in
      if \<not> validImageTag version then Inl (Msg ''invalid image version'')
      else bindE (purchaseDigest imageID version db) (\<lambda>digest.
      bindE (orElse (walletOf ownerID db) (Msg ''log in again'')) (\<lambda>balance.
      bindE (quoteCommercialBenefit hash ownerID PurchaseScope (p_id p) [] months (p_monthly p) promo db) (\<lambda>q.
      if balance < q_amount q then Inl (Msg ''insufficient balance'')
      else bindE (selectNodeForPlan ttl p db) (\<lambda>n.
      let oid = f_order fresh; iid = f_inst fresh;
          expires = addDays (addMonths (now db) months) (q_bonus q);
          r = (walletOrder oid (f_entry fresh) ownerID (p_id p) (g_id img) iid q OrderDeploy version
                 (nullable digest) (now db) expires (now db))\<lparr>o_node := Some (n_id n)\<rparr>;
          task = newTask (f_task fresh) iid Create (CreateKey iid) (now db) (now db)
      in bindE (debitWallet (f_entry fresh) EntryPurchase ownerID oid balance (q_amount q) db) (\<lambda>db1.
      bindE (insertOrder r db1) (\<lambda>db2.
      bindE (consumeCommercialBenefitTx ownerID oid q db2) (\<lambda>db3.
      bindE (insertInst (deployRow routeKey iid ownerID oid img version (nullable digest) p n expires (now db)) db3) (\<lambda>db4.
      bindE (insertTask task db4) (\<lambda>db5.
      Inr ((r, task),
        (let d = createNotification ownerID ''purchase'' oid (appendTaskEvent (f_task fresh) ''queued''
                   (writeAudit ownerID ''purchase.create'' oid db5))
         in if q_program q \<noteq> None then createNotification ownerID ''benefit'' oid d else d))))))))))))))"

section \<open>Wallet renewals\<close>

text \<open>The actions that block a renewal while pending or running.\<close>

definition renewalBlocker :: "action \<Rightarrow> bool" where
  "renewalBlocker a \<longleftrightarrow> a \<in> {Create, RetryDeploy, Start, Stop, Update, Restart, Reinstall, Destroy, Purge,
     Resize, CompensateResize}"

text \<open>The plan a renewal is priced by: the target of the latest settled plan change when it differs
  from the plan of the order.\<close>

definition latestChange :: "id \<Rightarrow> db \<Rightarrow> planChange option" where
  "latestChange iid db =
     (case sort_key (\<lambda>c. case pc_completedAt c of Some t \<Rightarrow> (0 :: nat, - t) | None \<Rightarrow> (1, 0))
             (filter (\<lambda>c. pc_instance c = iid \<and> pc_status c = Succeeded) (planChanges db)) of
        [] \<Rightarrow> None | c # _ \<Rightarrow> Some c)"

definition renewalPlan :: "order \<Rightarrow> id \<Rightarrow> plan \<Rightarrow> db \<Rightarrow> error + plan" where
  "renewalPlan r iid p db =
     (case latestChange iid db of None \<Rightarrow> Inr p
      | Some c \<Rightarrow> if pc_targetPlan c \<noteq> [] \<and> pc_targetPlan c \<noteq> o_plan r
                  then orElse (select (\<lambda>x. p_id x = pc_targetPlan c) (plans db)) (Msg ''current plan unavailable'')
                  else Inr p)"

text \<open>The checks before any price is computed. The parenthesised condition on \<open>Destroy\<close> is the code's
  \<open>AND (? OR action<>'destroy')\<close>.\<close>

definition expiredDestroy :: "inst \<Rightarrow> bool" where
  "expiredDestroy i \<longleftrightarrow> i_status i = DestroyScheduled \<and> i_destroyReason i = Some Expired"

definition renewCheck :: "id \<Rightarrow> id \<Rightarrow> db \<Rightarrow> error + order \<times> plan \<times> catalogImage \<times> inst" where
  "renewCheck ownerID sourceOrderID db =
     bindE (orElse (select (\<lambda>r. o_id r = sourceOrderID \<and> o_owner r = ownerID \<and>
         o_status r \<in> {OrderActive, OrderExpired}) (orders db)) (Msg ''order cannot be renewed'')) (\<lambda>src.
     bindE (orElse (select (\<lambda>p. p_id p = o_plan src) (plans db)) (Msg ''order cannot be renewed'')) (\<lambda>p0.
     bindE (orElse (select (\<lambda>g. g_id g = o_image src) (images db)) (Msg ''order cannot be renewed'')) (\<lambda>img.
     bindE (orElse (select (\<lambda>i. sqlEq (Some (i_id i)) (o_instance src)) (instances db)) (Msg ''order cannot be renewed'')) (\<lambda>i.
     bindE (renewalPlan src (i_id i) p0 db) (\<lambda>p.
     if \<not> p_enabled p then Inl (Msg ''plan withdrawn'')
     else if someAnd (\<lambda>e. after e (now db)) (i_activeExpires i) then Inl (Msg ''lifecycle task in progress'')
     else if countRows (\<lambda>t. t_instance t = i_id i \<and> t_status t \<in> {TaskPending, TaskRunning} \<and>
            renewalBlocker (t_action t) \<and> (expiredDestroy i \<or> t_action t \<noteq> Destroy)) (tasks db) > 0
     then Inl (Msg ''lifecycle task in progress'')
     else if i_status i = DestroyScheduled \<and> i_destroyReason i = Some Refunded then Inl (Msg ''refunded'')
     else if i_status i \<noteq> Running \<and> i_status i \<noteq> Stopped \<and> \<not> expiredDestroy i
     then Inl (Msg ''instance cannot be renewed'')
     else Inr (src, p, img, i))))))"

definition renewWithWallet ::
  "(string \<Rightarrow> string) \<Rightarrow> freshIds \<Rightarrow> id \<Rightarrow> id \<Rightarrow> int \<Rightarrow> string \<Rightarrow> db \<Rightarrow> error + (order \<times> controlTask option) \<times> db" where
  "renewWithWallet hash fresh ownerID sourceOrderID months promo db =
     (if \<not> validSubscriptionMonths months then Inl (Msg ''1, 3, 6 or 12 months'')
      else bindE (renewCheck ownerID sourceOrderID db) (\<lambda>(src, p, img, i).
      bindE (orElse (walletOf ownerID db) (Msg ''log in again'')) (\<lambda>balance.
      bindE (quoteCommercialBenefit hash ownerID RenewalScope (p_id p) (i_id i) months (p_monthly p) promo db) (\<lambda>q.
      if balance < q_amount q then Inl (Msg ''insufficient balance'')
      else
      let oid = f_order fresh; iid = i_id i;
          base = (case i_expires i of Some e \<Rightarrow> if after e (now db) then e else now db | None \<Rightarrow> now db);
          expires = addDays (addMonths base months) (q_bonus q);
          version = (case o_selVersion src of Some v \<Rightarrow> v | None \<Rightarrow> g_version img);
          r = walletOrder oid (f_entry fresh) ownerID (p_id p) (g_id img) iid q OrderActive version
                (o_selDigest src) base expires (now db);
          runtime = resumedRuntime (i_runtime i);
          task = (if expiredDestroy i \<and> runtime \<noteq> Running
                  then Some (newTask (f_task fresh) iid Start (RenewStartKey iid oid) (now db) (now db)) else None)
      in bindE (debitWallet (f_entry fresh) EntryRenewal ownerID oid balance (q_amount q) db) (\<lambda>db1.
      bindE (insertOrder r db1) (\<lambda>db2.
      bindE (consumeCommercialBenefitTx ownerID oid q db2) (\<lambda>db3.
      bindE (liftT (transitionInstance iid [i_status i] runtime (Some runtime) (renewedRow expires) db3)) (\<lambda>db4.
      bindE (case task of None \<Rightarrow> Inr db4 | Some t \<Rightarrow> insertTask t db4) (\<lambda>db5.
      Inr ((r, task),
        (let d0 = writeAudit ownerID ''purchase.renew'' oid db5;
             d1 = (if task \<noteq> None then appendTaskEvent (f_task fresh) ''queued'' d0 else d0);
             d2 = createNotification ownerID ''renewal'' oid d1
         in if q_program q \<noteq> None then createNotification ownerID ''benefit'' oid d2 else d2)))))))))))"

section \<open>The parts of a transaction\<close>

lemma liftT_Inr: "liftT r = Inr d \<longleftrightarrow> r = Inr (True, d)"
  by (auto simp: liftT_def split: sum.splits prod.splits if_splits)

lemma setOrder_frame [simp]:
  "instances (setOrder oid f d) = instances d" "tasks (setOrder oid f d) = tasks d"
  "wallets (setOrder oid f d) = wallets d" "walletEntries (setOrder oid f d) = walletEntries d"
  "now (setOrder oid f d) = now d" "nodes (setOrder oid f d) = nodes d"
  by (simp_all add: setOrder_def)

lemma reviewPayments_frame [simp]:
  "instances (reviewPayments st a oid d) = instances d" "tasks (reviewPayments st a oid d) = tasks d"
  "wallets (reviewPayments st a oid d) = wallets d" "walletEntries (reviewPayments st a oid d) = walletEntries d"
  "now (reviewPayments st a oid d) = now d" "orders (reviewPayments st a oid d) = orders d"
  by (simp_all add: reviewPayments_def)

lemma frameSet_renewed [simp]: "frameSet (renewedRow e)"
  by (simp add: frameSet_def renewedRow_def)

lemma debit_frame:
  assumes "debitWallet w k u oid b a d = Inr d'"
  shows "instances d' = instances d" "tasks d' = tasks d" "orders d' = orders d" "now d' = now d"
  using assms insertEntry_frame(2-5) by (fastforce simp: debitWallet_def split: if_splits)+

lemma debit_ledger:
  assumes l: "ledgerOk d" and b: "walletOf u d = Some b" "a \<le> b" and w: "debitWallet w k u oid b a d = Inr d'"
  shows "ledgerOk d'"
proof (cases "0 < a")
  case True
  let ?e = "\<lparr>we_id = w, we_user = u, we_amount = - a, we_after = b - a, we_type = k, we_actor = u,
    we_order = Some oid, we_change = None, we_key = None, we_createdAt = now d\<rparr>"
  have "insertEntry ?e (setBalance u (b + we_amount ?e) d) = Inr d'"
    using w True by (simp add: debitWallet_def)
  from drift_debit [OF ledger_drift [OF l b(1)] this] have "drift u (b - a) 0 d'" by simp
  then show ?thesis using b(2) by (intro drift_ledger) auto
qed (use w l in \<open>simp add: debitWallet_def\<close>)

lemma debit_balance:
  assumes b: "walletOf u d = Some b" and w: "debitWallet w k u oid b a d = Inr d'" and a: "0 \<le> a"
  shows "walletOf u d' = Some (b - a)"
proof (cases "0 < a")
  case True
  then have "wallets d' = wallets (setBalance u (b - a) d)"
    using w by (auto simp: debitWallet_def dest!: insertEntry_frame(1))
  then show ?thesis using b by (auto simp: walletOf_def setBalance_def select_update_key)
qed (use w a b in \<open>simp add: debitWallet_def\<close>)

text \<open>Operations that only append an instance, and everything else around it.\<close>

lemma wallet_rest:
  assumes "wallets d' = wallets d" "walletEntries d' = walletEntries d" "ledgerOk d"
  shows "ledgerOk d'"
  using ledger_frame [OF assms(1,2)] assms(3) by simp

section \<open>Node selection\<close>

lemma best_fold:
  "(\<forall>n. fold (betterNode c m d) ns b = Some n \<longrightarrow> (n \<in> set ns \<and> fits c m d n) \<or> b = Some n) \<and>
   (\<forall>x \<in> set ns. fits c m d x \<longrightarrow>
      (\<exists>n. fold (betterNode c m d) ns b = Some n \<and> nodeScore c m d n \<le> nodeScore c m d x)) \<and>
   (\<forall>y. b = Some y \<longrightarrow> (\<exists>n. fold (betterNode c m d) ns b = Some n \<and> nodeScore c m d n \<le> nodeScore c m d y))"
proof (induction ns arbitrary: b)
  case (Cons a ns)
  let ?b = "betterNode c m d a b"
  have b1: "\<forall>n. ?b = Some n \<longrightarrow> (n = a \<and> fits c m d a) \<or> b = Some n"
    by (auto simp: betterNode_def split: if_splits option.splits)
  have b2: "\<exists>n. ?b = Some n \<and> nodeScore c m d n \<le> nodeScore c m d a" if "fits c m d a"
    using that by (auto simp: betterNode_def split: option.splits)
  have b3: "\<exists>n. ?b = Some n \<and> nodeScore c m d n \<le> nodeScore c m d y" if "b = Some y" for y
    using that by (auto simp: betterNode_def)
  note IH = Cons.IH [of ?b]
  show ?case
  proof (intro conjI allI ballI impI)
    fix n assume "fold (betterNode c m d) (a # ns) b = Some n"
    then show "(n \<in> set (a # ns) \<and> fits c m d n) \<or> b = Some n" using IH b1 by auto
  next
    fix x assume x: "x \<in> set (a # ns)" "fits c m d x"
    show "\<exists>n. fold (betterNode c m d) (a # ns) b = Some n \<and> nodeScore c m d n \<le> nodeScore c m d x"
    proof (cases "x = a")
      case True
      with x b2 obtain n where n: "?b = Some n" "nodeScore c m d n \<le> nodeScore c m d x" by blast
      then obtain k where "fold (betterNode c m d) ns ?b = Some k" "nodeScore c m d k \<le> nodeScore c m d n"
        using IH by blast
      with n(2) show ?thesis by (auto intro: order_trans)
    qed (use x IH in auto)
  next
    fix y assume "b = Some y"
    with b3 obtain n where n: "?b = Some n" "nodeScore c m d n \<le> nodeScore c m d y" by blast
    then obtain k where "fold (betterNode c m d) ns ?b = Some k" "nodeScore c m d k \<le> nodeScore c m d n"
      using IH by blast
    with n(2) show "\<exists>n. fold (betterNode c m d) (a # ns) b = Some n \<and> nodeScore c m d n \<le> nodeScore c m d y"
      by (auto intro: order_trans)
  qed
qed simp

lemma selectNode_Inr:
  assumes "selectNodeForPlan ttl p d = Inr n"
  shows "n \<in> set (nodes d)" "healthy ttl d n" "fits (p_cpu p) (p_memory p) d n"
proof -
  have "fold (betterNode (p_cpu p) (p_memory p) d) (filter (healthy ttl d) (nodes d)) None = Some n"
    using assms by (auto simp: selectNodeForPlan_def Let_def split: option.splits if_splits)
  then have "n \<in> set (filter (healthy ttl d) (nodes d)) \<and> fits (p_cpu p) (p_memory p) d n"
    using best_fold [of "p_cpu p" "p_memory p" d "filter (healthy ttl d) (nodes d)" None] by blast
  then show "n \<in> set (nodes d)" "healthy ttl d n" "fits (p_cpu p) (p_memory p) d n" by auto
qed

section \<open>Purchase and renewal, statement by statement\<close>

lemma purchase_cases:
  assumes "purchaseWithWallet hash rk ttl fresh u pl im ver months promo d = Inr ((r, t), d')"
  obtains p img version digest b q n d1 d2 d3 d4 d5 where
    "p \<in> set (plans d)" "p_id p = pl" "p_enabled p" "validSubscriptionMonths months"
    "purchaseDigest im version d = Inr digest"
    "walletOf u d = Some b"
    "quoteCommercialBenefit hash u PurchaseScope (p_id p) [] months (p_monthly p) promo d = Inr q"
    "q_amount q \<le> b" "selectNodeForPlan ttl p d = Inr n"
    "debitWallet (f_entry fresh) EntryPurchase u (f_order fresh) b (q_amount q) d = Inr d1"
    "insertOrder r d1 = Inr d2" "consumeCommercialBenefitTx u (f_order fresh) q d2 = Inr d3"
    "insertInst (deployRow rk (f_inst fresh) u (f_order fresh) img version (nullable digest) p n
       (addDays (addMonths (now d) months) (q_bonus q)) (now d)) d3 = Inr d4"
    "t = newTask (f_task fresh) (f_inst fresh) Create (CreateKey (f_inst fresh)) (now d) (now d)"
    "insertTask t d4 = Inr d5"
    "o_amount r = q_amount q" "o_instance r = Some (f_inst fresh)" "o_status r = OrderDeploy" "o_owner r = u"
    "instances d' = instances d5" "wallets d' = wallets d5" "walletEntries d' = walletEntries d5"
    "tasks d' = tasks d5" "orders d' = orders d5" "planChanges d' = planChanges d5"
  using assms unfolding purchaseWithWallet_def
  by (auto simp: resultE Let_def walletOrder_def split: if_splits dest!: select_SomeD)

lemma renew_cases:
  assumes "renewWithWallet hash fresh u src months promo d = Inr ((r, t), d')"
  obtains i and p :: plan and b q d1 d2 d3 d4 d5 base expires where
    "i \<in> set (instances d)" "p_enabled p" "validSubscriptionMonths months"
    "i_status i = Running \<or> i_status i = Stopped \<or>
       i_status i = DestroyScheduled \<and> i_destroyReason i = Some Expired"
    "walletOf u d = Some b"
    "quoteCommercialBenefit hash u RenewalScope (p_id p) (i_id i) months (p_monthly p) promo d = Inr q"
    "q_amount q \<le> b"
    "base = (case i_expires i of Some e \<Rightarrow> if after e (now d) then e else now d | None \<Rightarrow> now d)"
    "expires = addDays (addMonths base months) (q_bonus q)"
    "debitWallet (f_entry fresh) EntryRenewal u (f_order fresh) b (q_amount q) d = Inr d1"
    "insertOrder r d1 = Inr d2" "consumeCommercialBenefitTx u (f_order fresh) q d2 = Inr d3"
    "transitionInstance (i_id i) [i_status i] (resumedRuntime (i_runtime i)) (Some (resumedRuntime (i_runtime i)))
       (renewedRow expires) d3 = Inr (True, d4)"
    "(case t of None \<Rightarrow> Inr d4 | Some t \<Rightarrow> insertTask t d4) = Inr d5"
    "instances d' = instances d5" "wallets d' = wallets d5" "walletEntries d' = walletEntries d5"
    "tasks d' = tasks d5" "o_amount r = q_amount q" "o_instance r = Some (i_id i)" "o_expires r = Some expires"
    "planChanges d' = planChanges d5"
proof -
  obtain sr p im i where c: "renewCheck u src d = Inr (sr, p, im, i)"
    using assms by (auto simp: renewWithWallet_def bindE_Inr_iff split: if_splits)
  have i: "i \<in> set (instances d)" "p_enabled p" "i_status i = Running \<or> i_status i = Stopped \<or> expiredDestroy i"
    using c by (auto simp: renewCheck_def resultE dest!: select_SomeD split: if_splits)
  define base where "base = (case i_expires i of Some e \<Rightarrow> if after e (now d) then e else now d | None \<Rightarrow> now d)"
  obtain b q where b: "walletOf u d = Some b" "q_amount q \<le> b" "validSubscriptionMonths months"
    "quoteCommercialBenefit hash u RenewalScope (p_id p) (i_id i) months (p_monthly p) promo d = Inr q"
    using assms c by (auto simp: renewWithWallet_def resultE not_less split: if_splits)
  define expires where "expires = addDays (addMonths base months) (q_bonus q)"
  obtain d1 d2 d3 d4 d5 where s:
    "debitWallet (f_entry fresh) EntryRenewal u (f_order fresh) b (q_amount q) d = Inr d1"
    "insertOrder r d1 = Inr d2" "consumeCommercialBenefitTx u (f_order fresh) q d2 = Inr d3"
    "transitionInstance (i_id i) [i_status i] (resumedRuntime (i_runtime i)) (Some (resumedRuntime (i_runtime i)))
       (renewedRow expires) d3 = Inr (True, d4)"
    "(case t of None \<Rightarrow> Inr d4 | Some t \<Rightarrow> insertTask t d4) = Inr d5"
    "instances d' = instances d5" "wallets d' = wallets d5" "walletEntries d' = walletEntries d5"
    "tasks d' = tasks d5" "o_amount r = q_amount q" "o_instance r = Some (i_id i)" "o_expires r = Some expires"
    "planChanges d' = planChanges d5"
    using assms c b unfolding renewWithWallet_def base_def [symmetric] expires_def [symmetric]
    by (auto simp: bindE_Inr_iff liftT_Inr Let_def walletOrder_def base_def expires_def)
  show thesis
    by (rule that [OF i(1,2) b(3) i(3) [unfolded expiredDestroy_def] b(1,4,2) base_def expires_def s])
qed

lemma purchase_ledger:
  assumes l: "ledgerOk d" and c: "purchaseWithWallet hash rk ttl fresh u pl im ver months promo d = Inr ((r, t), d')"
  shows "ledgerOk d'"
proof (rule purchase_cases [OF c])
  fix p :: plan and img version digest b q n d1 d2 d3 d4 d5
  assume b: "walletOf u d = Some b" "q_amount q \<le> b"
    and s: "debitWallet (f_entry fresh) EntryPurchase u (f_order fresh) b (q_amount q) d = Inr d1"
    "insertOrder r d1 = Inr d2" "consumeCommercialBenefitTx u (f_order fresh) q d2 = Inr d3"
    "insertInst (deployRow rk (f_inst fresh) u (f_order fresh) img version (nullable digest) p n
       (addDays (addMonths (now d) months) (q_bonus q)) (now d)) d3 = Inr d4"
    "insertTask t d4 = Inr d5" "wallets d' = wallets d5" "walletEntries d' = walletEntries d5"
  have "wallets d' = wallets d1" "walletEntries d' = walletEntries d1"
    using s consume_frame(1,2) [OF s(3)] by (auto simp: insertE)
  then show ?thesis using debit_ledger [OF l b s(1)] by (rule wallet_rest)
qed

lemma purchase_insts:
  assumes c: "purchaseWithWallet hash rk ttl fresh u pl im ver months promo d = Inr ((r, t), d')"
  obtains p n i where "p \<in> set (plans d)" "p_id p = pl" "selectNodeForPlan ttl p d = Inr n"
    "instances d' = instances d @ [i]" "i_id i = f_inst fresh" "i_owner i = u" "i_status i = Deploying"
    "i_cpu i = p_cpu p" "i_memory i = p_memory p" "i_node i = Some (n_id n)" "i_order i = Some (f_order fresh)"
proof (rule purchase_cases [OF c])
  fix p img version digest b q n d1 d2 d3 d4 d5
  assume p: "p \<in> set (plans d)" "p_id p = pl" "selectNodeForPlan ttl p d = Inr n"
    and s: "debitWallet (f_entry fresh) EntryPurchase u (f_order fresh) b (q_amount q) d = Inr d1"
    "insertOrder r d1 = Inr d2" "consumeCommercialBenefitTx u (f_order fresh) q d2 = Inr d3"
    "insertInst (deployRow rk (f_inst fresh) u (f_order fresh) img version (nullable digest) p n
       (addDays (addMonths (now d) months) (q_bonus q)) (now d)) d3 = Inr d4"
    "insertTask t d4 = Inr d5" "instances d' = instances d5"
  have "instances d3 = instances d"
    using s consume_frame(3) [OF s(3)] debit_frame(1) [OF s(1)] by (auto simp: insertE)
  then have "instances d' = instances d @ [deployRow rk (f_inst fresh) u (f_order fresh) img version (nullable digest) p n
       (addDays (addMonths (now d) months) (q_bonus q)) (now d)]"
    using s by (auto simp: insertE)
  then show thesis using that [OF p] by (simp add: deployRow_def)
qed

lemma renew_ledger:
  assumes l: "ledgerOk d" and c: "renewWithWallet hash fresh u src months promo d = Inr ((r, t), d')"
  shows "ledgerOk d'"
proof (rule renew_cases [OF c])
  fix i and p :: plan and b q d1 d2 d3 d4 d5 base expires
  assume b: "walletOf u d = Some b" "q_amount q \<le> b"
    and s: "debitWallet (f_entry fresh) EntryRenewal u (f_order fresh) b (q_amount q) d = Inr d1"
    "insertOrder r d1 = Inr d2" "consumeCommercialBenefitTx u (f_order fresh) q d2 = Inr d3"
    "transitionInstance (i_id i) [i_status i] (resumedRuntime (i_runtime i)) (Some (resumedRuntime (i_runtime i)))
       (renewedRow expires) d3 = Inr (True, d4)"
    "(case t of None \<Rightarrow> Inr d4 | Some t \<Rightarrow> insertTask t d4) = Inr d5"
    "wallets d' = wallets d5" "walletEntries d' = walletEntries d5"
  have "wallets d5 = wallets d4" "walletEntries d5 = walletEntries d4"
    using s(5) by (auto simp: insertE split: option.splits)
  then have "wallets d' = wallets d1" "walletEntries d' = walletEntries d1"
    using s consume_frame(1,2) [OF s(3)] transition_frame(3,4) [OF s(4)] by (auto simp: insertE)
  then show ?thesis using debit_ledger [OF l b s(1)] by (rule wallet_rest)
qed

lemma renew_insts:
  assumes c: "renewWithWallet hash fresh u src months promo d = Inr ((r, t), d')"
  obtains i expires where "i \<in> set (instances d)" "o_instance r = Some (i_id i)" "o_expires r = Some expires"
    "i_status i = Running \<or> i_status i = Stopped \<or> i_status i = DestroyScheduled \<and> i_destroyReason i = Some Expired"
    "instances d' = update (\<lambda>x. i_id x = i_id i \<and> i_status x \<in> set [i_status i])
       (transitionRow (resumedRuntime (i_runtime i)) (Some (resumedRuntime (i_runtime i))) (renewedRow expires)) (instances d)"
    "canTransitionInstance (i_status i) (resumedRuntime (i_runtime i))"
proof (rule renew_cases [OF c])
  fix i and p :: plan and b q d1 d2 d3 d4 d5 base expires
  assume i: "i \<in> set (instances d)" "i_status i = Running \<or> i_status i = Stopped \<or>
       i_status i = DestroyScheduled \<and> i_destroyReason i = Some Expired"
     "o_instance r = Some (i_id i)" "o_expires r = Some expires"
    and s: "debitWallet (f_entry fresh) EntryRenewal u (f_order fresh) b (q_amount q) d = Inr d1"
    "insertOrder r d1 = Inr d2" "consumeCommercialBenefitTx u (f_order fresh) q d2 = Inr d3"
    "transitionInstance (i_id i) [i_status i] (resumedRuntime (i_runtime i)) (Some (resumedRuntime (i_runtime i)))
       (renewedRow expires) d3 = Inr (True, d4)"
    "(case t of None \<Rightarrow> Inr d4 | Some t \<Rightarrow> insertTask t d4) = Inr d5"
    "instances d' = instances d5"
  have "instances d5 = instances d4" using s(5) by (auto simp: insertE split: option.splits)
  moreover have "instances d3 = instances d"
    using s consume_frame(3) [OF s(3)] debit_frame(1) [OF s(1)] by (auto simp: insertE)
  ultimately show thesis using that [OF i(1,3,4,2)] transition_Inr [OF s(4)] s(6) by auto
qed

lemma renew_path:
  assumes c: "renewWithWallet hash fresh u src months promo d = Inr ((r, t), d')"
  shows "statusPath d d'"
proof (rule renew_insts [OF c])
  fix i expires
  assume d': "instances d' = update (\<lambda>x. i_id x = i_id i \<and> i_status x \<in> set [i_status i])
       (transitionRow (resumedRuntime (i_runtime i)) (Some (resumedRuntime (i_runtime i))) (renewedRow expires)) (instances d)"
    and t: "canTransitionInstance (i_status i) (resumedRuntime (i_runtime i))"
  note f = transitionRow_frame [OF frameSet_renewed, of "resumedRuntime (i_runtime i)" "Some (resumedRuntime (i_runtime i))"]
  show ?thesis by (rule statusPath_update [OF d']) (use t f in auto)
qed

lemma confirmRenewal_cases:
  assumes "confirmRenewal tid actor r p ren d = Inr (t, d')"
  obtains i :: inst and rt e base d1 d2 where "p_monthly p \<noteq> 0"
    "transitionInstance ren [i_status i] rt (Some rt) (renewedRow e) d = Inr (True, d1)"
    "insertTask (newTask tid ren Start (RenewKey (o_id r)) (now d) (now d)) (reviewPayments ''confirmed'' actor (o_id r)
       (setOrder (o_id r) (\<lambda>x. x\<lparr>o_instance := Some ren, o_status := OrderDeploy, o_start := Some base,
          o_expires := Some e, o_updatedAt := now d\<rparr>) d1)) = Inr d2"
    "d' = createNotification (o_owner r) ''order'' (o_id r)
       (appendTaskEvent tid ''queued'' (writeAudit actor ''order.confirm_renewal'' (o_id r) d2))"
proof -
  obtain i m where i: "select (\<lambda>i. i_id i = ren \<and> i_owner i = o_owner r) (instances d) = Some i"
    "i_status i \<in> {Running, Stopped, DestroyScheduled}" and m: "paidMonths r p = Inr m"
    using assms by (auto simp: confirmRenewal_def resultE Let_def split: if_splits)
  have n: "p_monthly p \<noteq> 0" using m by (auto simp: paidMonths_def)
  show thesis
    using assms i(1) if_not_P [of "i_status i \<notin> {Running, Stopped, DestroyScheduled}"] i(2)
    by (simp add: confirmRenewal_def m Let_def bindE_Inr_iff liftT_Inr split: if_splits)
      (elim exE conjE, rule that [OF n], assumption, assumption, erule sym)
qed

lemma confirm_cases:
  assumes "confirmOrder rk ttl iid tid oid actor d = Inr (t, d')"
  obtains r p where "r \<in> set (orders d)" "o_id r = oid" "o_status r = OrderPending \<or> o_status r = OrderReview"
    "p \<in> set (plans d)" "p_id p = o_plan r" "p_monthly p \<noteq> 0"
    "statusPath d d'" "wallets d' = wallets d" "walletEntries d' = walletEntries d" "planChanges d' = planChanges d"
    "\<exists>f. orders d' = update (\<lambda>x. o_id x = oid) f (orders d) \<and> (\<forall>x. o_id (f x) = o_id x \<and> o_status (f x) = OrderDeploy)"
proof -
  obtain r p img where s: "select (\<lambda>r. o_id r = oid) (orders d) = Some r"
    "select (\<lambda>p. p_id p = o_plan r) (plans d) = Some p"
    "select (\<lambda>g. g_id g = o_image r) (images d) = Some img"
    using assms by (auto simp: confirmOrder_def resultE)
  have st: "o_status r = OrderPending \<or> o_status r = OrderReview"
    using assms s by (auto simp: confirmOrder_def resultE split: if_splits)
  have rest: "p_monthly p \<noteq> 0 \<and> statusPath d d' \<and> wallets d' = wallets d \<and> walletEntries d' = walletEntries d \<and> planChanges d' = planChanges d \<and>
    (\<exists>f. orders d' = update (\<lambda>x. o_id x = oid) f (orders d) \<and> (\<forall>x. o_id (f x) = o_id x \<and> o_status (f x) = OrderDeploy))"
  proof (cases "o_renewal r")
    case None
    then obtain n e dg d1 d2 where n: "p_monthly p \<noteq> 0"
      and d1: "insertInst (deployRow rk iid (o_owner r) oid img (g_version img) dg p n e (now d)) d = Inr d1"
      and d2: "insertTask (newTask tid iid Create (CreateKey iid) (now d) (now d)) (reviewPayments ''confirmed'' actor oid
            (setOrder oid (\<lambda>x. x\<lparr>o_instance := Some iid, o_status := OrderDeploy, o_start := Some (now d),
                      o_expires := Some e, o_updatedAt := now d\<rparr>) d1)) = Inr d2"
      and d': "d' = createNotification (o_owner r) ''order'' oid
                (appendTaskEvent tid ''queued'' (writeAudit actor ''order.confirm'' oid d2))"
      using assms s st by (auto simp: confirmOrder_def resultE Let_def paidMonths_def split: if_splits sum.splits)
    show ?thesis
      using n d1 d2 by (auto simp: d' insertE setOrder_def reviewPayments_def intro!: statusPath_append exI [of _ "\<lambda>x. x\<lparr>o_instance := Some iid, o_status := OrderDeploy, o_start := Some (now d),
                      o_expires := Some e, o_updatedAt := now d\<rparr>"])
  next
    case (Some ren)
    then obtain i :: inst and rt e base d1 d2 where n: "p_monthly p \<noteq> 0"
      and d1: "transitionInstance ren [i_status i] rt (Some rt) (renewedRow e) d = Inr (True, d1)"
      and d2: "insertTask (newTask tid ren Start (RenewKey (o_id r)) (now d) (now d)) (reviewPayments ''confirmed'' actor (o_id r)
            (setOrder (o_id r) (\<lambda>x. x\<lparr>o_instance := Some ren, o_status := OrderDeploy, o_start := Some base,
               o_expires := Some e, o_updatedAt := now d\<rparr>) d1)) = Inr d2"
      and d': "d' = createNotification (o_owner r) ''order'' (o_id r)
         (appendTaskEvent tid ''queued'' (writeAudit actor ''order.confirm_renewal'' (o_id r) d2))"
    proof -
      have "confirmRenewal tid actor r p ren d = Inr (t, d')"
        using assms s st Some by (auto simp: confirmOrder_def split: if_splits)
      then show thesis by (rule confirmRenewal_cases) (rule that)
    qed
    have oid: "o_id r = oid" using select_SomeD [OF s(1)] by simp
    show ?thesis
      using n d2 transition_frame [OF d1] statusPath_trans [OF transition_path [OF frameSet_renewed d1] statusPath_same, of d']
      by (auto simp: d' oid insertE setOrder_def reviewPayments_def intro!: exI [of _ "\<lambda>x. x\<lparr>o_instance := Some ren, o_status := OrderDeploy, o_start := Some base,
               o_expires := Some e, o_updatedAt := now d\<rparr>"])
  qed
  show thesis using that select_SomeD [OF s(1)] select_SomeD [OF s(2)] st rest by blast
qed

section \<open>The contracts\<close>

text \<open>Every order transaction keeps the ledger and follows the instance state machine.\<close>

interpretation purchase: wallet_op
  "\<lambda>(hash, rk, ttl, fresh, u, pl, im, ver, months, promo) d.
     bindE (purchaseWithWallet hash rk ttl fresh u pl im ver months promo d) (\<lambda>(r, d'). Inr d')"
  by unfold_locales (auto simp: resultE dest: purchase_ledger)

interpretation renew: wallet_op
  "\<lambda>(hash, fresh, u, src, months, promo) d.
     bindE (renewWithWallet hash fresh u src months promo d) (\<lambda>(r, d'). Inr d')"
  by unfold_locales (auto simp: resultE dest: renew_ledger)

lemma confirm_ledger:
  assumes "ledgerOk d" "confirmOrder rk ttl iid tid oid actor d = Inr (t, d')"
  shows "ledgerOk d'"
  by (rule confirm_cases [OF assms(2)]) (use assms(1) wallet_rest in blast)

interpretation confirm: wallet_op
  "\<lambda>(rk, ttl, iid, tid, oid, actor) d. bindE (confirmOrder rk ttl iid tid oid actor d) (\<lambda>(t, d'). Inr d')"
  by unfold_locales (auto simp: resultE dest: confirm_ledger)

lemma purchase_path:
  assumes "purchaseWithWallet hash rk ttl fresh u pl im ver months promo d = Inr ((r, t), d')"
  shows "statusPath d d'"
  by (rule purchase_insts [OF assms]) (rule statusPath_append)

lemma confirm_path:
  assumes "confirmOrder rk ttl iid tid oid actor d = Inr (t, d')" shows "statusPath d d'"
  by (rule confirm_cases [OF assms])

interpretation purchase_life: lifecycle_op
  "\<lambda>(hash, rk, ttl, fresh, u, pl, im, ver, months, promo) d.
     commitOr d (bindE (purchaseWithWallet hash rk ttl fresh u pl im ver months promo d) (\<lambda>(r, d'). Inr d'))"
  by unfold_locales (auto simp: commitOr_def resultE split: sum.splits dest: purchase_path)

interpretation renew_life: lifecycle_op
  "\<lambda>(hash, fresh, u, src, months, promo) d.
     commitOr d (bindE (renewWithWallet hash fresh u src months promo d) (\<lambda>(r, d'). Inr d'))"
  by unfold_locales (auto simp: commitOr_def resultE split: sum.splits dest: renew_path)

interpretation confirm_life: lifecycle_op
  "\<lambda>(rk, ttl, iid, tid, oid, actor) d.
     commitOr d (bindE (confirmOrder rk ttl iid tid oid actor d) (\<lambda>(t, d'). Inr d'))"
  by unfold_locales (auto simp: commitOr_def resultE split: sum.splits dest: confirm_path)

section \<open>Properties\<close>

text \<open>C20. The scheduler is sound, optimal and complete: the node it returns is stored, enabled, a
  platform node with a fresh heartbeat and has room for the plan, and no healthy node with room has a
  lower load after placement; it fails exactly when no healthy node has room.\<close>

theorem node_selection:
  "case selectNodeForPlan ttl p d of
     Inr n \<Rightarrow> n \<in> set (nodes d) \<and> healthy ttl d n \<and> fits (p_cpu p) (p_memory p) d n \<and>
       (\<forall>m \<in> set (nodes d). healthy ttl d m \<and> fits (p_cpu p) (p_memory p) d m \<longrightarrow>
          nodeScore (p_cpu p) (p_memory p) d n \<le> nodeScore (p_cpu p) (p_memory p) d m)
   | Inl _ \<Rightarrow> (\<forall>m \<in> set (nodes d). \<not> (healthy ttl d m \<and> fits (p_cpu p) (p_memory p) d m))"
proof (cases "selectNodeForPlan ttl p d")
  case (Inl e)
  then have "fold (betterNode (p_cpu p) (p_memory p) d) (filter (healthy ttl d) (nodes d)) None = None"
    by (auto simp: selectNodeForPlan_def Let_def split: option.splits)
  then show ?thesis
    using Inl best_fold [of "p_cpu p" "p_memory p" d "filter (healthy ttl d) (nodes d)" None] by auto
next
  case (Inr n)
  then have f: "fold (betterNode (p_cpu p) (p_memory p) d) (filter (healthy ttl d) (nodes d)) None = Some n"
    by (auto simp: selectNodeForPlan_def Let_def split: option.splits if_splits)
  show ?thesis
    using Inr selectNode_Inr [OF Inr] f
      best_fold [of "p_cpu p" "p_memory p" d "filter (healthy ttl d) (nodes d)" None] by auto
qed

theorem node_selection_witness:
  "\<exists>n. selectNodeForPlan (90 * second) \<lparr>p_id = ''p'', p_cpu = 2, p_memory = 4096, p_monthly = 3000, p_enabled = True\<rparr>
      ((emptyDb 0)\<lparr>nodes := [exampleNode]\<rparr>) = Inr n \<and> healthy (90 * second) ((emptyDb 0)\<lparr>nodes := [exampleNode]\<rparr>) n"
proof -
  let ?p = "\<lparr>p_id = ''p'', p_cpu = 2, p_memory = 4096, p_monthly = 3000, p_enabled = True\<rparr>"
  let ?d = "(emptyDb 0)\<lparr>nodes := [exampleNode]\<rparr>"
  obtain n where "selectNodeForPlan (90 * second) ?p ?d = Inr n"
    by (simp add: selectNodeForPlan_def betterNode_def healthy_def fits_def usedCpu_def usedMem_def
        exampleNode_def emptyDb_def Let_def second_def)
  with node_selection [where ttl = "90 * second" and p = ?p and d = ?d] show ?thesis by auto
qed

text \<open>C0. Purchases never overcommit: if every node of the list has room for the instances reserved on
  it, it still has after a purchase, for CPU and for memory.\<close>

definition withinCapacity :: "db \<Rightarrow> node \<Rightarrow> bool" where
  "withinCapacity d n \<longleftrightarrow> usedCpu (n_id n) d \<le> n_cpuTotal n \<and> usedMem (n_id n) d \<le> n_memTotal n"

theorem purchase_capacity:
  assumes c: "purchaseWithWallet hash rk ttl fresh u pl im ver months promo d = Inr ((r, t), d')"
    and u: "distinct (map n_id (nodes d))" and w: "\<forall>n \<in> set (nodes d). withinCapacity d n"
  shows "\<forall>n \<in> set (nodes d). withinCapacity d' n"
proof (rule purchase_insts [OF c], intro ballI)
  fix p n i m
  assume n: "selectNodeForPlan ttl p d = Inr n" and i: "instances d' = instances d @ [i]"
    "i_status i = Deploying" "i_cpu i = p_cpu p" "i_memory i = p_memory p" "i_node i = Some (n_id n)"
    and m: "m \<in> set (nodes d)"
  have used: "usedCpu (n_id m) d' = usedCpu (n_id m) d + (if n_id m = n_id n then p_cpu p else 0)"
    "usedMem (n_id m) d' = usedMem (n_id m) d + (if n_id m = n_id n then p_memory p else 0)"
    using i by (auto simp: usedCpu_def usedMem_def onNode_def reserved_def)
  show "withinCapacity d' m"
  proof (cases "n_id m = n_id n")
    case True
    then have "m = n" using u m selectNode_Inr(1) [OF n] by (simp add: distinct_map inj_on_def)
    with used selectNode_Inr(3) [OF n] show ?thesis by (simp add: withinCapacity_def fits_def)
  qed (use used w m in \<open>simp add: withinCapacity_def\<close>)
qed

text \<open>A purchase charges exactly its quote and delivers exactly one instance: the balance drops by
  the quoted amount and does not become negative, one instance of the buyer is added, deploying, of the
  plan's size, on a healthy node with room, linked to the order, and its create task is queued.\<close>

theorem purchase_exact:
  assumes c: "purchaseWithWallet hash rk ttl fresh u pl im ver months promo d = Inr ((r, t), d')"
    and a: "0 \<le> o_amount r"
  shows "\<exists>b p n i q. walletOf u d = Some b \<and> walletOf u d' = Some (b - o_amount r) \<and> o_amount r \<le> b \<and>
    quoteCommercialBenefit hash u PurchaseScope pl [] months (p_monthly p) promo d = Inr q \<and> o_amount r = q_amount q \<and>
    p \<in> set (plans d) \<and> p_id p = pl \<and> healthy ttl d n \<and> fits (p_cpu p) (p_memory p) d n \<and>
    instances d' = instances d @ [i] \<and> i_owner i = u \<and> i_status i = Deploying \<and> i_cpu i = p_cpu p \<and>
    i_memory i = p_memory p \<and> i_node i = Some (n_id n) \<and> i_order i = Some (f_order fresh) \<and>
    tasks d' = tasks d @ [t] \<and> t_action t = Create \<and> t_instance t = i_id i"
proof (rule purchase_cases [OF c])
  fix p img version digest b q n d1 d2 d3 d4 d5
  assume p: "p \<in> set (plans d)" "p_id p = pl" "selectNodeForPlan ttl p d = Inr n"
    and b: "walletOf u d = Some b" "q_amount q \<le> b" "o_amount r = q_amount q"
      "quoteCommercialBenefit hash u PurchaseScope (p_id p) [] months (p_monthly p) promo d = Inr q"
    and t: "t = newTask (f_task fresh) (f_inst fresh) Create (CreateKey (f_inst fresh)) (now d) (now d)"
    and s: "debitWallet (f_entry fresh) EntryPurchase u (f_order fresh) b (q_amount q) d = Inr d1"
    "insertOrder r d1 = Inr d2" "consumeCommercialBenefitTx u (f_order fresh) q d2 = Inr d3"
    "insertInst (deployRow rk (f_inst fresh) u (f_order fresh) img version (nullable digest) p n
       (addDays (addMonths (now d) months) (q_bonus q)) (now d)) d3 = Inr d4"
    "insertTask t d4 = Inr d5" "instances d' = instances d5" "wallets d' = wallets d5" "tasks d' = tasks d5"
  let ?i = "deployRow rk (f_inst fresh) u (f_order fresh) img version (nullable digest) p n
       (addDays (addMonths (now d) months) (q_bonus q)) (now d)"
  have i: "instances d' = instances d @ [?i]" "tasks d' = tasks d @ [t]" "wallets d' = wallets d1"
    using s consume_frame(1,3,5) [OF s(3)] debit_frame(1,2) [OF s(1)] by (auto simp: insertE)
  have "walletOf u d' = Some (b - q_amount q)"
    using debit_balance [OF b(1) s(1)] a b(3) i(3) by (simp add: walletOf_def)
  then show ?thesis using p b i t selectNode_Inr [OF p(3)]
    by (intro exI [of _ b] exI [of _ p] exI [of _ n] exI [of _ ?i] exI [of _ q])
      (simp add: deployRow_def newTask_def)
qed

text \<open>A shop with one plan, one image, one node and a customer with money.\<close>

definition examplePlan :: plan where
  "examplePlan = \<lparr>p_id = ''p'', p_cpu = 2, p_memory = 4096, p_monthly = 3000, p_enabled = True\<rparr>"

definition exampleMarket :: db where
  "exampleMarket = (emptyDb 0)\<lparr>nodes := [exampleNode], plans := [examplePlan],
     images := [\<lparr>g_id = ''g'', g_ref = ''repo'', g_digest = [], g_version = ''latest'', g_enabled = True,
       g_terminalOnly = False\<rparr>], wallets := [\<lparr>w_user = ''u'', w_balance = 10000\<rparr>],
     walletEntries := [\<lparr>we_id = ''w0'', we_user = ''u'', we_amount = 10000, we_after = 10000,
       we_type = ManualCredit, we_actor = ''a'', we_order = None, we_change = None, we_key = None,
       we_createdAt = 0\<rparr>]\<rparr>"

definition exampleFresh :: freshIds where
  "exampleFresh = \<lparr>f_order = ''o1'', f_inst = ''i1'', f_task = ''t1'', f_entry = ''w1''\<rparr>"

lemma normalize_empty [simp]: "normalizeBenefitCode [] = []"
  by (simp add: normalizeBenefitCode_def trimSpace_def trimLeft_def trimRight_def toUpper_def)

lemma example_purchase:
  "\<exists>r t d'. purchaseWithWallet h rk (90 * second) exampleFresh ''u'' ''p'' ''g'' [] 3 [] exampleMarket = Inr ((r, t), d') \<and>
     o_amount r = 9000"
proof -
  have v: "validImageTag ''latest''" by code_simp
  have q: "quoteCommercialBenefit h ''u'' PurchaseScope ''p'' [] 3 3000 [] exampleMarket = Inr (plainQuote 9000 0 0)"
    by (simp add: quoteCommercialBenefit_def exampleMarket_def emptyDb_def tierPrice_def candidates_def
        activePrograms_def Let_def)
  have n: "selectNodeForPlan (90 * second) examplePlan exampleMarket = Inr exampleNode"
    by (simp add: selectNodeForPlan_def betterNode_def healthy_def fits_def usedCpu_def usedMem_def
        exampleNode_def exampleMarket_def examplePlan_def emptyDb_def Let_def second_def)
  have p: "plans exampleMarket = [examplePlan]" "p_id examplePlan = ''p''" "p_enabled examplePlan" "p_monthly examplePlan = 3000"
    by (simp_all add: exampleMarket_def examplePlan_def)
  have m: "images exampleMarket = [\<lparr>g_id = ''g'', g_ref = ''repo'', g_digest = [], g_version = ''latest'', g_enabled = True,
       g_terminalOnly = False\<rparr>]" "imageVersions exampleMarket = []" "walletOf ''u'' exampleMarket = Some 10000"
    "orders exampleMarket = []" "instances exampleMarket = []" "tasks exampleMarket = []"
    by (simp_all add: exampleMarket_def emptyDb_def walletOf_def)
  show ?thesis
    by (simp add: purchaseWithWallet_def validSubscriptionMonths_def p m q n v Let_def trimSpace_def trimLeft_def trimRight_def
        purchaseDigest_def debitWallet_def insertEntry_def setBalance_def insertOrder_def consumeCommercialBenefitTx_def
        setOrder_def insertInst_def insertTask_def walletOrder_def plainQuote_def)
qed

theorem purchase_capacity_witness:
  "\<exists>r t d'. purchaseWithWallet id id (90 * second) exampleFresh ''u'' ''p'' ''g'' [] 3 [] exampleMarket = Inr ((r, t), d') \<and>
     (\<forall>n \<in> set (nodes exampleMarket). withinCapacity d' n)"
proof -
  obtain r t d' where c: "purchaseWithWallet id id (90 * second) exampleFresh ''u'' ''p'' ''g'' [] 3 [] exampleMarket = Inr ((r, t), d')"
    using example_purchase by blast
  have "distinct (map n_id (nodes exampleMarket))" "\<forall>n \<in> set (nodes exampleMarket). withinCapacity exampleMarket n"
    by (simp_all add: exampleMarket_def emptyDb_def exampleNode_def withinCapacity_def usedCpu_def usedMem_def)
  from purchase_capacity [OF c this] c show ?thesis by blast
qed

theorem purchase_exact_witness:
  "\<exists>r t d'. purchaseWithWallet id id (90 * second) exampleFresh ''u'' ''p'' ''g'' [] 3 [] exampleMarket = Inr ((r, t), d') \<and>
     walletOf ''u'' d' = Some 1000"
proof -
  obtain r t d' where c: "purchaseWithWallet id id (90 * second) exampleFresh ''u'' ''p'' ''g'' [] 3 [] exampleMarket = Inr ((r, t), d')"
    and a: "o_amount r = 9000" using example_purchase by blast
  have "walletOf ''u'' exampleMarket = Some 10000" by (simp add: walletOf_def exampleMarket_def)
  with purchase_exact [OF c] a c show ?thesis by auto
qed

text \<open>A renewal extends a service that is alive and resumes it: it is granted only for a running or
  stopped instance or one scheduled for destruction because it expired, never after a refund; the
  instance ends up running or stopped, with no destruction scheduled, paid until the new date, which is
  counted from the old expiry or from now, whichever is later.\<close>

theorem renew_exact:
  assumes c: "renewWithWallet hash fresh u src months promo d = Inr ((r, t), d')" and u: "instTab.unique d"
  shows "\<exists>i \<in> set (instances d). o_instance r = Some (i_id i) \<and>
    (i_status i \<in> {Running, Stopped} \<or> expiredDestroy i) \<and>
    (\<exists>e bonus. e = addDays (addMonths (max (now d) (case i_expires i of Some x \<Rightarrow> x | None \<Rightarrow> now d)) months) bonus \<and>
      (\<forall>j \<in> set (instances d'). i_id j = i_id i \<longrightarrow> i_status j \<in> {Running, Stopped} \<and>
         i_destroyAt j = None \<and> i_destroyReason j = None \<and> i_purgeAt j = None \<and> i_expires j = Some e))"
proof (rule renew_cases [OF c])
  fix i and p :: plan and b q d1 d2 d3 d4 d5 base expires
  assume i: "i \<in> set (instances d)" "i_status i = Running \<or> i_status i = Stopped \<or>
       i_status i = DestroyScheduled \<and> i_destroyReason i = Some Expired" "o_instance r = Some (i_id i)"
     and e: "base = (case i_expires i of Some e \<Rightarrow> if after e (now d) then e else now d | None \<Rightarrow> now d)"
       "expires = addDays (addMonths base months) (q_bonus q)"
    and s: "debitWallet (f_entry fresh) EntryRenewal u (f_order fresh) b (q_amount q) d = Inr d1"
    "insertOrder r d1 = Inr d2" "consumeCommercialBenefitTx u (f_order fresh) q d2 = Inr d3"
    "transitionInstance (i_id i) [i_status i] (resumedRuntime (i_runtime i)) (Some (resumedRuntime (i_runtime i)))
       (renewedRow expires) d3 = Inr (True, d4)"
    "(case t of None \<Rightarrow> Inr d4 | Some t \<Rightarrow> insertTask t d4) = Inr d5" "instances d' = instances d5"
  have d3: "instances d3 = instances d"
    using s consume_frame(3) [OF s(3)] debit_frame(1) [OF s(1)] by (auto simp: insertE)
  have d5: "instances d' = instances d4" using s(5,6) by (auto simp: insertE split: option.splits)
  have "instTab.unique d3" "i \<in> set (instances d3)" using u i(1) d3 by (simp_all add: instTab.unique_def)
  note te = transition_exact [OF this frameSet_renewed s(4)]
  have base: "base = max (now d) (case i_expires i of Some x \<Rightarrow> x | None \<Rightarrow> now d)"
    by (simp add: e(1) after_def split: option.splits)
  have run: "resumedRuntime (i_runtime i) \<in> {Running, Stopped}"
    by (auto simp: resumedRuntime_def split: option.splits)
  have "i_status j \<in> {Running, Stopped} \<and> i_destroyAt j = None \<and> i_destroyReason j = None \<and>
      i_purgeAt j = None \<and> i_expires j = Some expires" if "j \<in> set (instances d')" "i_id j = i_id i" for j
    using te that d5 run by (auto simp: transitionRow_def renewedRow_def)
  moreover have "i_status i \<in> {Running, Stopped} \<or> expiredDestroy i" using i(2) by (auto simp: expiredDestroy_def)
  ultimately show ?thesis using i(1,3) e(2) unfolding base by blast
qed

text \<open>An expired instance cannot be renewed while its destroy task is queued, contrary to the
  code's comment: the condition that should exempt the pending \<open>destroy\<close> task counts it exactly when the
  instance is scheduled for destruction because it expired, so every such renewal is refused.\<close>

theorem renew_expired_refused:
  assumes u: "instTab.unique d" "orderTab.unique d" and r: "r \<in> set (orders d)" "o_id r = src" "o_instance r = Some (i_id i)"
    and i: "i \<in> set (instances d)" "expiredDestroy i"
    and t: "t \<in> set (tasks d)" "t_instance t = i_id i" "t_status t = TaskPending" "t_action t = Destroy"
  shows "\<exists>e. renewWithWallet hash fresh u' src months promo d = Inl e"
proof -
  have "\<exists>e. renewCheck u' src d = Inl e"
  proof (rule ccontr)
    assume "\<nexists>e. renewCheck u' src d = Inl e"
    then obtain sr p im i' where c: "renewCheck u' src d = Inr (sr, p, im, i')"
      by (cases "renewCheck u' src d") auto
    have sel: "sr \<in> set (orders d)" "o_id sr = src" "i' \<in> set (instances d)" "sqlEq (Some (i_id i')) (o_instance sr)"
      and n: "countRows (\<lambda>t. t_instance t = i_id i' \<and> t_status t \<in> {TaskPending, TaskRunning} \<and>
            renewalBlocker (t_action t) \<and> (expiredDestroy i' \<or> t_action t \<noteq> Destroy)) (tasks d) = 0"
      using c by (auto simp: renewCheck_def resultE dest!: select_SomeD split: if_splits)
    have "sr = r" using orderTab.key_unique [OF u(2) sel(1) r(1)] sel(2) r(2) by simp
    then have "i' = i" using instTab.key_unique [OF u(1) sel(3) i(1)] sel(4) r(3) by simp
    then show False using n t i(2)
      by (auto simp: countRows_def filter_empty_conv renewalBlocker_def)
  qed
  then show ?thesis by (auto simp: renewWithWallet_def)
qed

definition exampleExpired :: db where
  "exampleExpired = exampleMarket\<lparr>
     instances := [blankInst\<lparr>i_id := ''i'', i_owner := ''u'', i_status := DestroyScheduled, i_runtime := Some Stopped,
       i_destroyReason := Some Expired, i_destroyAt := Some 100, i_expires := Some (- 5)\<rparr>],
     orders := [blankOrder\<lparr>o_id := ''o'', o_owner := ''u'', o_plan := ''p'', o_image := ''g'', o_instance := Some ''i'',
       o_status := OrderExpired\<rparr>]\<rparr>"

theorem renew_expired_refused_witness:
  "\<exists>e. renewWithWallet id exampleFresh ''u'' ''o'' 1 []
     (exampleExpired\<lparr>tasks := [newTask ''t'' ''i'' Destroy (LifecycleKey Destroy ''i'' 100) 100 0]\<rparr>) = Inl e"
  by (rule renew_expired_refused [where i = "blankInst\<lparr>i_id := ''i'', i_owner := ''u'', i_status := DestroyScheduled,
        i_runtime := Some Stopped, i_destroyReason := Some Expired, i_destroyAt := Some 100, i_expires := Some (- 5)\<rparr>"
      and t = "newTask ''t'' ''i'' Destroy (LifecycleKey Destroy ''i'' 100) 100 0"
      and r = "blankOrder\<lparr>o_id := ''o'', o_owner := ''u'', o_plan := ''p'', o_image := ''g'', o_instance := Some ''i'',
       o_status := OrderExpired\<rparr>"])
    (simp_all add: instTab.unique_def orderTab.unique_def exampleExpired_def blankInst_def blankOrder_def
      expiredDestroy_def newTask_def)

text \<open>The same instance without the queued task is renewed.\<close>

theorem renew_exact_witness:
  "\<exists>r t d'. renewWithWallet id exampleFresh ''u'' ''o'' 1 [] exampleExpired = Inr ((r, t), d') \<and>
     (\<forall>j \<in> set (instances d'). i_id j = ''i'' \<longrightarrow> i_status j \<in> {Running, Stopped} \<and> i_destroyAt j = None)"
proof -
  have u: "instTab.unique exampleExpired"
    by (simp add: instTab.unique_def exampleExpired_def blankInst_def)
  have q: "quoteCommercialBenefit id ''u'' RenewalScope ''p'' ''i'' 1 3000 [] exampleExpired = Inr (plainQuote 3000 0 0)"
    by (simp add: quoteCommercialBenefit_def exampleExpired_def exampleMarket_def emptyDb_def tierPrice_def candidates_def
        activePrograms_def Let_def)
  have m: "plans exampleExpired = [examplePlan]" "walletOf ''u'' exampleExpired = Some 10000" "tasks exampleExpired = []"
    "images exampleExpired = [\<lparr>g_id = ''g'', g_ref = ''repo'', g_digest = [], g_version = ''latest'', g_enabled = True,
       g_terminalOnly = False\<rparr>]" "planChanges exampleExpired = []" "now exampleExpired = 0"
    by (simp_all add: exampleExpired_def exampleMarket_def emptyDb_def walletOf_def)
  have ord: "orders exampleExpired = [blankOrder\<lparr>o_id := ''o'', o_owner := ''u'', o_plan := ''p'', o_image := ''g'',
      o_instance := Some ''i'', o_status := OrderExpired\<rparr>]" by (simp add: exampleExpired_def)
  have p: "p_id examplePlan = ''p''" "p_enabled examplePlan" "p_monthly examplePlan = 3000"
    by (simp_all add: examplePlan_def)
  define i where "i = blankInst\<lparr>i_id := ''i'', i_owner := ''u'', i_status := DestroyScheduled, i_runtime := Some Stopped,
       i_destroyReason := Some Expired, i_destroyAt := Some 100, i_expires := Some (- 5)\<rparr>"
  have i: "instances exampleExpired = [i]" "i_id i = ''i''" "i_status i = DestroyScheduled" "i_runtime i = Some Stopped"
    "i_activeExpires i = None" "expiredDestroy i" "i_expires i = Some (- 5)" "i_destroyReason i = Some Expired"
    by (simp_all add: i_def exampleExpired_def blankInst_def expiredDestroy_def)
  have c: "renewCheck ''u'' ''o'' exampleExpired = Inr (blankOrder\<lparr>o_id := ''o'', o_owner := ''u'', o_plan := ''p'',
      o_image := ''g'', o_instance := Some ''i'', o_status := OrderExpired\<rparr>, examplePlan, hd (images exampleExpired), i)"
    using i by (simp add: renewCheck_def m p renewalPlan_def latestChange_def ord)
  have ch: "transitionRow Stopped (Some Stopped) (renewedRow e) i \<noteq> i" for e
    by (simp add: transitionRow_def renewedRow_def i_def blankInst_def)
  obtain r t d' where r: "renewWithWallet id exampleFresh ''u'' ''o'' 1 [] exampleExpired = Inr ((r, t), d')" "o_instance r = Some ''i''"
    by (simp add: renewWithWallet_def validSubscriptionMonths_def c m q p i Let_def plainQuote_def debitWallet_def
        insertEntry_def setBalance_def insertOrder_def consumeCommercialBenefitTx_def setOrder_def walletOrder_def
        transitionInstance_def resumedRuntime_def canTransitionInstance_def ch liftT_def insertTask_def exampleFresh_def ord)
  from renew_exact [OF r(1) u] r(2) have "\<forall>j \<in> set (instances d'). i_id j = ''i'' \<longrightarrow>
      i_status j \<in> {Running, Stopped} \<and> i_destroyAt j = None" by auto
  with r(1) show ?thesis by blast
qed

text \<open>An order is confirmed at most once: confirmation needs a pending or submitted order and moves
  it to deploying, so a second confirmation of the same order fails.\<close>

theorem order_confirmed_once:
  assumes c: "confirmOrder rk ttl iid tid oid actor d = Inr (t, d')" and u: "orderTab.unique d"
    and d2: "orders d2 = orders d'"
  shows "\<exists>e. confirmOrder rk' ttl' iid' tid' oid actor' d2 = Inl e"
proof (rule ccontr)
  assume "\<not> ?thesis"
  then obtain t2 d3 where c2: "confirmOrder rk' ttl' iid' tid' oid actor' d2 = Inr (t2, d3)"
    by (cases "confirmOrder rk' ttl' iid' tid' oid actor' d2") auto
  obtain f where f: "orders d' = update (\<lambda>x. o_id x = oid) f (orders d)" "\<forall>x. o_id (f x) = o_id x \<and> o_status (f x) = OrderDeploy"
    by (rule confirm_cases [OF c]) blast
  show False
  proof (rule confirm_cases [OF c2])
    fix r
    assume r: "r \<in> set (orders d2)" "o_id r = oid" "o_status r = OrderPending \<or> o_status r = OrderReview"
    then obtain r0 where "r = (if o_id r0 = oid then f r0 else r0)" using f(1) d2 by (auto simp: in_update)
    with f(2) r(2,3) show False by (cases "o_id r0 = oid") auto
  qed
qed

text \<open>An order for a free plan can never be confirmed: the number of months is the amount divided
  by the monthly price, so the confirmation of such an order always ends in the division by zero.\<close>

theorem free_plan_never_confirmed:
  assumes "\<forall>p \<in> set (plans d). p_id p = o_plan r \<longrightarrow> p_monthly p = 0"
    and "r \<in> set (orders d)" "o_id r = oid" "orderTab.unique d"
  shows "\<exists>e. confirmOrder rk ttl iid tid oid actor d = Inl e"
proof (rule ccontr)
  assume "\<not> ?thesis"
  then obtain t d' where "confirmOrder rk ttl iid tid oid actor d = Inr (t, d')"
    by (cases "confirmOrder rk ttl iid tid oid actor d") auto
  then show False
    by (rule confirm_cases) (use assms orderTab.key_unique in metis)
qed

definition exampleOrder :: order where
  "exampleOrder = blankOrder\<lparr>o_id := ''o'', o_owner := ''u'', o_plan := ''p'', o_image := ''g'', o_amount := 6000\<rparr>"

theorem order_confirmed_once_witness:
  "\<exists>t d' e. confirmOrder id (90 * second) ''i1'' ''t1'' ''o'' ''a'' (exampleMarket\<lparr>orders := [exampleOrder]\<rparr>) = Inr (t, d') \<and>
     confirmOrder id (90 * second) ''i2'' ''t2'' ''o'' ''a'' d' = Inl e"
proof -
  let ?d = "exampleMarket\<lparr>orders := [exampleOrder]\<rparr>"
  have u: "orderTab.unique ?d" by (simp add: orderTab.unique_def)
  have n: "selectNodeForPlan (90 * second) examplePlan ?d = Inr exampleNode"
    by (simp add: selectNodeForPlan_def betterNode_def healthy_def fits_def usedCpu_def usedMem_def
        exampleNode_def exampleMarket_def examplePlan_def emptyDb_def Let_def second_def)
  have f: "plans ?d = [examplePlan]" "p_id examplePlan = ''p''" "p_enabled examplePlan" "p_monthly examplePlan = 3000"
    "images ?d = [\<lparr>g_id = ''g'', g_ref = ''repo'', g_digest = [], g_version = ''latest'', g_enabled = True,
       g_terminalOnly = False\<rparr>]" "instances ?d = []" "tasks ?d = []" "orders ?d = [exampleOrder]"
    by (simp_all add: exampleMarket_def examplePlan_def emptyDb_def)
  have r: "o_id exampleOrder = ''o''" "o_plan exampleOrder = ''p''" "o_image exampleOrder = ''g''"
    "o_status exampleOrder = OrderPending" "o_renewal exampleOrder = None" "o_amount exampleOrder = 6000"
    by (simp_all add: exampleOrder_def blankOrder_def)
  obtain t d' where c: "confirmOrder id (90 * second) ''i1'' ''t1'' ''o'' ''a'' ?d = Inr (t, d')"
    using f n by (auto simp: confirmOrder_def r paidMonths_def Let_def insertInst_def insertTask_def)
  obtain e where "confirmOrder id (90 * second) ''i2'' ''t2'' ''o'' ''a'' d' = Inl e"
    using order_confirmed_once [OF c u refl] by blast
  with c show ?thesis by blast
qed

theorem free_plan_never_confirmed_witness:
  "\<exists>e. confirmOrder id (90 * second) ''i1'' ''t1'' ''o'' ''a''
     (exampleMarket\<lparr>orders := [exampleOrder\<lparr>o_amount := 0\<rparr>], plans := [examplePlan\<lparr>p_monthly := 0\<rparr>]\<rparr>) = Inl e"
  by (rule free_plan_never_confirmed [where r = "exampleOrder\<lparr>o_amount := 0\<rparr>"])
    (simp_all add: orderTab.unique_def exampleOrder_def)

end
