(* ===== verification/Refund.thy ===== *)
theory Refund
  imports Orders "HOL-Library.Char_ord" "HOL-Library.List_Lexorder"
begin

text \<open>
  Self-service refunds (\<open>refund.go\<close>): the active orders of an instance form a chain of service
  segments; the part after the cut-off is prorated, paid back to the wallet segment by segment, and
  the instance is scheduled for destruction at the cut-off. \<open>settle\<close> is the loop of \<open>refundOrder\<close>
  over the segments; \<open>fresh\<close> supplies the ids of the wallet entries it writes.
\<close>

section \<open>Quotes\<close>

record refundSegment =
  s_id :: id
  s_status :: ostatus
  s_amount :: int
  s_start :: gotime
  s_end :: gotime
  s_source :: string

record refundQuote =
  rq_order :: id
  rq_total :: int
  rq_remaining :: int
  rq_refundable :: int
  rq_amount :: int
  rq_ends :: gotime
  rq_purge :: gotime

fun validateRefundSegments :: "refundSegment list \<Rightarrow> error + unit" where
  "validateRefundSegments [] = Inr ()"
| "validateRefundSegments [s] =
     (if \<not> after (s_end s) (s_start s) then Inl (Msg ''invalid service window'') else Inr ())"
| "validateRefundSegments (s # r # rs) =
     (if \<not> after (s_end s) (s_start s) then Inl (Msg ''invalid service window'')
      else if \<not> after (s_end r) (s_start r) then Inl (Msg ''invalid service window'')
      else if s_start r \<noteq> s_end s then Inl (Msg ''service windows not contiguous'')
      else validateRefundSegments (r # rs))"

definition segStart :: "gotime \<Rightarrow> refundSegment \<Rightarrow> gotime" where
  "segStart cutoff s = (if after (s_start s) cutoff then s_start s else cutoff)"

definition segDays :: "gotime \<Rightarrow> refundSegment \<Rightarrow> int" where
  "segDays cutoff s = go_div (time_sub (s_end s) (segStart cutoff s)) refundDay"

text \<open>The accumulators of the loop of \<open>quoteInstanceRefund\<close>: amount, total days, refundable days and
  the number of active segments.\<close>

fun quoteLoop :: "gotime \<Rightarrow> refundSegment list \<Rightarrow> int \<times> int \<times> int \<times> nat \<Rightarrow> error + int \<times> int \<times> int \<times> nat" where
  "quoteLoop cutoff [] acc = Inr acc"
| "quoteLoop cutoff (s # ss) (amount, tot, days, active) =
     (if s_status s \<noteq> OrderActive then quoteLoop cutoff ss (amount, tot, days, active)
      else if s_source s \<noteq> ''wallet'' then Inl (Msg ''only wallet orders'')
      else if \<not> after (s_end s) (s_start s) then Inl (Msg ''invalid service window'')
      else let tot1 = tot + go_div (time_sub (s_end s) (s_start s)) refundDay in
        if \<not> after (s_end s) cutoff then quoteLoop cutoff ss (amount, tot1, days, Suc active)
        else if segDays cutoff s \<le> 0 then quoteLoop cutoff ss (amount, tot1, days, Suc active)
        else quoteLoop cutoff ss
          (amount + prorateFen (s_amount s) (s_start s) (s_end s) (segStart cutoff s), tot1,
           days + segDays cutoff s, Suc active))"

definition quoteInstanceRefund :: "refundSegment list \<Rightarrow> id \<Rightarrow> gotime \<Rightarrow> error + refundQuote" where
  "quoteInstanceRefund segments orderID t =
     bindE (validateRefundSegments segments) (\<lambda>_.
       let cutoff = refundCutoffAt t in
       bindE (quoteLoop cutoff segments (0, 0, 0, 0)) (\<lambda>(amount, tot, days, active).
         if active = 0 \<or> amount < 1 then Inl (Msg ''nothing to refund'')
         else Inr \<lparr>rq_order = orderID, rq_total = tot, rq_remaining = days, rq_refundable = days,
                   rq_amount = amount, rq_ends = cutoff, rq_purge = cutoff + refundRetentionDays * refundDay\<rparr>))"

definition refundAmountForSegment :: "gotime \<Rightarrow> refundSegment \<Rightarrow> int" where
  "refundAmountForSegment cutoff s =
     (if s_amount s \<le> 0 \<or> \<not> after (s_end s) cutoff then 0
      else prorateFen (s_amount s) (s_start s) (s_end s) (segStart cutoff s))"

text \<open>The rows of \<open>refundSegments\<close>, ordered by start and id.\<close>

definition segmentRow :: "id \<Rightarrow> id \<Rightarrow> order \<Rightarrow> bool" where
  "segmentRow iid ownerID r \<longleftrightarrow> o_instance r = Some iid \<and> o_owner r = ownerID \<and> o_status r = OrderActive \<and>
     o_start r \<noteq> None \<and> o_expires r \<noteq> None"

definition toSegment :: "order \<Rightarrow> refundSegment" where
  "toSegment r = \<lparr>s_id = o_id r, s_status = o_status r, s_amount = o_amount r, s_start = the (o_start r),
     s_end = the (o_expires r), s_source = (case o_source r of None \<Rightarrow> [] | Some s \<Rightarrow> s)\<rparr>"

definition refundSegments :: "id \<Rightarrow> id \<Rightarrow> db \<Rightarrow> refundSegment list" where
  "refundSegments iid ownerID db =
     sort_key (\<lambda>s. (s_start s, s_id s)) (map toSegment (filter (segmentRow iid ownerID) (orders db)))"

datatype quoteAnswer = Eligible refundQuote | Refused error

definition refundQuoteForOrder :: "id \<Rightarrow> id \<Rightarrow> db \<Rightarrow> error + quoteAnswer" where
  "refundQuoteForOrder ownerID orderID db =
     bindE (orElse (select (\<lambda>r. o_id r = orderID \<and> o_owner r = ownerID) (orders db)) (Msg ''no such order'')) (\<lambda>r.
     case o_instance r of None \<Rightarrow> Inl (Msg ''no service yet'')
     | Some iid \<Rightarrow>
         if (case select (\<lambda>i. i_id i = iid \<and> i_owner i = ownerID) (instances db) of
               None \<Rightarrow> False | Some i \<Rightarrow> i_destroyReason i = Some UserNoRefund)
         then Inr (Refused (Msg ''destroyed without refund''))
         else (case quoteInstanceRefund (refundSegments iid ownerID db) orderID (now db) of
                 Inl e \<Rightarrow> Inr (Refused e) | Inr q \<Rightarrow> Inr (Eligible q)))"

section \<open>Settlement\<close>

definition refundedOrder :: "gotime \<Rightarrow> gotime \<Rightarrow> int \<Rightarrow> id option \<Rightarrow> order \<Rightarrow> order" where
  "refundedOrder end_at t amount entry r = r\<lparr>o_status := OrderRefund, o_expires := Some end_at, o_refundedAt := Some t,
     o_refundAmount := amount, o_refundEntry := entry, o_updatedAt := t\<rparr>"

definition settleSegment :: "id \<Rightarrow> (id \<Rightarrow> id) \<Rightarrow> id \<Rightarrow> gotime \<Rightarrow> refundSegment \<Rightarrow> int \<Rightarrow> db \<Rightarrow> error + int \<times> db" where
  "settleSegment settlementID fresh ownerID cutoff s current db =
     (let amount = refundAmountForSegment cutoff s;
          end_at = segStart cutoff s;
          entryID = (if amount > 0 then Some (fresh (s_id s)) else None);
          nxt = (if amount > 0 then current + amount else current)
      in bindE
        (if amount > 0
         then insertEntry \<lparr>we_id = fresh (s_id s), we_user = ownerID, we_amount = amount, we_after = nxt,
                we_type = EntryRefund, we_actor = ownerID, we_order = Some (s_id s), we_change = None,
                we_key = Some (InstanceRefundKey settlementID (s_id s)), we_createdAt = now db\<rparr> db
         else Inr db) (\<lambda>db1.
        let db2 = db1\<lparr>settlementItems := settlementItems db1 @ [\<lparr>si_settlement = settlementID, si_order = s_id s,
                     si_refund = amount, si_entry = entryID\<rparr>]\<rparr>
        in Inr (nxt, db2\<lparr>orders := update (\<lambda>r. o_id r = s_id s \<and> o_status r = OrderActive)
                  (refundedOrder end_at (now db) amount entryID) (orders db2)\<rparr>)))"

fun settle :: "id \<Rightarrow> (id \<Rightarrow> id) \<Rightarrow> id \<Rightarrow> gotime \<Rightarrow> refundSegment list \<Rightarrow> int \<Rightarrow> db \<Rightarrow> error + int \<times> db" where
  "settle settlementID fresh ownerID cutoff [] current db = Inr (current, db)"
| "settle settlementID fresh ownerID cutoff (s # ss) current db =
     (if s_status s \<noteq> OrderActive then settle settlementID fresh ownerID cutoff ss current db
      else bindE (settleSegment settlementID fresh ownerID cutoff s current db) (\<lambda>(nxt, db1).
        settle settlementID fresh ownerID cutoff ss nxt db1))"

definition refundSchedule :: "gotime \<Rightarrow> inst \<Rightarrow> inst" where
  "refundSchedule cutoff r = r\<lparr>i_expires := Some cutoff, i_destroyAt := Some cutoff, i_destroyReason := Some Refunded,
     i_destroyedAt := None, i_purgeAt := None, i_retentionDays := refundRetentionDays\<rparr>"

text \<open>What happens to the instance: nothing when it is already gone.\<close>

definition refundInstance :: "id \<Rightarrow> id \<Rightarrow> gotime \<Rightarrow> db \<Rightarrow> error + db" where
  "refundInstance iid ownerID cutoff db =
     (case select (\<lambda>i. i_id i = iid \<and> i_owner i = ownerID) (instances db) of
        None \<Rightarrow> Inr db
      | Some i \<Rightarrow>
          if i_destroyReason i = Some UserNoRefund then Inl (Msg ''destroyed without refund'')
          else if i_status i = Destroyed \<or> i_status i = Purged then Inr db
          else if i_status i \<noteq> Running \<and> i_status i \<noteq> Stopped then Inl (Msg ''instance not refundable'')
          else
            let rt = (case i_runtime i of None \<Rightarrow> i_status i | Some s \<Rightarrow> s);
                runtime = (if rt \<noteq> Running \<and> rt \<noteq> Stopped then Stopped else rt)
            in liftT (transitionInstance iid [i_status i] DestroyScheduled (Some runtime) (refundSchedule cutoff) db))"

definition refundOrder :: "id \<Rightarrow> (id \<Rightarrow> id) \<Rightarrow> id \<Rightarrow> id \<Rightarrow> db \<Rightarrow> error + refundQuote \<times> db" where
  "refundOrder settlementID fresh ownerID orderID db =
     bindE (orElse (select (\<lambda>r. o_id r = orderID \<and> o_owner r = ownerID) (orders db)) (Msg ''no such order'')) (\<lambda>r.
     bindE (orElse (o_instance r) (Msg ''no service yet'')) (\<lambda>iid.
     let segments = refundSegments iid ownerID db in
     bindE (quoteInstanceRefund segments orderID (now db)) (\<lambda>q.
     if (iid, orderID) \<in> (\<lambda>s. (rs_instance s, rs_order s)) ` set (settlements db) then Inl ErrDuplicate
     else
     let db1 = db\<lparr>settlements := settlements db @ [\<lparr>rs_id = settlementID, rs_instance = iid, rs_owner = ownerID,
            rs_order = orderID, rs_total = rq_amount q, rs_ends = rq_ends q, rs_purge = rq_purge q\<rparr>]\<rparr>
     in bindE (orElse (walletOf ownerID db1) (Msg ''no wallet'')) (\<lambda>balance.
     bindE (settle settlementID fresh ownerID (rq_ends q) segments balance db1) (\<lambda>(current, db2).
     if current \<noteq> balance + rq_amount q then Inl (Msg ''refund items do not add up'')
     else bindE (refundInstance iid ownerID (rq_ends q) (setBalance ownerID current db2)) (\<lambda>db3.
     Inr (q, createNotification ownerID ''refund'' orderID (writeAudit ownerID ''order.refund'' orderID db3))))))))"

section \<open>What the loops compute\<close>

definition quoted :: "gotime \<Rightarrow> refundSegment \<Rightarrow> int" where
  "quoted cutoff s = (if s_status s = OrderActive \<and> after (s_end s) cutoff \<and> segDays cutoff s > 0
     then prorateFen (s_amount s) (s_start s) (s_end s) (segStart cutoff s) else 0)"

definition paidBack :: "gotime \<Rightarrow> refundSegment \<Rightarrow> int" where
  "paidBack cutoff s = (if s_status s = OrderActive \<and> refundAmountForSegment cutoff s > 0
     then refundAmountForSegment cutoff s else 0)"

definition activeIds :: "refundSegment list \<Rightarrow> id set" where
  "activeIds ss = s_id ` set (filter (\<lambda>s. s_status s = OrderActive) ss)"

lemma activeIds_simps [simp]:
  "activeIds [] = {}"
  "activeIds (s # ss) = (if s_status s = OrderActive then insert (s_id s) (activeIds ss) else activeIds ss)"
  by (auto simp: activeIds_def)

lemma quoteLoop_sum:
  "quoteLoop c ss (a, t, dd, n) = Inr (a', t', dd', n') \<Longrightarrow>
     a' = a + sum_list (map (quoted c) ss) \<and> n' = n + length (filter (\<lambda>s. s_status s = OrderActive) ss)"
proof (induction ss arbitrary: a t dd n)
  case (Cons s ss)
  then show ?case
    by (auto simp: quoted_def Let_def not_le split: if_splits dest!: Cons.IH)
qed simp

lemma quote_amount:
  assumes "quoteInstanceRefund ss oid t = Inr q"
  shows "rq_amount q = sum_list (map (quoted (refundCutoffAt t)) ss) \<and> 1 \<le> rq_amount q \<and>
    rq_ends q = refundCutoffAt t \<and> activeIds ss \<noteq> {} \<and> rq_order q = oid"
proof -
  obtain a b c n where l: "quoteLoop (refundCutoffAt t) ss (0, 0, 0, 0) = Inr (a, b, c, n)"
    and q: "n \<noteq> 0" "1 \<le> a" "rq_amount q = a" "rq_ends q = refundCutoffAt t" "rq_order q = oid"
    using assms by (auto simp: quoteInstanceRefund_def resultE Let_def split: if_splits)
  have "activeIds ss \<noteq> {}" using quoteLoop_sum [OF l] q(1) by (auto simp: activeIds_def filter_empty_conv)
  then show ?thesis using quoteLoop_sum [OF l] q by simp
qed

text \<open>One settled segment.\<close>

lemma settleSegment_Inr:
  assumes "settleSegment sid fresh u c s cur d = Inr (cur', d')" "s_status s = OrderActive"
  shows "cur' = cur + paidBack c s \<and> wallets d' = wallets d \<and> instances d' = instances d \<and> tasks d' = tasks d \<and>
    now d' = now d \<and>
    (\<exists>am en e. orders d' = update (\<lambda>r. o_id r = s_id s \<and> o_status r = OrderActive) (refundedOrder e (now d) am en) (orders d))"
proof (cases "refundAmountForSegment c s > 0")
  case True
  then show ?thesis using assms insertEntry_frame
    by (auto simp: settleSegment_def Let_def bindE_Inr_iff paidBack_def) metis+
next
  case False
  then show ?thesis using assms by (auto simp: settleSegment_def Let_def paidBack_def) blast
qed

lemma settleSegment_drift:
  assumes "settleSegment sid fresh u c s cur d = Inr (cur', d')" "drift u b (cur - b) d"
  shows "drift u b (cur' - b) d'"
proof (cases "refundAmountForSegment c s > 0")
  case True
  then obtain e d1 where e: "insertEntry e d = Inr d1" "we_user e = u" "we_amount e = refundAmountForSegment c s"
    and f: "wallets d' = wallets d1" "walletEntries d' = walletEntries d1" "cur' = cur + refundAmountForSegment c s"
    using assms(1) by (auto simp: settleSegment_def Let_def bindE_Inr_iff)
  have "drift u b (cur - b + we_amount e) d1" by (rule drift_entry [OF assms(2) e(1,2)])
  then show ?thesis using drift_frame [OF f(1,2)] f(3) e(3) by (simp add: algebra_simps)
next
  case False
  then have f: "wallets d' = wallets d" "walletEntries d' = walletEntries d" "cur' = cur"
    using assms(1) by (auto simp: settleSegment_def Let_def)
  show ?thesis using drift_frame [OF f(1,2)] f(3) assms(2) by simp
qed

lemma settle_result:
  assumes "settle sid fresh u c ss cur d = Inr (cur', d')"
  shows "cur' = cur + sum_list (map (paidBack c) ss) \<and> wallets d' = wallets d \<and> instances d' = instances d \<and>
    tasks d' = tasks d \<and> now d' = now d"
  using assms
proof (induction ss arbitrary: cur d)
  case (Cons s ss)
  show ?case
  proof (cases "s_status s = OrderActive")
    case True
    then obtain n d1 where n: "settleSegment sid fresh u c s cur d = Inr (n, d1)"
      "settle sid fresh u c ss n d1 = Inr (cur', d')"
      using Cons.prems by (auto simp: bindE_Inr_iff)
    from settleSegment_Inr [OF n(1) True] Cons.IH [OF n(2)] show ?thesis by simp
  qed (use Cons in \<open>simp add: paidBack_def\<close>)
qed simp

lemma settle_drift:
  assumes "settle sid fresh u c ss cur d = Inr (cur', d')" "drift u b (cur - b) d"
  shows "drift u b (cur' - b) d'"
  using assms
proof (induction ss arbitrary: cur d)
  case (Cons s ss)
  then show ?case
    by (cases "s_status s = OrderActive") (auto simp: bindE_Inr_iff dest: settleSegment_drift)
qed simp

text \<open>The orders after the loop: the active orders of the segments are refunded, nothing else.\<close>

definition refundedRows :: "id set \<Rightarrow> order list \<Rightarrow> order list \<Rightarrow> bool" where
  "refundedRows ids = list_all2 (\<lambda>r r'. o_id r' = o_id r \<and> o_instance r' = o_instance r \<and>
     (if o_status r = OrderActive \<and> o_id r \<in> ids then o_status r' = OrderRefund else r' = r))"

lemma refundedRows_update:
  "refundedRows {x} t (update (\<lambda>r. o_id r = x \<and> o_status r = OrderActive) (refundedOrder e n am en) t)"
  by (induction t) (auto simp: refundedRows_def refundedOrder_def)

lemma refundedRows_trans:
  assumes "refundedRows A x y" "refundedRows B y z" shows "refundedRows (A \<union> B) x z"
proof -
  have "list_all2 (\<lambda>r r'. o_id r' = o_id r \<and> o_instance r' = o_instance r \<and>
     (if o_status r = OrderActive \<and> o_id r \<in> A \<union> B then o_status r' = OrderRefund else r' = r)) x z"
    by (rule list_all2_trans [OF _ assms [unfolded refundedRows_def]]) (auto split: if_splits)
  then show ?thesis by (simp add: refundedRows_def)
qed

lemma settle_orders:
  assumes "settle sid fresh u c ss cur d = Inr (cur', d')"
  shows "refundedRows (activeIds ss) (orders d) (orders d')"
  using assms
proof (induction ss arbitrary: cur d)
  case Nil
  then show ?case by (simp add: refundedRows_def list_all2_same)
next
  case (Cons s ss)
  show ?case
  proof (cases "s_status s = OrderActive")
    case True
    then obtain n d1 where n: "settleSegment sid fresh u c s cur d = Inr (n, d1)"
      "settle sid fresh u c ss n d1 = Inr (cur', d')"
      using Cons.prems by (auto simp: bindE_Inr_iff)
    have "refundedRows {s_id s} (orders d) (orders d1)"
      using settleSegment_Inr [OF n(1) True] refundedRows_update by auto
    from refundedRows_trans [OF this Cons.IH [OF n(2)]] True show ?thesis by simp
  qed (use Cons in simp)
qed

text \<open>The refund, statement by statement.\<close>

lemma frameSet_refund [simp]: "frameSet (refundSchedule c)"
  by (simp add: frameSet_def refundSchedule_def)

lemma refundInstance_frame:
  assumes "refundInstance iid u c d = Inr d'"
  shows "wallets d' = wallets d" "walletEntries d' = walletEntries d" "orders d' = orders d" "statusPath d d'"
    "tasks d' = tasks d" "now d' = now d" "planChanges d' = planChanges d"
  using assms
  by (auto simp: refundInstance_def Let_def liftT_Inr split: option.splits if_splits
      dest: transition_frame transition_path [OF frameSet_refund])

lemma refund_cases:
  assumes "refundOrder sid fresh u oid d = Inr (q, d')"
  obtains r iid b cur d1 d2 d3 where
    "r \<in> set (orders d)" "o_id r = oid" "o_owner r = u" "o_instance r = Some iid"
    "quoteInstanceRefund (refundSegments iid u d) oid (now d) = Inr q"
    "wallets d1 = wallets d" "walletEntries d1 = walletEntries d" "orders d1 = orders d" "instances d1 = instances d"
    "now d1 = now d" "tasks d1 = tasks d" "planChanges d1 = planChanges d" "walletOf u d = Some b"
    "settle sid fresh u (rq_ends q) (refundSegments iid u d) b d1 = Inr (cur, d2)" "cur = b + rq_amount q"
    "refundInstance iid u (rq_ends q) (setBalance u cur d2) = Inr d3"
    "d' = createNotification u ''refund'' oid (writeAudit u ''order.refund'' oid d3)"
proof -
  obtain r iid where r: "select (\<lambda>r. o_id r = oid \<and> o_owner r = u) (orders d) = Some r" "o_instance r = Some iid"
    and q: "quoteInstanceRefund (refundSegments iid u d) oid (now d) = Inr q"
    using assms by (auto simp: refundOrder_def resultE Let_def split: if_splits)
  let ?d1 = "d\<lparr>settlements := settlements d @ [\<lparr>rs_id = sid, rs_instance = iid, rs_owner = u,
            rs_order = oid, rs_total = rq_amount q, rs_ends = rq_ends q, rs_purge = rq_purge q\<rparr>]\<rparr>"
  obtain b where b: "walletOf u ?d1 = Some b"
    using assms r q by (auto simp: refundOrder_def resultE Let_def split: if_splits)
  obtain cur d2 where s: "settle sid fresh u (rq_ends q) (refundSegments iid u d) b ?d1 = Inr (cur, d2)" "cur = b + rq_amount q"
    using assms r q b by (auto simp: refundOrder_def resultE Let_def split: if_splits)
  obtain d3 where i: "refundInstance iid u (rq_ends q) (setBalance u cur d2) = Inr d3"
    "d' = createNotification u ''refund'' oid (writeAudit u ''order.refund'' oid d3)"
    using assms r q b s by (auto simp: refundOrder_def resultE Let_def split: if_splits)
  have "walletOf u d = Some b" using b by (simp add: walletOf_def)
  then show thesis using that [OF _ _ _ r(2) q _ _ _ _ _ _ _ _ s i] select_SomeD [OF r(1)] by simp
qed

lemma refund_ledger:
  assumes l: "ledgerOk d" and c: "refundOrder sid fresh u oid d = Inr (q, d')"
  shows "ledgerOk d'"
proof (rule refund_cases [OF c])
  fix r iid b cur d1 d2 d3
  assume w: "wallets d1 = wallets d" "walletEntries d1 = walletEntries d" and b: "walletOf u d = Some b"
    and q: "quoteInstanceRefund (refundSegments iid u d) oid (now d) = Inr q"
    and s: "settle sid fresh u (rq_ends q) (refundSegments iid u d) b d1 = Inr (cur, d2)" "cur = b + rq_amount q"
    and i: "refundInstance iid u (rq_ends q) (setBalance u cur d2) = Inr d3"
      "d' = createNotification u ''refund'' oid (writeAudit u ''order.refund'' oid d3)"
  have "drift u b (b - b) d1" using ledger_drift [OF l b] drift_frame [OF w] by simp
  from settle_drift [OF s(1) this] have "drift u b (cur - b) d2" .
  from drift_set [OF this, of "cur - b"] have "drift u cur 0 (setBalance u cur d2)" by simp
  moreover have "0 \<le> cur" using ledger_balance [OF l b] quote_amount [OF q] s(2) by simp
  ultimately have "ledgerOk (setBalance u cur d2)" by (rule drift_ledger)
  then show ?thesis using wallet_rest refundInstance_frame(1,2) [OF i(1)] i(2) by simp
qed

lemma refund_path:
  assumes c: "refundOrder sid fresh u oid d = Inr (q, d')" shows "statusPath d d'"
proof (rule refund_cases [OF c])
  fix r iid b cur d1 d2 d3
  assume "instances d1 = instances d" "settle sid fresh u (rq_ends q) (refundSegments iid u d) b d1 = Inr (cur, d2)"
    and i: "refundInstance iid u (rq_ends q) (setBalance u cur d2) = Inr d3"
      "d' = createNotification u ''refund'' oid (writeAudit u ''order.refund'' oid d3)"
  then have "statusPath d (setBalance u cur d2)" by (intro statusPath_same) (simp add: settle_result)
  from statusPath_trans [OF this refundInstance_frame(4) [OF i(1)]]
  show ?thesis unfolding i(2) by (rule statusPath_trans) (simp add: statusPath_same)
qed

interpretation refund: wallet_op
  "\<lambda>(sid, fresh, u, oid) d. bindE (refundOrder sid fresh u oid d) (\<lambda>(q, d'). Inr d')"
  by unfold_locales (auto simp: resultE dest: refund_ledger)

interpretation refund_life: lifecycle_op
  "\<lambda>(sid, fresh, u, oid) d. commitOr d (bindE (refundOrder sid fresh u oid d) (\<lambda>(q, d'). Inr d'))"
  by unfold_locales (auto simp: commitOr_def resultE split: sum.splits dest: refund_path)

section \<open>Properties\<close>

lemma segments_in:
  "s \<in> set (refundSegments iid u d) \<longleftrightarrow> (\<exists>r \<in> set (orders d). segmentRow iid u r \<and> s = toSegment r)"
  by (auto simp: refundSegments_def)

text \<open>After the loop no order of the chain is active any more.\<close>

lemma settled_chain:
  assumes r: "refundedRows (activeIds (refundSegments iid u d)) (orders d) t"
  shows "\<forall>r \<in> set t. \<not> segmentRow iid u r"
proof
  fix r' assume "r' \<in> set t"
  then obtain k where k: "k < length t" "t ! k = r'" by (auto simp: in_set_conv_nth)
  let ?r = "orders d ! k"
  have kr: "?r \<in> set (orders d)" and row: "o_id r' = o_id ?r \<and>
     (if o_status ?r = OrderActive \<and> o_id ?r \<in> activeIds (refundSegments iid u d) then o_status r' = OrderRefund else r' = ?r)"
    using r k by (auto simp: refundedRows_def list_all2_conv_all_nth)
  show "\<not> segmentRow iid u r'"
  proof
    assume seg: "segmentRow iid u r'"
    then have "o_status r' = OrderActive" by (simp add: segmentRow_def)
    with row have eq: "r' = ?r" "\<not> (o_status ?r = OrderActive \<and> o_id ?r \<in> activeIds (refundSegments iid u d))"
      by (auto split: if_splits)
    have "toSegment ?r \<in> set (refundSegments iid u d)" using seg eq(1) kr by (auto simp: segments_in)
    moreover have "s_status (toSegment ?r) = OrderActive" "s_id (toSegment ?r) = o_id ?r"
      using seg eq(1) by (simp_all add: toSegment_def segmentRow_def)
    ultimately have "o_id ?r \<in> activeIds (refundSegments iid u d)"
      by (force simp: activeIds_def)
    then show False using eq seg by (simp add: segmentRow_def)
  qed
qed

text \<open>C19. A refund pays exactly its quote and ends the service: the wallet grows by the quoted amount, at
  least one fen, which is the sum of what each active order is refunded; every active order of the
  chain becomes refunded and no other order changes; and the instance is either already destroyed or
  scheduled for destruction at the cut-off.\<close>

theorem refund_exact:
  assumes c: "refundOrder sid fresh u oid d = Inr (q, d')" and u: "instTab.unique d"
  shows "\<exists>iid b. walletOf u d = Some b \<and> walletOf u d' = Some (b + rq_amount q) \<and> 1 \<le> rq_amount q \<and>
    rq_amount q = sum_list (map (paidBack (rq_ends q)) (refundSegments iid u d)) \<and>
    rq_ends q = refundCutoffAt (now d) \<and>
    refundedRows (activeIds (refundSegments iid u d)) (orders d) (orders d') \<and>
    refundSegments iid u d' = [] \<and>
    (\<forall>i \<in> set (instances d'). i_id i = iid \<and> i_owner i = u \<longrightarrow> i_status i \<in> {Destroyed, Purged} \<or>
       i_status i = DestroyScheduled \<and> i_destroyAt i = Some (rq_ends q) \<and> i_destroyReason i = Some Refunded)"
proof (rule refund_cases [OF c])
  fix r iid b cur d1 d2 d3
  assume w: "wallets d1 = wallets d" "orders d1 = orders d" "instances d1 = instances d" and b: "walletOf u d = Some b"
    and q: "quoteInstanceRefund (refundSegments iid u d) oid (now d) = Inr q"
    and s: "settle sid fresh u (rq_ends q) (refundSegments iid u d) b d1 = Inr (cur, d2)" "cur = b + rq_amount q"
    and i: "refundInstance iid u (rq_ends q) (setBalance u cur d2) = Inr d3"
      "d' = createNotification u ''refund'' oid (writeAudit u ''order.refund'' oid d3)"
  note sr = settle_result [OF s(1)] and so = settle_orders [OF s(1)] and rf = refundInstance_frame [OF i(1)]
  have wallet: "walletOf u d' = Some cur"
    using b w sr rf i(2) by (auto simp: walletOf_def setBalance_def select_update_key)
  have ords: "refundedRows (activeIds (refundSegments iid u d)) (orders d) (orders d')"
    using so w rf i(2) by simp
  have seg: "refundSegments iid u d' = []"
  proof -
    have "filter (segmentRow iid u) (orders d') = []"
      using settled_chain [OF ords] by (simp add: filter_empty_conv)
    then show ?thesis by (simp add: refundSegments_def)
  qed
  have inst: "i_status j \<in> {Destroyed, Purged} \<or>
       i_status j = DestroyScheduled \<and> i_destroyAt j = Some (rq_ends q) \<and> i_destroyReason j = Some Refunded"
    if j: "j \<in> set (instances d')" "i_id j = iid \<and> i_owner j = u" for j
  proof -
    let ?d = "setBalance u cur d2"
    have ud: "instTab.unique ?d" and jd: "j \<in> set (instances d3)" using u w sr i(2) j by (simp_all add: instTab.unique_def)
    show ?thesis
    proof (cases "select (\<lambda>i. i_id i = iid \<and> i_owner i = u) (instances ?d)")
      case None
      then have "d3 = ?d" using i(1) by (simp add: refundInstance_def)
      then show ?thesis using None jd j by (auto simp: select_None)
    next
      case (Some k)
      then have k: "k \<in> set (instances ?d)" "i_id k = iid" "i_owner k = u" by (auto dest: select_SomeD)
      show ?thesis
      proof (cases "i_status k = Destroyed \<or> i_status k = Purged")
        case True
        then have "d3 = ?d" using i(1) Some by (auto simp: refundInstance_def split: if_splits)
        then have "j = k" using instTab.key_unique [OF ud _ k(1)] jd j k by auto
        then show ?thesis using True by auto
      next
        case False
        then obtain rt where t: "transitionInstance (i_id k) [i_status k] DestroyScheduled (Some rt) (refundSchedule (rq_ends q)) ?d
            = Inr (True, d3)"
          using i(1) Some k(2) by (auto simp: refundInstance_def Let_def liftT_Inr split: if_splits)
        from transition_exact [OF ud k(1) frameSet_refund t] jd j k(2) have "j = transitionRow DestroyScheduled (Some rt)
          (refundSchedule (rq_ends q)) k" by simp
        then show ?thesis by (simp add: transitionRow_def refundSchedule_def)
      qed
    qed
  qed
  show ?thesis using b wallet s(2) sr quote_amount [OF q] ords seg inst
    by (intro exI [of _ iid] exI [of _ b]) auto
qed


lemma quoted_bounds:
  assumes "priceOk (s_amount s)" "windowOk (s_start s) (s_end s)"
  shows "0 \<le> quoted c s \<and> quoted c s \<le> (if s_status s = OrderActive then s_amount s else 0)"
  using prorate_bounds [OF assms] assms(1) by (auto simp: quoted_def priceOk_def)

text \<open>A refund never exceeds what was paid: for prices and windows in the exact range, the amount is
  at most the sum of what the active orders of the chain cost.\<close>

theorem refund_bounded:
  assumes q: "quoteInstanceRefund ss oid t = Inr q"
    and ok: "\<forall>s \<in> set ss. priceOk (s_amount s) \<and> windowOk (s_start s) (s_end s)"
  shows "1 \<le> rq_amount q \<and>
    rq_amount q \<le> sum_list (map s_amount (filter (\<lambda>s. s_status s = OrderActive) ss))"
proof -
  have "sum_list (map (quoted c) xs) \<le> sum_list (map s_amount (filter (\<lambda>s. s_status s = OrderActive) xs))"
    if "\<forall>s \<in> set xs. priceOk (s_amount s) \<and> windowOk (s_start s) (s_end s)" for xs c
    using that by (induction xs) (auto dest: quoted_bounds [where c = c] split: if_splits)
  then show ?thesis using quote_amount [OF q] ok by simp
qed

definition partialDay :: "gotime \<Rightarrow> refundSegment \<Rightarrow> bool" where
  "partialDay c s \<longleftrightarrow> s_status s = OrderActive \<and> after (s_end s) c \<and> segDays c s \<le> 0"

lemma quoted_paid:
  assumes "priceOk (s_amount s)" "windowOk (s_start s) (s_end s)"
  shows "quoted c s \<le> paidBack c s"
    and "partialDay c s \<Longrightarrow> quoted c s = 0 \<and> paidBack c s = refundAmountForSegment c s"
proof -
  have n: "0 \<le> refundAmountForSegment c s"
    using prorate_bounds [OF assms] by (simp add: refundAmountForSegment_def)
  then show "partialDay c s \<Longrightarrow> quoted c s = 0 \<and> paidBack c s = refundAmountForSegment c s"
    by (auto simp: partialDay_def quoted_def paidBack_def)
  have "prorateFen (s_amount s) (s_start s) (s_end s) t = 0" if "s_amount s \<le> 0" for t
    using that by (auto simp: prorateFen_def Let_def)
  then show "quoted c s \<le> paidBack c s"
    using n by (auto simp: quoted_def paidBack_def refundAmountForSegment_def split: if_splits)
qed

text \<open>A remaining part of less than a day blocks the refund: the quote leaves such a segment out of
  the total while the settlement still prorates it, so as soon as it is worth a fen the two sums differ
  and the whole refund is rejected.\<close>

theorem partial_day_blocks_refund:
  assumes r: "\<forall>r \<in> set (orders d). o_id r = oid \<longrightarrow> o_instance r = Some iid"
    and ok: "\<forall>s \<in> set (refundSegments iid u d). priceOk (s_amount s) \<and> windowOk (s_start s) (s_end s)"
    and s: "s \<in> set (refundSegments iid u d)" "partialDay (refundCutoffAt (now d)) s"
      "1 \<le> refundAmountForSegment (refundCutoffAt (now d)) s"
  shows "\<exists>e. refundOrder sid fresh u oid d = Inl e"
proof (rule ccontr)
  assume "\<not> ?thesis"
  then obtain q d' where c: "refundOrder sid fresh u oid d = Inr (q, d')"
    by (cases "refundOrder sid fresh u oid d") auto
  let ?c = "refundCutoffAt (now d)"
  have le: "sum_list (map (quoted ?c) xs) \<le> sum_list (map (paidBack ?c) xs) \<and>
      (s \<in> set xs \<longrightarrow> sum_list (map (quoted ?c) xs) < sum_list (map (paidBack ?c) xs))"
    if "set xs \<subseteq> set (refundSegments iid u d)" for xs
    using that
  proof (induction xs)
    case (Cons x xs)
    then have x: "priceOk (s_amount x)" "windowOk (s_start x) (s_end x)" using ok by auto
    have "x = s \<Longrightarrow> quoted ?c x < paidBack ?c x" using quoted_paid(2) [OF x] s by auto
    then show ?case using Cons quoted_paid(1) [OF x, of ?c] by (auto simp: add_mono_thms_linordered_field)
  qed simp
  show False
  proof (rule refund_cases [OF c])
    fix r iid0 b cur d1 d2
    assume r0: "r \<in> set (orders d)" "o_id r = oid" "o_instance r = Some iid0"
      and q: "quoteInstanceRefund (refundSegments iid0 u d) oid (now d) = Inr q"
      and st: "settle sid fresh u (rq_ends q) (refundSegments iid0 u d) b d1 = Inr (cur, d2)" "cur = b + rq_amount q"
    have "iid0 = iid" using r0 r by auto
    then show False using quote_amount [OF q] settle_result [OF st(1)] st(2) le [of "refundSegments iid u d"] s(1) by auto
  qed
qed

section \<open>A concrete refund\<close>

definition exampleSold :: order where
  "exampleSold = blankOrder\<lparr>o_id := ''o'', o_owner := ''u'', o_instance := Some ''i'', o_amount := 3000,
     o_status := OrderActive, o_source := Some ''wallet'', o_start := Some 0, o_expires := Some (30 * day)\<rparr>"

definition exampleService :: db where
  "exampleService = (emptyDb 0)\<lparr>orders := [exampleSold],
     instances := [blankInst\<lparr>i_id := ''i'', i_owner := ''u'', i_status := Running\<rparr>],
     wallets := [\<lparr>w_user = ''u'', w_balance = 50\<rparr>]\<rparr>"

lemmas timedefs = time_units refundDay_def time_sub_def minDuration64_def maxDuration_def after_def before_def

lemma example_segments:
  "refundSegments ''i'' ''u'' exampleService = [\<lparr>s_id = ''o'', s_status = OrderActive, s_amount = 3000, s_start = 0,
     s_end = 30 * day, s_source = ''wallet''\<rparr>]"
  by (simp add: refundSegments_def exampleService_def exampleSold_def segmentRow_def toSegment_def blankOrder_def)

lemma example_cutoff: "refundCutoffAt 0 = 64 * hour"
  by (simp add: refundCutoffAt_def refundPrepaidDays_def Let_def time_units)

lemma example_refund_quote:
  "quoteInstanceRefund (refundSegments ''i'' ''u'' exampleService) ''o'' 0 = Inr \<lparr>rq_order = ''o'', rq_total = 30,
     rq_remaining = 27, rq_refundable = 27, rq_amount = 2733, rq_ends = 64 * hour, rq_purge = 64 * hour + 30 * day\<rparr>"
  by (simp add: quoteInstanceRefund_def example_segments example_cutoff segDays_def segStart_def prorateFen_def
      timedefs go_div_def wrap64_def refundRetentionDays_def Let_def sgn_if)

lemma example_refund:
  "\<exists>q d'. refundOrder ''r1'' (\<lambda>x. ''w'' @ x) ''u'' ''o'' exampleService = Inr (q, d') \<and> rq_amount q = 2733"
proof -
  have pay: "refundAmountForSegment (64 * hour) \<lparr>s_id = ''o'', s_status = OrderActive, s_amount = 3000, s_start = 0,
     s_end = 30 * day, s_source = ''wallet''\<rparr> = 2733"
    by (simp add: refundAmountForSegment_def segStart_def prorateFen_def timedefs go_div_def wrap64_def Let_def sgn_if)
  have f: "orders exampleService = [exampleSold]" "now exampleService = 0" "settlements exampleService = []"
    "walletOf ''u'' exampleService = Some 50" "walletEntries exampleService = []"
    "instances exampleService = [blankInst\<lparr>i_id := ''i'', i_owner := ''u'', i_status := Running\<rparr>]"
    by (simp_all add: exampleService_def emptyDb_def walletOf_def)
  have o: "o_id exampleSold = ''o''" "o_owner exampleSold = ''u''" "o_instance exampleSold = Some ''i''"
    by (simp_all add: exampleSold_def)
  have w: "walletOf ''u'' (exampleService\<lparr>settlements := x\<rparr>) = Some 50" for x
    using f(4) by (simp add: walletOf_def)
  have ch: "transitionRow DestroyScheduled (Some Running) (refundSchedule c) (blankInst\<lparr>i_id := ''i'', i_owner := ''u'', i_status := Running\<rparr>)
      \<noteq> blankInst\<lparr>i_id := ''i'', i_owner := ''u'', i_status := Running\<rparr>" for c
    by (simp add: transitionRow_def refundSchedule_def blankInst_def)
  have rt: "i_runtime blankInst = None" "i_destroyReason blankInst = None" by (simp_all add: blankInst_def)
  show ?thesis
    by (simp add: refundOrder_def f o w example_refund_quote)
      (simp add: example_segments settleSegment_def pay insertEntry_def f Let_def refundInstance_def rt
        transitionInstance_def canTransitionInstance_def ch liftT_def)
qed

theorem refund_exact_witness:
  "\<exists>q d'. refundOrder ''r1'' (\<lambda>x. ''w'' @ x) ''u'' ''o'' exampleService = Inr (q, d') \<and> walletOf ''u'' d' = Some 2783"
proof -
  obtain q d' where c: "refundOrder ''r1'' (\<lambda>x. ''w'' @ x) ''u'' ''o'' exampleService = Inr (q, d')" "rq_amount q = 2733"
    using example_refund by blast
  have "instTab.unique exampleService" by (simp add: instTab.unique_def exampleService_def)
  moreover have "walletOf ''u'' exampleService = Some 50" by (simp add: exampleService_def walletOf_def)
  ultimately show ?thesis using refund_exact [OF c(1)] c by auto
qed


theorem refund_bounded_witness:
  "\<exists>q. quoteInstanceRefund (refundSegments ''i'' ''u'' exampleService) ''o'' 0 = Inr q \<and> 1 \<le> rq_amount q \<and> rq_amount q \<le> 3000"
proof -
  have "\<forall>s \<in> set (refundSegments ''i'' ''u'' exampleService). priceOk (s_amount s) \<and> windowOk (s_start s) (s_end s)"
    by (simp add: example_segments priceOk_def windowOk_def time_units)
  from refund_bounded [OF example_refund_quote this]
  show ?thesis unfolding example_refund_quote by (simp add: example_segments)
qed

text \<open>An order that ends twelve hours after the cut-off, followed by its renewal.\<close>

definition exampleBlocked :: db where
  "exampleBlocked = exampleService\<lparr>orders := [exampleSold\<lparr>o_expires := Some (76 * hour)\<rparr>,
     exampleSold\<lparr>o_id := ''o2'', o_start := Some (76 * hour), o_expires := Some (76 * hour + 30 * day)\<rparr>]\<rparr>"

theorem partial_day_blocks_refund_witness:
  "\<exists>e. refundOrder ''r1'' (\<lambda>x. ''w'' @ x) ''u'' ''o2'' exampleBlocked = Inl e"
proof -
  define s1 where "s1 = \<lparr>s_id = ''o'', s_status = OrderActive, s_amount = 3000, s_start = 0,
     s_end = 76 * hour, s_source = ''wallet''\<rparr>"
  have seg: "refundSegments ''i'' ''u'' exampleBlocked = [s1, \<lparr>s_id = ''o2'', s_status = OrderActive, s_amount = 3000,
     s_start = 76 * hour, s_end = 76 * hour + 30 * day, s_source = ''wallet''\<rparr>]"
    by (simp add: s1_def refundSegments_def exampleBlocked_def exampleSold_def segmentRow_def toSegment_def blankOrder_def time_units)
  have n: "refundCutoffAt (now exampleBlocked) = 64 * hour"
    by (simp add: example_cutoff exampleBlocked_def exampleService_def emptyDb_def)
  have r: "\<forall>r \<in> set (orders exampleBlocked). o_id r = ''o2'' \<longrightarrow> o_instance r = Some ''i''"
    by (simp add: exampleBlocked_def exampleSold_def)
  have ok: "\<forall>s \<in> set (refundSegments ''i'' ''u'' exampleBlocked). priceOk (s_amount s) \<and> windowOk (s_start s) (s_end s)"
    by (simp add: seg s1_def priceOk_def windowOk_def time_units)
  have s: "s1 \<in> set (refundSegments ''i'' ''u'' exampleBlocked)" by (simp add: seg)
  have p: "partialDay (refundCutoffAt (now exampleBlocked)) s1"
    by (simp add: n s1_def partialDay_def segDays_def segStart_def timedefs go_div_def)
  have a: "1 \<le> refundAmountForSegment (refundCutoffAt (now exampleBlocked)) s1"
    by (simp add: n s1_def segStart_def refundAmountForSegment_def prorateFen_def timedefs go_div_def wrap64_def Let_def sgn_if)
  show ?thesis by (rule partial_day_blocks_refund [OF r ok s p a])
qed

end
