(* ===== verification/Tasks.thy ===== *)
theory Tasks
  imports Lifecycle Pricing Wallet
begin

text \<open>
  The durable task queue: claiming a task under a lease, the fencing check made before each
  Agent request, renewing, finishing and releasing (\<open>control_plane.go\<close>, \<open>task_queue.go\<close>).
  \<open>now db\<close> is MySQL's \<open>NOW()\<close>; a worker is identified by its worker id and by the execution
  token written when it claimed the task.
\<close>

section \<open>Actions and errors\<close>

fun lifecycleTask :: "action \<Rightarrow> bool" where
  "lifecycleTask Bandwidth = False"
| "lifecycleTask (OtherAction _) = False"
| "lifecycleTask _ = True"

fun composeTaskAction :: "action \<Rightarrow> bool" where
  "composeTaskAction Create = True"
| "composeTaskAction RetryDeploy = True"
| "composeTaskAction Start = True"
| "composeTaskAction Restart = True"
| "composeTaskAction Reinstall = True"
| "composeTaskAction Update = True"
| "composeTaskAction Resize = True"
| "composeTaskAction CompensateResize = True"
| "composeTaskAction HostAccess = True"
| "composeTaskAction _ = False"

definition truncateError :: "string \<Rightarrow> string" where
  "truncateError value = (let v = trimSpace value in if length v > 1000 then take 1000 v else v)"

fun errText :: "error \<Rightarrow> string" where
  "errText ErrNoRows = ''sql: no rows in result set''"
| "errText ErrDuplicate = ''duplicate entry''"
| "errText ErrConflict = ''instance state changed''"
| "errText (ErrAgent s) = s"
| "errText (ErrCancelled s) = s"
| "errText (Msg s) = s"

section \<open>Claiming\<close>

definition leaseTime :: duration where "leaseTime = 5 * minute"

text \<open>\<open>claimTask\<close>: both updates belong to one transaction; when the instance lock is taken the
  claim is rolled back and only the conflict is logged.\<close>

definition claimTask :: "string \<Rightarrow> string \<Rightarrow> controlTask \<Rightarrow> db \<Rightarrow> bool \<times> db" where
  "claimTask worker token task db =
     (let p = (\<lambda>r. t_id r = t_id task \<and> t_status r = TaskPending);
          f = (\<lambda>r. r\<lparr>t_status := TaskRunning, t_attempts := Suc (t_attempts r),
                 t_claimedAt := Some (now db), t_heartbeat := Some (now db),
                 t_claimExpires := Some (now db + leaseTime), t_worker := Some worker,
                 t_token := Some token, t_updatedAt := now db\<rparr>)
      in if affected p f (tasks db) \<noteq> 1 then (False, db)
         else
           let db1 = db\<lparr>tasks := update p f (tasks db)\<rparr> in
           if lifecycleTask (t_action task) then
             let q = (\<lambda>r. i_id r = t_instance task \<and> noneOr (\<lambda>e. e \<le> now db) (i_activeExpires r));
                 g = (\<lambda>r. r\<lparr>i_activeTask := Some (t_id task), i_activeToken := Some token,
                        i_activeExpires := Some (now db + leaseTime)\<rparr>)
             in if affected q g (instances db1) \<noteq> 1
                then (False, appendTaskEvent (t_id task) ''instance_lock_conflict'' db)
                else (True, appendTaskEvent (t_id task) ''claimed''
                              (db1\<lparr>instances := update q g (instances db1)\<rparr>))
           else (True, appendTaskEvent (t_id task) ''claimed'' db1))"

section \<open>Fencing\<close>

definition deviceEnabled :: "node \<Rightarrow> db \<Rightarrow> bool" where
  "deviceEnabled n db = (case n_device n of None \<Rightarrow> False
     | Some d \<Rightarrow> (case select (\<lambda>x. dv_id x = d) (devices db) of None \<Rightarrow> False | Some x \<Rightarrow> dv_status x = DeviceEnabled))"

text \<open>The row holds the lease that \<open>task\<close> claims to hold.\<close>

definition leaseRow :: "controlTask \<Rightarrow> db \<Rightarrow> controlTask \<Rightarrow> bool" where
  "leaseRow task db t \<longleftrightarrow> t_id t = t_id task \<and> t_status t = TaskRunning \<and>
     sqlEq (t_worker t) (t_worker task) \<and> sqlEq (t_token t) (t_token task) \<and>
     someAnd (\<lambda>e. now db < e) (t_claimExpires t)"

text \<open>The instance lock is held by the lease row.\<close>

definition lockRow :: "db \<Rightarrow> controlTask \<Rightarrow> inst \<Rightarrow> bool" where
  "lockRow db t i \<longleftrightarrow> i_id i = t_instance t \<and> sqlEq (i_activeTask i) (Some (t_id t)) \<and>
     sqlEq (i_activeToken i) (t_token t) \<and> someAnd (\<lambda>e. now db < e) (i_activeExpires i)"

definition generationOk :: "controlTask \<Rightarrow> inst \<Rightarrow> bool" where
  "generationOk t i \<longleftrightarrow> t_generation t = 0 \<or> t_generation t = i_generation i"

definition fenceRow :: "controlTask \<Rightarrow> istatus list \<Rightarrow> db \<Rightarrow> controlTask \<times> inst \<times> node \<Rightarrow> bool" where
  "fenceRow task expected db = (\<lambda>(t, i, n).
     leaseRow task db t \<and> lockRow db t i \<and> sqlEq (i_node i) (Some (n_id n)) \<and>
     generationOk t i \<and> n_enabled n \<and> (n_kind n \<noteq> SelfHosted \<or> deviceEnabled n db) \<and>
     (expected = [] \<or> i_status i \<in> set expected))"

definition fenceCount :: "controlTask \<Rightarrow> istatus list \<Rightarrow> db \<Rightarrow> nat" where
  "fenceCount task expected db =
     countRows (fenceRow task expected db)
       (List.product (tasks db) (List.product (instances db) (nodes db)))"

definition taskMayCallAgent :: "controlTask \<Rightarrow> istatus list \<Rightarrow> db \<Rightarrow> error + unit" where
  "taskMayCallAgent task expected db =
     (if \<not> lifecycleTask (t_action task) then Inr ()
      else if t_token task = None \<or> t_worker task = None then Inl (Msg ''task holds no lease'')
      else if fenceCount task expected db \<noteq> 1 then Inl (Msg ''task lost its lifecycle lock'')
      else Inr ())"

section \<open>Finishing\<close>

definition finishTaskAgentOperation :: "controlTask \<Rightarrow> agentstate \<Rightarrow> db \<Rightarrow> db" where
  "finishTaskAgentOperation task status db =
     db\<lparr>agentOperations := update
          (\<lambda>x. ao_task x = t_id task \<and> sqlEq (ao_token x) (t_token task) \<and> ao_status x = OpRunning)
          (\<lambda>x. x\<lparr>ao_status := status\<rparr>) (agentOperations db)\<rparr>"

definition releaseInstanceTaskLock :: "controlTask \<Rightarrow> db \<Rightarrow> db" where
  "releaseInstanceTaskLock task db =
     (if lifecycleTask (t_action task) then
        db\<lparr>instances := update
          (\<lambda>r. i_id r = t_instance task \<and> sqlEq (i_activeTask r) (Some (t_id task)) \<and>
               sqlEq (i_activeToken r) (t_token task))
          (\<lambda>r. r\<lparr>i_activeTask := None, i_activeToken := None, i_activeExpires := None\<rparr>) (instances db)\<rparr>
      else db)"

text \<open>\<open>setDeclarativeCondition\<close>: upsert on \<open>(instance_id, condition_type)\<close>.\<close>

definition setDeclarativeCondition :: "controlTask \<Rightarrow> string \<Rightarrow> bool \<Rightarrow> string \<Rightarrow> db \<Rightarrow> db" where
  "setDeclarativeCondition task typ status why db =
     (let row = \<lparr>cd_instance = t_instance task, cd_type = typ, cd_true = status, cd_reason = why,
                 cd_task = t_id task, cd_generation = t_generation task\<rparr>;
          p = (\<lambda>c. cd_instance c = t_instance task \<and> cd_type c = typ)
      in if t_instance task = [] then db
         else if countRows p (conditions db) = 0 then db\<lparr>conditions := conditions db @ [row]\<rparr>
         else db\<lparr>conditions := update p (\<lambda>_. row) (conditions db)\<rparr>)"

text \<open>\<open>markPlanChangeBlocked\<close> and \<open>markResizeTaskObserving\<close> of \<open>plan_change.go\<close>.\<close>

definition markPlanChangeBlocked :: "id \<Rightarrow> string \<Rightarrow> db \<Rightarrow> db" where
  "markPlanChangeBlocked changeID message db =
     db\<lparr>planChanges := update (\<lambda>c. pc_id c = changeID \<and> pc_status c = Processing)
       (\<lambda>c. c\<lparr>pc_status := NeedsReview, pc_saga := Observing, pc_fund := FundBlocked,
              pc_verify := ''unavailable'', pc_verifyError := Some (truncateError message),
              pc_updatedAt := now db\<rparr>) (planChanges db)\<rparr>"

definition payloadChange :: "payload \<Rightarrow> id option" where
  "payloadChange p = (case p of ResizePayload c _ _ _ \<Rightarrow> if c = [] then None else Some c | _ \<Rightarrow> None)"

definition markResizeTaskObserving :: "controlTask \<Rightarrow> string \<Rightarrow> db \<Rightarrow> db" where
  "markResizeTaskObserving task message db =
     (if t_action task \<noteq> Resize then db
      else case payloadChange (t_payload task) of None \<Rightarrow> db
        | Some c \<Rightarrow> markPlanChangeBlocked c message db)"

definition releaseRow :: "gotime \<Rightarrow> controlTask \<Rightarrow> controlTask" where
  "releaseRow t r = r\<lparr>t_claimedAt := None, t_claimExpires := None, t_worker := None,
     t_token := None, t_updatedAt := t\<rparr>"

text \<open>Every branch of \<open>finishTask\<close> is one update guarded by the lease, followed by its
  consequences only when exactly one row changed.\<close>

definition finishUpdate ::
  "controlTask \<Rightarrow> (controlTask \<Rightarrow> controlTask) \<Rightarrow> (db \<Rightarrow> db) \<Rightarrow> db \<Rightarrow> bool \<times> db" where
  "finishUpdate task f post db =
     (let p = leaseRow task db; g = (\<lambda>r. f (releaseRow (now db) r));
          db1 = db\<lparr>tasks := update p g (tasks db)\<rparr>
      in if affected p g (tasks db) = 1 then (True, post db1) else (False, db1))"

definition finishTask :: "controlTask \<Rightarrow> error option \<Rightarrow> db \<Rightarrow> error + bool \<times> db" where
  "finishTask task err db =
     (if t_worker task = None then Inl (Msg ''task has no consumer lease'')
      else Inr (case err of
        None \<Rightarrow>
          finishUpdate task
            (\<lambda>r. r\<lparr>t_status := TaskDone, t_lastError := None, t_finishedAt := Some (now db)\<rparr>)
            (\<lambda>d. appendTaskEvent (t_id task) ''succeeded''
              (setDeclarativeCondition task ''Reconciling'' False ''Reconciled''
                (setDeclarativeCondition task ''Ready'' True ''Reconciled''
                  (releaseInstanceTaskLock task (finishTaskAgentOperation task OpSucceeded d))))) db
      | Some e \<Rightarrow>
          let message = truncateError (errText e) in
          if (\<exists>m. e = ErrCancelled m) then
            finishUpdate task
              (\<lambda>r. r\<lparr>t_status := TaskReview, t_lastError := Some message,
                     t_finishedAt := Some (now db), t_agentState := Some OpUnknown\<rparr>)
              (\<lambda>d. appendTaskEvent (t_id task) ''agent_operation_needs_review''
                (markResizeTaskObserving task message
                  (releaseInstanceTaskLock task (finishTaskAgentOperation task OpUnknown d)))) db
          else if t_attempts task \<ge> 3 \<and> t_action task = Resize then
            finishUpdate task
              (\<lambda>r. r\<lparr>t_status := TaskReview, t_lastError := Some message, t_finishedAt := Some (now db)\<rparr>)
              (\<lambda>d. appendTaskEvent (t_id task) ''plan_change_observing''
                (markResizeTaskObserving task message
                  (releaseInstanceTaskLock task (finishTaskAgentOperation task OpUnknown d)))) db
          else if t_attempts task \<ge> 3 \<and> t_action task \<noteq> CompensateResize then
            finishUpdate task
              (\<lambda>r. r\<lparr>t_status := TaskFailed, t_lastError := Some message, t_finishedAt := Some (now db)\<rparr>)
              (\<lambda>d. appendTaskEvent (t_id task) ''dead_letter''
                (releaseInstanceTaskLock task (finishTaskAgentOperation task OpFailed d))) db
          else
            finishUpdate task
              (\<lambda>r. r\<lparr>t_status := TaskPending, t_lastError := Some message,
                     t_runAfter := now db + int (t_attempts task * t_attempts task) * minute\<rparr>)
              (\<lambda>d. appendTaskEvent (t_id task) ''retry''
                (releaseInstanceTaskLock task (finishTaskAgentOperation task OpFailed d))) db))"

section \<open>Renewing\<close>

text \<open>One tick of \<open>renewTaskLease\<close>; the result says whether the renewal loop goes on.\<close>

definition renewTick :: "controlTask \<Rightarrow> db \<Rightarrow> bool \<times> db" where
  "renewTick task db =
     (let p = leaseRow task db;
          f = (\<lambda>r. r\<lparr>t_heartbeat := Some (now db), t_claimExpires := Some (now db + leaseTime),
                     t_updatedAt := now db\<rparr>)
      in if affected p f (tasks db) \<noteq> 1 then (False, appendTaskEvent (t_id task) ''lease_renew_failed'' db)
         else
           let db1 = db\<lparr>tasks := update p f (tasks db)\<rparr> in
           if lifecycleTask (t_action task) then
             (True, db1\<lparr>instances := update
                (\<lambda>r. i_id r = t_instance task \<and> sqlEq (i_activeTask r) (Some (t_id task)) \<and>
                     sqlEq (i_activeToken r) (t_token task))
                (\<lambda>r. r\<lparr>i_activeExpires := Some (now db + leaseTime)\<rparr>) (instances db1)\<rparr>)
           else (True, db1))"

section \<open>Queue reads\<close>

definition loadTask :: "id \<Rightarrow> db \<Rightarrow> controlTask option" where
  "loadTask tid db = select (\<lambda>t. t_id t = tid) (tasks db)"

definition pendingTasks :: "nat \<Rightarrow> db \<Rightarrow> controlTask list" where
  "pendingTasks limit db =
     take limit (sort_key t_createdAt
       (filter (\<lambda>t. t_status t = TaskPending \<and> t_runAfter t \<le> now db) (tasks db)))"

text \<open>\<open>activeLifecycleTask\<close>: the newest lifecycle task in flight, deferred destruction and
  queued compensation not counted.\<close>

definition activeTaskRow :: "id \<Rightarrow> db \<Rightarrow> controlTask \<Rightarrow> bool" where
  "activeTaskRow iid db t \<longleftrightarrow> t_instance t = iid \<and> t_status t \<in> {TaskPending, TaskRunning} \<and>
     lifecycleTask (t_action t) \<and>
     \<not> (t_status t = TaskPending \<and> t_action t \<in> {Destroy, Purge} \<and> now db < t_runAfter t) \<and>
     \<not> (t_status t = TaskPending \<and> t_action t = CompensateResize)"

definition activeLifecycleTask :: "id \<Rightarrow> db \<Rightarrow> controlTask option" where
  "activeLifecycleTask iid db =
     (case sort_key (\<lambda>t. - t_createdAt t) (filter (activeTaskRow iid db) (tasks db)) of
        [] \<Rightarrow> None | t # _ \<Rightarrow> if t_id t = [] then None else loadTask (t_id t) db)"

section \<open>What the statements leave alone\<close>

lemma post_frame [simp]:
  "tasks (finishTaskAgentOperation t s d) = tasks d"
  "instances (finishTaskAgentOperation t s d) = instances d"
  "now (finishTaskAgentOperation t s d) = now d"
  "tasks (releaseInstanceTaskLock t d) = tasks d"
  "now (releaseInstanceTaskLock t d) = now d"
  "tasks (setDeclarativeCondition t ty b w d) = tasks d"
  "instances (setDeclarativeCondition t ty b w d) = instances d"
  "now (setDeclarativeCondition t ty b w d) = now d"
  "tasks (markPlanChangeBlocked c m d) = tasks d"
  "instances (markPlanChangeBlocked c m d) = instances d"
  "now (markPlanChangeBlocked c m d) = now d"
  "tasks (markResizeTaskObserving t m d) = tasks d"
  "instances (markResizeTaskObserving t m d) = instances d"
  "now (markResizeTaskObserving t m d) = now d"
  by (auto simp: finishTaskAgentOperation_def releaseInstanceTaskLock_def setDeclarativeCondition_def
      markPlanChangeBlocked_def markResizeTaskObserving_def Let_def split: option.splits)

lemma post_wallets [simp]:
  "wallets (finishTaskAgentOperation t s d) = wallets d"
  "walletEntries (finishTaskAgentOperation t s d) = walletEntries d"
  "wallets (releaseInstanceTaskLock t d) = wallets d"
  "walletEntries (releaseInstanceTaskLock t d) = walletEntries d"
  "wallets (setDeclarativeCondition t ty b w d) = wallets d"
  "walletEntries (setDeclarativeCondition t ty b w d) = walletEntries d"
  "wallets (markResizeTaskObserving t m d) = wallets d"
  "walletEntries (markResizeTaskObserving t m d) = walletEntries d"
  by (auto simp: finishTaskAgentOperation_def releaseInstanceTaskLock_def setDeclarativeCondition_def
      markPlanChangeBlocked_def markResizeTaskObserving_def Let_def split: option.splits)

lemma release_path: "statusPath d (releaseInstanceTaskLock t d)"
  by (auto simp: releaseInstanceTaskLock_def intro!: statusPath_update)

lemma release_path_after [simp]:
  "instances a = instances d \<Longrightarrow> statusPath d (releaseInstanceTaskLock t a)"
  by (rule statusPath_trans [OF statusPath_same release_path])

lemma statusPath_cong: "instances b = instances a \<Longrightarrow> statusPath d b = statusPath d a"
  by (simp add: statusPath_def)

lemma statusPath_post [simp]:
  "statusPath d (appendTaskEvent i e x) = statusPath d x"
  "statusPath d (setDeclarativeCondition t ty b w x) = statusPath d x"
  "statusPath d (markResizeTaskObserving t m x) = statusPath d x"
  "statusPath d (finishTaskAgentOperation t s x) = statusPath d x"
  by (auto intro!: statusPath_cong)

text \<open>The transaction boundary: an error keeps the database.\<close>

definition keepOr :: "db \<Rightarrow> error + 'a \<times> db \<Rightarrow> db" where
  "keepOr d r = (case r of Inl _ \<Rightarrow> d | Inr (_, d') \<Rightarrow> d')"

lemma keepOr_simps [simp]: "keepOr d (Inl e) = d" "keepOr d (Inr (x, d')) = d'"
  by (simp_all add: keepOr_def)

section \<open>Leases\<close>

text \<open>An update guarded by a lease touches the lease row only, and succeeds exactly when the
  lease is held.\<close>

lemma lease_affected:
  assumes u: "taskTab.unique d" and r: "r \<in> set (tasks d)" "t_id r = t_id task"
  shows "affected (leaseRow task d) f (tasks d) = 1 \<longleftrightarrow> leaseRow task d r \<and> f r \<noteq> r"
  by (rule taskTab.affected_key [OF u r(1)]) (simp add: leaseRow_def r)

lemma no_lease_update:
  assumes "\<forall>r \<in> set (tasks d). \<not> leaseRow task d r"
  shows "affected (leaseRow task d) f (tasks d) = 0" "update (leaseRow task d) f (tasks d) = tasks d"
  using assms by (auto simp: affected_zero_iff intro: update_id)

lemma update_key_row:
  assumes u: "taskTab.unique d" and r: "r \<in> set (tasks d)" "p r" and p: "\<And>s. p s \<Longrightarrow> t_id s = t_id r"
    and s: "s \<in> set (update p f (tasks d))" "t_id s = t_id r" and f: "\<And>s. t_id (f s) = t_id s"
  shows "s = f r"
  using taskTab.row_after_update [OF u r(1) f, of s p] s r by (simp add: taskTab.rows_put)

lemma lease_unique:
  assumes "taskTab.unique d" "ta \<in> set (tasks d)" "tb \<in> set (tasks d)" "leaseRow a d ta" "t_id tb = t_id a"
  shows "tb = ta"
  using assms taskTab.key_unique by (metis leaseRow_def)

section \<open>The fence\<close>

lemma countRows_pos: "countRows p t \<noteq> 0 \<Longrightarrow> \<exists>r \<in> set t. p r"
  by (induction t) (auto split: if_splits)

lemma fence_pass:
  assumes "taskMayCallAgent task ex d = Inr ()" "lifecycleTask (t_action task)"
  shows "\<exists>t \<in> set (tasks d). \<exists>i \<in> set (instances d). \<exists>n \<in> set (nodes d). fenceRow task ex d (t, i, n)"
proof -
  have "fenceCount task ex d \<noteq> 0"
    using assms by (auto simp: taskMayCallAgent_def split: if_splits)
  from countRows_pos [OF this [unfolded fenceCount_def]] show ?thesis by auto
qed

text \<open>Under the lock of one instance there is one lease.\<close>

lemma lock_unique:
  assumes u: "taskTab.unique d" "instTab.unique d"
    and t: "ta \<in> set (tasks d)" "tb \<in> set (tasks d)" "t_instance ta = t_instance tb"
    and i: "ia \<in> set (instances d)" "ib \<in> set (instances d)" "lockRow d ta ia" "lockRow d tb ib"
  shows "ta = tb"
proof -
  have "ia = ib" using u(2) i t(3) instTab.key_unique unfolding lockRow_def by metis
  then have "t_id ta = t_id tb" using i(3,4) by (auto simp: lockRow_def sqlEq_iff)
  then show ?thesis using taskTab.key_unique [OF u(1) t(1,2)] by simp
qed

section \<open>Claims\<close>

lemma claim_true:
  assumes "claimTask w k task d = (True, d')"
  shows "\<exists>r \<in> set (tasks d). t_id r = t_id task \<and> t_status r = TaskPending"
    and "tasks d' = update (\<lambda>r. t_id r = t_id task \<and> t_status r = TaskPending)
      (\<lambda>r. r\<lparr>t_status := TaskRunning, t_attempts := Suc (t_attempts r),
         t_claimedAt := Some (now d), t_heartbeat := Some (now d),
         t_claimExpires := Some (now d + leaseTime), t_worker := Some w, t_token := Some k,
         t_updatedAt := now d\<rparr>) (tasks d)"
    and "lifecycleTask (t_action task) \<Longrightarrow>
      (\<exists>i \<in> set (instances d). i_id i = t_instance task \<and> noneOr (\<lambda>e. e \<le> now d) (i_activeExpires i)) \<and>
      instances d' = update (\<lambda>r. i_id r = t_instance task \<and> noneOr (\<lambda>e. e \<le> now d) (i_activeExpires r))
        (\<lambda>r. r\<lparr>i_activeTask := Some (t_id task), i_activeToken := Some k,
           i_activeExpires := Some (now d + leaseTime)\<rparr>) (instances d)"
    and "now d' = now d"
  using assms
  by (auto simp: claimTask_def Let_def split: if_splits dest!: taskTab.affected_one_row [of _ _ d 0]
      instTab.affected_one_row [of _ _ d 0])

lemma claim_false:
  assumes "claimTask w k task d = (False, d')"
  shows "tasks d' = tasks d" "instances d' = instances d"
  using assms by (auto simp: claimTask_def Let_def split: if_splits)

section \<open>Properties\<close>

text \<open>The fence is exclusive: if two workers both pass the check that guards every Agent
  request for lifecycle tasks of the same instance, at the same database state, they are the same
  execution: same task, same worker, same execution token.\<close>

theorem fence_exclusive:
  assumes u: "taskTab.unique d" "instTab.unique d"
    and a: "taskMayCallAgent a exa d = Inr ()" "lifecycleTask (t_action a)"
    and b: "taskMayCallAgent b exb d = Inr ()" "lifecycleTask (t_action b)"
    and same: "\<exists>ta \<in> set (tasks d). \<exists>tb \<in> set (tasks d).
      t_id ta = t_id a \<and> t_id tb = t_id b \<and> t_instance ta = t_instance tb"
  shows "t_id a = t_id b \<and> t_token a = t_token b \<and> t_worker a = t_worker b"
proof -
  obtain ta ia na where ta: "ta \<in> set (tasks d)" "ia \<in> set (instances d)" "fenceRow a exa d (ta, ia, na)"
    using fence_pass [OF a] by blast
  obtain tb ib nb where tb: "tb \<in> set (tasks d)" "ib \<in> set (instances d)" "fenceRow b exb d (tb, ib, nb)"
    using fence_pass [OF b] by blast
  obtain sa sb where s: "sa \<in> set (tasks d)" "sb \<in> set (tasks d)" "t_id sa = t_id a" "t_id sb = t_id b"
    "t_instance sa = t_instance sb" using same by blast
  have "leaseRow a d ta" "leaseRow b d tb" using ta(3) tb(3) by (simp_all add: fenceRow_def)
  then have "sa = ta" "sb = tb"
    using lease_unique [OF u(1) ta(1) s(1) _ s(3)] lease_unique [OF u(1) tb(1) s(2) _ s(4)] by auto
  then have "t_instance ta = t_instance tb" using s(5) by simp
  then have "ta = tb"
    using lock_unique [OF u ta(1) tb(1) _ ta(2) tb(2)] ta(3) tb(3) by (simp add: fenceRow_def)
  then show ?thesis using ta(3) tb(3) by (auto simp: fenceRow_def leaseRow_def sqlEq_iff)
qed

text \<open>A claim is atomic: when it succeeds, the task was pending, the task row now carries the
  worker, the token, one more attempt and a five-minute lease, and for a lifecycle action the
  instance lock was free or expired and is now held by this execution; when it fails, no task and
  no instance row has changed, whichever of the two statements failed.\<close>

theorem claim_atomic:
  assumes u: "taskTab.unique d" "instTab.unique d"
  shows "(case claimTask w k task d of
      (False, d') \<Rightarrow> tasks d' = tasks d \<and> instances d' = instances d
    | (True, d') \<Rightarrow>
        (\<exists>r \<in> set (tasks d). t_id r = t_id task \<and> t_status r = TaskPending \<and>
           (\<forall>s \<in> set (tasks d'). t_id s = t_id task \<longrightarrow>
              leaseRow (task\<lparr>t_worker := Some w, t_token := Some k\<rparr>) d' s \<and>
              t_attempts s = Suc (t_attempts r) \<and> t_claimExpires s = Some (now d + leaseTime))) \<and>
        (lifecycleTask (t_action task) \<longrightarrow>
           (\<exists>i \<in> set (instances d). i_id i = t_instance task \<and> noneOr (\<lambda>e. e \<le> now d) (i_activeExpires i)) \<and>
           (\<forall>j \<in> set (instances d'). i_id j = t_instance task \<longrightarrow>
              i_activeTask j = Some (t_id task) \<and> i_activeToken j = Some k \<and>
              i_activeExpires j = Some (now d + leaseTime))))"
proof (cases "claimTask w k task d")
  case (Pair b d')
  show ?thesis
  proof (cases b)
    case False
    then show ?thesis using Pair claim_false [of w k task d d'] by simp
  next
    case True
    from Pair True have eq: "claimTask w k task d = (True, d')" by simp
    note c = claim_true [OF eq]
    obtain r where r: "r \<in> set (tasks d)" "t_id r = t_id task" "t_status r = TaskPending"
      using c(1) by blast
    have rows: "leaseRow (task\<lparr>t_worker := Some w, t_token := Some k\<rparr>) d' s \<and>
        t_attempts s = Suc (t_attempts r) \<and> t_claimExpires s = Some (now d + leaseTime)"
      if s: "s \<in> set (tasks d')" "t_id s = t_id task" for s
    proof -
      have "s = r\<lparr>t_status := TaskRunning, t_attempts := Suc (t_attempts r),
         t_claimedAt := Some (now d), t_heartbeat := Some (now d),
         t_claimExpires := Some (now d + leaseTime), t_worker := Some w, t_token := Some k,
         t_updatedAt := now d\<rparr>"
        using s r by (intro update_key_row [OF u(1) r(1), where p = "\<lambda>r. t_id r = t_id task \<and> t_status r = TaskPending"])
          (auto simp: c(2))
      then show ?thesis by (simp add: leaseRow_def r(2) c(4) leaseTime_def time_units)
    qed
    have lock: "i_activeTask j = Some (t_id task) \<and> i_activeToken j = Some k \<and>
        i_activeExpires j = Some (now d + leaseTime)"
      if l: "lifecycleTask (t_action task)" and j: "j \<in> set (instances d')" "i_id j = t_instance task" for j
    proof -
      obtain i where i: "i \<in> set (instances d)" "i_id i = t_instance task"
          "noneOr (\<lambda>e. e \<le> now d) (i_activeExpires i)"
        using c(3) [OF l] by blast
      have "j = i\<lparr>i_activeTask := Some (t_id task), i_activeToken := Some k,
          i_activeExpires := Some (now d + leaseTime)\<rparr>"
        using instTab.row_after_update [OF u(2) i(1), where s = j and p = "\<lambda>r. i_id r = t_instance task \<and>
            noneOr (\<lambda>e. e \<le> now d) (i_activeExpires r)" and f = "\<lambda>r. r\<lparr>i_activeTask := Some (t_id task),
            i_activeToken := Some k, i_activeExpires := Some (now d + leaseTime)\<rparr>"] j i c(3) [OF l]
        by (simp add: instTab.rows_put)
      then show ?thesis by simp
    qed
    show ?thesis using Pair True r rows lock c(3) by auto
  qed
qed


text \<open>C3. A worker without the lease is powerless: if the row of its task is no longer running, or
  carries another worker or token, or its lease has expired, then finishing the task reports failure
  and writes nothing, a renewal changes no task and no instance, and the fence refuses the Agent
  request.\<close>

theorem stale_worker_powerless:
  assumes "\<forall>r \<in> set (tasks d). \<not> leaseRow task d r" and w: "t_worker task \<noteq> None"
  shows "finishTask task err d = Inr (False, d) \<and>
    fst (renewTick task d) = False \<and> tasks (snd (renewTick task d)) = tasks d \<and>
    instances (snd (renewTick task d)) = instances d \<and>
    (lifecycleTask (t_action task) \<longrightarrow> taskMayCallAgent task ex d \<noteq> Inr ())"
proof -
  note n = no_lease_update [OF assms(1)]
  have fu: "finishUpdate task f post d = (False, d)" for f post
    by (simp add: finishUpdate_def Let_def n)
  have "finishTask task err d = Inr (False, d)"
    using w by (auto simp: finishTask_def Let_def fu split: option.splits)
  moreover have "taskMayCallAgent task ex d \<noteq> Inr ()" if "lifecycleTask (t_action task)"
    using fence_pass [of task ex d] that assms(1) by (auto simp: fenceRow_def)
  ultimately show ?thesis by (simp add: renewTick_def Let_def n)
qed

text \<open>A task and an instance as they are between claim and finish.\<close>

definition exampleTask :: controlTask where
  "exampleTask = (newTask ''task_1'' ''ins_1'' Stop (ActionKey Stop ''ins_1'' 0) 0 0)
     \<lparr>t_status := TaskRunning, t_attempts := 2, t_worker := Some ''w1'', t_token := Some ''exec_1'',
      t_claimExpires := Some (leaseTime)\<rparr>"

definition exampleLease :: db where
  "exampleLease = (emptyDb 5)\<lparr>tasks := [exampleTask],
     instances := [blankInst\<lparr>i_id := ''ins_1'', i_status := Running, i_node := Some ''n1'',
       i_activeTask := Some ''task_1'', i_activeToken := Some ''exec_1'',
       i_activeExpires := Some leaseTime\<rparr>],
     nodes := [\<lparr>n_id = ''n1'', n_kind = Platform, n_device = None, n_cpuTotal = 4, n_memTotal = 8192,
       n_cpuDetected = 4, n_memDetected = 8192, n_enabled = True, n_heartbeat = None,
       n_apiVersion = 2, n_capabilities = [], n_lastError = None, n_owner = None, n_name = ''node'', n_ready = True,
       n_issues = [], n_cpuQuota = 0, n_memQuota = 0, n_autoQuota = True\<rparr>]\<rparr>"

lemmas example_defs = exampleLease_def exampleTask_def newTask_def blankInst_def emptyDb_def
  leaseTime_def time_units

lemma example_unique: "taskTab.unique exampleLease" "instTab.unique exampleLease"
  by (simp_all add: taskTab.unique_def instTab.unique_def exampleLease_def)

lemma example_holds_lease:
  "exampleTask \<in> set (tasks exampleLease)" "leaseRow exampleTask exampleLease exampleTask"
  by (simp_all add: leaseRow_def example_defs)

lemma example_passes: "taskMayCallAgent exampleTask [Running] exampleLease = Inr ()"
  by (simp add: taskMayCallAgent_def fenceCount_def fenceRow_def leaseRow_def lockRow_def
      generationOk_def example_defs)

theorem fence_exclusive_witness:
  "taskMayCallAgent exampleTask [] exampleLease = Inr () \<and>
   t_worker (exampleTask\<lparr>t_attempts := 1\<rparr>) = t_worker exampleTask"
proof -
  let ?b = "exampleTask\<lparr>t_attempts := 1\<rparr>"
  have b: "taskMayCallAgent ?b [] exampleLease = Inr ()" "taskMayCallAgent exampleTask [] exampleLease = Inr ()"
    by (simp_all add: taskMayCallAgent_def fenceCount_def fenceRow_def leaseRow_def lockRow_def
      generationOk_def example_defs)
  have "t_id ?b = t_id exampleTask \<and> t_token ?b = t_token exampleTask \<and> t_worker ?b = t_worker exampleTask"
    by (rule fence_exclusive [OF example_unique b(1) _ b(2)]) (auto simp: example_defs)
  with b show ?thesis by blast
qed

theorem claim_atomic_witness:
  "\<exists>d'. claimTask ''w2'' ''exec_2'' (newTask ''task_2'' ''ins_1'' Start (ActionKey Start ''ins_1'' 9) 0 0)
      (exampleLease\<lparr>tasks := [newTask ''task_2'' ''ins_1'' Start (ActionKey Start ''ins_1'' 9) 0 0]\<rparr>) = (False, d') \<and>
    tasks d' = [newTask ''task_2'' ''ins_1'' Start (ActionKey Start ''ins_1'' 9) 0 0]"
proof -
  let ?t = "newTask ''task_2'' ''ins_1'' Start (ActionKey Start ''ins_1'' 9) 0 0"
  let ?d = "exampleLease\<lparr>tasks := [?t]\<rparr>"
  have u: "taskTab.unique ?d" "instTab.unique ?d"
    by (simp_all add: taskTab.unique_def instTab.unique_def exampleLease_def)
  obtain d' where c: "claimTask ''w2'' ''exec_2'' ?t ?d = (False, d')"
    by (simp add: claimTask_def Let_def example_defs)
  then show ?thesis using claim_atomic [OF u, where w = "''w2''" and k = "''exec_2''" and task = ?t] by simp
qed

theorem stale_worker_powerless_witness:
  "finishTask exampleTask None (exampleLease\<lparr>now := leaseTime\<rparr>) = Inr (False, exampleLease\<lparr>now := leaseTime\<rparr>)"
  using stale_worker_powerless [of "exampleLease\<lparr>now := leaseTime\<rparr>" exampleTask None "[]"]
  by (simp add: leaseRow_def example_defs)

text \<open>What \<open>finishTask\<close> decides from the error and the number of attempts.\<close>

definition finishStatus :: "controlTask \<Rightarrow> error option \<Rightarrow> tstatus" where
  "finishStatus task err = (case err of None \<Rightarrow> TaskDone
     | Some (ErrCancelled _) \<Rightarrow> TaskReview
     | Some _ \<Rightarrow> if t_attempts task < 3 \<or> t_action task = CompensateResize then TaskPending
                 else if t_action task = Resize then TaskReview else TaskFailed)"

lemma finishUpdate_row:
  assumes u: "taskTab.unique d" and r: "r \<in> set (tasks d)" "leaseRow task d r"
    and f: "\<And>s. t_id (f s) = t_id s" "\<And>s. t_status (f s) \<noteq> TaskRunning"
    and post: "\<And>x. tasks (post x) = tasks x"
  shows "\<exists>d'. finishUpdate task f post d = (True, d') \<and>
    (\<forall>s \<in> set (tasks d'). t_id s = t_id task \<longrightarrow> s = f (releaseRow (now d) r))"
proof -
  have rid: "t_id r = t_id task" and run: "t_status r = TaskRunning" using r by (auto simp: leaseRow_def)
  let ?g = "\<lambda>r. f (releaseRow (now d) r)"
  have g: "t_id (?g s) = t_id s" for s using f(1) by (simp add: releaseRow_def)
  have "?g r \<noteq> r" using f(2) [of "releaseRow (now d) r"] run by auto
  then have "affected (leaseRow task d) ?g (tasks d) = 1"
    using lease_affected [OF u r(1) rid] r(2) by simp
  moreover have "s = ?g r" if "s \<in> set (update (leaseRow task d) ?g (tasks d))" "t_id s = t_id task" for s
    using that rid update_key_row [where p = "leaseRow task d" and f = ?g, OF u r _ _ _ g]
    by (auto simp: leaseRow_def)
  ultimately show ?thesis by (simp add: finishUpdate_def Let_def post)
qed

lemma finishTask_shape:
  assumes w: "t_worker task \<noteq> None"
  shows "\<exists>f post. finishTask task err d = Inr (finishUpdate task f post d) \<and>
    (\<forall>s. t_id (f s) = t_id s) \<and> (\<forall>s. t_status (f s) = finishStatus task err) \<and>
    (\<forall>s. t_token (f s) = t_token s \<and> t_worker (f s) = t_worker s \<and>
       t_claimExpires (f s) = t_claimExpires s \<and> t_attempts (f s) = t_attempts s \<and>
       t_action (f s) = t_action s \<and> t_recovery (f s) = t_recovery s) \<and>
    (\<forall>s. finishStatus task err = TaskPending \<longrightarrow>
       t_runAfter (f s) = now d + int (t_attempts task * t_attempts task) * minute) \<and>
    (\<forall>s. finishStatus task err \<noteq> TaskPending \<longrightarrow> t_finishedAt (f s) = Some (now d)) \<and>
    (\<forall>x. tasks (post x) = tasks x) \<and> (\<forall>x. statusPath x (post x)) \<and> (\<forall>x. now (post x) = now x) \<and>
    (\<forall>x. wallets (post x) = wallets x \<and> walletEntries (post x) = walletEntries x)"
proof -
  have st: "finishStatus task (Some e) = (if t_attempts task < 3 \<or> t_action task = CompensateResize
        then TaskPending else if t_action task = Resize then TaskReview else TaskFailed)"
    if "\<nexists>m. e = ErrCancelled m" for e using that by (cases e) (auto simp: finishStatus_def)
  consider "err = None" | m where "err = Some (ErrCancelled m)"
    | e where "err = Some e" "\<nexists>m. e = ErrCancelled m" by (cases err) auto
  then show ?thesis
  proof cases
    case 1
    show ?thesis unfolding finishTask_def 1 if_not_P [OF w] option.case Let_def
      by (intro exI conjI, rule refl)
        (auto simp: finishStatus_def)
  next
    case 2
    show ?thesis unfolding finishTask_def 2 if_not_P [OF w] option.case Let_def
      apply (simp only: error.inject ex_simps simp_thms if_True)
      apply (intro exI conjI, rule refl)
      apply (auto simp: finishStatus_def)
      done
  next
    case (3 e)
    note pre = finishTask_def 3(1) if_not_P [OF w] option.case Let_def if_not_P [OF 3(2)] st [OF 3(2)]
    consider (retry) "t_attempts task < 3 \<or> t_action task = CompensateResize"
      | (review) "\<not> (t_attempts task < 3 \<or> t_action task = CompensateResize)" "t_action task = Resize"
      | (dead) "\<not> (t_attempts task < 3 \<or> t_action task = CompensateResize)" "t_action task \<noteq> Resize"
      by blast
    then show ?thesis
    proof cases
      case retry
      then have g: "\<not> (3 \<le> t_attempts task \<and> t_action task = Resize)"
        "\<not> (3 \<le> t_attempts task \<and> t_action task \<noteq> CompensateResize)" by auto
      show ?thesis unfolding pre if_P [OF retry] if_not_P [OF g(1)] if_not_P [OF g(2)]
        by (intro exI conjI, rule refl) auto
    next
      case review
      then have g: "3 \<le> t_attempts task \<and> t_action task = Resize" by auto
      show ?thesis unfolding pre if_not_P [OF review(1)] if_P [OF review(2)] if_P [OF g]
        by (intro exI conjI, rule refl) auto
    next
      case dead
      then have g: "\<not> (3 \<le> t_attempts task \<and> t_action task = Resize)"
        "3 \<le> t_attempts task \<and> t_action task \<noteq> CompensateResize" by auto
      show ?thesis unfolding pre if_not_P [OF dead(1)] if_not_P [OF dead(2)] if_not_P [OF g(1)] if_P [OF g(2)]
        by (intro exI conjI, rule refl) auto
    qed
  qed
qed

text \<open>Finishing is exact: a worker that holds the lease always finishes its task, with the
  status its error and attempts call for: success is final, a cancelled Agent operation and an
  exhausted resize go to review, compensation is retried without limit, anything else is retried up
  to three times with a delay of attempts squared minutes and then fails; in each case the lease is
  given up.\<close>

theorem finish_exact:
  assumes u: "taskTab.unique d" and r: "r \<in> set (tasks d)" "leaseRow task d r" and w: "t_worker task \<noteq> None"
  shows "\<exists>d'. finishTask task err d = Inr (True, d') \<and>
    (\<forall>s \<in> set (tasks d'). t_id s = t_id task \<longrightarrow>
       t_status s = finishStatus task err \<and> t_token s = None \<and> t_worker s = None \<and>
       t_claimExpires s = None \<and> t_attempts s = t_attempts r \<and>
       (t_status s = TaskPending \<longrightarrow>
          t_runAfter s = now d + int (t_attempts task * t_attempts task) * minute) \<and>
       (t_status s \<noteq> TaskPending \<longrightarrow> t_finishedAt s = Some (now d)))"
  (is "\<exists>d'. _ \<and> ?Q d'")
proof -
  obtain f post where sh: "finishTask task err d = Inr (finishUpdate task f post d)"
    and f: "\<And>s. t_id (f s) = t_id s" "\<And>s. t_status (f s) = finishStatus task err"
    "\<And>s. t_token (f s) = t_token s \<and> t_worker (f s) = t_worker s \<and>
       t_claimExpires (f s) = t_claimExpires s \<and> t_attempts (f s) = t_attempts s"
    "\<And>s. finishStatus task err = TaskPending \<Longrightarrow>
       t_runAfter (f s) = now d + int (t_attempts task * t_attempts task) * minute"
    "\<And>s. finishStatus task err \<noteq> TaskPending \<Longrightarrow> t_finishedAt (f s) = Some (now d)"
    and post: "\<And>x. tasks (post x) = tasks x"
    using finishTask_shape [OF w, of err d] by blast
  have "t_status (f s) \<noteq> TaskRunning" for s
    using f(2) by (auto simp: finishStatus_def split: option.splits error.splits if_splits)
  from finishUpdate_row [OF u r f(1) this post] sh f show ?thesis
    by (fastforce simp: releaseRow_def)
qed


theorem finish_exact_witness:
  "\<exists>d'. finishTask exampleTask (Some (ErrAgent ''timeout'')) exampleLease = Inr (True, d') \<and>
    (\<forall>s \<in> set (tasks d'). t_id s = ''task_1'' \<longrightarrow> t_status s = TaskPending \<and> t_runAfter s = 5 + 4 * minute)"
proof -
  have "t_worker exampleTask \<noteq> None" by (simp add: exampleTask_def)
  from finish_exact [OF example_unique(1) example_holds_lease this, of "Some (ErrAgent ''timeout'')"]
  show ?thesis
    by (auto simp: finishStatus_def exampleTask_def newTask_def exampleLease_def emptyDb_def)
qed



section \<open>The queue respects the instance state machine\<close>

lemma claim_path: "statusPath d (snd (claimTask w k t d))"
  by (auto simp: claimTask_def Let_def intro: statusPath_update statusPath_same)

lemma finish_path: "statusPath d (keepOr d (finishTask task err d))"
proof (cases "t_worker task = None")
  case True
  then show ?thesis by (simp add: finishTask_def)
next
  case False
  then obtain f post where f: "finishTask task err d = Inr (finishUpdate task f post d)"
    "\<And>x. statusPath x (post x)" using finishTask_shape [OF False, of err d] by blast
  show ?thesis unfolding f(1) finishUpdate_def Let_def
    by (auto intro: statusPath_same statusPath_trans [OF statusPath_same f(2)])
qed

lemma tick_path: "statusPath d (snd (renewTick task d))"
  by (auto simp: renewTick_def Let_def intro: statusPath_update statusPath_same)

interpretation claim_life: lifecycle_op "\<lambda>(w, k, t) d. snd (claimTask w k t d)"
  by unfold_locales (auto intro: claim_path)

interpretation finish_life: lifecycle_op "\<lambda>(task, err) d. keepOr d (finishTask task err d)"
  by unfold_locales (auto intro: finish_path)

interpretation renew_life: lifecycle_op "\<lambda>task d. snd (renewTick task d)"
  by unfold_locales (rule tick_path)

end
