(* ===== verification/PlanChange.thy ===== *)
theory PlanChange
  imports Refund Tasks
begin

text \<open>
  Plan changes (\<open>plan_change.go\<close>): the quote, the reservation made before the Agent is asked to
  resize, the settlement that replaces the orders of the instance once it has, and the ways a change
  ends without settlement: failure, user cancellation with compensation, and the reconciliation of
  uncertain Agent results. \<open>fresh\<close> supplies ids by label; \<open>inspect\<close> is the Agent's answer to an
  inspection, together with what happened to the database while the control plane waited for it.
\<close>

section \<open>Quotes\<close>

record planItem =
  qi_source :: id
  qi_sourcePlan :: id
  qi_start :: gotime
  qi_end :: gotime
  qi_paid :: int
  qi_refund :: int
  qi_charge :: int
  qi_rstart :: gotime
  qi_rend :: gotime
  qi_bps :: int
  qi_months :: int
  qi_discount :: int
  qi_program :: "id option"

record planQuote =
  pq_instance :: id
  pq_current :: id
  pq_target :: id
  pq_charge :: int
  pq_refund :: int
  pq_cutoff :: gotime
  pq_items :: "planItem list"

definition latestPlanForInstance :: "id \<Rightarrow> id \<Rightarrow> db \<Rightarrow> (plan \<times> inst) option" where
  "latestPlanForInstance ownerID iid db =
     (case sort_key (\<lambda>r. - o_createdAt r)
        (filter (\<lambda>r. o_owner r = ownerID \<and> o_instance r = Some iid \<and> o_status r \<in> {OrderActive, OrderExpired} \<and>
           select (\<lambda>p. p_id p = o_plan r) (plans db) \<noteq> None) (orders db)) of
        [] \<Rightarrow> None
      | r # _ \<Rightarrow>
          (case (select (\<lambda>p. p_id p = o_plan r) (plans db), select (\<lambda>i. i_id i = iid) (instances db)) of
             (Some p, Some i) \<Rightarrow> if i_expires i = None then None else Some (p, i)
           | _ \<Rightarrow> None))"

definition sourceOrder :: "id \<Rightarrow> id \<Rightarrow> db \<Rightarrow> order \<Rightarrow> bool" where
  "sourceOrder ownerID iid db r \<longleftrightarrow> o_owner r = ownerID \<and> o_instance r = Some iid \<and> o_status r = OrderActive \<and>
     o_start r \<noteq> None \<and> someAnd (\<lambda>e. now db < e) (o_expires r) \<and>
     select (\<lambda>p. p_id p = o_plan r) (plans db) \<noteq> None"

definition later :: "gotime \<Rightarrow> gotime \<Rightarrow> gotime" where
  "later a b = (if after b a then b else a)"

definition quoteItem :: "gotime \<Rightarrow> int \<Rightarrow> int \<Rightarrow> int \<Rightarrow> order \<Rightarrow> planItem" where
  "quoteItem t months bps discountedMonthly r =
     (let s = the (o_start r); e = the (o_expires r); rs = later t s in
      \<lparr>qi_source = o_id r, qi_sourcePlan = o_plan r, qi_start = s, qi_end = e, qi_paid = o_amount r,
       qi_refund = planChangeOrderRefundFen (o_amount r) s e t,
       qi_charge = prorateMonthlyFen discountedMonthly rs e, qi_rstart = rs, qi_rend = e,
       qi_bps = bps, qi_months = months, qi_discount = 0, qi_program = None\<rparr>)"

definition buildPlanChangeQuote :: "id \<Rightarrow> id \<Rightarrow> id \<Rightarrow> db \<Rightarrow> error + planQuote" where
  "buildPlanChangeQuote ownerID iid targetPlanID db =
     bindE (orElse (latestPlanForInstance ownerID iid db) (Msg ''no plan to change'')) (\<lambda>(cur, i).
     if i_status i \<noteq> Running \<and> i_status i \<noteq> Stopped then Inl (Msg ''instance must be running or stopped'')
     else bindE (orElse (select (\<lambda>p. p_id p = targetPlanID \<and> p_enabled p) (plans db)) (Msg ''target plan unavailable'')) (\<lambda>p.
     if p_monthly p < 0 then Inl (Msg ''invalid target price'')
     else if p_id cur = targetPlanID then Inl (Msg ''same plan'')
     else
     let srcs = sort_key (\<lambda>r. (the (o_start r), o_id r)) (filter (sourceOrder ownerID iid db) (orders db));
         periodEnd = fold (\<lambda>r e. later e (the (o_expires r))) srcs (now db)
     in if srcs = [] then Inl (Msg ''no order to replace'')
     else bindE (planChangeTargetRate targetPlanID (p_monthly p) (now db) periodEnd db) (\<lambda>(months, bps).
     let discountedMonthly = go_div (p_monthly p * bps) 10000;
         items = map (quoteItem (now db) months bps discountedMonthly) srcs
     in if list_ex (\<lambda>x. qi_charge x < 0 \<or> qi_refund x < 0) items then Inl (Msg ''invalid quote'')
        else Inr \<lparr>pq_instance = iid, pq_current = p_id cur, pq_target = targetPlanID,
               pq_charge = sum_list (map qi_charge items), pq_refund = sum_list (map qi_refund items),
               pq_cutoff = now db, pq_items = items\<rparr>)))"

section \<open>Creation and reservation\<close>

definition blocksPlanChange :: "id \<Rightarrow> controlTask \<Rightarrow> bool" where
  "blocksPlanChange iid t \<longleftrightarrow> t_instance t = iid \<and> t_status t \<in> {TaskPending, TaskRunning} \<and> renewalBlocker (t_action t)"

definition resizeCapability :: string where "resizeCapability = ''container.compose.resize.v1''"

text \<open>The node checks of \<open>createPlanChange\<close>: health, capability, and room without this instance.\<close>

definition planChangeNode :: "duration \<Rightarrow> id \<Rightarrow> inst \<Rightarrow> plan \<Rightarrow> db \<Rightarrow> error + node" where
  "planChangeNode ttl iid i p db =
     bindE (orElse (select (\<lambda>n. Some (n_id n) = i_node i) (nodes db)) (Msg ''node unavailable'')) (\<lambda>n.
     if \<not> n_enabled n \<or> \<not> someAnd (\<lambda>h. now db - h \<le> ttl) (n_heartbeat n) then Inl (Msg ''node unavailable'')
     else if resizeCapability \<notin> set (n_capabilities n) then Inl (Msg ''agent cannot resize'')
     else
     let others = (\<lambda>x. onNode (n_id n) x \<and> i_id x \<noteq> iid) in
     if sumRows others i_cpu (instances db) + p_cpu p > n_cpuTotal n \<or>
        sumRows others i_memory (instances db) + p_memory p > n_memTotal n
     then Inl (Msg ''node has no room'')
     else Inr n)"

definition reserveFunds :: "id \<Rightarrow> id \<Rightarrow> id \<Rightarrow> int \<Rightarrow> db \<Rightarrow> error + db" where
  "reserveFunds entryID ownerID changeID reservation db =
     (if reservation > 0 then
        bindE (orElse (walletOf ownerID db) (Msg ''insufficient balance'')) (\<lambda>balance.
        if balance < reservation then Inl (Msg ''insufficient balance'')
        else insertEntry \<lparr>we_id = entryID, we_user = ownerID, we_amount = - reservation, we_after = balance - reservation,
               we_type = PlanChangePending, we_actor = ownerID, we_order = None, we_change = Some changeID,
               we_key = Some (PurchaseKey changeID), we_createdAt = now db\<rparr>
             (addBalance ownerID (- reservation) db))
      else Inr db)"

definition insertChange :: "planChange \<Rightarrow> db \<Rightarrow> error + db" where
  "insertChange r db = (if pc_id r \<in> pc_id ` set (planChanges db) then Inl ErrDuplicate
     else Inr (db\<lparr>planChanges := planChanges db @ [r]\<rparr>))"

text \<open>One item of the quote is checked against the locked order and recorded.\<close>

definition checkItem :: "id \<Rightarrow> id \<Rightarrow> gotime \<Rightarrow> int \<Rightarrow> int \<Rightarrow> int \<Rightarrow> db \<Rightarrow> planItem \<Rightarrow> bool" where
  "checkItem ownerID iid effectiveAt months bps discountedMonthly db x \<longleftrightarrow>
     (case select (\<lambda>r. o_id r = qi_source x \<and> o_owner r = ownerID \<and> o_instance r = Some iid \<and> o_status r = OrderActive) (orders db) of
        None \<Rightarrow> False
      | Some r \<Rightarrow>
          o_amount r = qi_paid x \<and> o_start r = Some (qi_start x) \<and> o_expires r = Some (qi_end x) \<and>
          (let s = the (o_start r); e = the (o_expires r) in
           qi_refund x = planChangeOrderRefundFen (o_amount r) s e effectiveAt \<and>
           qi_charge x = prorateMonthlyFen discountedMonthly (later effectiveAt s) e \<and>
           qi_months x = months \<and> qi_bps x = bps \<and> qi_rstart x = later effectiveAt s \<and> qi_rend x = e))"

definition itemRow :: "id \<Rightarrow> planItem \<Rightarrow> exchangeItem" where
  "itemRow exchangeID x = \<lparr>xi_exchange = exchangeID, xi_source = qi_source x, xi_start = qi_rstart x, xi_end = qi_rend x,
     xi_refund = qi_refund x, xi_charge = qi_charge x, xi_bps = qi_bps x, xi_months = qi_months x,
     xi_program = qi_program x, xi_discount = qi_discount x, xi_replacement = None\<rparr>"

definition bumpGeneration :: "id \<Rightarrow> (inst \<Rightarrow> bool) \<Rightarrow> db \<Rightarrow> db" where
  "bumpGeneration iid p db = db\<lparr>instances := update (\<lambda>i. i_id i = iid \<and> p i)
     (\<lambda>i. i\<lparr>i_generation := i_generation i + 1\<rparr>) (instances db)\<rparr>"

definition generationOf :: "id \<Rightarrow> db \<Rightarrow> int option" where
  "generationOf iid db = map_option i_generation (select (\<lambda>i. i_id i = iid) (instances db))"

definition setChange :: "id \<Rightarrow> (planChange \<Rightarrow> bool) \<Rightarrow> (planChange \<Rightarrow> planChange) \<Rightarrow> db \<Rightarrow> db" where
  "setChange cid p f db = db\<lparr>planChanges := update (\<lambda>c. pc_id c = cid \<and> p c) f (planChanges db)\<rparr>"

definition checkPlanChange ::
  "duration \<Rightarrow> id \<Rightarrow> id \<Rightarrow> id \<Rightarrow> id option \<Rightarrow> planQuote \<Rightarrow> db \<Rightarrow> error + plan \<times> inst \<times> plan \<times> int \<times> int" where
  "checkPlanChange ttl ownerID iid targetPlanID expectedCurrent quote db =
     bindE (orElse (select (\<lambda>i. i_id i = iid \<and> i_owner i = ownerID) (instances db)) (Msg ''no plan to change'')) (\<lambda>_.
     bindE (orElse (latestPlanForInstance ownerID iid db) (Msg ''no plan to change'')) (\<lambda>(cur, i).
     if i_status i \<noteq> Running \<and> i_status i \<noteq> Stopped then Inl (Msg ''instance must be running or stopped'')
     else if (case expectedCurrent of None \<Rightarrow> False | Some c \<Rightarrow> c \<noteq> p_id cur) then Inl (Msg ''current plan changed'')
     else bindE (orElse (select (\<lambda>p. p_id p = targetPlanID \<and> p_enabled p) (plans db)) (Msg ''target plan unavailable'')) (\<lambda>p.
     if targetPlanID = p_id cur then Inl (Msg ''same plan'')
     else if pq_instance quote \<noteq> iid \<or> pq_target quote \<noteq> targetPlanID \<or> pq_items quote = [] then Inl (Msg ''quote changed'')
     else if after (pq_cutoff quote) (now db) then Inl (Msg ''quote changed'')
     else if countRows (blocksPlanChange iid) (tasks db) > 0 then Inl (Msg ''instance busy'')
     else bindE (planChangeNode ttl iid i p db) (\<lambda>n.
     bindE (planChangeTargetRate targetPlanID (p_monthly p) (pq_cutoff quote)
              (fold (\<lambda>x e. later e (qi_rend x)) (pq_items quote) (pq_cutoff quote)) db) (\<lambda>(months, bps).
     Inr (cur, i, p, months, bps))))))"

definition newChange :: "(string \<Rightarrow> id) \<Rightarrow> id \<Rightarrow> id \<Rightarrow> plan \<Rightarrow> inst \<Rightarrow> plan \<Rightarrow> planQuote \<Rightarrow> gotime \<Rightarrow> planChange" where
  "newChange fresh ownerID iid cur i p quote t =
     \<lparr>pc_id = fresh ''resize'', pc_instance = iid, pc_owner = ownerID, pc_sourcePlan = p_id cur,
      pc_targetPlan = p_id p, pc_sourceCpu = i_cpu i, pc_sourceMem = i_memory i, pc_targetCpu = p_cpu p,
      pc_targetMem = p_memory p, pc_charge = pq_charge quote, pc_reservation = pq_charge quote,
      pc_refund = pq_refund quote, pc_status = Processing, pc_saga = Applying, pc_fund = FundPending,
      pc_key = ResizeKey iid (fresh ''resize''),
      pc_pendingEntry = (if pq_charge quote > 0 then Some (fresh ''wal'') else None),
      pc_settlementEntry = None, pc_exchange = None, pc_task = None, pc_compTask = None, pc_cancelAt = None,
      pc_verify = [], pc_verifyError = None, pc_observed = None, pc_error = None, pc_updatedAt = t, pc_completedAt = None\<rparr>"

definition newExchange :: "(string \<Rightarrow> id) \<Rightarrow> id \<Rightarrow> id \<Rightarrow> plan \<Rightarrow> planQuote \<Rightarrow> exchange" where
  "newExchange fresh ownerID iid p quote =
     \<lparr>ex_id = fresh ''exchange'', ex_instance = iid, ex_owner = ownerID, ex_target = p_id p, ex_effective = pq_cutoff quote,
      ex_task = fresh ''task'', ex_status = ''processing'', ex_refund = pq_refund quote, ex_charge = pq_charge quote,
      ex_key = ResizeKey iid (fresh ''resize'')\<rparr>"

definition resizeTask :: "(string \<Rightarrow> id) \<Rightarrow> id \<Rightarrow> inst \<Rightarrow> plan \<Rightarrow> int \<Rightarrow> gotime \<Rightarrow> controlTask" where
  "resizeTask fresh iid i p generation t =
     (newTask (fresh ''task'') iid Resize (ResizeKey iid (fresh ''resize'')) t t)\<lparr>t_generation := generation,
        t_payload := ResizePayload (fresh ''resize'') (p_cpu p) (p_memory p) (i_status i = Running)\<rparr>"

definition createPlanChange ::
  "(string \<Rightarrow> id) \<Rightarrow> duration \<Rightarrow> id \<Rightarrow> id \<Rightarrow> id \<Rightarrow> id option \<Rightarrow> planQuote \<Rightarrow> db \<Rightarrow> error + (id \<times> controlTask) \<times> db" where
  "createPlanChange fresh ttl ownerID iid targetPlanID expectedCurrent quote db =
     bindE (checkPlanChange ttl ownerID iid targetPlanID expectedCurrent quote db) (\<lambda>(cur, i, p, months, bps).
     let change = newChange fresh ownerID iid cur i p quote (now db); changeID = pc_id change; exch = newExchange fresh ownerID iid p quote
     in bindE (reserveFunds (fresh ''wal'') ownerID changeID (pc_reservation change) db) (\<lambda>db1.
     bindE (insertChange change db1) (\<lambda>db2.
     let db3 = db2\<lparr>exchanges := exchanges db2 @ [exch]\<rparr> in
     if \<not> list_all (checkItem ownerID iid (pq_cutoff quote) months bps (go_div (p_monthly p * bps) 10000) db) (pq_items quote)
     then Inl (Msg ''orders or prices changed'')
     else
     let db4 = db3\<lparr>exchangeItems := exchangeItems db3 @ map (itemRow (ex_id exch)) (pq_items quote)\<rparr>;
         db5 = bumpGeneration iid (\<lambda>_. True) (setChange changeID (\<lambda>_. True) (\<lambda>c. c\<lparr>pc_exchange := Some (ex_id exch)\<rparr>) db4)
     in bindE (orElse (generationOf iid db5) ErrNoRows) (\<lambda>generation.
     let task = resizeTask fresh iid i p generation (now db)
     in bindE (insertTask task db5) (\<lambda>db6.
     Inr ((changeID, task), writeAudit ownerID ''instance.plan_change'' iid
       (setChange changeID (\<lambda>_. True) (\<lambda>c. c\<lparr>pc_task := Some (t_id task)\<rparr>) db6)))))))"

text \<open>\<open>submitPlanChangeHandler\<close>: the client's quote only carries the window and the current plan; the
  price is computed again.\<close>

definition submitPlanChange ::
  "(string \<Rightarrow> id) \<Rightarrow> duration \<Rightarrow> id \<Rightarrow> id \<Rightarrow> id \<Rightarrow> gotime option \<Rightarrow> id option \<Rightarrow> db \<Rightarrow> error + (id \<times> controlTask) \<times> db" where
  "submitPlanChange fresh ttl ownerID iid targetPlanID quoteExpiresAt currentPlan db =
     (if \<not> validPlanChangeQuoteExpiry quoteExpiresAt (now db) then Inl (Msg ''quote expired'')
      else bindE (buildPlanChangeQuote ownerID iid targetPlanID db) (\<lambda>quote.
        if (case currentPlan of None \<Rightarrow> False | Some c \<Rightarrow> c \<noteq> pq_current quote) then Inl (Msg ''current plan changed'')
        else createPlanChange fresh ttl ownerID iid targetPlanID currentPlan quote db))"

section \<open>Settlement\<close>

definition replacementOrder ::
  "id \<Rightarrow> id \<Rightarrow> id \<Rightarrow> id \<Rightarrow> id \<Rightarrow> id \<Rightarrow> exchangeItem \<Rightarrow> order \<Rightarrow> gotime \<Rightarrow> order" where
  "replacementOrder rid wid iid owner target exchangeID x src t = blankOrder\<lparr>o_id := rid, o_owner := owner,
     o_plan := target, o_image := o_image src, o_instance := Some iid, o_amount := xi_charge x,
     o_list := xi_charge x + xi_discount x, o_discount := xi_discount x, o_status := OrderActive,
     o_source := Some ''wallet'', o_exchange := Some exchangeID, o_replaces := Some (xi_source x),
     o_replacement := True, o_tier := Some (xi_months x, xi_bps x, xi_charge x + xi_discount x),
     o_walletEntry := Some wid, o_selVersion := o_selVersion src, o_selDigest := o_selDigest src,
     o_start := Some (xi_start x), o_expires := Some (xi_end x), o_createdAt := t, o_updatedAt := t\<rparr>"

definition purchaseEntry :: "id \<Rightarrow> id \<Rightarrow> id \<Rightarrow> id \<Rightarrow> exchangeItem \<Rightarrow> int \<Rightarrow> gotime \<Rightarrow> walletEntry" where
  "purchaseEntry wid cid owner rid x balance t = \<lparr>we_id = wid, we_user = owner, we_amount = - xi_charge x,
     we_after = balance, we_type = PlanChangePurchase, we_actor = owner, we_order = Some rid, we_change = Some cid,
     we_key = Some (PurchaseKey rid), we_createdAt = t\<rparr>"

definition itemQuote :: "exchangeItem \<Rightarrow> benefitQuote" where
  "itemQuote x = \<lparr>q_list = xi_charge x + xi_discount x, q_discount = xi_discount x, q_amount = xi_charge x,
     q_bonus = 0, q_tierMonths = xi_months x, q_tierBps = xi_bps x, q_program = None, q_code = None, q_grant = None\<rparr>"

definition sourceRefundEntry :: "id \<Rightarrow> id \<Rightarrow> id \<Rightarrow> exchangeItem \<Rightarrow> int \<Rightarrow> db \<Rightarrow> error + db" where
  "sourceRefundEntry wid cid owner x balance db =
     (if xi_refund x > 0 then
        insertEntry \<lparr>we_id = wid, we_user = owner, we_amount = xi_refund x, we_after = balance + xi_refund x,
          we_type = PlanChangeRefund, we_actor = ''system'', we_order = Some (xi_source x), we_change = Some cid,
          we_key = Some (RefundKey (xi_source x)), we_createdAt = now db\<rparr> db
      else Inr db)"

definition exchangedOrder :: "id \<Rightarrow> id option \<Rightarrow> exchangeItem \<Rightarrow> gotime \<Rightarrow> order \<Rightarrow> order" where
  "exchangedOrder exchangeID entry x t r = r\<lparr>o_status := OrderExchanged, o_exchange := Some exchangeID,
     o_replacement := False, o_refundedAt := Some t, o_refundAmount := xi_refund x, o_refundEntry := entry, o_updatedAt := t\<rparr>"

text \<open>One replaced order: the purchase entry and the new order, the consumed benefit, the refund
  entry and the old order. The balance is threaded and written once, after the loop.\<close>

definition settleItem ::
  "(string \<Rightarrow> id \<Rightarrow> id) \<Rightarrow> id \<Rightarrow> id \<Rightarrow> id \<Rightarrow> id \<Rightarrow> id \<Rightarrow> exchangeItem \<Rightarrow> int \<Rightarrow> db \<Rightarrow> error + int \<times> db" where
  "settleItem fresh cid iid owner target exchangeID x balance db =
     bindE (orElse (select (\<lambda>r. o_id r = xi_source x) (orders db)) ErrNoRows) (\<lambda>src.
     if balance < xi_charge x then Inl (Msg ''reservation does not cover the charge'')
     else
     let rid = fresh ''ord'' (xi_source x); pid = fresh ''pur'' (xi_source x); wid = fresh ''ref'' (xi_source x);
         b1 = balance - xi_charge x
     in bindE (insertEntry (purchaseEntry pid cid owner rid x b1 (now db)) db) (\<lambda>db1.
     bindE (insertOrder (replacementOrder rid pid iid owner target exchangeID x src (now db)) db1) (\<lambda>db2.
     bindE (consumePlanChangeAutomaticBenefitTx owner rid (xi_program x) (itemQuote x) db2) (\<lambda>db3.
     bindE (sourceRefundEntry wid cid owner x b1 db3) (\<lambda>db4.
     let entry = (if xi_refund x > 0 then Some wid else None);
         b2 = (if xi_refund x > 0 then b1 + xi_refund x else b1);
         db5 = db4\<lparr>orders := update (\<lambda>r. o_id r = xi_source x \<and> o_status r = OrderActive)
                 (exchangedOrder exchangeID entry x (now db)) (orders db4)\<rparr>
     in Inr (b2, db5\<lparr>exchangeItems := update (\<lambda>y. xi_exchange y = exchangeID \<and> xi_source y = xi_source x)
                 (\<lambda>y. y\<lparr>xi_replacement := Some rid\<rparr>) (exchangeItems db5)\<rparr>))))))"

fun settleItems ::
  "(string \<Rightarrow> id \<Rightarrow> id) \<Rightarrow> id \<Rightarrow> id \<Rightarrow> id \<Rightarrow> id \<Rightarrow> id \<Rightarrow> exchangeItem list \<Rightarrow> int \<Rightarrow> db \<Rightarrow> error + int \<times> db" where
  "settleItems fresh cid iid owner target exchangeID [] balance db = Inr (balance, db)"
| "settleItems fresh cid iid owner target exchangeID (x # xs) balance db =
     bindE (settleItem fresh cid iid owner target exchangeID x balance db) (\<lambda>(b, db1).
       settleItems fresh cid iid owner target exchangeID xs b db1)"

text \<open>The decoded task payload. \<open>taskSelectFields\<close> reads an absent payload as an empty object, which like
  a payload of another shape decodes to zero values, so none of these payloads is a decoding error.\<close>

definition resizePayload :: "payload \<Rightarrow> (id \<times> rat \<times> int) option" where
  "resizePayload p = (case p of NoPayload \<Rightarrow> Some ([], 0, 0) | ResizePayload c cpu m _ \<Rightarrow> Some (c, cpu, m)
     | ReinstallPayload _ _ _ _ \<Rightarrow> Some ([], 0, 0))"

definition ownsResize :: "controlTask \<Rightarrow> db \<Rightarrow> controlTask \<times> inst \<Rightarrow> bool" where
  "ownsResize task db = (\<lambda>(t, i). leaseRow task db t \<and> t_instance t = t_instance task \<and> lockRow db t i \<and>
     i_status i \<in> {Running, Stopped})"

definition sizeRow :: "id \<Rightarrow> inst \<Rightarrow> bool" where
  "sizeRow iid i \<longleftrightarrow> i_id i = iid \<and> i_status i \<in> {Running, Stopped}"

definition resized :: "rat \<Rightarrow> int \<Rightarrow> inst \<Rightarrow> inst" where
  "resized cpu mem i = i\<lparr>i_cpu := cpu, i_memory := mem\<rparr>"

definition releaseReservation :: "id \<Rightarrow> id \<Rightarrow> id \<Rightarrow> businesskey \<Rightarrow> id \<Rightarrow> int \<Rightarrow> int \<Rightarrow> db \<Rightarrow> error + db" where
  "releaseReservation wid cid owner key actor reservation balance db =
     insertEntry \<lparr>we_id = wid, we_user = owner, we_amount = reservation, we_after = balance,
       we_type = PlanChangeRelease, we_actor = actor, we_order = None, we_change = Some cid,
       we_key = Some key, we_createdAt = now db\<rparr> db"

definition setExchange :: "id \<Rightarrow> string \<Rightarrow> db \<Rightarrow> db" where
  "setExchange eid status db = db\<lparr>exchanges := update (\<lambda>e. ex_id e = eid \<and> ex_status e = ''processing'')
     (\<lambda>e. e\<lparr>ex_status := status\<rparr>) (exchanges db)\<rparr>"

definition settledChange :: "gotime \<Rightarrow> planChange \<Rightarrow> planChange" where
  "settledChange t c = c\<lparr>pc_status := Succeeded, pc_saga := Settled, pc_fund := FundSettled,
     pc_settlementEntry := pc_pendingEntry c, pc_verify := ''verified'', pc_updatedAt := t, pc_completedAt := Some t\<rparr>"

definition completePlanChange :: "(string \<Rightarrow> id \<Rightarrow> id) \<Rightarrow> controlTask \<Rightarrow> db \<Rightarrow> error + db" where
  "completePlanChange fresh task db =
     bindE (orElse (resizePayload (t_payload task)) (Msg ''no payload'')) (\<lambda>(cid, cpu, mem).
     bindE (orElse (select (\<lambda>c. pc_id c = cid) (planChanges db)) ErrNoRows) (\<lambda>c.
     if pc_status c \<noteq> Processing then Inr db
     else if t_token task \<noteq> None \<and> countRows (ownsResize task db) (List.product (tasks db) (instances db)) \<noteq> 1
     then Inl (Msg ''task lost its plan change lease'')
     else bindE (orElse (select (\<lambda>i. i_id i = t_instance task) (instances db)) ErrNoRows) (\<lambda>_.
     if affected (sizeRow (t_instance task)) (resized cpu mem) (instances db) \<noteq> 1
     then Inl (Msg ''instance state changed'')
     else
     let db1 = db\<lparr>instances := update (sizeRow (t_instance task)) (resized cpu mem) (instances db)\<rparr>
     in bindE (orElse (pc_exchange c) (Msg ''plan change without exchange'')) (\<lambda>exchangeID.
     bindE (orElse (walletOf (pc_owner c) db1) ErrNoRows) (\<lambda>balance.
     let b1 = (if pc_reservation c > 0 then balance + pc_reservation c else balance)
     in bindE (if pc_reservation c > 0
               then releaseReservation (fresh ''wal'' cid) cid (pc_owner c) (ReleaseKey cid) ''system'' (pc_reservation c) b1 db1
               else Inr db1) (\<lambda>db2.
     bindE (settleItems fresh cid (t_instance task) (pc_owner c) (pc_targetPlan c) exchangeID
              (filter (\<lambda>x. xi_exchange x = exchangeID) (exchangeItems db2)) b1 db2) (\<lambda>(b2, db3).
     Inr (setChange cid (\<lambda>c. pc_status c = Processing) (settledChange (now db))
           (setExchange exchangeID ''succeeded'' (setBalance (pc_owner c) b2 db3))))))))))"

section \<open>Failure\<close>

text \<open>Funds given back, with the entry that says so; nothing when nothing was reserved.\<close>

definition giveBack :: "id \<Rightarrow> id \<Rightarrow> id \<Rightarrow> businesskey \<Rightarrow> id \<Rightarrow> int \<Rightarrow> db \<Rightarrow> error + id option \<times> db" where
  "giveBack wid cid owner key actor reservation db =
     (if reservation > 0 then
        bindE (orElse (walletOf owner db) ErrNoRows) (\<lambda>balance.
        bindE (releaseReservation wid cid owner key actor reservation (balance + reservation) (addBalance owner reservation db))
          (\<lambda>d. Inr (Some wid, d)))
      else Inr (None, db))"

definition failedChange :: "gotime \<Rightarrow> id option \<Rightarrow> string \<Rightarrow> planChange \<Rightarrow> planChange" where
  "failedChange t entry message c = c\<lparr>pc_status := Failed, pc_saga := SagaCancelled, pc_fund := FundReleased,
     pc_settlementEntry := entry, pc_verify := ''not_checked'', pc_error := Some message, pc_updatedAt := t,
     pc_completedAt := Some t\<rparr>"

definition failPlanChange :: "(string \<Rightarrow> id \<Rightarrow> id) \<Rightarrow> controlTask \<Rightarrow> error \<Rightarrow> db \<Rightarrow> db" where
  "failPlanChange fresh task cause db =
     (case resizePayload (t_payload task) of
        None \<Rightarrow> db
      | Some (cid, _, _) \<Rightarrow>
          (case select (\<lambda>c. pc_id c = cid) (planChanges db) of
             None \<Rightarrow> db
           | Some c \<Rightarrow>
               if pc_status c \<noteq> Processing then db
               else (case giveBack (fresh ''wal'' cid) cid (pc_owner c) (RefundKey cid) ''system'' (pc_reservation c) db of
                       Inl _ \<Rightarrow> db
                     | Inr (entry, db1) \<Rightarrow>
                         let db2 = setChange cid (\<lambda>c. pc_status c = Processing)
                               (failedChange (now db) entry (truncateError (errText cause))) db1
                         in (case pc_exchange c of None \<Rightarrow> db2 | Some eid \<Rightarrow> setExchange eid ''failed'' db2))))"

section \<open>Cancellation and compensation\<close>

definition cancelledChange :: "gotime \<Rightarrow> id option \<Rightarrow> string \<Rightarrow> planChange \<Rightarrow> planChange" where
  "cancelledChange t entry detail c = c\<lparr>pc_status := Failed, pc_saga := SagaCancelled, pc_fund := FundReleased,
     pc_settlementEntry := entry, pc_verify := ''verified_old'', pc_verifyError := None, pc_error := Some detail,
     pc_updatedAt := t, pc_completedAt := Some t\<rparr>"

definition cancelPlanChangeSettlementTx :: "(string \<Rightarrow> id \<Rightarrow> id) \<Rightarrow> id \<Rightarrow> id \<Rightarrow> id \<Rightarrow> string \<Rightarrow> db \<Rightarrow> error + db" where
  "cancelPlanChangeSettlementTx fresh cid iid ownerID detail db =
     bindE (orElse (select (\<lambda>c. pc_id c = cid \<and> pc_instance c = iid \<and> pc_owner c = ownerID) (planChanges db)) ErrNoRows) (\<lambda>c.
     if pc_saga c = SagaCancelled then Inr db
     else bindE (giveBack (fresh ''wal'' cid) cid ownerID (CancelKey cid) ownerID (pc_reservation c) db) (\<lambda>(entry, db1).
     let db2 = setChange cid (\<lambda>c. pc_saga c \<noteq> SagaCancelled) (cancelledChange (now db) entry detail) db1
     in Inr (case pc_exchange c of None \<Rightarrow> db2 | Some eid \<Rightarrow> setExchange eid ''cancelled'' db2)))"

definition completePlanChangeCompensation :: "(string \<Rightarrow> id \<Rightarrow> id) \<Rightarrow> controlTask \<Rightarrow> db \<Rightarrow> error + db" where
  "completePlanChangeCompensation fresh task db =
     (case resizePayload (t_payload task) of
        None \<Rightarrow> Inl (Msg ''compensation without change'')
      | Some (cid, cpu, mem) \<Rightarrow>
          if cid = [] then Inl (Msg ''compensation without change'')
          else bindE (orElse (select (\<lambda>c. pc_id c = cid \<and> pc_instance c = t_instance task \<and> pc_saga c = Compensating)
                  (planChanges db)) ErrNoRows) (\<lambda>c.
          bindE (if t_generation task > 0 then orElse (generationOf (t_instance task) db) ErrNoRows else Inr (t_generation task)) (\<lambda>current.
          if current \<noteq> t_generation task then Inl (Msg ''superseded by a newer intent'')
          else cancelPlanChangeSettlementTx fresh cid (t_instance task) (pc_owner c) ''rolled back after user cancellation''
            (db\<lparr>instances := update (sizeRow (t_instance task)) (resized cpu mem) (instances db)\<rparr>))))"

definition pendingResize :: "id \<Rightarrow> tstatus set \<Rightarrow> controlTask \<Rightarrow> bool" where
  "pendingResize iid st t \<longleftrightarrow> t_instance t = iid \<and> t_action t = Resize \<and> t_status t \<in> st"

definition compensatingChange :: "gotime \<Rightarrow> id \<Rightarrow> planChange \<Rightarrow> planChange" where
  "compensatingChange t tid c = c\<lparr>pc_status := NeedsReview, pc_saga := Compensating, pc_fund := FundReserved,
     pc_compTask := Some tid, pc_cancelAt := Some t, pc_updatedAt := t\<rparr>"

text \<open>The user's cancellation. The result is the compensation task to run, or \<open>None\<close> when the
  observed resources made the settlement possible at once.\<close>

definition startCompensation :: "(string \<Rightarrow> id \<Rightarrow> id) \<Rightarrow> id \<Rightarrow> id \<Rightarrow> id \<Rightarrow> planChange \<Rightarrow> db \<Rightarrow> error + controlTask option \<times> db" where
  "startCompensation fresh ownerID iid cid c db =
     (let db1 = bumpGeneration iid (\<lambda>i. i_owner i = ownerID \<and> i_status i \<in> {Running, Stopped}) db
      in bindE (orElse (generationOf iid db1) ErrNoRows) (\<lambda>generation.
      let tid = fresh ''task'' cid;
          task = (newTask tid iid CompensateResize (CompensateKey cid) (now db) (now db))\<lparr>t_generation := generation,
             t_payload := ResizePayload cid (pc_sourceCpu c) (pc_sourceMem c) True\<rparr>;
          db2 = db1\<lparr>tasks := update (pendingResize iid {TaskPending})
             (\<lambda>t. t\<lparr>t_status := TaskCanceled, t_lastError := Some ''cancelled by the user'',
                    t_finishedAt := Some (now db), t_updatedAt := now db\<rparr>) (tasks db1)\<rparr>
      in bindE (insertTask task db2) (\<lambda>db3.
      Inr (Some task, appendTaskEvent tid ''queued'' (writeAudit ownerID ''instance.plan_change.cancel'' cid
            (setChange cid (\<lambda>_. True) (compensatingChange (now db) tid) db3))))))"

definition observedSource :: "planChange \<Rightarrow> bool" where
  "observedSource c \<longleftrightarrow> (case pc_observed c of None \<Rightarrow> False
     | Some (cpu, mem) \<Rightarrow> \<bar>cpu - pc_sourceCpu c\<bar> < 1 / 1000 \<and> mem = pc_sourceMem c)"

definition requestPlanChangeCompensation ::
  "(string \<Rightarrow> id \<Rightarrow> id) \<Rightarrow> id \<Rightarrow> id \<Rightarrow> id \<Rightarrow> db \<Rightarrow> error + controlTask option \<times> db" where
  "requestPlanChangeCompensation fresh ownerID iid cid db =
     bindE (orElse (select (\<lambda>c. pc_id c = cid \<and> pc_instance c = iid \<and> pc_owner c = ownerID) (planChanges db))
       (Msg ''no such plan change'')) (\<lambda>c.
     if pc_saga c = SagaCancelled \<or> pc_status c = Failed then Inl (Msg ''plan change already cancelled'')
     else if pc_saga c = Settled \<or> pc_status c = Succeeded then Inl (Msg ''plan change already settled'')
     else case (if pc_saga c = Compensating then select (\<lambda>t. sqlEq (Some (t_id t)) (pc_compTask c)) (tasks db) else None) of
        Some existing \<Rightarrow> Inr (Some existing, db)
      | None \<Rightarrow>
          if observedSource c \<and> countRows (pendingResize iid {TaskPending, TaskRunning}) (tasks db) = 0
          then bindE (cancelPlanChangeSettlementTx fresh cid iid ownerID ''cancelled by the user; source resources observed''
                 (bumpGeneration iid (\<lambda>i. i_owner i = ownerID) db)) (\<lambda>d. Inr (None, d))
          else startCompensation fresh ownerID iid cid c db)"

section \<open>Reconciliation of uncertain results\<close>

definition resumable :: "id \<Rightarrow> planChange \<Rightarrow> bool" where
  "resumable cid c \<longleftrightarrow> pc_id c = cid \<and>
     (pc_status c = Processing \<or> (pc_status c = NeedsReview \<and> pc_fund c = FundBlocked))"

definition resumed :: "gotime \<Rightarrow> planChange \<Rightarrow> planChange" where
  "resumed t c = c\<lparr>pc_status := Processing, pc_verifyError := None, pc_updatedAt := t\<rparr>"

definition resumeBlockedPlanChange :: "id \<Rightarrow> db \<Rightarrow> bool \<times> db" where
  "resumeBlockedPlanChange cid db =
     (affected (resumable cid) (resumed (now db)) (planChanges db) = 1,
      db\<lparr>planChanges := update (resumable cid) (resumed (now db)) (planChanges db)\<rparr>)"

definition observe :: "id \<Rightarrow> id \<Rightarrow> rat \<Rightarrow> int \<Rightarrow> db \<Rightarrow> db" where
  "observe iid cid cpu mem db = setChange cid (\<lambda>_. True) (\<lambda>c. c\<lparr>pc_observed := Some (cpu, mem), pc_updatedAt := now db\<rparr>)
     (db\<lparr>instances := update (\<lambda>i. i_id i = iid) (\<lambda>i. i\<lparr>i_observed := Some (cpu, mem)\<rparr>) (instances db)\<rparr>)"

definition closeReviewTask :: "controlTask \<Rightarrow> tstatus \<Rightarrow> string option \<Rightarrow> string \<Rightarrow> db \<Rightarrow> db" where
  "closeReviewTask task status err event db =
     appendTaskEvent (t_id task) event (releaseInstanceTaskLock task
       (db\<lparr>tasks := update (\<lambda>t. t_id t = t_id task \<and> t_status t = TaskReview)
          (\<lambda>t. t\<lparr>t_status := status, t_finishedAt := Some (now db), t_lastError := err, t_updatedAt := now db\<rparr>) (tasks db)\<rparr>))"

text \<open>What is done with an inspection answer: settle on the target, release on the source, wait for
  an administrator on anything else.\<close>

definition settleObserved :: "(string \<Rightarrow> id \<Rightarrow> id) \<Rightarrow> controlTask \<Rightarrow> id \<Rightarrow> rat \<Rightarrow> int \<Rightarrow> planChange \<Rightarrow> db \<Rightarrow> db" where
  "settleObserved fresh task cid cpu mem c db =
     (if \<bar>cpu - pc_targetCpu c\<bar> < 1 / 1000 \<and> mem = pc_targetMem c then
        (case resumeBlockedPlanChange cid db of
           (False, db1) \<Rightarrow> db1
         | (True, db1) \<Rightarrow>
             (case completePlanChange fresh task db1 of
                Inl e \<Rightarrow> markPlanChangeBlocked cid (errText e) db1
              | Inr db2 \<Rightarrow> closeReviewTask task TaskDone None ''plan_change_verified_target'' db2))
      else if \<bar>cpu - pc_sourceCpu c\<bar> < 1 / 1000 \<and> mem = pc_sourceMem c then
        (case resumeBlockedPlanChange cid db of
           (False, db1) \<Rightarrow> db1
         | (True, db1) \<Rightarrow>
             let db2 = failPlanChange fresh task (Msg ''agent still has the old resources'') db1
             in closeReviewTask task TaskFailed (Some ''agent did not change the resources'') ''plan_change_verified_source''
                  (setChange cid (\<lambda>c. pc_status c = Failed) (\<lambda>c. c\<lparr>pc_verify := ''verified_old''\<rparr>) db2))
      else appendTaskEvent (t_id task) ''plan_change_verify_ambiguous''
        (markPlanChangeBlocked cid ''agent resources match neither side'' db))"

definition reconcileRecoveredPlanChange ::
  "(inst \<Rightarrow> node \<Rightarrow> db \<Rightarrow> db \<times> (error + (int \<times> int) option)) \<Rightarrow> (string \<Rightarrow> id \<Rightarrow> id) \<Rightarrow> controlTask \<Rightarrow> db \<Rightarrow> db" where
  "reconcileRecoveredPlanChange inspect fresh task db =
     (case resizePayload (t_payload task) of
        None \<Rightarrow> db
      | Some (cid, _, _) \<Rightarrow>
          if cid = [] then db
          else (case select (\<lambda>i. i_id i = t_instance task) (instances db) of
            None \<Rightarrow> markPlanChangeBlocked cid (errText ErrNoRows) db
          | Some i \<Rightarrow>
             (case select (\<lambda>n. Some (n_id n) = i_node i) (nodes db) of
                None \<Rightarrow> markPlanChangeBlocked cid (errText ErrNoRows) db
              | Some n \<Rightarrow>
                 (case inspect i n db of
                    (db1, Inl e) \<Rightarrow> appendTaskEvent (t_id task) ''plan_change_verify_failed''
                                      (markPlanChangeBlocked cid (errText e) db1)
                  | (db1, Inr answer) \<Rightarrow>
                      (case (select (\<lambda>c. pc_id c = cid) (planChanges db1), answer) of
                         (None, _) \<Rightarrow> markPlanChangeBlocked cid (errText ErrNoRows) db1
                       | (_, None) \<Rightarrow> markPlanChangeBlocked cid ''agent reported no usable resources'' db1
                       | (Some c, Some (nano, bytes)) \<Rightarrow>
                           let cpu = of_int nano / 1000000000; mem = go_div bytes (1024 * 1024)
                           in settleObserved fresh task cid cpu mem c (observe (t_instance task) cid cpu mem db1))))))"

fun reconcileAll ::
  "(inst \<Rightarrow> node \<Rightarrow> db \<Rightarrow> db \<times> (error + (int \<times> int) option)) \<Rightarrow> (string \<Rightarrow> id \<Rightarrow> id) \<Rightarrow> controlTask list \<Rightarrow> db \<Rightarrow> db" where
  "reconcileAll inspect fresh [] db = db"
| "reconcileAll inspect fresh (t # ts) db = reconcileAll inspect fresh ts (reconcileRecoveredPlanChange inspect fresh t db)"

definition blockedChanges :: "db \<Rightarrow> controlTask list" where
  "blockedChanges db = take 100 (map fst (sort_key (\<lambda>(t, c). pc_updatedAt c)
     (filter (\<lambda>(t, c). pc_task c = Some (t_id t) \<and> t_action t = Resize \<and> t_status t = TaskReview \<and> pc_status c = NeedsReview)
       (List.product (tasks db) (planChanges db)))))"

definition reconcileBlockedPlanChanges ::
  "(inst \<Rightarrow> node \<Rightarrow> db \<Rightarrow> db \<times> (error + (int \<times> int) option)) \<Rightarrow> (string \<Rightarrow> id \<Rightarrow> id) \<Rightarrow> db \<Rightarrow> db" where
  "reconcileBlockedPlanChanges inspect fresh db = reconcileAll inspect fresh (blockedChanges db) db"

section \<open>Reservations\<close>

text \<open>
  The wallet entries that hold or release a reservation, and their sum for one change. \<open>holdsOk\<close>: an
  open change has its whole reservation withheld, a closed one nothing, and no entry holds funds for a
  change that is not stored.
\<close>

definition holdEntry :: "walletEntry \<Rightarrow> bool" where
  "holdEntry e \<longleftrightarrow> we_type e = PlanChangePending \<or> we_type e = PlanChangeRelease"

definition holdSum :: "id \<Rightarrow> db \<Rightarrow> int" where
  "holdSum cid db = sumRows (\<lambda>e. holdEntry e \<and> we_change e = Some cid) we_amount (walletEntries db)"

definition isClosed :: "planChange \<Rightarrow> bool" where
  "isClosed c \<longleftrightarrow> pc_saga c = Settled \<or> pc_saga c = SagaCancelled"

definition changeOk :: "int \<Rightarrow> planChange \<Rightarrow> bool" where
  "changeOk held c \<longleftrightarrow>
     (if isClosed c then (pc_status c = Succeeded \<or> pc_status c = Failed) \<and> held = 0
      else (pc_status c = Processing \<or> pc_status c = NeedsReview) \<and> held = - max 0 (pc_reservation c))"

definition holdsOk :: "db \<Rightarrow> bool" where
  "holdsOk db \<longleftrightarrow> changeTab.unique db \<and> (\<forall>c \<in> set (planChanges db). changeOk (holdSum (pc_id c) db) c) \<and>
     (\<forall>e \<in> set (walletEntries db). holdEntry e \<longrightarrow> (\<exists>c \<in> set (planChanges db). we_change e = Some (pc_id c)))"

definition moneyOk :: "db \<Rightarrow> bool" where
  "moneyOk db \<longleftrightarrow> ledgerOk db \<and> holdsOk db"

lemma holds_frame:
  assumes "planChanges d' = planChanges d" "walletEntries d' = walletEntries d @ es" "\<forall>e \<in> set es. \<not> holdEntry e"
    and h: "holdsOk d"
  shows "holdsOk d'"
proof -
  have "filter (\<lambda>e. holdEntry e \<and> we_change e = Some c) es = []" for c
    using assms(3) by (auto simp: filter_empty_conv)
  then have "holdSum c d' = holdSum c d" for c by (simp add: holdSum_def assms(2) sumRows_def)
  then show ?thesis using assms unfolding holdsOk_def changeTab.unique_def by auto
qed

lemma holds_same:
  "planChanges d' = planChanges d \<Longrightarrow> walletEntries d' = walletEntries d \<Longrightarrow> holdsOk d \<Longrightarrow> holdsOk d'"
  by (rule holds_frame [where es = "[]"]) auto

text \<open>A step that changes one stored change and writes entries about it.\<close>

lemma holds_step:
  assumes h: "holdsOk d" and c: "c \<in> set (planChanges d)"
    and pc: "planChanges d' = update (\<lambda>r. pc_id r = pc_id c \<and> p r) f (planChanges d)" and f: "\<And>r. pc_id (f r) = pc_id r"
    and we: "walletEntries d' = walletEntries d @ es" and es: "\<forall>e \<in> set es. holdEntry e \<longrightarrow> we_change e = Some (pc_id c)"
    and ok: "changeOk (holdSum (pc_id c) d + sumRows holdEntry we_amount es) (if p c then f c else c)"
  shows "holdsOk d'"
proof -
  have u: "changeTab.unique d" using h by (simp add: holdsOk_def)
  have other: "holdSum i d' = holdSum i d" if "i \<noteq> pc_id c" for i
  proof -
    have "filter (\<lambda>e. holdEntry e \<and> we_change e = Some i) es = []" using es that by (auto simp: filter_empty_conv)
    then show ?thesis by (simp add: holdSum_def we sumRows_def)
  qed
  have "filter (\<lambda>e. holdEntry e \<and> we_change e = Some (pc_id c)) es = filter holdEntry es"
    using es by (auto intro!: filter_cong)
  then have mine: "holdSum (pc_id c) d' = holdSum (pc_id c) d + sumRows holdEntry we_amount es"
    by (simp add: holdSum_def we sumRows_def)
  have "changeOk (holdSum (pc_id r) d') r" if r: "r \<in> set (planChanges d')" for r
  proof -
    obtain s where s: "s \<in> set (planChanges d)" "r = (if pc_id s = pc_id c \<and> p s then f s else s)"
      using r by (auto simp: pc in_update)
    show ?thesis
    proof (cases "pc_id s = pc_id c")
      case True
      then have "s = c" using changeTab.key_unique [OF u s(1) c] by simp
      then have "r = (if p c then f c else c)" using s(2) by simp
      then show ?thesis using ok mine by (cases "p c") (simp_all add: f)
    next
      case False
      then show ?thesis using s h other by (auto simp: holdsOk_def)
    qed
  qed
  moreover have "changeTab.unique d'" using u pc f by (auto intro: changeTab.unique_rows_update)
  moreover have "\<exists>r \<in> set (planChanges d'). we_change e = Some (pc_id r)" if e: "e \<in> set (walletEntries d')" "holdEntry e" for e
  proof -
    obtain s where s: "s \<in> set (planChanges d)" "we_change e = Some (pc_id s)"
      using e h es c by (auto simp: we holdsOk_def)
    let ?s = "if pc_id s = pc_id c \<and> p s then f s else s"
    have "?s \<in> set (planChanges d')" using s(1) by (auto simp: pc in_update)
    moreover have "pc_id ?s = pc_id s" by (simp add: f)
    ultimately show ?thesis using s(2) by metis
  qed
  ultimately show ?thesis by (auto simp: holdsOk_def)
qed

section \<open>The steps keep the money\<close>

lemma change_row: "select (\<lambda>c. pc_id c = i \<and> p c) (planChanges d) = Some c \<Longrightarrow> c \<in> set (planChanges d) \<and> pc_id c = i \<and> p c"
  by (auto dest: select_SomeD)

lemma setChange_frame [simp]:
  "wallets (setChange i p f d) = wallets d" "walletEntries (setChange i p f d) = walletEntries d"
  "instances (setChange i p f d) = instances d" "tasks (setChange i p f d) = tasks d"
  "orders (setChange i p f d) = orders d" "now (setChange i p f d) = now d"
  "planChanges (setChange i p f d) = update (\<lambda>c. pc_id c = i \<and> p c) f (planChanges d)"
  by (simp_all add: setChange_def)

lemma setExchange_frame [simp]:
  "wallets (setExchange i s d) = wallets d" "walletEntries (setExchange i s d) = walletEntries d"
  "instances (setExchange i s d) = instances d" "tasks (setExchange i s d) = tasks d"
  "orders (setExchange i s d) = orders d" "planChanges (setExchange i s d) = planChanges d"
  by (simp_all add: setExchange_def)

lemma bumpGeneration_frame [simp]:
  "wallets (bumpGeneration i p d) = wallets d" "walletEntries (bumpGeneration i p d) = walletEntries d"
  "planChanges (bumpGeneration i p d) = planChanges d" "tasks (bumpGeneration i p d) = tasks d" "now (bumpGeneration i p d) = now d"
  by (simp_all add: bumpGeneration_def)

lemma exchange_case_frame [simp]:
  "wallets (case x of None \<Rightarrow> d | Some i \<Rightarrow> setExchange i s d) = wallets d"
  "walletEntries (case x of None \<Rightarrow> d | Some i \<Rightarrow> setExchange i s d) = walletEntries d"
  "instances (case x of None \<Rightarrow> d | Some i \<Rightarrow> setExchange i s d) = instances d"
  "planChanges (case x of None \<Rightarrow> d | Some i \<Rightarrow> setExchange i s d) = planChanges d"
  by (simp_all split: option.splits)

text \<open>Giving back releases exactly what was reserved.\<close>

lemma giveBack_cases:
  assumes "giveBack wid cid u k a res d = Inr (en, d')"
  obtains "res \<le> 0" "d' = d" "en = None"
  | e b where "0 < res" "walletOf u d = Some b" "insertEntry e (addBalance u res d) = Inr d'" "we_user e = u"
      "we_amount e = res" "holdEntry e" "we_change e = Some cid" "we_key e = Some k" "en = Some wid"
proof (cases "res > 0")
  case True
  then show thesis using assms that(2)
    by (auto simp: giveBack_def releaseReservation_def resultE holdEntry_def)
qed (use assms that in \<open>auto simp: giveBack_def\<close>)

lemma giveBack_ledger:
  assumes l: "ledgerOk d" and g: "giveBack wid cid u k a res d = Inr (en, d')" shows "ledgerOk d'"
proof (rule giveBack_cases [OF g])
  fix e b assume r: "0 < res" "walletOf u d = Some b" and i: "insertEntry e (addBalance u res d) = Inr d'" "we_user e = u"
    "we_amount e = res"
  have "drift u (b + res) (0 - res) (addBalance u res d)" by (rule drift_add [OF ledger_drift [OF l r(2)]])
  from drift_entry [OF this i(1,2)] i(3) have "drift u (b + res) 0 d'" by simp
  then show ?thesis using drift_ledger ledger_balance [OF l r(2)] r(1) by fastforce
qed (use l in simp)

lemma giveBack_frame:
  assumes g: "giveBack wid cid u k a res d = Inr (en, d')"
  shows "planChanges d' = planChanges d \<and> instances d' = instances d \<and> tasks d' = tasks d \<and> now d' = now d \<and>
    (\<exists>es. walletEntries d' = walletEntries d @ es \<and> (\<forall>e \<in> set es. holdEntry e \<longrightarrow> we_change e = Some cid) \<and>
       sumRows holdEntry we_amount es = max 0 res)"
proof (rule giveBack_cases [OF g])
  fix e b assume r: "0 < res" and i: "insertEntry e (addBalance u res d) = Inr d'"
    "we_amount e = res" "holdEntry e" "we_change e = Some cid"
  then show ?thesis using insertEntry_frame [OF i(1)] by (intro conjI exI [of _ "[e]"]) auto
qed (auto intro!: exI [of _ "[]"])

lemma closing_holds:
  assumes h: "holdsOk d" and c: "c \<in> set (planChanges d)" "\<not> isClosed c" "p c"
    and g: "giveBack wid (pc_id c) u k a (pc_reservation c) d = Inr (en, d1)"
    and d': "planChanges d' = update (\<lambda>r. pc_id r = pc_id c \<and> p r) f (planChanges d1)" "walletEntries d' = walletEntries d1"
    and f: "\<And>r. pc_id (f r) = pc_id r" "\<And>r. pc_status (f r) = Failed" "\<And>r. pc_saga (f r) = SagaCancelled"
  shows "holdsOk d'"
proof -
  obtain es where pc: "planChanges d1 = planChanges d" and es: "walletEntries d1 = walletEntries d @ es"
    "\<forall>e \<in> set es. holdEntry e \<longrightarrow> we_change e = Some (pc_id c)" "sumRows holdEntry we_amount es = max 0 (pc_reservation c)"
    using giveBack_frame [OF g] by blast
  have "changeOk (holdSum (pc_id c) d) c" using h c(1) by (simp add: holdsOk_def)
  then have "changeOk (holdSum (pc_id c) d + sumRows holdEntry we_amount es) (f c)"
    using c(2) f es(3) by (simp add: changeOk_def isClosed_def)
  then show ?thesis using holds_step [OF h c(1) d'(1) [unfolded pc] f(1) d'(2) [unfolded es(1)] es(2)] c(3) by simp
qed

lemma failed_sel [simp]: "pc_id (failedChange t e m c) = pc_id c" "pc_status (failedChange t e m c) = Failed"
    "pc_saga (failedChange t e m c) = SagaCancelled"
    "pc_id (cancelledChange t e m c) = pc_id c" "pc_status (cancelledChange t e m c) = Failed"
    "pc_saga (cancelledChange t e m c) = SagaCancelled"
    "pc_id (settledChange t c) = pc_id c" "pc_status (settledChange t c) = Succeeded" "pc_saga (settledChange t c) = Settled"
    "pc_id (resumed t c) = pc_id c" "pc_saga (resumed t c) = pc_saga c" "pc_status (resumed t c) = Processing"
    "pc_reservation (resumed t c) = pc_reservation c"
    "pc_id (compensatingChange t i c) = pc_id c" "pc_saga (compensatingChange t i c) = Compensating"
    "pc_status (compensatingChange t i c) = NeedsReview" "pc_reservation (compensatingChange t i c) = pc_reservation c"
  by (simp_all add: failedChange_def cancelledChange_def settledChange_def resumed_def compensatingChange_def)

lemma processing_open: "holdsOk d \<Longrightarrow> c \<in> set (planChanges d) \<Longrightarrow> pc_status c = Processing \<or> pc_status c = NeedsReview \<Longrightarrow> \<not> isClosed c"
  unfolding holdsOk_def changeOk_def by (metis pcstatus.distinct)

lemma fail_money:
  assumes m: "moneyOk d" shows "moneyOk (failPlanChange fresh t e d)"
proof -
  show ?thesis
  proof (cases "failPlanChange fresh t e d = d")
    case False
    then obtain cid c cpu mem en d1 where c: "select (\<lambda>c. pc_id c = cid) (planChanges d) = Some c" "pc_status c = Processing"
      and p: "resizePayload (t_payload t) = Some (cid, cpu, mem)"
      and g: "giveBack (fresh ''wal'' cid) cid (pc_owner c) (RefundKey cid) ''system'' (pc_reservation c) d = Inr (en, d1)"
      by (auto simp: failPlanChange_def split: option.splits if_splits sum.splits)
    let ?m = "truncateError (errText e)"
    have cc: "c \<in> set (planChanges d)" "pc_id c = cid" using c by (auto dest: select_SomeD)
    have op: "\<not> isClosed c" using processing_open [of d, OF _ cc(1)] c(2) m by (simp add: moneyOk_def)
    let ?d = "failPlanChange fresh t e d"
    have d: "planChanges ?d = update (\<lambda>r. pc_id r = pc_id c \<and> pc_status r = Processing) (failedChange (now d) en ?m) (planChanges d1)"
      "walletEntries ?d = walletEntries d1" "wallets ?d = wallets d1"
      using c p g cc(2) by (simp_all add: failPlanChange_def Let_def)
    have "holdsOk ?d"
      by (rule closing_holds [where p = "\<lambda>r. pc_status r = Processing", OF _ cc(1) op c(2) g [folded cc(2)] d(1,2)])
        (use m in \<open>auto simp: moneyOk_def\<close>)
    moreover have "ledgerOk ?d" using giveBack_ledger [OF _ g] m wallet_rest [OF d(3,2)] by (simp add: moneyOk_def)
    ultimately show ?thesis by (simp add: moneyOk_def)
  qed (use m in simp)
qed

lemma cancel_money:
  assumes m: "moneyOk d" and r: "cancelPlanChangeSettlementTx fresh cid iid u detail d = Inr d'"
    and s: "\<And>c. c \<in> set (planChanges d) \<Longrightarrow> pc_id c = cid \<Longrightarrow> pc_saga c \<noteq> Settled"
  shows "moneyOk d'"
proof (cases "d' = d")
  case False
  with r obtain c en d1 where c: "select (\<lambda>c. pc_id c = cid \<and> pc_instance c = iid \<and> pc_owner c = u) (planChanges d) = Some c"
      "pc_saga c \<noteq> SagaCancelled"
    and g: "giveBack (fresh ''wal'' cid) cid u (CancelKey cid) u (pc_reservation c) d = Inr (en, d1)"
    and d': "planChanges d' = update (\<lambda>c. pc_id c = cid \<and> pc_saga c \<noteq> SagaCancelled) (cancelledChange (now d) en detail) (planChanges d1)"
      "walletEntries d' = walletEntries d1" "wallets d' = wallets d1"
    by (auto simp: cancelPlanChangeSettlementTx_def resultE Let_def split: if_splits)
  have cc: "c \<in> set (planChanges d)" "pc_id c = cid" using c by (auto dest: select_SomeD)
  have op: "\<not> isClosed c" using c(2) s [OF cc] by (simp add: isClosed_def)
  have "holdsOk d'"
    by (rule closing_holds [where p = "\<lambda>r. pc_saga r \<noteq> SagaCancelled", OF _ cc(1) op c(2) g [folded cc(2)] d'(1) [folded cc(2)] d'(2)])
      (use m in \<open>auto simp: moneyOk_def\<close>)
  moreover have "ledgerOk d'" using giveBack_ledger [OF _ g] m wallet_rest [OF d'(3,2)] by (simp add: moneyOk_def)
  ultimately show ?thesis by (simp add: moneyOk_def)
qed (use m in simp)

lemma drift_entries:
  assumes d: "drift u b x d" and w: "wallets d' = wallets d" "walletEntries d' = walletEntries d @ es"
    and es: "\<forall>e \<in> set es. we_user e = u"
  shows "drift u b (x + sum_list (map we_amount es)) d'"
proof -
  have "filter (\<lambda>e. we_user e = u) es = es" using es by (simp add: filter_id_conv)
  moreover have "filter (\<lambda>e. we_user e = v) es = []" if "v \<noteq> u" for v using es that by (auto simp: filter_empty_conv)
  ultimately show ?thesis using d
    by (auto simp: drift_def walletOf_def entrySum_def walletTab.unique_def w sumRows_def)
qed

text \<open>What one item writes: its entries add up to the change of the running balance, which stays
  non-negative, and none of them touches a reservation.\<close>

definition itemEntries :: "id \<Rightarrow> int \<Rightarrow> int \<Rightarrow> db \<Rightarrow> db \<Rightarrow> bool" where
  "itemEntries u b b' d d' \<longleftrightarrow> wallets d' = wallets d \<and> planChanges d' = planChanges d \<and> instances d' = instances d \<and>
     tasks d' = tasks d \<and> now d' = now d \<and>
     (\<exists>es. walletEntries d' = walletEntries d @ es \<and> (\<forall>e \<in> set es. \<not> holdEntry e \<and> we_user e = u) \<and>
        sum_list (map we_amount es) = b' - b)"

lemma itemEntries_refl: "itemEntries u b b d d"
  by (simp add: itemEntries_def)

lemma itemEntries_trans:
  assumes "itemEntries u a b d e" "itemEntries u b c e f" shows "itemEntries u a c d f"
proof -
  obtain es fs where "walletEntries e = walletEntries d @ es" "\<forall>e \<in> set es. \<not> holdEntry e \<and> we_user e = u"
    "sum_list (map we_amount es) = b - a" "walletEntries f = walletEntries e @ fs"
    "\<forall>e \<in> set fs. \<not> holdEntry e \<and> we_user e = u" "sum_list (map we_amount fs) = c - b"
    using assms unfolding itemEntries_def by blast
  then have "walletEntries f = walletEntries d @ (es @ fs)" "\<forall>e \<in> set (es @ fs). \<not> holdEntry e \<and> we_user e = u"
    "sum_list (map we_amount (es @ fs)) = c - a" by auto
  then show ?thesis using assms unfolding itemEntries_def by metis
qed

lemma sourceRefund_cases:
  assumes "sourceRefundEntry wid cid u x b d = Inr d'"
  obtains "xi_refund x \<le> 0" "d' = d"
  | e where "0 < xi_refund x" "insertEntry e d = Inr d'" "we_user e = u" "we_amount e = xi_refund x" "\<not> holdEntry e"
proof (cases "xi_refund x > 0")
  case True
  then show thesis using assms that(2) by (auto simp: sourceRefundEntry_def holdEntry_def)
qed (use assms that in \<open>auto simp: sourceRefundEntry_def\<close>)

lemma settleItem_cases:
  assumes "settleItem fresh cid iid u tgt ex x b d = Inr (b', d')"
  obtains src d1 d2 d3 d4 where "select (\<lambda>r. o_id r = xi_source x) (orders d) = Some src" "xi_charge x \<le> b"
    "insertEntry (purchaseEntry (fresh ''pur'' (xi_source x)) cid u (fresh ''ord'' (xi_source x)) x (b - xi_charge x) (now d)) d = Inr d1"
    "insertOrder (replacementOrder (fresh ''ord'' (xi_source x)) (fresh ''pur'' (xi_source x)) iid u tgt ex x src (now d)) d1 = Inr d2"
    "consumePlanChangeAutomaticBenefitTx u (fresh ''ord'' (xi_source x)) (xi_program x) (itemQuote x) d2 = Inr d3"
    "sourceRefundEntry (fresh ''ref'' (xi_source x)) cid u x (b - xi_charge x) d3 = Inr d4"
    "b' = b - xi_charge x + max 0 (xi_refund x)"
    "wallets d' = wallets d4" "walletEntries d' = walletEntries d4" "planChanges d' = planChanges d4" "instances d' = instances d4"
    "tasks d' = tasks d4" "now d' = now d4"
    "orders d' = update (\<lambda>r. o_id r = xi_source x \<and> o_status r = OrderActive)
       (exchangedOrder ex (if xi_refund x > 0 then Some (fresh ''ref'' (xi_source x)) else None) x (now d)) (orders d4)"
  using assms by (auto simp: settleItem_def resultE Let_def split: if_splits)

lemma settleItem_entries:
  assumes "settleItem fresh cid iid u tgt ex x b d = Inr (b', d')"
  shows "itemEntries u b b' d d' \<and> (0 \<le> b')"
proof (rule settleItem_cases [OF assms])
  fix src d1 d2 d3 d4 rid pid wid
  assume b: "xi_charge x \<le> b" "b' = b - xi_charge x + max 0 (xi_refund x)"
    and e1: "insertEntry (purchaseEntry (fresh ''pur'' (xi_source x)) cid u (fresh ''ord'' (xi_source x)) x (b - xi_charge x) (now d)) d = Inr d1"
      (is "insertEntry ?e d = _")
    and d2: "insertOrder (replacementOrder (fresh ''ord'' (xi_source x)) (fresh ''pur'' (xi_source x)) iid u tgt ex x src (now d)) d1 = Inr d2"
    and d3: "consumePlanChangeAutomaticBenefitTx u (fresh ''ord'' (xi_source x)) (xi_program x) (itemQuote x) d2 = Inr d3"
    and d4: "sourceRefundEntry (fresh ''ref'' (xi_source x)) cid u x (b - xi_charge x) d3 = Inr d4"
    and f: "wallets d' = wallets d4" "walletEntries d' = walletEntries d4" "planChanges d' = planChanges d4" "instances d' = instances d4"
      "tasks d' = tasks d4" "now d' = now d4"
  have p: "\<not> holdEntry ?e" "we_user ?e = u" "we_amount ?e = - xi_charge x" by (simp_all add: purchaseEntry_def holdEntry_def)
  have "itemEntries u b (b - xi_charge x) d d1"
    using insertEntry_frame [OF e1] p by (auto simp: itemEntries_def)
  moreover have "itemEntries u (b - xi_charge x) (b - xi_charge x) d1 d3"
    using consumeAuto_frame [OF d3] d2 by (auto simp: itemEntries_def insertOrder_Inr)
  moreover have "itemEntries u (b - xi_charge x) b' d3 d'"
    by (rule sourceRefund_cases [OF d4]) (auto simp: itemEntries_def f b(2) dest: insertEntry_frame)
  ultimately show ?thesis using b by (auto intro: itemEntries_trans)
qed

lemma settleItems_entries:
  assumes "settleItems fresh cid iid u tgt ex xs b d = Inr (b', d')"
  shows "itemEntries u b b' d d' \<and> (0 \<le> b \<longrightarrow> 0 \<le> b')"
  using assms
proof (induction xs arbitrary: b d)
  case (Cons x xs)
  then obtain c e where "settleItem fresh cid iid u tgt ex x b d = Inr (c, e)" "settleItems fresh cid iid u tgt ex xs c e = Inr (b', d')"
    by (auto simp: resultE)
  with settleItem_entries Cons.IH show ?case using itemEntries_trans by blast
qed (simp add: itemEntries_refl)

lemma complete_cases:
  assumes "completePlanChange fresh t d = Inr d'"
  obtains cid cpu mem c where "d' = d" "resizePayload (t_payload t) = Some (cid, cpu, mem)"
    "select (\<lambda>c. pc_id c = cid) (planChanges d) = Some c" "pc_status c \<noteq> Processing"
  | cid cpu mem c ex b d1 d2 b2 d3 where "resizePayload (t_payload t) = Some (cid, cpu, mem)"
    "select (\<lambda>c. pc_id c = cid) (planChanges d) = Some c" "pc_status c = Processing"
    "t_token t \<noteq> None \<longrightarrow> countRows (ownsResize t d) (List.product (tasks d) (instances d)) = 1"
    "affected (sizeRow (t_instance t)) (resized cpu mem) (instances d) = 1" "pc_exchange c = Some ex"
    "walletOf (pc_owner c) d = Some b" "d1 = d\<lparr>instances := update (sizeRow (t_instance t)) (resized cpu mem) (instances d)\<rparr>"
    "(if pc_reservation c > 0 then releaseReservation (fresh ''wal'' cid) cid (pc_owner c) (ReleaseKey cid) ''system''
        (pc_reservation c) (b + pc_reservation c) d1 else Inr d1) = Inr d2"
    "settleItems fresh cid (t_instance t) (pc_owner c) (pc_targetPlan c) ex
       (filter (\<lambda>x. xi_exchange x = ex) (exchangeItems d2)) (b + max 0 (pc_reservation c)) d2 = Inr (b2, d3)"
    "d' = setChange cid (\<lambda>c. pc_status c = Processing) (settledChange (now d)) (setExchange ex ''succeeded'' (setBalance (pc_owner c) b2 d3))"
proof -
  obtain cid cpu mem c where p: "resizePayload (t_payload t) = Some (cid, cpu, mem)"
    and c: "select (\<lambda>c. pc_id c = cid) (planChanges d) = Some c"
    using assms by (auto simp: completePlanChange_def resultE)
  show thesis
  proof (cases "pc_status c = Processing")
    case True
    have m: "max 0 (pc_reservation c) = (if pc_reservation c > 0 then pc_reservation c else 0)" by simp
    show thesis using assms p c True that(2) [OF p c True]
      by (auto simp: completePlanChange_def bindE_Inr_iff orElse_Inr_iff Let_def m walletOf_def split: if_splits)
  qed (use assms p c that(1) [OF _ p c] in \<open>auto simp: completePlanChange_def\<close>)
qed

lemma released_cases:
  assumes "(if res > 0 then releaseReservation wid cid u k a res n d else Inr d) = Inr d'"
  obtains es where "wallets d' = wallets d" "planChanges d' = planChanges d" "walletEntries d' = walletEntries d @ es"
    "\<forall>e \<in> set es. we_user e = u \<and> holdEntry e \<and> we_change e = Some cid" "sum_list (map we_amount es) = max 0 res"
    "instances d' = instances d" "exchangeItems d' = exchangeItems d" "orders d' = orders d" "now d' = now d"
    "tasks d' = tasks d"
proof (cases "res > 0")
  case True
  then have "insertEntry \<lparr>we_id = wid, we_user = u, we_amount = res, we_after = n,
       we_type = PlanChangeRelease, we_actor = a, we_order = None, we_change = Some cid,
       we_key = Some k, we_createdAt = now d\<rparr> d = Inr d'" (is "insertEntry ?e _ = _")
    using assms by (simp add: releaseReservation_def)
  from insertEntry_frame [OF this] show thesis using True
    by (intro that [of "[?e]"]) (auto simp: holdEntry_def)
qed (use assms that [of "[]"] in auto)

lemma complete_money:
  assumes m: "moneyOk d" and r: "completePlanChange fresh t d = Inr d'" shows "moneyOk d'"
proof (rule complete_cases [OF r])
  fix cid cpu mem c ex b d1 d2 b2 d3
  assume c: "select (\<lambda>c. pc_id c = cid) (planChanges d) = Some c" "pc_status c = Processing"
    and b: "walletOf (pc_owner c) d = Some b"
    and d1: "d1 = d\<lparr>instances := update (sizeRow (t_instance t)) (resized cpu mem) (instances d)\<rparr>"
    and rel: "(if pc_reservation c > 0 then releaseReservation (fresh ''wal'' cid) cid (pc_owner c) (ReleaseKey cid) ''system''
        (pc_reservation c) (b + pc_reservation c) d1 else Inr d1) = Inr d2"
    and st: "settleItems fresh cid (t_instance t) (pc_owner c) (pc_targetPlan c) ex
       (filter (\<lambda>x. xi_exchange x = ex) (exchangeItems d2)) (b + max 0 (pc_reservation c)) d2 = Inr (b2, d3)"
    and d': "d' = setChange cid (\<lambda>c. pc_status c = Processing) (settledChange (now d)) (setExchange ex ''succeeded'' (setBalance (pc_owner c) b2 d3))"
  let ?u = "pc_owner c"
  have cc: "c \<in> set (planChanges d)" "pc_id c = cid" using c by (auto dest: select_SomeD)
  have l: "ledgerOk d" and h: "holdsOk d" using m by (auto simp: moneyOk_def)
  have b0: "0 \<le> b" using ledger_balance [OF l b] .
  obtain es where es: "wallets d2 = wallets d1" "planChanges d2 = planChanges d1" "walletEntries d2 = walletEntries d1 @ es"
    "\<forall>e \<in> set es. we_user e = ?u \<and> holdEntry e \<and> we_change e = Some cid" "sum_list (map we_amount es) = max 0 (pc_reservation c)"
    by (rule released_cases [OF rel])
  obtain fs where fs: "wallets d3 = wallets d2" "planChanges d3 = planChanges d2" "walletEntries d3 = walletEntries d2 @ fs"
    "\<forall>e \<in> set fs. \<not> holdEntry e \<and> we_user e = ?u" "sum_list (map we_amount fs) = b2 - (b + max 0 (pc_reservation c))"
    and b2: "0 \<le> b2"
    using settleItems_entries [OF st] b0 by (auto simp: itemEntries_def)
  have "drift ?u b (0 + sum_list (map we_amount (es @ fs))) d3"
    by (rule drift_entries [OF ledger_drift [OF l b]]) (use es fs in \<open>auto simp: d1\<close>)
  then have "drift ?u b (b2 - b) d3" using es(5) fs(5) by simp
  from drift_set [OF this, of "b2 - b"] have "drift ?u b2 0 (setBalance ?u b2 d3)" by simp
  then have "ledgerOk (setBalance ?u b2 d3)" by (rule drift_ledger) (rule b2)
  then have "ledgerOk d'" by (rule wallet_rest [rotated 2]) (simp_all add: d')
  moreover have "holdsOk d'"
  proof (rule holds_step [OF h cc(1), where p = "\<lambda>r. pc_status r = Processing" and f = "settledChange (now d)" and es = "es @ fs"])
    show "planChanges d' = update (\<lambda>r. pc_id r = pc_id c \<and> pc_status r = Processing) (settledChange (now d)) (planChanges d)"
      by (simp add: d' setBalance_def fs es d1 cc(2))
    show "walletEntries d' = walletEntries d @ es @ fs" by (simp add: d' setBalance_def fs es d1)
    show "\<forall>e \<in> set (es @ fs). holdEntry e \<longrightarrow> we_change e = Some (pc_id c)" using es(4) fs(4) cc(2) by auto
    have "filter holdEntry es = es" "filter holdEntry fs = []" using es(4) fs(4) by (auto simp: filter_id_conv filter_empty_conv)
    then have "sumRows holdEntry we_amount (es @ fs) = max 0 (pc_reservation c)" by (simp add: sumRows_def es(5))
    moreover have "changeOk (holdSum (pc_id c) d) c" using h cc(1) by (simp add: holdsOk_def)
    moreover have "\<not> isClosed c" using processing_open [OF h cc(1)] c(2) by simp
    ultimately show "changeOk (holdSum (pc_id c) d + sumRows holdEntry we_amount (es @ fs)) (if pc_status c = Processing then settledChange (now d) c else c)"
      using c(2) by (simp add: changeOk_def isClosed_def)
  qed simp
  ultimately show ?thesis by (simp add: moneyOk_def)
qed (use m in simp)

lemma money_same:
  assumes "moneyOk d" "wallets d' = wallets d" "walletEntries d' = walletEntries d" "planChanges d' = planChanges d"
  shows "moneyOk d'"
  using assms wallet_rest holds_same unfolding moneyOk_def by blast

text \<open>Steps that rewrite open changes and leave them open.\<close>

lemma money_reopen:
  assumes m: "moneyOk d" and w: "wallets d' = wallets d" "walletEntries d' = walletEntries d"
    and pc: "planChanges d' = update (\<lambda>r. pc_id r = cid \<and> p r) f (planChanges d)"
    and f: "\<And>r. pc_id (f r) = pc_id r" "\<And>r. pc_reservation (f r) = pc_reservation r"
    and ok: "\<And>r h. r \<in> set (planChanges d) \<Longrightarrow> pc_id r = cid \<Longrightarrow> p r \<Longrightarrow> changeOk h r \<Longrightarrow> changeOk h (f r)"
  shows "moneyOk d'"
proof (cases "\<exists>c \<in> set (planChanges d). pc_id c = cid")
  case True
  then obtain c where c: "c \<in> set (planChanges d)" "pc_id c = cid" by blast
  have h: "holdsOk d" using m by (simp add: moneyOk_def)
  then have "changeOk (holdSum (pc_id c) d) c" using c(1) unfolding holdsOk_def by blast
  with h have "holdsOk d'"
    by (intro holds_step [OF h c(1), where es = "[]" and p = p and f = f]) (use ok [OF c] in \<open>simp_all add: pc c(2) w f\<close>)
  then show ?thesis using m wallet_rest [OF w] by (simp add: moneyOk_def)
next
  case False
  then have "planChanges d' = planChanges d" unfolding pc by (intro update_id) auto
  then show ?thesis using money_same [OF m w] by simp
qed

lemma mark_money: "moneyOk d \<Longrightarrow> moneyOk (markPlanChangeBlocked cid msg d)"
  by (rule money_reopen [where d = d and cid = cid and p = "\<lambda>c. pc_status c = Processing" and f = "\<lambda>c. c\<lparr>pc_status := NeedsReview, pc_saga := Observing,
       pc_fund := FundBlocked, pc_verify := ''unavailable'', pc_verifyError := Some (truncateError msg), pc_updatedAt := now d\<rparr>"])
    (auto simp: markPlanChangeBlocked_def changeOk_def isClosed_def split: if_splits)

lemma observe_money: "moneyOk d \<Longrightarrow> moneyOk (observe iid cid cpu mem d)"
  by (rule money_reopen [where d = d and cid = cid and p = "\<lambda>_. True"
        and f = "\<lambda>c. c\<lparr>pc_observed := Some (cpu, mem), pc_updatedAt := now d\<rparr>"])
    (auto simp: observe_def changeOk_def isClosed_def split: if_splits)

lemma resume_money: "moneyOk d \<Longrightarrow> moneyOk (snd (resumeBlockedPlanChange cid d))"
  by (rule money_reopen [where d = d and cid = cid
        and p = "\<lambda>c. pc_status c = Processing \<or> (pc_status c = NeedsReview \<and> pc_fund c = FundBlocked)" and f = "resumed (now d)"])
    (auto simp: resumeBlockedPlanChange_def resumable_def [abs_def] changeOk_def isClosed_def split: if_splits)

lemma logs_money [simp]:
  "moneyOk (writeAudit a b c d) = moneyOk d" "moneyOk (appendTaskEvent i e d) = moneyOk d"
  "moneyOk (createNotification u k i d) = moneyOk d"
  by (auto intro: money_same)

lemma compensation_money:
  assumes m: "moneyOk d" and r: "completePlanChangeCompensation fresh t d = Inr d'" shows "moneyOk d'"
proof -
  obtain cid cpu mem c where
    c: "select (\<lambda>c. pc_id c = cid \<and> pc_instance c = t_instance t \<and> pc_saga c = Compensating) (planChanges d) = Some c"
    and k: "cancelPlanChangeSettlementTx fresh cid (t_instance t) (pc_owner c) ''rolled back after user cancellation''
       (d\<lparr>instances := update (sizeRow (t_instance t)) (resized cpu mem) (instances d)\<rparr>) = Inr d'"
    using r by (auto simp: completePlanChangeCompensation_def bindE_Inr_iff orElse_Inr_iff split: option.splits if_splits)
  have u: "changeTab.unique d" using m by (simp add: moneyOk_def holdsOk_def)
  have "pc_saga r \<noteq> Settled" if "r \<in> set (planChanges d)" "pc_id r = cid" for r
    using changeTab.key_unique [OF u that(1), of c] that(2) select_SomeD [OF c] by auto
  then show ?thesis
    by (intro cancel_money [OF _ k]) (use m in \<open>auto intro: money_same [OF m]\<close>)
qed

lemma start_money:
  assumes m: "moneyOk d" and c: "c \<in> set (planChanges d)" "pc_id c = cid" "\<not> isClosed c"
    and r: "startCompensation fresh u iid cid c d = Inr (t, d')"
  shows "moneyOk d'"
proof (rule money_reopen [OF m, where cid = cid and p = "\<lambda>_. True"])
  let ?f = "compensatingChange (now d) (fresh ''task'' cid)"
  have u: "changeTab.unique d" using m by (simp add: moneyOk_def holdsOk_def)
  show "wallets d' = wallets d" "walletEntries d' = walletEntries d"
    "planChanges d' = update (\<lambda>r. pc_id r = cid \<and> True) ?f (planChanges d)"
    using r by (auto simp: startCompensation_def resultE Let_def insertTask_Inr)
  show "changeOk h (?f r)" if "r \<in> set (planChanges d)" "pc_id r = cid" "changeOk h r" for r h
    using changeTab.key_unique [OF u that(1) c(1)] that c by (auto simp: changeOk_def isClosed_def)
qed simp_all

lemma request_money:
  assumes m: "moneyOk d" and r: "requestPlanChangeCompensation fresh u iid cid d = Inr (t, d')"
  shows "moneyOk d'"
proof (cases "d' = d")
  case False
  with r obtain c where c: "select (\<lambda>c. pc_id c = cid \<and> pc_instance c = iid \<and> pc_owner c = u) (planChanges d) = Some c"
    and g: "pc_saga c \<noteq> SagaCancelled" "pc_saga c \<noteq> Settled"
    and k: "cancelPlanChangeSettlementTx fresh cid iid u ''cancelled by the user; source resources observed''
          (bumpGeneration iid (\<lambda>i. i_owner i = u) d) = Inr d' \<or> startCompensation fresh u iid cid c d = Inr (t, d')"
    by (auto simp: requestPlanChangeCompensation_def bindE_Inr_iff orElse_Inr_iff split: if_splits option.splits)
  have cc: "c \<in> set (planChanges d)" "pc_id c = cid" using c by (auto dest: select_SomeD)
  have u: "changeTab.unique d" using m by (simp add: moneyOk_def holdsOk_def)
  have s: "pc_saga r \<noteq> Settled" if "r \<in> set (planChanges d)" "pc_id r = cid" for r
    using changeTab.key_unique [OF u that(1) cc(1)] that(2) cc(2) g by auto
  from k show ?thesis
  proof
    assume k: "cancelPlanChangeSettlementTx fresh cid iid u ''cancelled by the user; source resources observed''
          (bumpGeneration iid (\<lambda>i. i_owner i = u) d) = Inr d'"
    show ?thesis by (rule cancel_money [OF _ k]) (use s in \<open>auto intro: money_same [OF m]\<close>)
  qed (use start_money [OF m cc] g in \<open>auto simp: isClosed_def\<close>)
qed (use m in simp)

lemma lock_money [simp]: "moneyOk (releaseInstanceTaskLock t d) = moneyOk d"
  by (auto simp: releaseInstanceTaskLock_def intro: money_same)

lemma close_money [simp]: "moneyOk d \<Longrightarrow> moneyOk (closeReviewTask t s e ev d)"
  by (auto simp: closeReviewTask_def intro: money_same)

lemma resumed_money: "moneyOk d \<Longrightarrow> resumeBlockedPlanChange cid d = (ok, d') \<Longrightarrow> moneyOk d'"
  using resume_money [of d cid] by simp

lemma verified_money: "moneyOk d \<Longrightarrow> moneyOk (setChange cid p (\<lambda>c. c\<lparr>pc_verify := v\<rparr>) d)"
  by (rule money_reopen [where d = d and cid = cid and p = p and f = "\<lambda>c. c\<lparr>pc_verify := v\<rparr>"])
    (auto simp: changeOk_def isClosed_def split: if_splits)

lemma settleObserved_money: "moneyOk d \<Longrightarrow> moneyOk (settleObserved fresh t cid cpu mem c d)"
  by (auto simp: settleObserved_def Let_def split: prod.splits bool.splits sum.splits
      intro!: close_money mark_money verified_money fail_money dest: resumed_money complete_money)

lemma reconcile_money:
  assumes "\<And>i n d. moneyOk d \<Longrightarrow> moneyOk (fst (inspect i n d))" and m: "moneyOk d"
  shows "moneyOk (reconcileRecoveredPlanChange inspect fresh t d)"
proof -
  have i: "moneyOk d1" if "inspect i n d = (d1, a)" for i n d1 a
    using assms(1) [OF m, of i n] that by simp
  show ?thesis
    by (auto simp: reconcileRecoveredPlanChange_def Let_def m
        split: option.splits prod.splits sum.splits intro!: mark_money settleObserved_money observe_money dest: i)
qed

lemma reserve_cases:
  assumes l: "ledgerOk d" and r: "reserveFunds wid u cid res d = Inr d1"
  shows "ledgerOk d1 \<and> planChanges d1 = planChanges d \<and> instances d1 = instances d \<and> tasks d1 = tasks d \<and>
    (\<exists>es. walletEntries d1 = walletEntries d @ es \<and> (\<forall>e \<in> set es. holdEntry e \<and> we_change e = Some cid) \<and>
       sum_list (map we_amount es) = - max 0 res)"
proof (cases "res > 0")
  case True
  then obtain b e where b: "walletOf u d = Some b" "res \<le> b" and i: "insertEntry e (addBalance u (- res) d) = Inr d1"
    and e: "we_user e = u" "we_amount e = - res" "holdEntry e" "we_change e = Some cid"
    using r by (auto simp: reserveFunds_def resultE holdEntry_def split: if_splits)
  have "drift u (b + - res) (0 - - res) (addBalance u (- res) d)" by (rule drift_add [OF ledger_drift [OF l b(1)]])
  from drift_entry [OF this i e(1)] have "drift u (b - res) 0 d1" by (simp add: e(2))
  then have "ledgerOk d1" by (rule drift_ledger) (use b(2) in simp)
  then show ?thesis using insertEntry_frame [OF i] e True by (intro conjI exI [of _ "[e]"]) auto
qed (use assms in \<open>auto simp: reserveFunds_def intro!: exI [of _ "[]"]\<close>)

lemma reserve_money:
  assumes m: "moneyOk d" and i: "pc_status r = Processing" "pc_saga r = Applying"
    and r: "reserveFunds wid u (pc_id r) (pc_reservation r) d = Inr d1" "insertChange r d1 = Inr d2"
  shows "moneyOk d2"
proof -
  have l: "ledgerOk d" and h: "holdsOk d" using m by (auto simp: moneyOk_def)
  obtain es where l1: "ledgerOk d1" and pc: "planChanges d1 = planChanges d" and es: "walletEntries d1 = walletEntries d @ es"
    "\<forall>e \<in> set es. holdEntry e \<and> we_change e = Some (pc_id r)" "sum_list (map we_amount es) = - max 0 (pc_reservation r)"
    using reserve_cases [OF l r(1)] by blast
  have d2: "d2 = d1\<lparr>planChanges := planChanges d1 @ [r]\<rparr>" and new: "pc_id r \<notin> pc_id ` set (planChanges d)"
    using r(2) pc by (auto simp: insertChange_def split: if_splits)
  have "\<not> (holdEntry e \<and> we_change e = Some (pc_id r))" if "e \<in> set (walletEntries d)" for e
    using h new that unfolding holdsOk_def by (metis image_eqI option.inject)
  then have "filter (\<lambda>e. holdEntry e \<and> we_change e = Some (pc_id r)) (walletEntries d) = []"
    by (simp add: filter_empty_conv)
  then have none: "holdSum (pc_id r) d = 0" by (simp add: holdSum_def sumRows_def)
  have "filter (\<lambda>e. holdEntry e \<and> we_change e = Some (pc_id r)) es = es" using es(2) by (simp add: filter_id_conv)
  then have mine: "holdSum (pc_id r) d2 = - max 0 (pc_reservation r)"
    using none es(3) by (simp add: d2 es(1) holdSum_def) (simp add: sumRows_def)
  have other: "holdSum j d2 = holdSum j d" if "j \<noteq> pc_id r" for j
  proof -
    have "filter (\<lambda>e. holdEntry e \<and> we_change e = Some j) es = []" using es(2) that by (auto simp: filter_empty_conv)
    then show ?thesis by (simp add: d2 es(1) holdSum_def) (simp add: sumRows_def)
  qed
  have "changeOk (holdSum (pc_id c) d2) c" if c: "c \<in> set (planChanges d2)" for c
  proof (cases "c = r")
    case True then show ?thesis using mine i by (simp add: changeOk_def isClosed_def)
  next
    case False
    then have "c \<in> set (planChanges d)" using c by (simp add: d2 pc)
    moreover from this have "pc_id c \<noteq> pc_id r" using new by (metis image_eqI)
    ultimately show ?thesis using other [of "pc_id c"] h unfolding holdsOk_def by simp
  qed
  moreover have "changeTab.unique d2" using h new by (auto simp: holdsOk_def changeTab.unique_def d2 pc)
  moreover have "\<forall>e \<in> set (walletEntries d2). holdEntry e \<longrightarrow> (\<exists>c \<in> set (planChanges d2). we_change e = Some (pc_id c))"
    using h es(2) by (auto simp: holdsOk_def d2 es(1) pc)
  ultimately have "holdsOk d2" by (simp add: holdsOk_def)
  moreover have "ledgerOk d2" by (rule wallet_rest [OF _ _ l1]) (simp_all add: d2)
  ultimately show ?thesis by (simp add: moneyOk_def)
qed

lemma create_cases:
  assumes "createPlanChange fresh ttl u iid tgt cur q d = Inr ((cid, task), d')"
  obtains cp i p months bps d1 d2 d3 g where "checkPlanChange ttl u iid tgt cur q d = Inr (cp, i, p, months, bps)"
    "cid = fresh ''resize''" "task = resizeTask fresh iid i p g (now d)"
    "reserveFunds (fresh ''wal'') u cid (pq_charge q) d = Inr d1" "insertChange (newChange fresh u iid cp i p q (now d)) d1 = Inr d2"
    "list_all (checkItem u iid (pq_cutoff q) months bps (go_div (p_monthly p * bps) 10000) d) (pq_items q)"
    "d3 = bumpGeneration iid (\<lambda>_. True) (setChange cid (\<lambda>_. True) (\<lambda>c. c\<lparr>pc_exchange := Some (fresh ''exchange'')\<rparr>)
       (d2\<lparr>exchanges := exchanges d2 @ [newExchange fresh u iid p q],
           exchangeItems := exchangeItems d2 @ map (itemRow (fresh ''exchange'')) (pq_items q)\<rparr>))"
    "generationOf iid d3 = Some g" "t_id task \<notin> t_id ` set (tasks d3)" "t_key task \<notin> t_key ` set (tasks d3)"
    "d' = writeAudit u ''instance.plan_change'' iid
       (setChange cid (\<lambda>_. True) (\<lambda>c. c\<lparr>pc_task := Some (t_id task)\<rparr>) (d3\<lparr>tasks := tasks d3 @ [task]\<rparr>))"
proof -
  obtain cp i p months bps where k: "checkPlanChange ttl u iid tgt cur q d = Inr (cp, i, p, months, bps)"
    using assms by (auto simp: createPlanChange_def bindE_Inr_iff)
  have n: "pc_id (newChange fresh u iid cp i p q (now d)) = fresh ''resize''"
    "pc_reservation (newChange fresh u iid cp i p q (now d)) = pq_charge q"
    "ex_id (newExchange fresh u iid p q) = fresh ''exchange''"
    by (simp_all add: newChange_def newExchange_def)
  show thesis using assms
    by (auto simp: createPlanChange_def k Let_def n bindE_Inr_iff orElse_Inr_iff insertTask_Inr split: if_splits intro!: that [OF k])
qed

lemma create_money:
  assumes m: "moneyOk d" and r: "createPlanChange fresh ttl u iid tgt cur q d = Inr ((cid, task), d')"
  shows "moneyOk d'"
proof (rule create_cases [OF r])
  fix cp i p months bps d1 d2 d3 g
  let ?c = "newChange fresh u iid cp i p q (now d)"
  assume c: "cid = fresh ''resize''" and f: "reserveFunds (fresh ''wal'') u cid (pq_charge q) d = Inr d1" "insertChange ?c d1 = Inr d2"
    and d3: "d3 = bumpGeneration iid (\<lambda>_. True) (setChange cid (\<lambda>_. True) (\<lambda>c. c\<lparr>pc_exchange := Some (fresh ''exchange'')\<rparr>)
       (d2\<lparr>exchanges := exchanges d2 @ [newExchange fresh u iid p q],
           exchangeItems := exchangeItems d2 @ map (itemRow (fresh ''exchange'')) (pq_items q)\<rparr>))"
    and d': "d' = writeAudit u ''instance.plan_change'' iid
       (setChange cid (\<lambda>_. True) (\<lambda>c. c\<lparr>pc_task := Some (t_id task)\<rparr>) (d3\<lparr>tasks := tasks d3 @ [task]\<rparr>))"
  have "moneyOk d2"
    by (rule reserve_money [OF m, of ?c "fresh ''wal''" u d1]) (use f c in \<open>simp_all add: newChange_def\<close>)
  then have "moneyOk d3"
    by (rule money_reopen [where cid = cid and p = "\<lambda>_. True" and f = "\<lambda>c. c\<lparr>pc_exchange := Some (fresh ''exchange'')\<rparr>"])
      (auto simp: d3 changeOk_def isClosed_def split: if_splits)
  then show ?thesis
    by (rule money_reopen [where cid = cid and p = "\<lambda>_. True" and f = "\<lambda>c. c\<lparr>pc_task := Some (t_id task)\<rparr>"])
      (auto simp: d' changeOk_def isClosed_def split: if_splits)
qed

section \<open>Any interleaving\<close>

lemma money_held:
  "moneyOk d \<Longrightarrow> c \<in> set (planChanges d) \<Longrightarrow> holdSum (pc_id c) d = (if isClosed c then 0 else - max 0 (pc_reservation c))"
  by (cases "isClosed c") (auto simp: moneyOk_def holdsOk_def changeOk_def)

text \<open>The contract of a transaction that keeps the ledger and the reservations, and the calls of this
  component as one operation.\<close>

locale change_op =
  fixes tx :: "'a \<Rightarrow> db \<Rightarrow> error + db"
  assumes keeps_money: "moneyOk d \<Longrightarrow> tx a d = Inr d' \<Longrightarrow> moneyOk d'"
begin

lemma run_money: "moneyOk d \<Longrightarrow> moneyOk (fold (\<lambda>a d. commitOr d (tx a d)) as d)"
  by (induction as arbitrary: d) (auto simp: commitOr_def keeps_money split: sum.splits)

lemma run_held:
  "moneyOk d \<Longrightarrow> c \<in> set (planChanges (fold (\<lambda>a d. commitOr d (tx a d)) as d)) \<Longrightarrow>
   holdSum (pc_id c) (fold (\<lambda>a d. commitOr d (tx a d)) as d) = (if isClosed c then 0 else - max 0 (pc_reservation c))"
  using money_held run_money by blast

end

text \<open>A wallet transaction that leaves plan changes and reservations alone is such a transaction.\<close>

locale neutral_op = wallet_op +
  assumes no_holds: "tx a d = Inr d' \<Longrightarrow> planChanges d' = planChanges d \<and>
    (\<exists>es. walletEntries d' = walletEntries d @ es \<and> (\<forall>e \<in> set es. \<not> holdEntry e))"
begin

lemma neutral_money: "moneyOk d \<Longrightarrow> tx a d = Inr d' \<Longrightarrow> moneyOk d'"
  unfolding moneyOk_def using keeps_ledger no_holds holds_frame by metis

end

sublocale neutral_op \<subseteq> neutral: change_op tx
  by unfold_locales (rule neutral_money)

datatype changeCall =
    CallCreate "string \<Rightarrow> id" duration id id id "id option" planQuote
  | CallComplete "string \<Rightarrow> id \<Rightarrow> id" controlTask
  | CallFail "string \<Rightarrow> id \<Rightarrow> id" controlTask error
  | CallRequestCancel "string \<Rightarrow> id \<Rightarrow> id" id id id
  | CallCompensated "string \<Rightarrow> id \<Rightarrow> id" controlTask
  | CallBlock id string
  | CallReconcile "error + (int \<times> int) option" "string \<Rightarrow> id \<Rightarrow> id" controlTask

fun changeStep :: "changeCall \<Rightarrow> db \<Rightarrow> error + db" where
  "changeStep (CallCreate fresh ttl u iid tgt cur q) db = bindE (createPlanChange fresh ttl u iid tgt cur q db) (\<lambda>(_, d). Inr d)"
| "changeStep (CallComplete fresh t) db = completePlanChange fresh t db"
| "changeStep (CallFail fresh t e) db = Inr (failPlanChange fresh t e db)"
| "changeStep (CallRequestCancel fresh u iid cid) db = bindE (requestPlanChangeCompensation fresh u iid cid db) (\<lambda>(_, d). Inr d)"
| "changeStep (CallCompensated fresh t) db = completePlanChangeCompensation fresh t db"
| "changeStep (CallBlock cid m) db = Inr (markPlanChangeBlocked cid m db)"
| "changeStep (CallReconcile answer fresh t) db = Inr (reconcileRecoveredPlanChange (\<lambda>_ _ d. (d, answer)) fresh t db)"

lemma changeStep_money:
  assumes "moneyOk d" "changeStep a d = Inr d'" shows "moneyOk d'"
proof (cases a)
  case (CallReconcile answer fresh t)
  then show ?thesis using assms reconcile_money [of "\<lambda>_ _ d. (d, answer)" d fresh t] by auto
qed (use assms in \<open>auto simp: bindE_Inr_iff intro: create_money complete_money fail_money request_money compensation_money mark_money\<close>)

interpretation change: change_op changeStep
  by unfold_locales (rule changeStep_money)

section \<open>The orders after settlement\<close>

definition orderKey :: "order \<Rightarrow> (id \<times> id \<times> id \<times> id option) \<times> int \<times> ostatus \<times> gotime option \<times> gotime option \<times> id option" where
  "orderKey r = ((o_id r, o_owner r, o_plan r, o_instance r), o_amount r, o_status r, o_start r, o_expires r, o_replaces r)"

definition replacementOf :: "id \<Rightarrow> id \<Rightarrow> id \<Rightarrow> exchangeItem \<Rightarrow> order \<Rightarrow> bool" where
  "replacementOf u iid tgt x r \<longleftrightarrow> o_owner r = u \<and> o_plan r = tgt \<and> o_instance r = Some iid \<and> o_amount r = xi_charge x \<and>
     o_status r = OrderActive \<and> o_start r = Some (xi_start x) \<and> o_expires r = Some (xi_end x) \<and> o_replaces r = Some (xi_source x)"

lemma replacementOf_key: "orderKey r' = orderKey r \<Longrightarrow> replacementOf u iid tgt x r' = replacementOf u iid tgt x r"
  by (simp add: orderKey_def replacementOf_def)

lemma orderKey_sel: "orderKey r' = orderKey r \<Longrightarrow> o_id r' = o_id r \<and> o_status r' = o_status r"
  by (simp add: orderKey_def)

definition keepsOrders :: "id set \<Rightarrow> db \<Rightarrow> db \<Rightarrow> bool" where
  "keepsOrders S d d' \<longleftrightarrow>
     (\<forall>r \<in> set (orders d). \<exists>r' \<in> set (orders d'). o_id r' = o_id r \<and> (orderKey r' = orderKey r \<or> o_id r \<in> S)) \<and>
     (\<forall>r' \<in> set (orders d'). o_id r' \<in> o_id ` set (orders d) \<longrightarrow>
        (\<exists>r \<in> set (orders d). o_id r = o_id r' \<and> (o_status r' = o_status r \<or> o_status r' = OrderExchanged)))"

lemma keepsOrders_refl: "keepsOrders S d d"
  by (auto simp: keepsOrders_def)

lemma keepsOrders_ids: "keepsOrders S d d' \<Longrightarrow> o_id ` set (orders d) \<subseteq> o_id ` set (orders d')"
proof
  fix i assume k: "keepsOrders S d d'" and "i \<in> o_id ` set (orders d)"
  then obtain r where r: "r \<in> set (orders d)" "i = o_id r" by blast
  then obtain r' where "r' \<in> set (orders d')" "o_id r' = o_id r" using k unfolding keepsOrders_def by blast
  then show "i \<in> o_id ` set (orders d')" using r(2) by (metis imageI)
qed

lemma keepsOrders_trans:
  assumes a: "keepsOrders S d e" and b: "keepsOrders T e f" shows "keepsOrders (S \<union> T) d f"
  unfolding keepsOrders_def
proof (intro conjI ballI impI)
  fix r assume r: "r \<in> set (orders d)"
  obtain r1 where r1: "r1 \<in> set (orders e)" "o_id r1 = o_id r" "orderKey r1 = orderKey r \<or> o_id r \<in> S"
    using a r unfolding keepsOrders_def by blast
  obtain r2 where r2: "r2 \<in> set (orders f)" "o_id r2 = o_id r1" "orderKey r2 = orderKey r1 \<or> o_id r1 \<in> T"
    using b r1(1) unfolding keepsOrders_def by blast
  show "\<exists>r' \<in> set (orders f). o_id r' = o_id r \<and> (orderKey r' = orderKey r \<or> o_id r \<in> S \<union> T)"
    using r1 r2 by (intro bexI [OF _ r2(1)]) auto
next
  fix r' assume r': "r' \<in> set (orders f)" "o_id r' \<in> o_id ` set (orders d)"
  then have "o_id r' \<in> o_id ` set (orders e)" using keepsOrders_ids [OF a] by blast
  then obtain r1 where r1: "r1 \<in> set (orders e)" "o_id r1 = o_id r'" "o_status r' = o_status r1 \<or> o_status r' = OrderExchanged"
    using b r'(1) unfolding keepsOrders_def by blast
  moreover have "\<forall>s \<in> set (orders e). o_id s \<in> o_id ` set (orders d) \<longrightarrow>
      (\<exists>r \<in> set (orders d). o_id r = o_id s \<and> (o_status s = o_status r \<or> o_status s = OrderExchanged))"
    using a by (simp add: keepsOrders_def)
  ultimately obtain r where "r \<in> set (orders d)" "o_id r = o_id r1" "o_status r1 = o_status r \<or> o_status r1 = OrderExchanged"
    using r'(2) by auto
  then show "\<exists>r \<in> set (orders d). o_id r = o_id r' \<and> (o_status r' = o_status r \<or> o_status r' = OrderExchanged)"
    using r1 by (intro bexI [of _ r]) auto
qed

lemma consumeAuto_keys:
  assumes "consumePlanChangeAutomaticBenefitTx u ord pid q d = Inr d'"
  shows "\<exists>f. orders d' = update (\<lambda>r. o_id r = ord) f (orders d) \<and> (\<forall>r. orderKey (f r) = orderKey r)"
proof -
  obtain q' where "consumeCommercialBenefitTx u ord q' d = Inr d'" using consumeAuto_consume [OF assms] by blast
  then show ?thesis
  proof (rule consume_cases)
    assume "d' = setOrder ord (\<lambda>r. r\<lparr>o_tier := Some (snapshotTier q')\<rparr>) d"
    then show ?thesis by (intro exI [of _ "\<lambda>r. r\<lparr>o_tier := Some (snapshotTier q')\<rparr>"]) (simp add: setOrder_def orderKey_def)
  next
    fix p :: benefitProgram and d1 d2 :: db
    let ?f = "\<lambda>r :: order. r\<lparr>o_program := Some (bp_id p), o_tier := Some (snapshotTier q'), o_bonusDays := q_bonus q'\<rparr>"
    assume c: "consumeCode u p q' (d\<lparr>programs := update (budgetRow q' p d) (spend q') (programs d)\<rparr>) = Inr d1"
      "consumeGrant u ord q' d1 = Inr d2"
      "d' = setOrder ord ?f (d2\<lparr>redemptions := redemptions d2 @ [\<lparr>br_program = bp_id p, br_code = q_code q',
            br_grant = q_grant q', br_owner = u, br_order = ord, br_discount = q_discount q', br_days = q_bonus q'\<rparr>]\<rparr>)"
    then show ?thesis using consumeCode_frame [OF c(1)] consumeGrant_frame [OF c(2)]
      by (intro exI [of _ ?f]) (simp add: setOrder_def orderKey_def)
  qed
qed

lemma settleItem_orders:
  assumes "settleItem fresh cid iid u tgt ex x b d = Inr (b', d')"
  obtains new g f where "xi_source x \<in> o_id ` set (orders d)" "o_id new \<notin> o_id ` set (orders d)" "replacementOf u iid tgt x new"
    "orders d' = update (\<lambda>r. o_id r = xi_source x \<and> o_status r = OrderActive) g
       (update (\<lambda>r. o_id r = o_id new) f (orders d @ [new]))"
    "\<And>r. orderKey (f r) = orderKey r" "\<And>r. o_id (g r) = o_id r" "\<And>r. o_status (g r) = OrderExchanged"
proof (rule settleItem_cases [OF assms])
  fix src d1 d2 d3 d4
  let ?rid = "fresh ''ord'' (xi_source x)" and ?pid = "fresh ''pur'' (xi_source x)"
  let ?new = "replacementOrder ?rid ?pid iid u tgt ex x src (now d)"
  assume src: "select (\<lambda>r. o_id r = xi_source x) (orders d) = Some src"
    and d1: "insertEntry (purchaseEntry ?pid cid u ?rid x (b - xi_charge x) (now d)) d = Inr d1"
    and d2: "insertOrder ?new d1 = Inr d2"
    and d3: "consumePlanChangeAutomaticBenefitTx u ?rid (xi_program x) (itemQuote x) d2 = Inr d3"
    and d4: "sourceRefundEntry (fresh ''ref'' (xi_source x)) cid u x (b - xi_charge x) d3 = Inr d4"
    and o: "orders d' = update (\<lambda>r. o_id r = xi_source x \<and> o_status r = OrderActive)
       (exchangedOrder ex (if xi_refund x > 0 then Some (fresh ''ref'' (xi_source x)) else None) x (now d)) (orders d4)"
  have o1: "orders d1 = orders d" using insertEntry_frame [OF d1] by simp
  have o2: "orders d2 = orders d @ [?new]" and n: "?rid \<notin> o_id ` set (orders d)"
    using d2 by (auto simp: insertOrder_Inr o1 replacementOrder_def)
  obtain f where f: "orders d3 = update (\<lambda>r. o_id r = ?rid) f (orders d2)" "\<And>r. orderKey (f r) = orderKey r"
    using consumeAuto_keys [OF d3] by blast
  have o4: "orders d4 = orders d3" by (rule sourceRefund_cases [OF d4]) (auto dest: insertEntry_frame)
  have new: "o_id ?new = ?rid" "replacementOf u iid tgt x ?new"
    by (simp_all add: replacementOrder_def replacementOf_def)
  show thesis
  proof (rule that [of ?new _ f])
    show "xi_source x \<in> o_id ` set (orders d)" using select_SomeD [OF src] by force
    show "orders d' = update (\<lambda>r. o_id r = xi_source x \<and> o_status r = OrderActive)
       (exchangedOrder ex (if xi_refund x > 0 then Some (fresh ''ref'' (xi_source x)) else None) x (now d))
       (update (\<lambda>r. o_id r = o_id ?new) f (orders d @ [?new]))"
      by (simp only: o o4 f(1) o2 new(1))
  qed (use f(2) n new in \<open>simp_all add: exchangedOrder_def\<close>)
qed

lemma settleItem_keeps:
  assumes r: "settleItem fresh cid iid u tgt ex x b d = Inr (b', d')"
  shows "keepsOrders {xi_source x} d d' \<and> (\<forall>r \<in> set (orders d'). o_id r = xi_source x \<longrightarrow> o_status r \<noteq> OrderActive) \<and>
    (\<exists>r \<in> set (orders d'). o_id r \<notin> o_id ` set (orders d) \<and> replacementOf u iid tgt x r) \<and> xi_source x \<in> o_id ` set (orders d)"
proof (rule settleItem_orders [OF r])
  fix f g new
  assume s: "xi_source x \<in> o_id ` set (orders d)" and n: "o_id new \<notin> o_id ` set (orders d)" "replacementOf u iid tgt x new"
    and o: "orders d' = update (\<lambda>r. o_id r = xi_source x \<and> o_status r = OrderActive) g
       (update (\<lambda>r. o_id r = o_id new) f (orders d @ [new]))"
    and f: "\<And>r. orderKey (f r) = orderKey r" and g: "\<And>r. o_id (g r) = o_id r" "\<And>r. o_status (g r) = OrderExchanged"
  have fs: "o_id (f r) = o_id r" "o_status (f r) = o_status r" for r using orderKey_sel [OF f [of r]] by auto
  define h where "h r = (if o_id r = xi_source x \<and> o_status r = OrderActive then g r else r)" for r
  have "update (\<lambda>r. o_id r = o_id new) f (orders d) = orders d" by (rule update_id) (metis n(1) imageI)
  then have "update (\<lambda>r. o_id r = o_id new) f (orders d @ [new]) = orders d @ [f new]" by (simp add: update_def)
  then have d': "orders d' = map h (orders d) @ [h (f new)]" by (simp add: o) (simp add: update_def fs h_def [abs_def])
  have h: "o_id (h r) = o_id r" "o_status (h r) = o_status r \<or> o_status (h r) = OrderExchanged" for r using g by (auto simp: h_def)
  have "keepsOrders {xi_source x} d d'"
    unfolding keepsOrders_def
  proof (intro conjI ballI impI)
    fix r assume r: "r \<in> set (orders d)"
    then have "h r \<in> set (orders d')" by (auto simp: d')
    moreover have "orderKey (h r) = orderKey r \<or> o_id r \<in> {xi_source x}" by (auto simp: h_def)
    ultimately show "\<exists>r' \<in> set (orders d'). o_id r' = o_id r \<and> (orderKey r' = orderKey r \<or> o_id r \<in> {xi_source x})"
      using h(1) by blast
  next
    fix r' assume r': "r' \<in> set (orders d')" "o_id r' \<in> o_id ` set (orders d)"
    have "o_id (h (f new)) = o_id new" using h(1) fs(1) by simp
    then have "r' \<noteq> h (f new)" using r'(2) n(1) by metis
    then have "r' \<in> h ` set (orders d)" using r'(1) by (auto simp: d')
    then obtain r where r: "r \<in> set (orders d)" "r' = h r" by blast
    then show "\<exists>r \<in> set (orders d). o_id r = o_id r' \<and> (o_status r' = o_status r \<or> o_status r' = OrderExchanged)"
      using h(1) [of r] h(2) [of r] by (intro bexI [of _ r]) simp_all
  qed
  moreover have "\<forall>r \<in> set (orders d'). o_id r = xi_source x \<longrightarrow> o_status r \<noteq> OrderActive"
    by (auto simp: d' g fs h_def split: if_splits)
  moreover have "h (f new) = f new" using s n(1) fs by (auto simp: h_def)
  then have "f new \<in> set (orders d')" "o_id (f new) = o_id new" by (auto simp: d' fs)
  moreover have "o_id (f new) \<notin> o_id ` set (orders d)" "replacementOf u iid tgt x (f new)"
    using n fs(1) replacementOf_key [OF f [of new]] by simp_all
  ultimately show ?thesis using s by blast
qed

lemma settleItems_keeps:
  assumes "settleItems fresh cid iid u tgt ex xs b d = Inr (b', d')"
  shows "keepsOrders (xi_source ` set xs) d d'"
  using assms
proof (induction xs arbitrary: b d)
  case (Cons x xs)
  then obtain c e where x: "settleItem fresh cid iid u tgt ex x b d = Inr (c, e)"
    and xs: "settleItems fresh cid iid u tgt ex xs c e = Inr (b', d')" by (auto simp: resultE)
  show ?case using keepsOrders_trans [OF conjunct1 [OF settleItem_keeps [OF x]] Cons.IH [OF xs]] by simp
qed (simp add: keepsOrders_refl)

text \<open>After the loop no replaced order is active and every item has its replacement.\<close>

lemma settleItems_orders:
  assumes "settleItems fresh cid iid u tgt ex xs b d = Inr (b', d')" and "xi_source ` set xs \<subseteq> o_id ` set (orders d)"
  shows "\<forall>x \<in> set xs. (\<forall>r \<in> set (orders d'). o_id r = xi_source x \<longrightarrow> o_status r \<noteq> OrderActive) \<and>
    (\<exists>r \<in> set (orders d'). replacementOf u iid tgt x r)"
  using assms
proof (induction xs arbitrary: b d)
  case (Cons x xs)
  then obtain c e where x: "settleItem fresh cid iid u tgt ex x b d = Inr (c, e)"
    and xs: "settleItems fresh cid iid u tgt ex xs c e = Inr (b', d')" by (auto simp: resultE)
  note k = settleItem_keeps [OF x] and K = settleItems_keeps [OF xs]
  have sub: "o_id ` set (orders d) \<subseteq> o_id ` set (orders e)" using k keepsOrders_ids by blast
  have IH: "\<forall>x \<in> set xs. (\<forall>r \<in> set (orders d'). o_id r = xi_source x \<longrightarrow> o_status r \<noteq> OrderActive) \<and>
    (\<exists>r \<in> set (orders d'). replacementOf u iid tgt x r)"
  proof (rule Cons.IH [OF xs])
    show "xi_source ` set xs \<subseteq> o_id ` set (orders e)" using Cons.prems(2) sub by (metis dual_order.trans insert_subset image_insert list.simps(15))
  qed
  have "o_status r \<noteq> OrderActive" if r: "r \<in> set (orders d')" "o_id r = xi_source x" for r
  proof -
    have "o_id r \<in> o_id ` set (orders e)" using k sub r(2) by auto
    then obtain r0 where "r0 \<in> set (orders e)" "o_id r0 = o_id r" "o_status r = o_status r0 \<or> o_status r = OrderExchanged"
      using K r(1) unfolding keepsOrders_def by blast
    then show ?thesis using k r(2) by auto
  qed
  moreover have "\<exists>r \<in> set (orders d'). replacementOf u iid tgt x r"
  proof -
    obtain n where n: "n \<in> set (orders e)" "o_id n \<notin> o_id ` set (orders d)" "replacementOf u iid tgt x n" using k by blast
    then have "o_id n \<notin> xi_source ` set xs" using Cons.prems(2) by auto
    then obtain r where "r \<in> set (orders d')" "orderKey r = orderKey n" using K n(1) unfolding keepsOrders_def by blast
    then show ?thesis using n(3) replacementOf_key by blast
  qed
  ultimately show ?case using IH by simp
qed simp

lemma settleItems_balance:
  assumes "settleItems fresh cid iid u tgt ex xs b d = Inr (b', d')"
  shows "b' = b - sum_list (map xi_charge xs) + sum_list (map (\<lambda>x. max 0 (xi_refund x)) xs)"
  using assms
proof (induction xs arbitrary: b d)
  case (Cons x xs)
  then obtain c e where x: "settleItem fresh cid iid u tgt ex x b d = Inr (c, e)"
    and xs: "settleItems fresh cid iid u tgt ex xs c e = Inr (b', d')" by (auto simp: resultE)
  have "c = b - xi_charge x + max 0 (xi_refund x)" by (rule settleItem_cases [OF x])
  with Cons.IH [OF xs] show ?case by simp
qed simp

lemma setBalance_wallet:
  "walletOf u d = Some b \<Longrightarrow> walletOf u (setBalance u n d) = Some n"
  "v \<noteq> u \<Longrightarrow> walletOf v (setBalance u n d) = walletOf v d"
proof -
  show "walletOf u (setBalance u n d) = Some n" if "walletOf u d = Some b"
    using that by (auto simp: walletOf_def setBalance_def select_update_key)
  show "walletOf v (setBalance u n d) = walletOf v d" if "v \<noteq> u"
  proof -
    have "select (\<lambda>w. w_user w = v) (update (\<lambda>w. w_user w = u) (\<lambda>w. w\<lparr>w_balance := n\<rparr>) t) = select (\<lambda>w. w_user w = v) t" for t :: "wallet list"
      using that by (induction t) auto
    then show ?thesis by (simp add: walletOf_def setBalance_def)
  qed
qed

section \<open>Properties\<close>


text \<open>Plan changes of an instance are exclusive: while the resize task of one is queued, another
  one is refused, whatever its quote.\<close>

theorem plan_change_exclusive:
  assumes "createPlanChange fresh ttl u iid tgt cur q d = Inr ((cid, task), d')"
  shows "\<exists>e. createPlanChange fresh' ttl' u' iid tgt' cur' q' d' = Inl e"
proof (rule create_cases [OF assms])
  fix cp :: plan and i :: inst and p :: plan and g and d3 :: db
  assume t: "task = resizeTask fresh iid i p g (now d)"
    and d': "d' = writeAudit u ''instance.plan_change'' iid
       (setChange cid (\<lambda>_. True) (\<lambda>c. c\<lparr>pc_task := Some (t_id task)\<rparr>) (d3\<lparr>tasks := tasks d3 @ [task]\<rparr>))"
  have "blocksPlanChange iid task" by (simp add: t resizeTask_def newTask_def blocksPlanChange_def renewalBlocker_def)
  then have "countRows (blocksPlanChange iid) (tasks d') > 0" by (simp add: d')
  then have "checkPlanChange ttl' u' iid tgt' cur' q' d' \<noteq> Inr x" for x
    by (auto simp: checkPlanChange_def bindE_Inr_iff)
  then show ?thesis
    by (cases "createPlanChange fresh' ttl' u' iid tgt' cur' q' d'") (auto simp: createPlanChange_def bindE_Inr_iff)
qed

text \<open>C5. Settlement is exact. When the Agent has resized the instance and the open change is
  settled, the change is recorded as settled and the instance has the new resources; the wallet gets
  the reservation back, pays the charge of every item and receives the refund of every item, and no
  other wallet moves; no replaced order stays active, and each has an active replacement for the
  same period, at the item's charge, on the target plan.\<close>

theorem settlement_exact:
  assumes r: "completePlanChange fresh t d = Inr d'"
    and p: "resizePayload (t_payload t) = Some (cid, cpu, mem)"
    and c: "select (\<lambda>c. pc_id c = cid) (planChanges d) = Some c" "pc_status c = Processing" "changeTab.unique d"
    and x: "pc_exchange c = Some ex" "xs = filter (\<lambda>x. xi_exchange x = ex) (exchangeItems d)"
    and stored: "xi_source ` set xs \<subseteq> o_id ` set (orders d)"
  shows "(\<forall>k \<in> set (planChanges d'). pc_id k = cid \<longrightarrow> k = settledChange (now d) c) \<and>
    (\<forall>i \<in> set (instances d'). sizeRow (t_instance t) i \<longrightarrow> i_cpu i = cpu \<and> i_memory i = mem) \<and>
    (\<exists>b. walletOf (pc_owner c) d = Some b \<and> walletOf (pc_owner c) d' =
       Some (b + max 0 (pc_reservation c) - sum_list (map xi_charge xs) + sum_list (map (\<lambda>x. max 0 (xi_refund x)) xs))) \<and>
    (\<forall>v. v \<noteq> pc_owner c \<longrightarrow> walletOf v d' = walletOf v d) \<and>
    (\<forall>x \<in> set xs. (\<forall>r \<in> set (orders d'). o_id r = xi_source x \<longrightarrow> o_status r \<noteq> OrderActive) \<and>
       (\<exists>r \<in> set (orders d'). replacementOf (pc_owner c) (t_instance t) (pc_targetPlan c) x r))"
proof (rule complete_cases [OF r])
  fix cid' cpu' mem' c'
  assume "resizePayload (t_payload t) = Some (cid', cpu', mem')" "select (\<lambda>c. pc_id c = cid') (planChanges d) = Some c'" "pc_status c' \<noteq> Processing"
  then show ?thesis using p c by simp
next
  fix cid' cpu' mem' c' ex' b d1 d2 b2 d3
  assume p': "resizePayload (t_payload t) = Some (cid', cpu', mem')" "select (\<lambda>c. pc_id c = cid') (planChanges d) = Some c'"
      "pc_exchange c' = Some ex'"
    and b': "walletOf (pc_owner c') d = Some b"
    and d1: "d1 = d\<lparr>instances := update (sizeRow (t_instance t)) (resized cpu' mem') (instances d)\<rparr>"
    and rel': "(if pc_reservation c' > 0 then releaseReservation (fresh ''wal'' cid') cid' (pc_owner c') (ReleaseKey cid') ''system''
        (pc_reservation c') (b + pc_reservation c') d1 else Inr d1) = Inr d2"
    and st': "settleItems fresh cid' (t_instance t) (pc_owner c') (pc_targetPlan c') ex'
       (filter (\<lambda>x. xi_exchange x = ex') (exchangeItems d2)) (b + max 0 (pc_reservation c')) d2 = Inr (b2, d3)"
    and d': "d' = setChange cid' (\<lambda>c. pc_status c = Processing) (settledChange (now d)) (setExchange ex' ''succeeded'' (setBalance (pc_owner c') b2 d3))"
  have eq: "cid' = cid" "cpu' = cpu" "mem' = mem" "c' = c" "ex' = ex" using p p' c x by auto
  let ?u = "pc_owner c"
  obtain es where rel: "wallets d2 = wallets d1" "planChanges d2 = planChanges d1" "instances d2 = instances d1"
     "exchangeItems d2 = exchangeItems d1" "orders d2 = orders d1"
    by (rule released_cases [OF rel'])
  have st: "settleItems fresh cid (t_instance t) ?u (pc_targetPlan c) ex xs (b + max 0 (pc_reservation c)) d2 = Inr (b2, d3)"
    using st' unfolding eq rel x d1 by simp
  have ent: "wallets d3 = wallets d" "planChanges d3 = planChanges d" "instances d3 = instances d1"
    using settleItems_entries [OF st] rel by (auto simp: itemEntries_def d1)
  have w3: "walletOf v d3 = walletOf v d" for v by (simp add: walletOf_def ent)
  have o': "orders d' = orders d3" and w': "walletOf v d' = walletOf v (setBalance ?u b2 d3)" for v
    by (simp_all add: d' eq walletOf_def)
  have "k = settledChange (now d) c" if "k \<in> set (planChanges d')" "pc_id k = cid" for k
  proof -
    have "k \<in> set (update (\<lambda>c. pc_id c = cid \<and> pc_status c = Processing) (settledChange (now d)) (planChanges d))"
      using that(1) by (simp add: d' eq ent)
    from in_update [THEN iffD1, OF this]
    obtain k0 where k0: "k0 \<in> set (planChanges d)" "k = (if pc_id k0 = cid \<and> pc_status k0 = Processing then settledChange (now d) k0 else k0)"
      by (elim bexE)
    then have "pc_id k0 = cid" using that(2) by (auto split: if_splits)
    then have "k0 = c" using changeTab.key_unique [OF c(3) k0(1), of c] select_SomeD [OF c(1)] by auto
    then show ?thesis using k0(2) c(2) select_SomeD [OF c(1)] by simp
  qed
  moreover have "i_cpu i = cpu \<and> i_memory i = mem" if "i \<in> set (instances d')" "sizeRow (t_instance t) i" for i
  proof -
    have "i \<in> set (update (sizeRow (t_instance t)) (resized cpu mem) (instances d))"
      using that(1) by (simp add: d' ent d1 eq)
    from in_update [THEN iffD1, OF this] obtain i0
      where "i = (if sizeRow (t_instance t) i0 then resized cpu mem i0 else i0)" by (elim bexE)
    then show ?thesis using that(2) by (cases "sizeRow (t_instance t) i0") (auto simp: resized_def)
  qed
  moreover have "\<exists>b. walletOf ?u d = Some b \<and> walletOf ?u d' =
       Some (b + max 0 (pc_reservation c) - sum_list (map xi_charge xs) + sum_list (map (\<lambda>x. max 0 (xi_refund x)) xs))"
    using b' setBalance_wallet(1) [of ?u d3 b b2] settleItems_balance [OF st] by (simp add: eq w' w3)
  moreover have "walletOf v d' = walletOf v d" if "v \<noteq> ?u" for v
    using setBalance_wallet(2) [OF that, of b2 d3] by (simp add: w' w3)
  moreover have "xi_source ` set xs \<subseteq> o_id ` set (orders d2)" using stored by (simp add: rel d1)
  note settleItems_orders [OF st this]
  ultimately show ?thesis unfolding o' by blast
qed

text \<open>A closed change stays closed: settling it again or failing it changes nothing, and the user
  can no longer cancel it.\<close>

theorem closed_change_final:
  assumes m: "moneyOk d" and c: "select (\<lambda>c. pc_id c = cid) (planChanges d) = Some c" "isClosed c"
    and p: "resizePayload (t_payload t) = Some (cid, cpu, mem)"
  shows "completePlanChange fresh t d = Inr d \<and> failPlanChange fresh t e d = d \<and>
    (\<exists>e. requestPlanChangeCompensation fresh u iid cid d = Inl e)"
proof -
  have cc: "c \<in> set (planChanges d)" "pc_id c = cid" using c(1) by (auto dest: select_SomeD)
  have s: "pc_status c = Succeeded \<or> pc_status c = Failed"
    using m cc(1) c(2) unfolding moneyOk_def holdsOk_def changeOk_def by auto
  have "\<exists>e. requestPlanChangeCompensation fresh u iid cid d = Inl e"
  proof (cases "select (\<lambda>c. pc_id c = cid \<and> pc_instance c = iid \<and> pc_owner c = u) (planChanges d)")
    case (Some k)
    then have "k \<in> set (planChanges d)" "pc_id k = cid" by (auto dest: select_SomeD)
    then have "k = c" using changeTab.key_unique [of d k c] m cc by (auto simp: moneyOk_def holdsOk_def)
    then show ?thesis using Some s by (auto simp: requestPlanChangeCompensation_def)
  qed (simp add: requestPlanChangeCompensation_def)
  then show ?thesis using p c s by (auto simp: completePlanChange_def failPlanChange_def)
qed

text \<open>A quote is accepted by the state it was made from: creating the change re-derives every
  item (refund, charge, tier, period) and finds the same values, so a submission that passes the other
  checks is never turned away for a changed price.\<close>

theorem quote_accepted:
  assumes q: "buildPlanChangeQuote u iid tgt d = Inr q" and u: "orderTab.unique d"
    and k: "checkPlanChange ttl u iid tgt cur q d = Inr (cp, i, p, months, bps)"
  shows "list_all (checkItem u iid (pq_cutoff q) months bps (go_div (p_monthly p * bps) 10000) d) (pq_items q)"
proof -
  define srcs where "srcs = sort_key (\<lambda>r. (the (o_start r), o_id r)) (filter (sourceOrder u iid d) (orders d))"
  define last where "last = fold (\<lambda>r e. later e (the (o_expires r))) srcs (now d)"
  obtain p' m' b' where p': "select (\<lambda>p. p_id p = tgt \<and> p_enabled p) (plans d) = Some p'"
    and r': "planChangeTargetRate tgt (p_monthly p') (now d) last d = Inr (m', b')"
    and items: "pq_items q = map (quoteItem (now d) m' b' (go_div (p_monthly p' * b') 10000)) srcs" "pq_cutoff q = now d"
    using q by (auto simp: buildPlanChangeQuote_def resultE Let_def srcs_def last_def split: if_splits)
  have pp: "p = p'" and r: "planChangeTargetRate tgt (p_monthly p) (now d)
      (fold (\<lambda>x e. later e (qi_rend x)) (pq_items q) (now d)) d = Inr (months, bps)"
    using k p' items(2) by (auto simp: checkPlanChange_def resultE split: if_splits)
  have "fold (\<lambda>x e. later e (qi_rend x)) (pq_items q) t = fold (\<lambda>r e. later e (the (o_expires r))) srcs t" for t
    by (simp add: items(1) fold_map comp_def quoteItem_def Let_def)
  then have eq: "months = m'" "bps = b'" using r r' by (simp_all add: pp last_def)
  have "checkItem u iid (now d) m' b' (go_div (p_monthly p' * b') 10000) d
      (quoteItem (now d) m' b' (go_div (p_monthly p' * b') 10000) r)" if "r \<in> set srcs" for r
  proof -
    have r: "r \<in> set (orders d)" "sourceOrder u iid d r" using that by (auto simp: srcs_def)
    then obtain s e where f: "o_start r = Some s" "o_expires r = Some e" by (auto simp: sourceOrder_def someAnd_iff)
    have "select (\<lambda>r'. o_id r' = o_id r \<and> o_owner r' = u \<and> o_instance r' = Some iid \<and> o_status r' = OrderActive) (orders d) = Some r"
    proof (cases "select (\<lambda>r'. o_id r' = o_id r \<and> o_owner r' = u \<and> o_instance r' = Some iid \<and> o_status r' = OrderActive) (orders d)")
      case None
      then show ?thesis using r by (auto simp: select_None sourceOrder_def)
    next
      case (Some s)
      then show ?thesis using orderTab.key_unique [OF u, of s r] r(1) select_SomeD [OF Some] by auto
    qed
    then show ?thesis by (simp add: checkItem_def quoteItem_def Let_def f)
  qed
  then show ?thesis by (simp add: items eq pp list_all_iff)
qed

text \<open>Reconciliation does not settle a change that is still processing. The Agent reports exactly
  the target resources for a change whose worker was lost before it was marked for review; the
  observation is recorded, and then the update that resumes the change changes no column, so it
  counts no row, and the change stays processing with its money withheld.\<close>

theorem recovered_change_not_settled:
  assumes p: "resizePayload (t_payload t) = Some (cid, cpu, mem)" "cid \<noteq> []"
    and i: "select (\<lambda>i. i_id i = t_instance t) (instances d) = Some i" "select (\<lambda>n. Some (n_id n) = i_node i) (nodes d) = Some n"
    and a: "inspect i n d = (d, Inr (Some (nano, bytes)))"
    and c: "select (\<lambda>c. pc_id c = cid) (planChanges d) = Some c" "changeTab.unique d" "pc_status c = Processing" "pc_verifyError c = None"
    and hit: "of_int nano / 1000000000 = pc_targetCpu c" "go_div bytes (1024 * 1024) = pc_targetMem c"
  shows "reconcileRecoveredPlanChange inspect fresh t d = observe (t_instance t) cid (pc_targetCpu c) (pc_targetMem c) d"
proof -
  let ?o = "observe (t_instance t) cid (pc_targetCpu c) (pc_targetMem c) d"
  have pc: "planChanges ?o = update (\<lambda>k. pc_id k = cid \<and> True)
      (\<lambda>k. k\<lparr>pc_observed := Some (pc_targetCpu c, pc_targetMem c), pc_updatedAt := now d\<rparr>) (planChanges d)"
    and n: "now ?o = now d" by (simp_all add: observe_def)
  have "resumed (now d) k = k" if k: "k \<in> set (planChanges ?o)" "resumable cid k" for k
  proof -
    from k(1) obtain k0 where k0: "k0 \<in> set (planChanges d)" and "k = (if pc_id k0 = cid \<and> True
        then k0\<lparr>pc_observed := Some (pc_targetCpu c, pc_targetMem c), pc_updatedAt := now d\<rparr> else k0)"
      unfolding pc by (elim in_update [THEN iffD1, THEN bexE])
    moreover from this have i0: "pc_id k0 = cid" using k(2) by (auto simp: resumable_def split: if_splits)
    then have "k0 = c" using changeTab.key_unique [OF c(2) k0, of c] select_SomeD [OF c(1)] by auto
    ultimately show ?thesis using c(3,4) i0 by (simp add: resumed_def)
  qed
  then have "update (resumable cid) (resumed (now d)) (planChanges ?o) = planChanges ?o"
    "affected (resumable cid) (resumed (now d)) (planChanges ?o) = 0"
    by (auto intro: update_id simp: affected_zero_iff)
  then have "resumeBlockedPlanChange cid ?o = (False, ?o)" by (simp add: resumeBlockedPlanChange_def n)
  then show ?thesis using p i a c hit by (simp add: reconcileRecoveredPlanChange_def settleObserved_def Let_def)
qed

section \<open>A concrete plan change\<close>

definition bigPlan :: plan where
  "bigPlan = \<lparr>p_id = ''big'', p_cpu = 4, p_memory = 8192, p_monthly = 6000, p_enabled = True\<rparr>"

definition resizeNode :: node where
  "resizeNode = exampleNode\<lparr>n_capabilities := [resizeCapability]\<rparr>"

definition exampleHost :: inst where
  "exampleHost = blankInst\<lparr>i_id := ''i'', i_owner := ''u'', i_status := Running, i_cpu := 2, i_memory := 4096,
     i_node := Some ''n1'', i_expires := Some (30 * day)\<rparr>"

definition exampleBought :: order where
  "exampleBought = blankOrder\<lparr>o_id := ''o'', o_owner := ''u'', o_plan := ''p'', o_instance := Some ''i'', o_amount := 3000,
     o_status := OrderActive, o_source := Some ''wallet'', o_start := Some 0, o_expires := Some (30 * day)\<rparr>"

definition exampleResize :: db where
  "exampleResize = (emptyDb 0)\<lparr>nodes := [resizeNode], plans := [examplePlan, bigPlan], instances := [exampleHost],
     orders := [exampleBought], wallets := [\<lparr>w_user = ''u'', w_balance = 10000\<rparr>],
     walletEntries := [\<lparr>we_id = ''w0'', we_user = ''u'', we_amount = 10000, we_after = 10000,
       we_type = ManualCredit, we_actor = ''a'', we_order = None, we_change = None, we_key = None, we_createdAt = 0\<rparr>]\<rparr>"

definition exampleIds :: "string \<Rightarrow> id" where "exampleIds s = s @ ''_1''"

definition exampleQuote :: planQuote where
  "exampleQuote = \<lparr>pq_instance = ''i'', pq_current = ''p'', pq_target = ''big'', pq_charge = 6000, pq_refund = 3000,
     pq_cutoff = 0, pq_items = [\<lparr>qi_source = ''o'', qi_sourcePlan = ''p'', qi_start = 0, qi_end = 30 * day, qi_paid = 3000,
       qi_refund = 3000, qi_charge = 6000, qi_rstart = 0, qi_rend = 30 * day, qi_bps = 10000, qi_months = 1,
       qi_discount = 0, qi_program = None\<rparr>]\<rparr>"

lemma example_money: "moneyOk exampleResize"
  by (simp add: moneyOk_def ledgerOk_def holdsOk_def exampleResize_def emptyDb_def walletTab.unique_def
      changeTab.unique_def entrySum_def holdEntry_def)

lemma example_tables:
  "orders exampleResize = [exampleBought]" "plans exampleResize = [examplePlan, bigPlan]" "instances exampleResize = [exampleHost]"
  "now exampleResize = 0" "tiers exampleResize = []" "tasks exampleResize = []" "nodes exampleResize = [resizeNode]"
  by (simp_all add: exampleResize_def emptyDb_def)

lemma example_rows:
  "o_id exampleBought = ''o''" "o_owner exampleBought = ''u''" "o_plan exampleBought = ''p''" "o_instance exampleBought = Some ''i''"
  "o_amount exampleBought = 3000" "o_status exampleBought = OrderActive" "o_start exampleBought = Some 0"
  "o_expires exampleBought = Some (30 * day)" "p_id examplePlan = ''p''" "p_id bigPlan = ''big''" "p_enabled bigPlan"
  "p_monthly bigPlan = 6000" "i_id exampleHost = ''i''" "i_owner exampleHost = ''u''" "i_status exampleHost = Running"
  "i_expires exampleHost = Some (30 * day)" "i_node exampleHost = Some ''n1''"
  by (simp_all add: exampleBought_def examplePlan_def bigPlan_def exampleHost_def)

lemma example_rate: "planChangeTargetRate ''big'' 6000 0 (30 * day) exampleResize = Inr (1, 10000)"
  by (simp add: planChangeTargetRate_def planChangeTierMonths_def timedefs go_div_def tierPrice_def example_tables sgn_if)

lemma example_prices:
  "planChangeOrderRefundFen 3000 0 (30 * day) 0 = 3000" "prorateMonthlyFen 6000 0 (30 * day) = 6000"
  by (simp_all add: planChangeOrderRefundFen_def prorateFen_def prorateMonthlyFen_def monthSeconds_def timedefs go_div_def
      wrap64_def Let_def sgn_if)

lemma example_latest: "latestPlanForInstance ''u'' ''i'' exampleResize = Some (examplePlan, exampleHost)"
  by (simp add: latestPlanForInstance_def example_tables example_rows)

lemma example_resize_quote: "buildPlanChangeQuote ''u'' ''i'' ''big'' exampleResize = Inr exampleQuote"
  by (simp add: buildPlanChangeQuote_def example_latest example_rows example_tables sourceOrder_def Let_def later_def
      after_def example_rate quoteItem_def example_prices exampleQuote_def go_div_def sgn_if)


lemma example_check: "checkPlanChange (90 * second) ''u'' ''i'' ''big'' None exampleQuote exampleResize
    = Inr (examplePlan, exampleHost, bigPlan, 1, 10000)"
proof -
  have n: "planChangeNode (90 * second) ''i'' exampleHost bigPlan exampleResize = Inr resizeNode"
    by (simp add: planChangeNode_def resizeNode_def exampleNode_def example_rows example_tables second_def onNode_def bigPlan_def)
  have q: "pq_instance exampleQuote = ''i''" "pq_target exampleQuote = ''big''" "pq_cutoff exampleQuote = 0" "pq_items exampleQuote \<noteq> []"
    "fold (\<lambda>x e. later e (qi_rend x)) (pq_items exampleQuote) 0 = 30 * day"
    by (simp_all add: exampleQuote_def later_def after_def)
  show ?thesis
    by (simp add: checkPlanChange_def example_latest example_rows example_tables q n example_rate after_def)
qed

lemma example_create:
  "\<exists>x d'. createPlanChange exampleIds (90 * second) ''u'' ''i'' ''big'' None exampleQuote exampleResize = Inr (x, d')"
proof -
  have c: "list_all (checkItem ''u'' ''i'' 0 1 10000 6000 exampleResize) (pq_items exampleQuote)"
    by (simp add: checkItem_def exampleQuote_def example_tables example_rows example_prices later_def after_def)
  have w: "walletOf ''u'' exampleResize = Some 10000" "walletEntries exampleResize = [\<lparr>we_id = ''w0'', we_user = ''u'', we_amount = 10000, we_after = 10000,
       we_type = ManualCredit, we_actor = ''a'', we_order = None, we_change = None, we_key = None, we_createdAt = 0\<rparr>]"
    "planChanges exampleResize = []"
    by (simp_all add: exampleResize_def emptyDb_def walletOf_def)
  have q: "pq_charge exampleQuote = 6000" "pq_cutoff exampleQuote = 0" by (simp_all add: exampleQuote_def)
  show ?thesis
    by (simp add: createPlanChange_def example_check Let_def reserveFunds_def newChange_def q w insertEntry_def insertChange_def
        addBalance_def c[simplified] example_rows go_div_def sgn_if bumpGeneration_def generationOf_def setChange_def
        example_tables insertTask_def)
qed

theorem plan_change_exclusive_witness:
  "\<exists>d' e. (\<exists>x. createPlanChange exampleIds (90 * second) ''u'' ''i'' ''big'' None exampleQuote exampleResize = Inr (x, d')) \<and>
     createPlanChange exampleIds (90 * second) ''u'' ''i'' ''big'' None exampleQuote d' = Inl e"
proof -
  obtain cid task d' where c: "createPlanChange exampleIds (90 * second) ''u'' ''i'' ''big'' None exampleQuote exampleResize = Inr ((cid, task), d')"
    using example_create by auto
  show ?thesis using plan_change_exclusive [OF c] c by blast
qed


theorem quote_accepted_witness:
  "list_all (checkItem ''u'' ''i'' (pq_cutoff exampleQuote) 1 10000 (go_div (p_monthly bigPlan * 10000) 10000) exampleResize)
     (pq_items exampleQuote)"
  by (rule quote_accepted [OF example_resize_quote _ example_check]) (simp add: orderTab.unique_def example_tables)

text \<open>The same market once the change is stored and the Agent has answered.\<close>

definition exampleChange :: planChange where
  "exampleChange = (newChange exampleIds ''u'' ''i'' examplePlan exampleHost bigPlan exampleQuote 0)\<lparr>pc_exchange := Some ''ex''\<rparr>"

definition exampleItem :: exchangeItem where
  "exampleItem = \<lparr>xi_exchange = ''ex'', xi_source = ''o'', xi_start = 0, xi_end = 30 * day, xi_refund = 3000, xi_charge = 6000,
     xi_bps = 10000, xi_months = 1, xi_program = None, xi_discount = 0, xi_replacement = None\<rparr>"

definition exampleOpen :: db where
  "exampleOpen = exampleResize\<lparr>planChanges := [exampleChange], exchangeItems := [exampleItem],
     wallets := [\<lparr>w_user = ''u'', w_balance = 4000\<rparr>],
     walletEntries := walletEntries exampleResize @ [\<lparr>we_id = ''w1'', we_user = ''u'', we_amount = -6000, we_after = 4000,
       we_type = PlanChangePending, we_actor = ''u'', we_order = None, we_change = Some (exampleIds ''resize''), we_key = None,
       we_createdAt = 0\<rparr>]\<rparr>"

definition exampleResizeTask :: controlTask where
  "exampleResizeTask = resizeTask exampleIds ''i'' exampleHost bigPlan 1 0"

lemma example_payload: "resizePayload (t_payload exampleResizeTask) = Some (exampleIds ''resize'', 4, 8192)"
  "t_token exampleResizeTask = None" "t_instance exampleResizeTask = ''i''"
  by (simp_all add: exampleResizeTask_def resizeTask_def newTask_def resizePayload_def bigPlan_def)

lemma example_change: "pc_id exampleChange = exampleIds ''resize''" "pc_status exampleChange = Processing"
  "pc_exchange exampleChange = Some ''ex''" "pc_owner exampleChange = ''u''" "pc_reservation exampleChange = 6000"
  "pc_targetPlan exampleChange = ''big''" "pc_targetCpu exampleChange = 4" "pc_targetMem exampleChange = 8192"
  "pc_verifyError exampleChange = None"
  by (simp_all add: exampleChange_def newChange_def exampleQuote_def bigPlan_def)

lemma example_complete:
  "\<exists>d'. completePlanChange (\<lambda>a b. a @ b) exampleResizeTask exampleOpen = Inr d'"
proof -
  have t: "orders exampleOpen = [exampleBought]" "instances exampleOpen = [exampleHost]" "exchangeItems exampleOpen = [exampleItem]"
    "planChanges exampleOpen = [exampleChange]" "now exampleOpen = 0" "walletEntries exampleOpen = walletEntries exampleResize @
      [\<lparr>we_id = ''w1'', we_user = ''u'', we_amount = -6000, we_after = 4000, we_type = PlanChangePending, we_actor = ''u'',
        we_order = None, we_change = Some (exampleIds ''resize''), we_key = None, we_createdAt = 0\<rparr>]"
    "wallets exampleOpen = [\<lparr>w_user = ''u'', w_balance = 4000\<rparr>]"
    by (simp_all add: exampleOpen_def example_tables)
  have w: "we_key ` set (walletEntries exampleResize) = {None}" by (simp add: exampleResize_def)
  have "i_cpu (resized 4 8192 exampleHost) = 4" "i_cpu exampleHost = 2" by (simp_all add: resized_def exampleHost_def)
  then have "i_cpu (resized 4 8192 exampleHost) \<noteq> i_cpu exampleHost" by simp
  then have z: "sizeRow ''i'' exampleHost" "resized 4 8192 exampleHost \<noteq> exampleHost"
    by (auto simp: sizeRow_def example_rows)
  have x: "xi_exchange exampleItem = ''ex''" "xi_source exampleItem = ''o''" "xi_refund exampleItem = 3000" "xi_charge exampleItem = 6000"
    "xi_program exampleItem = None" by (simp_all add: exampleItem_def)
  show ?thesis
    by (simp add: completePlanChange_def example_payload t example_change z example_rows walletOf_def releaseReservation_def
        insertEntry_def w settleItem_def x Let_def purchaseEntry_def insertOrder_def replacementOrder_def
        consumePlanChangeAutomaticBenefitTx_def consumeCommercialBenefitTx_def sourceRefundEntry_def itemQuote_def setOrder_def)
qed

lemma example_open_money: "moneyOk exampleOpen"
proof -
  have e: "walletEntries exampleResize = [\<lparr>we_id = ''w0'', we_user = ''u'', we_amount = 10000, we_after = 10000,
       we_type = ManualCredit, we_actor = ''a'', we_order = None, we_change = None, we_key = None, we_createdAt = 0\<rparr>]"
    by (simp add: exampleResize_def)
  have s: "pc_saga exampleChange = Applying" by (simp add: exampleChange_def newChange_def)
  show ?thesis
    by (simp add: moneyOk_def ledgerOk_def holdsOk_def exampleOpen_def e walletTab.unique_def changeTab.unique_def
      entrySum_def holdEntry_def holdSum_def example_change changeOk_def isClosed_def s)
qed

lemma example_open_change: "select (\<lambda>c. pc_id c = exampleIds ''resize'') (planChanges exampleOpen) = Some exampleChange"
  by (simp add: exampleOpen_def example_change)

theorem settlement_exact_witness:
  "\<exists>d'. completePlanChange (\<lambda>a b. a @ b) exampleResizeTask exampleOpen = Inr d' \<and> walletOf ''u'' d' = Some 7000 \<and>
     (\<exists>r \<in> set (orders d'). replacementOf ''u'' ''i'' ''big'' exampleItem r)"
proof -
  obtain d' where c: "completePlanChange (\<lambda>a b. a @ b) exampleResizeTask exampleOpen = Inr d'" using example_complete by blast
  have x: "exchangeItems exampleOpen = [exampleItem]" "orders exampleOpen = [exampleBought]" "xi_exchange exampleItem = ''ex''"
    "xi_source exampleItem = ''o''" "xi_refund exampleItem = 3000" "xi_charge exampleItem = 6000" "changeTab.unique exampleOpen"
    "walletOf ''u'' exampleOpen = Some 4000"
    by (simp_all add: exampleOpen_def example_tables exampleItem_def changeTab.unique_def walletOf_def)
  show ?thesis
    using settlement_exact [OF c example_payload(1) example_open_change example_change(2) x(7) example_change(3), of "[exampleItem]"] c
    by (simp add: x example_rows example_change example_payload)
qed

definition exampleClosed :: db where
  "exampleClosed = exampleResize\<lparr>planChanges := [exampleChange\<lparr>pc_status := Failed, pc_saga := SagaCancelled\<rparr>]\<rparr>"

theorem closed_change_final_witness:
  "completePlanChange (\<lambda>a b. a @ b) exampleResizeTask exampleClosed = Inr exampleClosed \<and>
   (\<exists>e. requestPlanChangeCompensation (\<lambda>a b. a @ b) ''u'' ''i'' (exampleIds ''resize'') exampleClosed = Inl e)"
proof -
  have m: "moneyOk exampleClosed"
    using example_money by (simp add: moneyOk_def ledgerOk_def holdsOk_def exampleClosed_def walletTab.unique_def
        entrySum_def changeTab.unique_def changeOk_def isClosed_def holdSum_def exampleResize_def holdEntry_def)
  have s: "select (\<lambda>c. pc_id c = exampleIds ''resize'') (planChanges exampleClosed)
      = Some (exampleChange\<lparr>pc_status := Failed, pc_saga := SagaCancelled\<rparr>)"
    by (simp add: exampleClosed_def example_change)
  show ?thesis using closed_change_final [OF m s _ example_payload(1)] by (simp add: isClosed_def)
qed

theorem recovered_change_not_settled_witness:
  "reconcileRecoveredPlanChange (\<lambda>i n d. (d, Inr (Some (4000000000, 8589934592)))) (\<lambda>a b. a @ b) exampleResizeTask exampleOpen
     = observe ''i'' (exampleIds ''resize'') 4 8192 exampleOpen"
proof -
  have i: "select (\<lambda>i. i_id i = t_instance exampleResizeTask) (instances exampleOpen) = Some exampleHost"
    "select (\<lambda>n. Some (n_id n) = i_node exampleHost) (nodes exampleOpen) = Some resizeNode"
    by (simp_all add: exampleOpen_def example_tables example_payload example_rows resizeNode_def exampleNode_def)
  have u: "changeTab.unique exampleOpen" "exampleIds ''resize'' \<noteq> []"
    by (simp_all add: exampleOpen_def changeTab.unique_def exampleIds_def)
  have h: "of_int 4000000000 / 1000000000 = pc_targetCpu exampleChange" "go_div 8589934592 (1024 * 1024) = pc_targetMem exampleChange"
    by (simp_all add: example_change go_div_def sgn_if)
  show ?thesis
    using recovered_change_not_settled [OF example_payload(1) u(2) i, where inspect = "\<lambda>i n d. (d, Inr (Some (4000000000, 8589934592)))",
        OF refl example_open_change u(1) example_change(2,9) h]
    by (simp add: example_change example_payload)
qed

end
