(* ===== verification/Money.thy ===== *)
theory Money
  imports PlanChange
begin

text \<open>
  Every transaction that moves money, together. Adjustments, purchases, renewals, payment reviews and
  refunds are shown to leave the reservations of the plan changes alone (\<open>neutral_op\<close>), so any
  interleaving of them with the steps of plan changes keeps the ledger and the reservations.
\<close>

section \<open>Operations that leave reservations alone\<close>

definition unheld :: "db \<Rightarrow> db \<Rightarrow> bool" where
  "unheld d d' \<longleftrightarrow> planChanges d' = planChanges d \<and>
     (\<exists>es. walletEntries d' = walletEntries d @ es \<and> (\<forall>e \<in> set es. \<not> holdEntry e))"

lemma unheld_same: "planChanges d' = planChanges d \<Longrightarrow> walletEntries d' = walletEntries d \<Longrightarrow> unheld d d'"
  by (simp add: unheld_def)

lemma unheld_trans: "unheld d e \<Longrightarrow> unheld e f \<Longrightarrow> unheld d f"
  by (fastforce simp: unheld_def)

lemma unheld_insert: "insertEntry e d = Inr d' \<Longrightarrow> \<not> holdEntry e \<Longrightarrow> unheld d d'"
  by (auto simp: unheld_def dest: insertEntry_frame)

lemma unheld_debit:
  assumes "debitWallet w k u oid b a d = Inr d'" "k \<noteq> PlanChangePending" "k \<noteq> PlanChangeRelease"
  shows "unheld d d'"
proof (cases "0 < a")
  case True
  let ?e = "\<lparr>we_id = w, we_user = u, we_amount = - a, we_after = b - a, we_type = k, we_actor = u,
    we_order = Some oid, we_change = None, we_key = None, we_createdAt = now d\<rparr>"
  have "insertEntry ?e (setBalance u (b - a) d) = Inr d'" using assms True by (simp add: debitWallet_def)
  then have "unheld (setBalance u (b - a) d) d'" using assms by (intro unheld_insert) (auto simp: holdEntry_def)
  then show ?thesis by (rule unheld_trans [rotated]) (simp add: unheld_same)
qed (use assms in \<open>simp add: debitWallet_def unheld_same\<close>)

lemma adjust_unheld: "adjustWallet wid u a act d = Inr (e, d') \<Longrightarrow> unheld d d'"
  by (auto simp: adjustWallet_def resultE Let_def insertEntry_def unheld_def holdEntry_def createNotification_def split: if_splits)

lemma purchase_unheld:
  assumes c: "purchaseWithWallet hash rk ttl fresh u pl im ver months promo d = Inr ((r, t), d')"
  shows "unheld d d'"
proof (rule purchase_cases [OF c])
  fix p :: plan and img version digest b q n d1 d2 d3 d4 d5
  assume s: "debitWallet (f_entry fresh) EntryPurchase u (f_order fresh) b (q_amount q) d = Inr d1"
    "insertOrder r d1 = Inr d2" "consumeCommercialBenefitTx u (f_order fresh) q d2 = Inr d3"
    "insertInst (deployRow rk (f_inst fresh) u (f_order fresh) img version (nullable digest) p n
       (addDays (addMonths (now d) months) (q_bonus q)) (now d)) d3 = Inr d4"
    "insertTask t d4 = Inr d5" "walletEntries d' = walletEntries d5" "planChanges d' = planChanges d5"
  have "planChanges d' = planChanges d1" "walletEntries d' = walletEntries d1"
    using s consume_frame(2,6) [OF s(3)] by (auto simp: insertE)
  then show ?thesis using unheld_debit [OF s(1)] unheld_trans unheld_same by blast
qed

lemma renew_unheld:
  assumes c: "renewWithWallet hash fresh u src months promo d = Inr ((r, t), d')"
  shows "unheld d d'"
proof (rule renew_cases [OF c])
  fix i and p :: plan and b q d1 d2 d3 d4 d5 base expires
  assume s: "debitWallet (f_entry fresh) EntryRenewal u (f_order fresh) b (q_amount q) d = Inr d1"
    "insertOrder r d1 = Inr d2" "consumeCommercialBenefitTx u (f_order fresh) q d2 = Inr d3"
    "transitionInstance (i_id i) [i_status i] (resumedRuntime (i_runtime i)) (Some (resumedRuntime (i_runtime i)))
       (renewedRow expires) d3 = Inr (True, d4)"
    "(case t of None \<Rightarrow> Inr d4 | Some t \<Rightarrow> insertTask t d4) = Inr d5"
    "walletEntries d' = walletEntries d5" "planChanges d' = planChanges d5"
  have "planChanges d5 = planChanges d4" "walletEntries d5 = walletEntries d4"
    using s(5) by (auto simp: insertE split: option.splits)
  then have "planChanges d' = planChanges d1" "walletEntries d' = walletEntries d1"
    using s consume_frame(2,6) [OF s(3)] transition_frame(4,6) [OF s(4)] by (auto simp: insertE)
  then show ?thesis using unheld_debit [OF s(1)] unheld_trans unheld_same by blast
qed

lemma confirm_unheld:
  assumes "confirmOrder rk ttl iid tid oid actor d = Inr (t, d')" shows "unheld d d'"
  by (rule confirm_cases [OF assms]) (simp add: unheld_same)

lemma settleSegment_unheld:
  assumes "settleSegment sid fresh u c s cur d = Inr (n, d')" shows "unheld d d'"
  using assms
  by (auto simp: settleSegment_def bindE_Inr_iff Let_def insertEntry_def unheld_def holdEntry_def split: if_splits)

lemma settle_unheld:
  assumes "settle sid fresh u c ss cur d = Inr (cur', d')" shows "unheld d d'"
  using assms
proof (induction ss arbitrary: cur d)
  case (Cons s ss)
  then show ?case
    by (cases "s_status s = OrderActive")
      (auto simp: bindE_Inr_iff dest: settleSegment_unheld intro: unheld_trans)
qed (simp add: unheld_same)

lemma refund_unheld:
  assumes c: "refundOrder sid fresh u oid d = Inr (q, d')" shows "unheld d d'"
proof (rule refund_cases [OF c])
  fix r iid b cur d1 d2 d3
  assume w: "walletEntries d1 = walletEntries d" "planChanges d1 = planChanges d"
    and s: "settle sid fresh u (rq_ends q) (refundSegments iid u d) b d1 = Inr (cur, d2)"
    and i: "refundInstance iid u (rq_ends q) (setBalance u cur d2) = Inr d3"
      "d' = createNotification u ''refund'' oid (writeAudit u ''order.refund'' oid d3)"
  have "unheld d d1" using w by (simp add: unheld_same)
  moreover have "unheld d1 d2" by (rule settle_unheld [OF s])
  moreover have "unheld d2 d'" using refundInstance_frame(2,7) [OF i(1)] by (simp add: unheld_same i(2))
  ultimately show ?thesis using unheld_trans by blast
qed

text \<open>All of them as calls, one step function, and the contract with its interpretation.\<close>

datatype walletCall =
    CallAdjust id id int id
  | CallPurchase "string \<Rightarrow> string" "string \<Rightarrow> string" duration freshIds id id id string int string
  | CallRenew "string \<Rightarrow> string" freshIds id id int string
  | CallConfirm "string \<Rightarrow> string" duration id id id id
  | CallRefund id "id \<Rightarrow> id" id id

fun walletStep :: "walletCall \<Rightarrow> db \<Rightarrow> error + db" where
  "walletStep (CallAdjust wid u a act) db = bindE (adjustWallet wid u a act db) (\<lambda>(_, d). Inr d)"
| "walletStep (CallPurchase hash rk ttl fresh u pl im ver months promo) db =
     bindE (purchaseWithWallet hash rk ttl fresh u pl im ver months promo db) (\<lambda>(_, d). Inr d)"
| "walletStep (CallRenew hash fresh u src months promo) db = bindE (renewWithWallet hash fresh u src months promo db) (\<lambda>(_, d). Inr d)"
| "walletStep (CallConfirm rk ttl iid tid oid act) db = bindE (confirmOrder rk ttl iid tid oid act db) (\<lambda>(_, d). Inr d)"
| "walletStep (CallRefund sid fresh u oid) db = bindE (refundOrder sid fresh u oid db) (\<lambda>(_, d). Inr d)"

lemma walletStep_cases:
  assumes "walletStep a d = Inr d'"
  obtains wid u x act e where "adjustWallet wid u x act d = Inr (e, d')"
  | hash rk ttl fresh u pl im ver months promo r t where
      "purchaseWithWallet hash rk ttl fresh u pl im ver months promo d = Inr ((r, t), d')"
  | hash fresh u src months promo r t where "renewWithWallet hash fresh u src months promo d = Inr ((r, t), d')"
  | rk ttl iid tid oid act t where "confirmOrder rk ttl iid tid oid act d = Inr (t, d')"
  | sid fresh u oid q where "refundOrder sid fresh u oid d = Inr (q, d')"
proof (cases a)
  case (CallPurchase hash rk ttl fresh u pl im ver months promo)
  then obtain x where "purchaseWithWallet hash rk ttl fresh u pl im ver months promo d = Inr (x, d')"
    using assms by (auto simp: bindE_Inr_iff)
  then show thesis using that(2) by (cases x) simp
next
  case (CallRenew hash fresh u src months promo)
  then obtain x where "renewWithWallet hash fresh u src months promo d = Inr (x, d')"
    using assms by (auto simp: bindE_Inr_iff)
  then show thesis using that(3) by (cases x) simp
qed (use assms that(1,4,5) in \<open>auto simp: bindE_Inr_iff\<close>)

lemma walletStep_unheld:
  assumes "walletStep a d = Inr d'" shows "unheld d d'"
  by (rule walletStep_cases [OF assms])
    (erule adjust_unheld purchase_unheld renew_unheld confirm_unheld refund_unheld)+

lemma walletStep_ledger:
  assumes "walletStep a d = Inr d'" "ledgerOk d" shows "ledgerOk d'"
  by (rule walletStep_cases [OF assms(1)])
    (erule adjust_ledger [OF assms(2)] purchase_ledger [OF assms(2)] renew_ledger [OF assms(2)]
       confirm_ledger [OF assms(2)] refund_ledger [OF assms(2)])+

interpretation walletCalls: neutral_op walletStep
proof unfold_locales
  fix a :: walletCall and d d'
  assume c: "walletStep a d = Inr d'"
  show "planChanges d' = planChanges d \<and> (\<exists>es. walletEntries d' = walletEntries d @ es \<and> (\<forall>e \<in> set es. \<not> holdEntry e))"
    using walletStep_unheld [OF c] by (simp only: unheld_def)
qed (rule walletStep_ledger)

text \<open>The whole wallet: wallet calls and plan-change calls in any order.\<close>

definition moneyStep :: "walletCall + changeCall \<Rightarrow> db \<Rightarrow> error + db" where
  "moneyStep c db = (case c of Inl w \<Rightarrow> walletStep w db | Inr p \<Rightarrow> changeStep p db)"

interpretation money: change_op moneyStep
proof unfold_locales
  fix a :: "walletCall + changeCall" and d d'
  assume "moneyOk d" "moneyStep a d = Inr d'"
  then show "moneyOk d'"
    by (cases a) (simp_all add: moneyStep_def, erule (1) walletCalls.neutral_money, erule (1) changeStep_money)
qed

section \<open>Properties\<close>

text \<open>C1. Money is conserved under every interleaving: starting from a consistent database, any sequence
  of adjustments, purchases, renewals, payment confirmations, refunds and plan-change steps (create,
  settle, fail, request cancellation, compensate, block, reconcile), failed calls included, leaves every
  wallet non-negative and equal to the sum of its entries, and every plan change with exactly its
  reservation withheld while it is open and nothing withheld once it is settled or cancelled.\<close>

theorem money_conserved:
  assumes "moneyOk d" and "e = fold (\<lambda>a d. commitOr d (moneyStep a d)) calls d"
  shows "(\<forall>w \<in> set (wallets e). 0 \<le> w_balance w \<and> w_balance w = entrySum (w_user w) e) \<and>
    (\<forall>c \<in> set (planChanges e). holdSum (pc_id c) e = (if isClosed c then 0 else - max 0 (pc_reservation c)))"
  using money.run_money [OF assms(1), of calls]
  by (auto simp: assms(2) moneyOk_def ledgerOk_def holdsOk_def changeOk_def)

theorem money_conserved_witness:
  "\<exists>e. e = fold (\<lambda>a d. commitOr d (moneyStep a d))
      [Inl (CallAdjust ''w9'' ''u'' (-100) ''a''), Inr (CallCreate exampleIds (90 * second) ''u'' ''i'' ''big'' None exampleQuote),
       Inl (CallRefund ''s'' (\<lambda>x. x) ''u'' ''o''), Inr (CallRequestCancel (\<lambda>a b. a) ''u'' ''i'' ''resize_1'')] exampleResize \<and>
    (\<forall>w \<in> set (wallets e). 0 \<le> w_balance w \<and> w_balance w = entrySum (w_user w) e)"
  using money_conserved [OF example_money refl] by blast

end
