(* ===== verification/Executor.thy ===== *)
theory Executor
  imports PlanChange Catalog
begin

text \<open>
  What a worker does with a claimed task (\<open>executeTask\<close> and its helpers in \<open>control_plane.go\<close>). The
  Agent is a parameter: given the operation id, the node, the request and the database at the time of
  the request it returns its answer and the database as it is when the answer arrives, so that anything
  other processes did meanwhile is part of it. An outcome is the error returned, if any, and the
  database; statements outside a transaction stay when a later one fails.
\<close>

section \<open>Requests and outcomes\<close>

record runtimePayload =
  rt_name :: string
  rt_image :: string
  rt_cpu :: rat
  rt_memory :: int
  rt_route :: string
  rt_terminal :: bool
  rt_host :: bool
  rt_keepStopped :: bool

datatype request =
    ReqCreate runtimePayload
  | ReqDestroy string
  | ReqRestart string runtimePayload
  | ReqStop string
  | ReqReinstall string runtimePayload
  | ReqPull string
  | ReqResize string runtimePayload
  | ReqPurge string

type_synonym agent = "id option \<Rightarrow> node \<Rightarrow> request \<Rightarrow> db \<Rightarrow> db \<times> (error + string list)"
type_synonym outcome = "error option \<times> db"

definition tryE :: "error + 'a \<Rightarrow> db \<Rightarrow> ('a \<Rightarrow> outcome) \<Rightarrow> outcome" where
  "tryE r db k = (case r of Inl e \<Rightarrow> (Some e, db) | Inr x \<Rightarrow> k x)"

text \<open>A request to a disabled node is refused before it is sent.\<close>

definition nodeRequest :: "agent \<Rightarrow> id option \<Rightarrow> node \<Rightarrow> request \<Rightarrow> db \<Rightarrow> db \<times> (error + string list)" where
  "nodeRequest call op n req db = (if \<not> n_enabled n then (db, Inl (Msg ''node disabled'')) else call op n req db)"

definition callThen :: "agent \<Rightarrow> id option \<Rightarrow> node \<Rightarrow> request \<Rightarrow> db \<Rightarrow> (string list \<Rightarrow> db \<Rightarrow> outcome) \<Rightarrow> outcome" where
  "callThen call op n req db k = (case nodeRequest call op n req db of (d, Inl e) \<Rightarrow> (Some e, d) | (d, Inr a) \<Rightarrow> k a d)"

definition transitionThen ::
  "id \<Rightarrow> istatus list \<Rightarrow> istatus \<Rightarrow> istatus option \<Rightarrow> (inst \<Rightarrow> inst) \<Rightarrow> db \<Rightarrow> (bool \<Rightarrow> db \<Rightarrow> outcome) \<Rightarrow> outcome" where
  "transitionThen iid expected nxt runtime f db k =
     (case transitionInstance iid expected nxt runtime f db of
        Inl _ \<Rightarrow> (Some (Msg ''illegal instance transition''), db) | Inr (changed, d) \<Rightarrow> k changed d)"

section \<open>Desired runtime state\<close>

fun expectedStates :: "action \<Rightarrow> istatus list" where
  "expectedStates Create = [Deploying]"
| "expectedStates RetryDeploy = [Deploying]"
| "expectedStates Start = [Stopped, DestroyScheduled]"
| "expectedStates Stop = [Running, DestroyScheduled]"
| "expectedStates Update = [Running]"
| "expectedStates Resize = [Running, Stopped]"
| "expectedStates HostAccess = [Running, Stopped, DestroyScheduled]"
| "expectedStates CompensateResize = [Running, Stopped]"
| "expectedStates Restart = [Running, DestroyScheduled]"
| "expectedStates Reinstall = [Running, Stopped]"
| "expectedStates Destroy = [DestroyScheduled]"
| "expectedStates Purge = [Destroyed]"
| "expectedStates _ = []"

definition supportsAgentCapability :: "node \<Rightarrow> string \<Rightarrow> bool" where
  "supportsAgentCapability n c \<longleftrightarrow> list_ex (\<lambda>v. v = c) (n_capabilities n)"

definition hostAccessCapability :: string where "hostAccessCapability = ''container.host-access.v1''"

definition effectiveHostAccess :: "id \<Rightarrow> db \<Rightarrow> error + bool" where
  "effectiveHostAccess iid db =
     bindE (orElse (select (\<lambda>i. i_id i = iid) (instances db)) ErrNoRows) (\<lambda>i.
       Inr (i_hostEnabled i \<and> (case select (\<lambda>u. u_id u = i_owner i) (users db) of None \<Rightarrow> False | Some u \<Rightarrow> u_hostAllowed u)))"

definition instanceRuntimePayload :: "id \<Rightarrow> string \<Rightarrow> string \<Rightarrow> db \<Rightarrow> error + runtimePayload" where
  "instanceRuntimePayload iid container route db =
     bindE (orElse (select (\<lambda>i. i_id i = iid) (instances db)) ErrNoRows) (\<lambda>i.
     bindE (effectiveHostAccess iid db) (\<lambda>host.
       let terminal = (case select (\<lambda>g. g_ref g = i_image i) (images db) of None \<Rightarrow> True | Some g \<Rightarrow> g_terminalOnly g);
           digest = (case i_digest i of None \<Rightarrow> [] | Some x \<Rightarrow> x)
       in Inr \<lparr>rt_name = container, rt_image = deploymentImage (i_image i) (i_version i) digest, rt_cpu = i_cpu i,
            rt_memory = i_memory i, rt_route = route, rt_terminal = terminal, rt_host = host, rt_keepStopped = False\<rparr>))"

section \<open>The operation record of a self-hosted node\<close>

definition operationDesired :: "action \<Rightarrow> istatus \<Rightarrow> string" where
  "operationDesired act status =
     (if act = Destroy \<or> act = Purge then ''absent''
      else if act = Stop \<or> (act = HostAccess \<and> status = Stopped) then ''stopped'' else ''running'')"

definition beginAgentOperation ::
  "id \<Rightarrow> controlTask \<Rightarrow> inst \<Rightarrow> node \<Rightarrow> db \<Rightarrow> (id option \<Rightarrow> db \<Rightarrow> outcome) \<Rightarrow> outcome" where
  "beginAgentOperation opID task i n db k =
     (if n_kind n \<noteq> SelfHosted then k None db
      else if opID \<in> ao_id ` set (agentOperations db) then (Some ErrDuplicate, db)
      else
        let row = \<lparr>ao_id = opID, ao_task = t_id task, ao_instance = i_id i, ao_node = n_id n, ao_action = t_action task,
              ao_token = t_token task, ao_desired = operationDesired (t_action task) (i_status i), ao_status = OpRunning,
              ao_observed = None\<rparr>;
            db1 = db\<lparr>agentOperations := agentOperations db @ [row]\<rparr>;
            p = (\<lambda>t. t_id t = t_id task \<and> t_status t = TaskRunning \<and> sqlEq (t_worker t) (t_worker task) \<and>
                     sqlEq (t_token t) (t_token task));
            f = (\<lambda>t. t\<lparr>t_agentOp := Some opID, t_agentState := Some OpRunning, t_updatedAt := now db\<rparr>)
        in if affected p f (tasks db1) \<noteq> 1 then (Some (Msg ''task lost its agent operation''), db1\<lparr>tasks := update p f (tasks db1)\<rparr>)
           else k (Some opID) (db1\<lparr>tasks := update p f (tasks db1)\<rparr>))"

section \<open>The actions\<close>

definition activateOrders :: "id \<Rightarrow> db \<Rightarrow> db" where
  "activateOrders iid db = db\<lparr>orders := update (\<lambda>r. o_instance r = Some iid \<and> o_status r = OrderDeploy)
     (\<lambda>r. r\<lparr>o_status := OrderActive, o_updatedAt := now db\<rparr>) (orders db)\<rparr>"

definition deployed :: "id \<Rightarrow> istatus list \<Rightarrow> istatus \<Rightarrow> db \<Rightarrow> outcome" where
  "deployed iid expected nxt db =
     transitionThen iid expected nxt (Some Running) (\<lambda>r. r) db (\<lambda>changed d. (None, if changed then activateOrders iid d else d))"

text \<open>A scheduled destruction survives starting, stopping and restarting.\<close>

definition powered :: "istatus \<Rightarrow> istatus \<Rightarrow> istatus" where
  "powered status nxt = (if status = DestroyScheduled then status else nxt)"

definition executeCreate :: "agent \<Rightarrow> id option \<Rightarrow> inst \<Rightarrow> node \<Rightarrow> db \<Rightarrow> outcome" where
  "executeCreate call op i n db =
     tryE (instanceRuntimePayload (i_id i) (i_container i) (i_route i) db) db (\<lambda>pl.
     callThen call op n (ReqCreate pl) db (\<lambda>_ d. deployed (i_id i) [Deploying] Running d))"

definition executeRetryDeploy :: "agent \<Rightarrow> id option \<Rightarrow> controlTask \<Rightarrow> inst \<Rightarrow> node \<Rightarrow> db \<Rightarrow> outcome" where
  "executeRetryDeploy call op task i n db =
     tryE (taskMayCallAgent task [Deploying] db) db (\<lambda>_.
     callThen call op n (ReqDestroy (i_container i)) db (\<lambda>_ d.
     tryE (instanceRuntimePayload (i_id i) (i_container i) (i_route i) d) d (\<lambda>pl.
     tryE (taskMayCallAgent task [Deploying] d) d (\<lambda>_.
     callThen call op n (ReqCreate pl) d (\<lambda>_ e. deployed (i_id i) [Deploying] Running e)))))"

definition executeStart :: "agent \<Rightarrow> id option \<Rightarrow> inst \<Rightarrow> node \<Rightarrow> db \<Rightarrow> outcome" where
  "executeStart call op i n db =
     tryE (instanceRuntimePayload (i_id i) (i_container i) (i_route i) db) db (\<lambda>pl.
     callThen call op n (ReqRestart (i_container i) pl) db (\<lambda>_ d.
       deployed (i_id i) [i_status i] (powered (i_status i) Running) d))"

definition executeStop :: "agent \<Rightarrow> id option \<Rightarrow> inst \<Rightarrow> node \<Rightarrow> db \<Rightarrow> outcome" where
  "executeStop call op i n db =
     callThen call op n (ReqStop (i_container i)) db (\<lambda>_ d.
       transitionThen (i_id i) [i_status i] (powered (i_status i) Stopped) (Some Stopped) (\<lambda>r. r) d (\<lambda>_ e. (None, e)))"

definition executeRestart :: "agent \<Rightarrow> id option \<Rightarrow> inst \<Rightarrow> node \<Rightarrow> db \<Rightarrow> outcome" where
  "executeRestart call op i n db =
     (if \<not> supportsAgentCapability n ''container.compose.restart.v1'' then (Some (Msg ''agent cannot restart''), db)
      else tryE (instanceRuntimePayload (i_id i) (i_container i) (i_route i) db) db (\<lambda>pl.
      callThen call op n (ReqRestart (i_container i) pl) db (\<lambda>_ d.
        transitionThen (i_id i) [i_status i] (powered (i_status i) Running) (Some Running) (\<lambda>r. r) d (\<lambda>_ e. (None, e)))))"

definition setImage :: "string \<Rightarrow> string \<Rightarrow> string option \<Rightarrow> inst \<Rightarrow> inst" where
  "setImage ref version digest i = i\<lparr>i_image := ref, i_version := version, i_digest := digest\<rparr>"

definition executeReinstall :: "agent \<Rightarrow> id option \<Rightarrow> controlTask \<Rightarrow> inst \<Rightarrow> bool \<Rightarrow> node \<Rightarrow> db \<Rightarrow> outcome" where
  "executeReinstall call op task i host n db =
     (if \<not> supportsAgentCapability n ''container.reinstall.v1'' then (Some (Msg ''agent cannot reinstall''), db)
      else case t_payload task of
        ReinstallPayload ref version digest terminal \<Rightarrow>
          if ref = [] \<or> \<not> validImageTag version then (Some (Msg ''reinstall without image''), db)
          else tryE (orElse (select (\<lambda>j. i_id j = i_id i) (instances db)) ErrNoRows) db (\<lambda>j.
          let pl = \<lparr>rt_name = i_container i, rt_image = deploymentImage ref version digest, rt_cpu = i_cpu j,
                    rt_memory = i_memory j, rt_route = i_route i, rt_terminal = terminal, rt_host = host, rt_keepStopped = False\<rparr>
          in tryE (taskMayCallAgent task [i_status i] db) db (\<lambda>_.
          callThen call op n (ReqReinstall (i_container i) pl) db (\<lambda>_ d.
            transitionThen (i_id i) [i_status i] Running (Some Running) (setImage ref version (nullable digest)) d
              (\<lambda>changed e. (if changed then None else Some ErrConflict, e)))))
      | _ \<Rightarrow> (Some (Msg ''reinstall without image''), db))"

text \<open>\<open>item.TerminalOnly\<close> is not among the columns \<open>executeTask\<close> reads, so the container is created
  again with the zero value.\<close>

definition executeUpdate :: "agent \<Rightarrow> id option \<Rightarrow> controlTask \<Rightarrow> inst \<Rightarrow> bool \<Rightarrow> node \<Rightarrow> db \<Rightarrow> outcome" where
  "executeUpdate call op task i host n db =
     (if \<not> validImageTag (i_version i) then (Some (Msg ''no version to update''), db)
      else callThen call op n (ReqPull (deploymentImage (i_image i) (i_version i) [])) db (\<lambda>digests d.
      let digest = immutableDigest digests in
      if digest = [] then (Some (Msg ''no digest''), d)
      else tryE (orElse (select (\<lambda>j. i_id j = i_id i) (instances d)) ErrNoRows) d (\<lambda>j.
      tryE (taskMayCallAgent task [Running] d) d (\<lambda>_.
      callThen call op n (ReqDestroy (i_container i)) d (\<lambda>_ e.
      tryE (taskMayCallAgent task [Running] e) e (\<lambda>_.
      let pl = \<lparr>rt_name = i_container i, rt_image = deploymentImage (i_image i) (i_version i) digest, rt_cpu = i_cpu j,
                rt_memory = i_memory j, rt_route = i_route i, rt_terminal = False, rt_host = host, rt_keepStopped = False\<rparr>
      in callThen call op n (ReqCreate pl) e (\<lambda>_ f.
        transitionThen (i_id i) [Running] Running (Some Running) (\<lambda>r. r\<lparr>i_digest := Some digest\<rparr>) f (\<lambda>_ g. (None, g)))))))))"

definition executeHostAccess :: "agent \<Rightarrow> id option \<Rightarrow> controlTask \<Rightarrow> inst \<Rightarrow> node \<Rightarrow> db \<Rightarrow> outcome" where
  "executeHostAccess call op task i n db =
     (if \<not> supportsAgentCapability n hostAccessCapability then (Some (Msg ''agent cannot switch host access''), db)
      else tryE (instanceRuntimePayload (i_id i) (i_container i) (i_route i) db) db (\<lambda>pl.
      tryE (orElse (select (\<lambda>j. i_id j = i_id i) (instances db)) ErrNoRows) db (\<lambda>j.
      let runtime = (case i_runtime j of None \<Rightarrow> i_status j | Some s \<Rightarrow> s);
          pl' = pl\<lparr>rt_keepStopped := i_status i = Stopped \<or> runtime = Stopped\<rparr>
      in tryE (taskMayCallAgent task [Running, Stopped, DestroyScheduled] db) db (\<lambda>_.
      callThen call op n (ReqResize (i_container i) pl') db (\<lambda>_ d. (None, d))))))"

definition resizeWasRunning :: "payload \<Rightarrow> bool" where
  "resizeWasRunning p = (case p of ResizePayload _ _ _ w \<Rightarrow> w | _ \<Rightarrow> False)"

definition executeResize :: "agent \<Rightarrow> (string \<Rightarrow> id \<Rightarrow> id) \<Rightarrow> id option \<Rightarrow> controlTask \<Rightarrow> inst \<Rightarrow> node \<Rightarrow> db \<Rightarrow> outcome" where
  "executeResize call fresh op task i n db =
     tryE (taskMayCallAgent task [Running, Stopped] db) db (\<lambda>_.
     tryE (orElse (resizePayload (t_payload task)) (Msg ''bad payload'')) db (\<lambda>(cid, cpu, mem).
     tryE (instanceRuntimePayload (i_id i) (i_container i) (i_route i) db) db (\<lambda>pl.
     let pl' = pl\<lparr>rt_cpu := cpu, rt_memory := mem, rt_keepStopped := \<not> resizeWasRunning (t_payload task)\<rparr>
     in tryE (taskMayCallAgent task [Running, Stopped] db) db (\<lambda>_.
     callThen call op n (ReqResize (i_container i) pl') db (\<lambda>_ d.
       case (if t_action task = CompensateResize then completePlanChangeCompensation fresh task d
             else completePlanChange fresh task d) of
         Inr e \<Rightarrow> (None, e)
       | Inl err \<Rightarrow> (Some err, markPlanChangeBlocked cid (''agent resized but settlement failed: '' @ errText err) d))))))"

section \<open>Destruction and purge\<close>

definition insertEvent :: "id \<Rightarrow> string \<Rightarrow> db \<Rightarrow> bool \<times> db" where
  "insertEvent iid event db = (if (iid, event) \<in> set (notificationEvents db) then (False, db)
     else (True, db\<lparr>notificationEvents := notificationEvents db @ [(iid, event)]\<rparr>))"

definition notifyOnce :: "id \<Rightarrow> string \<Rightarrow> string \<Rightarrow> id \<Rightarrow> db \<Rightarrow> db" where
  "notifyOnce iid event kind owner db =
     (case insertEvent iid event db of (True, d) \<Rightarrow> createNotification owner kind iid d | (False, d) \<Rightarrow> d)"

definition notifyInstanceRetention :: "id \<Rightarrow> string \<Rightarrow> db \<Rightarrow> db" where
  "notifyInstanceRetention iid event db =
     (case select (\<lambda>i. i_id i = iid) (instances db) of
        None \<Rightarrow> db
      | Some i \<Rightarrow> if i_purgeAt i = None then db else notifyOnce iid event ''instance_retention'' (i_owner i) db)"

text \<open>The task row under whose lease and instance lock a row of the instance may be written.\<close>

definition leased :: "controlTask \<Rightarrow> db \<Rightarrow> inst \<Rightarrow> bool" where
  "leased task db i \<longleftrightarrow> list_ex (\<lambda>t. leaseRow task db t \<and> lockRow db t i) (tasks db)"

definition destroyRow :: "controlTask \<Rightarrow> id \<Rightarrow> gotime \<Rightarrow> db \<Rightarrow> inst \<Rightarrow> bool" where
  "destroyRow task iid destroyAt db i \<longleftrightarrow> i_id i = iid \<and> i_status i = DestroyScheduled \<and> i_destroyAt i = Some destroyAt \<and>
     leased task db i"

definition destroyedInst :: "gotime \<Rightarrow> inst \<Rightarrow> inst" where
  "destroyedInst t i = i\<lparr>i_status := Destroyed, i_runtime := Some Stopped, i_destroyedAt := Some t,
     i_purgeAt := Some (t + 30 * day), i_retentionDays := 30\<rparr>"

definition executeDestroyTask :: "agent \<Rightarrow> id option \<Rightarrow> controlTask \<Rightarrow> id \<Rightarrow> string \<Rightarrow> node \<Rightarrow> db \<Rightarrow> outcome" where
  "executeDestroyTask call op task iid container n db =
     (case select (\<lambda>i. i_id i = iid \<and> i_status i = DestroyScheduled) (instances db) of
        None \<Rightarrow> (None, db)
      | Some i \<Rightarrow>
          (case i_destroyAt i of
             None \<Rightarrow> (None, db)
           | Some destroyAt \<Rightarrow>
               if t_key task \<noteq> LifecycleKey Destroy iid destroyAt then (None, db)
               else tryE (taskMayCallAgent task [DestroyScheduled] db) db (\<lambda>_.
               callThen call op n (ReqDestroy container) db (\<lambda>_ d.
                 let p = destroyRow task iid destroyAt d; d1 = d\<lparr>instances := update p (destroyedInst (now d)) (instances d)\<rparr>
                 in if affected p (destroyedInst (now d)) (instances d) \<noteq> 1 then (Some ErrConflict, d1)
                    else (None, notifyInstanceRetention iid ''destroyed'' d1)))))"

definition paidActive :: "id \<Rightarrow> db \<Rightarrow> order \<Rightarrow> bool" where
  "paidActive iid db r \<longleftrightarrow> o_instance r = Some iid \<and> o_status r = OrderActive \<and> someAnd (\<lambda>e. now db < e) (o_expires r)"

definition purgeable :: "id \<Rightarrow> db \<Rightarrow> inst \<Rightarrow> bool" where
  "purgeable iid db i \<longleftrightarrow> i_id i = iid \<and> i_status i = Destroyed \<and> someAnd (\<lambda>p. p \<le> now db) (i_purgeAt i) \<and>
     countRows (paidActive iid db) (orders db) = 0"

definition purgedInst :: "gotime \<Rightarrow> inst \<Rightarrow> inst" where
  "purgedInst t i = i\<lparr>i_status := Purged, i_archivedAt := Some t\<rparr>"

definition executePurgeTask :: "agent \<Rightarrow> id option \<Rightarrow> controlTask \<Rightarrow> id \<Rightarrow> string \<Rightarrow> node \<Rightarrow> db \<Rightarrow> outcome" where
  "executePurgeTask call op task iid container n db =
     tryE (taskMayCallAgent task [Destroyed] db) db (\<lambda>_.
     if countRows (purgeable iid db) (instances db) \<noteq> 1 then (None, db)
     else tryE (taskMayCallAgent task [Destroyed] db) db (\<lambda>_.
     callThen call op n (ReqPurge container) db (\<lambda>_ d.
       let p = (\<lambda>i. purgeable iid d i \<and> leased task d i); d1 = d\<lparr>instances := update p (purgedInst (now d)) (instances d)\<rparr>
       in if affected p (purgedInst (now d)) (instances d) \<noteq> 1 then (Some ErrConflict, d1)
          else (None, case select (\<lambda>i. i_id i = iid) (instances d1) of
                  None \<Rightarrow> d1 | Some i \<Rightarrow> createNotification (i_owner i) ''instance_purged'' iid d1))))"

section \<open>executeTask\<close>

definition executeAction ::
  "agent \<Rightarrow> (string \<Rightarrow> id \<Rightarrow> id) \<Rightarrow> id option \<Rightarrow> controlTask \<Rightarrow> inst \<Rightarrow> bool \<Rightarrow> node \<Rightarrow> db \<Rightarrow> outcome" where
  "executeAction call fresh op task i host n db =
     (case t_action task of
        Create \<Rightarrow> executeCreate call op i n db
      | RetryDeploy \<Rightarrow> executeRetryDeploy call op task i n db
      | Start \<Rightarrow> executeStart call op i n db
      | Stop \<Rightarrow> executeStop call op i n db
      | Restart \<Rightarrow> executeRestart call op i n db
      | Reinstall \<Rightarrow> executeReinstall call op task i host n db
      | Update \<Rightarrow> executeUpdate call op task i host n db
      | HostAccess \<Rightarrow> executeHostAccess call op task i n db
      | Resize \<Rightarrow> executeResize call fresh op task i n db
      | CompensateResize \<Rightarrow> executeResize call fresh op task i n db
      | Destroy \<Rightarrow> executeDestroyTask call op task (i_id i) (i_container i) n db
      | Purge \<Rightarrow> executePurgeTask call op task (i_id i) (i_container i) n db
      | _ \<Rightarrow> (Some (Msg ''unknown action''), db))"

definition recordHostAccess :: "controlTask \<Rightarrow> id \<Rightarrow> bool \<Rightarrow> db \<Rightarrow> db" where
  "recordHostAccess task iid host db =
     db\<lparr>instances := update (\<lambda>i. i_id i = iid \<and>
          list_ex (\<lambda>t. leaseRow task db t \<and> lockRow db t i \<and> generationOk t i) (tasks db))
        (\<lambda>i. i\<lparr>i_hostApplied := host\<rparr>) (instances db)\<rparr>"

definition executeTask :: "agent \<Rightarrow> (string \<Rightarrow> id \<Rightarrow> id) \<Rightarrow> controlTask \<Rightarrow> db \<Rightarrow> outcome" where
  "executeTask call fresh task db =
     tryE (orElse (select (\<lambda>i. i_id i = t_instance task) (instances db)) ErrNoRows) db (\<lambda>i.
     tryE (if expectedStates (t_action task) = [] then Inr () else taskMayCallAgent task (expectedStates (t_action task)) db) db (\<lambda>_.
     tryE (orElse (select (\<lambda>n. Some (n_id n) = i_node i) (nodes db)) (Msg ''node unavailable'')) db (\<lambda>n.
     tryE (effectiveHostAccess (i_id i) db) db (\<lambda>host.
     if host \<and> composeTaskAction (t_action task) \<and> \<not> supportsAgentCapability n hostAccessCapability
     then (Some (Msg ''node does not support host access''), db)
     else beginAgentOperation (fresh ''aop'' (t_id task)) task i n db (\<lambda>op d.
       case executeAction call fresh op task i host n d of
         (Some e, d1) \<Rightarrow> (Some e, d1)
       | (None, d1) \<Rightarrow> (None, if composeTaskAction (t_action task) then recordHostAccess task (i_id i) host d1 else d1))))))"

text \<open>\<open>failDeployment\<close>: the consequences of a task that has used up its attempts.\<close>

definition failDeployment :: "(string \<Rightarrow> id \<Rightarrow> id) \<Rightarrow> controlTask \<Rightarrow> error \<Rightarrow> db \<Rightarrow> db" where
  "failDeployment fresh task cause db =
     (if t_action task = Resize \<and> t_attempts task \<ge> 3 then failPlanChange fresh task cause db
      else if t_action task = Update \<and> t_attempts task \<ge> 3 then
        writeAudit ''system'' ''instance.update_failed'' (t_instance task)
          (db\<lparr>instances := update (\<lambda>i. i_id i = t_instance task \<and> i_status i = Running)
             (\<lambda>i. i\<lparr>i_runtime := Some UnknownRuntime\<rparr>) (instances db)\<rparr>)
      else if (t_action task \<noteq> Create \<and> t_action task \<noteq> RetryDeploy) \<or> t_attempts task < 3 then db
      else case transitionInstance (t_instance task) [Deploying] DeploymentFailed (Some UnknownRuntime) (\<lambda>r. r) db of
        Inl _ \<Rightarrow> db
      | Inr (False, d) \<Rightarrow> d
      | Inr (True, d) \<Rightarrow>
          let d1 = d\<lparr>orders := update (\<lambda>r. o_instance r = Some (t_instance task) \<and> o_status r = OrderDeploy)
                (\<lambda>r. r\<lparr>o_status := OrderDeploymentFailed, o_updatedAt := now d\<rparr>) (orders d)\<rparr>;
              d2 = (case select (\<lambda>i. i_id i = t_instance task) (instances d1) of None \<Rightarrow> d1
                    | Some i \<Rightarrow> createNotification (i_owner i) ''deployment_failed'' (t_instance task) d1)
          in writeAudit ''system'' ''instance.deployment_failed'' (t_instance task) d2)"

section \<open>Relations kept by an execution\<close>

text \<open>
  A reflexive and transitive relation between databases is kept by an execution if every statement of
  the executor keeps it and the Agent's exchanges do: the contract lists the statements once, and its
  lemmas lift the relation through \<open>tryE\<close>, \<open>callThen\<close> and \<open>transitionThen\<close> to \<open>executeTask\<close>.
\<close>

definition agentKeeps :: "(db \<Rightarrow> db \<Rightarrow> bool) \<Rightarrow> agent \<Rightarrow> bool" where
  "agentKeeps R call \<longleftrightarrow> (\<forall>op n r d. R d (fst (call op n r d)))"

lemma tryE_simps [simp]: "tryE (Inl e) d k = (Some e, d)" "tryE (Inr x) d k = k x"
  by (simp_all add: tryE_def)

lemma frameSet_image [simp]: "frameSet (setImage a b c)" "frameSet (\<lambda>r. r\<lparr>i_digest := x\<rparr>)"
  by (simp_all add: frameSet_def setImage_def)

locale execution_relation =
  fixes R :: "db \<Rightarrow> db \<Rightarrow> bool"
  assumes keep_refl: "R d d"
    and keep_trans: "R d d' \<Longrightarrow> R d' d'' \<Longrightarrow> R d d''"
    and keep_transition: "frameSet f \<Longrightarrow> transitionInstance iid ex nx rt f d = Inr (b, d') \<Longrightarrow> R d d'"
    and keep_orders: "R d (activateOrders iid d)"
    and keep_complete: "completePlanChange fresh t d = Inr d' \<Longrightarrow> R d d'"
    and keep_compensation: "completePlanChangeCompensation fresh t d = Inr d' \<Longrightarrow> R d d'"
    and keep_block: "R d (markPlanChangeBlocked cid m d)"
    and keep_destroy: "R d (d\<lparr>instances := update (destroyRow t iid z d) (destroyedInst (now d)) (instances d)\<rparr>)"
    and keep_purge: "R d (d\<lparr>instances := update (\<lambda>i. purgeable iid d i \<and> leased t d i) (purgedInst (now d)) (instances d)\<rparr>)"
    and keep_events: "R d (d\<lparr>notificationEvents := ev\<rparr>)"
    and keep_notes: "R d (createNotification u k iid d)"
    and keep_host: "R d (recordHostAccess t iid h d)"
    and keep_ops: "R d (d\<lparr>agentOperations := ops\<rparr>)"
    and keep_begin: "R d (d\<lparr>tasks := update p (\<lambda>x. x\<lparr>t_agentOp := oid, t_agentState := st, t_updatedAt := z\<rparr>) (tasks d)\<rparr>)"
begin

lemma tryE_rel: "(\<And>x. r = Inr x \<Longrightarrow> R d (snd (k x))) \<Longrightarrow> R d (snd (tryE r d k))"
  by (cases r) (simp_all add: keep_refl)

lemma callThen_rel:
  assumes a: "agentKeeps R call" and k: "\<And>x e. R e (snd (k x e))"
  shows "R d (snd (callThen call op n req d k))"
proof -
  obtain d1 r where c: "nodeRequest call op n req d = (d1, r)" by fastforce
  have "R d (fst (call op n req d))" using a by (simp add: agentKeeps_def)
  then have "R d d1" using c keep_refl by (auto simp: nodeRequest_def split: if_splits)
  then show ?thesis using keep_trans [OF _ k] by (cases r) (simp_all add: callThen_def c)
qed

lemma transitionThen_rel:
  assumes f: "frameSet f" and k: "\<And>b e. R e (snd (k b e))"
  shows "R d (snd (transitionThen iid ex nx rt f d k))"
proof (cases "transitionInstance iid ex nx rt f d")
  case (Inr x)
  then obtain b e where x: "transitionInstance iid ex nx rt f d = Inr (b, e)" by (cases x) auto
  show ?thesis using keep_trans [OF keep_transition [OF f x] k] x by (simp add: transitionThen_def)
qed (simp add: transitionThen_def keep_refl)

lemma deployed_rel: "R d (snd (deployed iid ex nx d))"
  unfolding deployed_def by (rule transitionThen_rel) (simp_all add: keep_orders keep_refl)

lemma notify_rel: "R d (notifyOnce iid ev k u d)"
proof (cases "(iid, ev) \<in> set (notificationEvents d)")
  case False
  then show ?thesis using keep_trans [OF keep_events keep_notes] by (simp add: notifyOnce_def insertEvent_def)
qed (simp add: notifyOnce_def insertEvent_def keep_refl)

lemma retention_rel: "R d (notifyInstanceRetention iid ev d)"
  by (simp add: notifyInstanceRetention_def keep_refl notify_rel split: option.split)

lemma resize_rel:
  assumes a: "agentKeeps R call" shows "R d (snd (executeResize call fresh op t i n d))"
proof -
  have "R e (snd (case (if t_action t = CompensateResize then completePlanChangeCompensation fresh t e else completePlanChange fresh t e) of
      Inl err \<Rightarrow> (Some err, markPlanChangeBlocked cid (''agent resized but settlement failed: '' @ errText err) e) | Inr e \<Rightarrow> (None, e)))" for e cid
    using keep_complete [of fresh t e] keep_compensation [of fresh t e] keep_block [of e cid]
    by (cases "t_action t = CompensateResize") (simp_all split: sum.split)
  then show ?thesis
    unfolding executeResize_def Let_def case_prod_unfold by (intro tryE_rel callThen_rel [OF a]) simp
qed

lemma destroy_rel:
  assumes a: "agentKeeps R call" shows "R d (snd (executeDestroyTask call op t iid cn n d))"
proof -
  have w: "R e (snd (if b then (Some ErrConflict, e') else (None, notifyInstanceRetention iid ev e')))" if "R e e'" for b e e' ev
    using that keep_trans [OF that retention_rel] by simp
  show ?thesis
    unfolding executeDestroyTask_def Let_def
    by (simp add: keep_refl split: option.split) (intro allI impI tryE_rel callThen_rel [OF a] w keep_destroy)
qed

lemma purge_rel:
  assumes a: "agentKeeps R call" shows "R d (snd (executePurgeTask call op t iid cn n d))"
proof -
  have w: "R e (snd (if b then (Some ErrConflict, e') else (None, case x of None \<Rightarrow> e' | Some i \<Rightarrow> createNotification (i_owner i) k iid e')))"
    if "R e e'" for b e e' k and x :: "inst option"
    using that keep_trans [OF that keep_notes] by (simp split: option.split)
  show ?thesis
    unfolding executePurgeTask_def Let_def
    by (intro tryE_rel) (simp add: keep_refl, intro impI tryE_rel callThen_rel [OF a] w keep_purge)
qed

lemma reinstall_rel:
  assumes a: "agentKeeps R call" shows "R d (snd (executeReinstall call op t i host n d))"
  unfolding executeReinstall_def Let_def
  by (simp add: keep_refl split: payload.split)
    (intro allI impI tryE_rel callThen_rel [OF a] transitionThen_rel, simp_all add: keep_refl)

lemma update_rel:
  assumes a: "agentKeeps R call" shows "R d (snd (executeUpdate call op t i host n d))"
proof -
  have w: "R e (snd (if b then (Some m, e) else x))" if "R e (snd x)" for b m e x using that keep_refl by simp
  show ?thesis
    unfolding executeUpdate_def Let_def
    by (intro w tryE_rel callThen_rel [OF a] transitionThen_rel) (simp_all add: keep_refl)
qed

lemma action_rel:
  assumes a: "agentKeeps R call" shows "R d (snd (executeAction call fresh op t i host n d))"
proof -
  have w: "R e (snd (if b then (Some m, e) else x))" if "R e (snd x)" for b m e x using that keep_refl by simp
  note c = tryE_rel callThen_rel [OF a] deployed_rel
  have "R d (snd (executeCreate call op i n d))" "R d (snd (executeRetryDeploy call op t i n d))"
    "R d (snd (executeStart call op i n d))"
    unfolding executeCreate_def executeRetryDeploy_def executeStart_def by (intro c)+
  moreover have "R d (snd (executeStop call op i n d))" "R d (snd (executeRestart call op i n d))"
    unfolding executeStop_def executeRestart_def by (intro w c transitionThen_rel; simp add: keep_refl)+
  moreover have "R d (snd (executeHostAccess call op t i n d))"
    unfolding executeHostAccess_def Let_def by (intro w c) (simp add: keep_refl)
  ultimately show ?thesis
    by (cases "t_action t") (simp_all add: executeAction_def reinstall_rel [OF a] update_rel [OF a]
        resize_rel [OF a] destroy_rel [OF a] purge_rel [OF a] keep_refl)
qed

lemma begin_rel:
  assumes k: "\<And>op e. R e (snd (k op e))" shows "R d (snd (beginAgentOperation oid t i n d k))"
proof -
  have two: "R d (d\<lparr>agentOperations := ops, tasks := update p (\<lambda>x. x\<lparr>t_agentOp := oid, t_agentState := st, t_updatedAt := m\<rparr>) (tasks d)\<rparr>)"
    for ops p oid st m using keep_trans [OF keep_ops [of d ops] keep_begin [where p = p and oid = oid and st = st and z = m]] by simp
  then have "R d (snd (k op (d\<lparr>agentOperations := ops,
      tasks := update p (\<lambda>x. x\<lparr>t_agentOp := oid, t_agentState := st, t_updatedAt := m\<rparr>) (tasks d)\<rparr>)))" for op ops p oid st m
    by (rule keep_trans) (rule k)
  with two k keep_refl show ?thesis by (simp add: beginAgentOperation_def Let_def)
qed

lemma execute_rel:
  assumes a: "agentKeeps R call" shows "R d (snd (executeTask call fresh t d))"
proof -
  have fin: "R d (snd (case executeAction call fresh op t i host n d of (None, d1) \<Rightarrow> (None, if b then recordHostAccess t (i_id i) host d1 else d1)
       | (Some e, d1) \<Rightarrow> (Some e, d1)))" for op i host n d b
    using action_rel [OF a, of d fresh op t i host n] keep_trans [OF _ keep_host]
    by (cases "executeAction call fresh op t i host n d") (auto split: option.split)
  have w: "R e (snd (if b then (Some m, e) else x))" if "R e (snd x)" for b m e x using that keep_refl by simp
  show ?thesis
    unfolding executeTask_def by (intro tryE_rel w begin_rel fin)
qed

end

section \<open>The relations of the model\<close>

lemma update_statuses:
  assumes "instances d' = update p f (instances d)" "\<And>r. i_id (f r) = i_id r" "\<And>r. i_status (f r) = i_status r"
  shows "statusPath d d'"
  by (rule statusPath_update [OF assms(1)]) (simp_all add: assms)

lemma complete_path:
  assumes "completePlanChange fresh t d = Inr d'" shows "statusPath d d'"
proof (rule complete_cases [OF assms])
  fix cid cpu mem c ex b d1 d2 b2 d3
  assume d1: "d1 = d\<lparr>instances := update (sizeRow (t_instance t)) (resized cpu mem) (instances d)\<rparr>"
    and rel: "(if pc_reservation c > 0 then releaseReservation (fresh ''wal'' cid) cid (pc_owner c) (ReleaseKey cid) ''system''
        (pc_reservation c) (b + pc_reservation c) d1 else Inr d1) = Inr d2"
    and st: "settleItems fresh cid (t_instance t) (pc_owner c) (pc_targetPlan c) ex
       (filter (\<lambda>x. xi_exchange x = ex) (exchangeItems d2)) (b + max 0 (pc_reservation c)) d2 = Inr (b2, d3)"
    and d': "d' = setChange cid (\<lambda>c. pc_status c = Processing) (settledChange (now d)) (setExchange ex ''succeeded'' (setBalance (pc_owner c) b2 d3))"
  have "instances d3 = instances d2" using settleItems_entries [OF st] by (simp add: itemEntries_def)
  moreover have "instances d2 = instances d1" by (rule released_cases [OF rel])
  ultimately have "instances d' = update (sizeRow (t_instance t)) (resized cpu mem) (instances d)" by (simp add: d' d1)
  then show ?thesis by (rule update_statuses) (simp_all add: resized_def)
qed simp

lemma cancel_instances:
  assumes "cancelPlanChangeSettlementTx fresh cid iid u detail d = Inr d'" shows "instances d' = instances d"
  using assms giveBack_frame by (auto simp: cancelPlanChangeSettlementTx_def resultE Let_def split: if_splits)

lemma compensation_path:
  assumes "completePlanChangeCompensation fresh t d = Inr d'" shows "statusPath d d'"
proof -
  obtain cid cpu mem u where "cancelPlanChangeSettlementTx fresh cid (t_instance t) u ''rolled back after user cancellation''
       (d\<lparr>instances := update (sizeRow (t_instance t)) (resized cpu mem) (instances d)\<rparr>) = Inr d'"
    using assms by (auto simp: completePlanChangeCompensation_def bindE_Inr_iff split: option.splits if_splits)
  then have "instances d' = update (sizeRow (t_instance t)) (resized cpu mem) (instances d)"
    using cancel_instances by fastforce
  then show ?thesis by (rule update_statuses) (simp_all add: resized_def)
qed

interpretation exec_path: execution_relation statusPath
proof
  fix d d' d'' :: db and fresh t u k iid cid m z
  show "statusPath d (d\<lparr>instances := update (destroyRow t iid z d) (destroyedInst (now d)) (instances d)\<rparr>)"
    by (rule statusPath_update [where p = "destroyRow t iid z d" and f = "destroyedInst (now d)"])
      (auto simp: destroyRow_def destroyedInst_def canTransitionInstance_def)
  show "statusPath d (d\<lparr>instances := update (\<lambda>i. purgeable iid d i \<and> leased t d i) (purgedInst (now d)) (instances d)\<rparr>)"
    by (rule statusPath_update [where p = "\<lambda>i. purgeable iid d i \<and> leased t d i" and f = "purgedInst (now d)"])
      (auto simp: purgeable_def purgedInst_def canTransitionInstance_def)
  show "statusPath d (recordHostAccess t iid h d)" for h
    by (rule update_statuses [where f = "\<lambda>i. i\<lparr>i_hostApplied := h\<rparr>"]) (auto simp: recordHostAccess_def)
qed (auto intro: statusPath_same statusPath_trans transition_path complete_path compensation_path
    simp: activateOrders_def markPlanChangeBlocked_def)

interpretation exec_money: execution_relation "\<lambda>d d'. moneyOk d \<longrightarrow> moneyOk d'"
  by unfold_locales
    (auto intro: complete_money compensation_money mark_money money_same dest: transition_frame
      simp: activateOrders_def recordHostAccess_def)

text \<open>
  Two more relations. A lease that is alive stays alive, with its instance, action and counters: no
  statement of the executor takes it, so only the Agent's time span can lose it. And the number of
  executions stays bounded by the recoveries (\<open>retryOk\<close>).
\<close>

definition leaseKey :: "controlTask \<Rightarrow> id \<times> action \<times> nat \<times> nat" where
  "leaseKey t = (t_instance t, t_action t, t_attempts t, t_recovery t)"

definition leaseKept :: "controlTask \<Rightarrow> db \<Rightarrow> db \<Rightarrow> bool" where
  "leaseKept task d d' \<longleftrightarrow> (taskTab.unique d \<longrightarrow> taskTab.unique d') \<and>
     (\<forall>r \<in> set (tasks d). leaseRow task d r \<longrightarrow>
        (\<exists>s \<in> set (tasks d'). leaseRow task d' s \<and> leaseKey s = leaseKey r))"

lemma leaseKept_same: "tasks d' = tasks d \<Longrightarrow> now d' = now d \<Longrightarrow> leaseKept task d d'"
  by (auto simp: leaseKept_def leaseRow_def taskTab.unique_def)

definition retryOk :: "controlTask \<Rightarrow> bool" where
  "retryOk t \<longleftrightarrow> t_action t = CompensateResize \<or>
     t_attempts t \<le> 3 + t_recovery t \<and> (t_status t = TaskPending \<longrightarrow> t_attempts t < 3 + t_recovery t)"

definition retriesOk :: "db \<Rightarrow> bool" where
  "retriesOk d \<longleftrightarrow> (\<forall>t \<in> set (tasks d). retryOk t)"

lemma retriesOk_update:
  assumes "retriesOk d" "tasks d' = update p f (tasks d)" "\<And>t. t \<in> set (tasks d) \<Longrightarrow> p t \<Longrightarrow> retryOk t \<Longrightarrow> retryOk (f t)"
  shows "retriesOk d'"
  using assms by (auto simp: retriesOk_def in_update)

lemma complete_tasks:
  assumes "completePlanChange fresh t d = Inr d'" shows "tasks d' = tasks d \<and> now d' = now d"
proof (rule complete_cases [OF assms])
  fix cid cpu mem c ex b d1 d2 b2 d3
  assume d1: "d1 = d\<lparr>instances := update (sizeRow (t_instance t)) (resized cpu mem) (instances d)\<rparr>"
    and rel: "(if pc_reservation c > 0 then releaseReservation (fresh ''wal'' cid) cid (pc_owner c) (ReleaseKey cid) ''system''
        (pc_reservation c) (b + pc_reservation c) d1 else Inr d1) = Inr d2"
    and st: "settleItems fresh cid (t_instance t) (pc_owner c) (pc_targetPlan c) ex
       (filter (\<lambda>x. xi_exchange x = ex) (exchangeItems d2)) (b + max 0 (pc_reservation c)) d2 = Inr (b2, d3)"
    and d': "d' = setChange cid (\<lambda>c. pc_status c = Processing) (settledChange (now d)) (setExchange ex ''succeeded'' (setBalance (pc_owner c) b2 d3))"
  have "tasks d3 = tasks d2 \<and> now d3 = now d2" using settleItems_entries [OF st] by (simp add: itemEntries_def)
  moreover have "tasks d2 = tasks d1 \<and> now d2 = now d1" by (rule released_cases [OF rel]) simp
  ultimately show ?thesis by (simp add: d' d1 setExchange_def setChange_def)
qed simp

lemma cancel_tasks:
  assumes "cancelPlanChangeSettlementTx fresh cid iid u detail d = Inr d'" shows "tasks d' = tasks d \<and> now d' = now d"
proof -
  obtain c where c: "select (\<lambda>c. pc_id c = cid \<and> pc_instance c = iid \<and> pc_owner c = u) (planChanges d) = Some c"
    using assms by (auto simp: cancelPlanChangeSettlementTx_def resultE)
  show ?thesis
  proof (cases "pc_saga c = SagaCancelled")
    case False
    then obtain en d1 where g: "giveBack (fresh ''wal'' cid) cid u (CancelKey cid) u (pc_reservation c) d = Inr (en, d1)"
      and d': "d' = (let db2 = setChange cid (\<lambda>c. pc_saga c \<noteq> SagaCancelled) (cancelledChange (now d) en detail) d1
         in case pc_exchange c of None \<Rightarrow> db2 | Some eid \<Rightarrow> setExchange eid ''cancelled'' db2)"
      using assms c by (auto simp: cancelPlanChangeSettlementTx_def bindE_Inr_iff Let_def)
    then show ?thesis using giveBack_frame [OF g] by (simp add: Let_def setExchange_def setChange_def split: option.split)
  qed (use assms c in \<open>simp add: cancelPlanChangeSettlementTx_def\<close>)
qed

lemma compensation_tasks:
  assumes "completePlanChangeCompensation fresh t d = Inr d'" shows "tasks d' = tasks d \<and> now d' = now d"
proof -
  obtain cid cpu mem u where "cancelPlanChangeSettlementTx fresh cid (t_instance t) u ''rolled back after user cancellation''
       (d\<lparr>instances := update (sizeRow (t_instance t)) (resized cpu mem) (instances d)\<rparr>) = Inr d'"
    using assms by (auto simp: completePlanChangeCompensation_def bindE_Inr_iff split: option.splits if_splits)
  then show ?thesis using cancel_tasks by fastforce
qed

lemma begin_lease: "leaseKept task d (d\<lparr>tasks := update p (\<lambda>x. x\<lparr>t_agentOp := oid, t_agentState := st, t_updatedAt := m\<rparr>) (tasks d)\<rparr>)"
  unfolding leaseKept_def
proof (intro conjI impI ballI)
  let ?f = "\<lambda>x. x\<lparr>t_agentOp := oid, t_agentState := st, t_updatedAt := m\<rparr>"
  let ?d = "d\<lparr>tasks := update p ?f (tasks d)\<rparr>"
  show "taskTab.unique d \<Longrightarrow> taskTab.unique ?d"
    by (rule taskTab.unique_rows_update [where p = p and f = ?f]) simp_all
  fix r assume r: "r \<in> set (tasks d)" "leaseRow task d r"
  then have "(if p r then ?f r else r) \<in> set (tasks ?d)" by (auto simp: in_update)
  moreover have "leaseRow task ?d (if p r then ?f r else r)" "leaseKey (if p r then ?f r else r) = leaseKey r"
    using r(2) by (simp_all add: leaseRow_def leaseKey_def)
  ultimately show "\<exists>s \<in> set (tasks ?d). leaseRow task ?d s \<and> leaseKey s = leaseKey r" by blast
qed

lemma lease_trans: "leaseKept task d d' \<Longrightarrow> leaseKept task d' d'' \<Longrightarrow> leaseKept task d d''"
  unfolding leaseKept_def by metis

lemma begin_retries:
  "retriesOk d \<Longrightarrow> retriesOk (d\<lparr>tasks := update p (\<lambda>x. x\<lparr>t_agentOp := oid, t_agentState := st, t_updatedAt := m\<rparr>) (tasks d)\<rparr>)"
  by (erule retriesOk_update [where p = p and f = "\<lambda>x. x\<lparr>t_agentOp := oid, t_agentState := st, t_updatedAt := m\<rparr>"])
    (auto simp: retryOk_def)

lemma retriesOk_same: "tasks d' = tasks d \<Longrightarrow> retriesOk d \<Longrightarrow> retriesOk d'"
  by (simp add: retriesOk_def)

text \<open>The frame of both relations, step by step.\<close>

lemma frame_lease:
  assumes "tasks d' = tasks d \<and> now d' = now d" shows "leaseKept task d d' \<and> (retriesOk d \<longrightarrow> retriesOk d')"
  using assms leaseKept_same retriesOk_same by blast

lemma transition_tasks:
  assumes "transitionInstance iid ex nx rt f d = Inr (b, d')" shows "tasks d' = tasks d \<and> now d' = now d"
  using transition_frame [OF assms] by simp

lemmas executor_frames = activateOrders_def markPlanChangeBlocked_def recordHostAccess_def

interpretation exec_lease: execution_relation "leaseKept task" for task
proof
  fix d d' d'' :: db
  show "leaseKept task d d' \<Longrightarrow> leaseKept task d' d'' \<Longrightarrow> leaseKept task d d''" by (rule lease_trans)
  show "leaseKept task d d'" if "transitionInstance iid ex nx rt f d = Inr (b, d')" for iid ex nx rt f b
    using frame_lease [OF transition_tasks [OF that]] by blast
  show "leaseKept task d d'" if "completePlanChange fresh t d = Inr d'" for fresh t
    using frame_lease [OF complete_tasks [OF that]] by blast
  show "leaseKept task d d'" if "completePlanChangeCompensation fresh t d = Inr d'" for fresh t
    using frame_lease [OF compensation_tasks [OF that]] by blast
qed (simp_all add: leaseKept_same begin_lease executor_frames)

interpretation exec_retry: execution_relation "\<lambda>d d'. retriesOk d \<longrightarrow> retriesOk d'"
proof
  fix d d' d'' :: db
  show "retriesOk d \<longrightarrow> retriesOk d'" if "transitionInstance iid ex nx rt f d = Inr (b, d')" for iid ex nx rt f b
    using frame_lease [OF transition_tasks [OF that]] by blast
  show "retriesOk d \<longrightarrow> retriesOk d'" if "completePlanChange fresh t d = Inr d'" for fresh t
    using frame_lease [OF complete_tasks [OF that]] by blast
  show "retriesOk d \<longrightarrow> retriesOk d'" if "completePlanChangeCompensation fresh t d = Inr d'" for fresh t
    using frame_lease [OF compensation_tasks [OF that]] by blast
qed (simp_all add: begin_retries executor_frames retriesOk_def, simp_all add: begin_retries [unfolded retriesOk_def])

section \<open>Properties\<close>

text \<open>C11. Whatever the Agent answers and whatever happens while the control plane waits for it, executing
  a task moves instances along legal transitions only, and keeps every balance and every plan-change
  reservation exact, provided what happens meanwhile does.\<close>

theorem execution_safe:
  assumes "agentKeeps statusPath call" "agentKeeps (\<lambda>d d'. moneyOk d \<longrightarrow> moneyOk d') call"
  shows "statusPath d (snd (executeTask call fresh t d)) \<and> (moneyOk d \<longrightarrow> moneyOk (snd (executeTask call fresh t d)))"
  using exec_path.execute_rel [OF assms(1)] exec_money.execute_rel [OF assms(2)] by blast

lemma fence_none:
  assumes "\<forall>x \<in> set (tasks d). \<forall>i \<in> set (instances d). \<not> (leaseRow t d x \<and> lockRow d x i \<and> generationOk x i \<and>
     (ex = [] \<or> i_status i \<in> set ex))" and l: "lifecycleTask (t_action t)"
  shows "\<exists>e. taskMayCallAgent t ex d = Inl e"
proof -
  have "filter (fenceRow t ex d) (List.product (tasks d) (List.product (instances d) (nodes d))) = []"
    using assms(1) by (auto simp: filter_empty_conv fenceRow_def)
  then have "fenceCount t ex d = 0" by (simp add: fenceCount_def countRows_def)
  then show ?thesis using l by (auto simp: taskMayCallAgent_def)
qed

lemma blocked_execution:
  assumes l: "lifecycleTask (t_action t)"
    and n: "\<forall>x \<in> set (tasks d). \<forall>i \<in> set (instances d). \<not> (leaseRow t d x \<and> lockRow d x i \<and> generationOk x i \<and>
       i_status i \<in> set (expectedStates (t_action t)))"
  shows "\<exists>e. \<forall>call fresh. executeTask call fresh t d = (Some e, d)"
proof -
  have ex: "expectedStates (t_action t) \<noteq> []" using l by (cases "t_action t") auto
  obtain e where e: "taskMayCallAgent t (expectedStates (t_action t)) d = Inl e"
    using fence_none [of d t "expectedStates (t_action t)"] n l ex by auto
  show ?thesis
    by (cases "select (\<lambda>i. i_id i = t_instance t) (instances d)") (auto simp: executeTask_def ex e)
qed

text \<open>C4. No Agent call without the lock. If no stored task row and instance row witness together that
  this worker holds an unexpired lease, that the lease holds the instance lock, that the intent
  generation is current and that the instance is in a state the action expects, execution fails and
  changes nothing, for every Agent: no request was sent.\<close>

theorem no_call_without_lock:
  assumes l: "lifecycleTask (t_action t)"
    and n: "\<forall>x \<in> set (tasks d). \<forall>i \<in> set (instances d). \<not> (leaseRow t d x \<and> lockRow d x i \<and> generationOk x i \<and>
       i_status i \<in> set (expectedStates (t_action t)))"
  shows "\<exists>e. \<forall>call fresh. executeTask call fresh t d = (Some e, d)"
  using assms by (rule blocked_execution)

text \<open>A confirmed renewal of a running instance is never activated. Confirming the order queues a
  start task and leaves the order deploying; starting expects a stopped instance, so whenever the
  stored task is executed while the instance runs, execution fails before any Agent call and the
  order stays as it is.\<close>

theorem renewal_start_refused:
  assumes c: "confirmRenewal tid actor r p iid d = Inr (t, d')"
    and x: "x \<in> set (tasks e)" "t_id x = t_id t" "t_action x = t_action t" "t_instance x = t_instance t" "taskTab.unique e"
    and run: "\<forall>i \<in> set (instances e). i_id i = iid \<longrightarrow> i_status i = Running"
  shows "t_action t = Start \<and> (\<exists>err. \<forall>call fresh. executeTask call fresh x e = (Some err, e))"
proof -
  have t: "t_action t = Start" "t_instance t = iid"
    using c by (auto simp: confirmRenewal_def resultE Let_def newTask_def split: if_splits)
  have "\<not> (leaseRow x e y \<and> lockRow e y i \<and> generationOk y i \<and> i_status i \<in> set (expectedStates Start))"
    if "y \<in> set (tasks e)" "i \<in> set (instances e)" for y i
  proof
    assume a: "leaseRow x e y \<and> lockRow e y i \<and> generationOk y i \<and> i_status i \<in> set (expectedStates Start)"
    then have "y = x" using taskTab.key_unique [OF x(5) that(1) x(1)] by (simp add: leaseRow_def)
    then have "i_id i = iid" using a x(4) t(2) by (simp add: lockRow_def)
    then show False using a run that(2) by auto
  qed
  then show ?thesis using blocked_execution [of x e] t x(3) by simp
qed

text \<open>A purge needs everything at once. A row that the purge task leaves purged was purged already
  when the Agent answered, or else at that moment it was the destroyed row of this instance, past its
  purge time, with no paid active order, under the lease and the lock of this task.\<close>

theorem purge_safe:
  assumes r: "executePurgeTask call op t iid cn n d = (err, d')" and i: "i' \<in> set (instances d')" "i_status i' = Purged"
  shows "\<exists>e. (e = d \<or> e = fst (call op n (ReqPurge cn) d)) \<and> (i' \<in> set (instances e) \<or>
    (\<exists>i \<in> set (instances e). i' = purgedInst (now e) i \<and> i_id i = iid \<and> i_status i = Destroyed \<and>
       (\<exists>p. i_purgeAt i = Some p \<and> p \<le> now e) \<and> \<not> (\<exists>o' \<in> set (orders e). paidActive iid e o') \<and> leased t e i))"
proof (cases "d' = d")
  case False
  obtain e x where c: "call op n (ReqPurge cn) d = (e, x)" by fastforce
  let ?p = "\<lambda>i. purgeable iid e i \<and> leased t e i"
  have "instances d' = instances e \<or> instances d' = update ?p (purgedInst (now e)) (instances e)"
    using r False c
    by (auto simp: executePurgeTask_def tryE_def callThen_def nodeRequest_def Let_def
        split: sum.splits if_splits prod.splits option.splits)
  moreover have "i' \<in> set (instances e) \<or> (\<exists>i \<in> set (instances e). ?p i \<and> i' = purgedInst (now e) i)"
    if "i' \<in> set (update ?p (purgedInst (now e)) (instances e))"
  proof -
    from in_update [THEN iffD1, OF that] obtain i0 where "i0 \<in> set (instances e)" "i' = (if ?p i0 then purgedInst (now e) i0 else i0)"
      by (elim bexE)
    then show ?thesis by (cases "?p i0") auto
  qed
  ultimately have "i' \<in> set (instances e) \<or> (\<exists>i \<in> set (instances e). ?p i \<and> i' = purgedInst (now e) i)"
    using i(1) by metis
  moreover have "i_id i = iid \<and> i_status i = Destroyed \<and> (\<exists>p. i_purgeAt i = Some p \<and> p \<le> now e) \<and>
      \<not> (\<exists>o' \<in> set (orders e). paidActive iid e o')" if "purgeable iid e i" for i
    using that by (auto simp: purgeable_def countRows_def filter_empty_conv someAnd_iff)
  ultimately show ?thesis using c by (intro exI [of _ e]) (simp, blast)
qed (use i in blast)

text \<open>C13. A paid service is not deleted from the node: while an active order of the instance has not
  expired, the purge task ends without a request to any Agent and without a change.\<close>

theorem purge_spares_paid:
  assumes "r \<in> set (orders d)" "paidActive iid d r"
  shows "snd (executePurgeTask call op t iid cn n d) = d"
proof -
  have "filter (paidActive iid d) (orders d) \<noteq> []" using assms by (auto simp: filter_empty_conv)
  then have "filter (purgeable iid d) (instances d) = []" by (auto simp: filter_empty_conv purgeable_def countRows_def)
  then show ?thesis by (auto simp: executePurgeTask_def tryE_def countRows_def split: sum.splits)
qed

text \<open>A stale destroy task destroys nothing: its key names the time it was scheduled for, so once
  the instance was renewed, cancelled or scheduled for another time, the task ends without a request
  and without a change.\<close>

theorem stale_destroy_harmless:
  assumes "\<forall>i \<in> set (instances d). i_id i = iid \<and> i_status i = DestroyScheduled \<longrightarrow>
      i_destroyAt i = None \<or> t_key t \<noteq> LifecycleKey Destroy iid (the (i_destroyAt i))"
  shows "executeDestroyTask call op t iid cn n d = (None, d)"
  using assms by (auto simp: executeDestroyTask_def split: option.splits dest: select_SomeD)

definition terminalOf :: "request \<Rightarrow> bool option" where
  "terminalOf r = (case r of ReqCreate p \<Rightarrow> Some (rt_terminal p) | _ \<Rightarrow> None)"

text \<open>Updating loses the terminal mode: the container is created again with a terminal mode that is
  always off, whatever the image demands of a deployment.\<close>

theorem update_drops_terminal:
  assumes "\<And>op n r e. terminalOf r \<noteq> Some True \<Longrightarrow> call op n r e = call' op n r e"
  shows "executeUpdate call op t i host n d = executeUpdate call' op t i host n d"
proof -
  have r: "callThen call op n (ReqPull x) e k = callThen call' op n (ReqPull x) e k"
    "callThen call op n (ReqDestroy c) e k = callThen call' op n (ReqDestroy c) e k"
    "\<not> rt_terminal pl \<Longrightarrow> callThen call op n (ReqCreate pl) e k = callThen call' op n (ReqCreate pl) e k" for x c pl e k
    by (simp_all add: callThen_def nodeRequest_def assms terminalOf_def)
  show ?thesis by (simp add: executeUpdate_def r Let_def cong: if_cong)
qed

text \<open>Reinstalling the image an instance already runs reports a conflict although the Agent did the
  work: the update that records it changes no column, counts no row and is taken for a lost race,
  so the task is retried and the data erased again.\<close>

theorem reinstall_same_image_conflicts:
  assumes pl: "t_payload t = ReinstallPayload ref version digest terminal" "ref \<noteq> []" "validImageTag version"
    and cap: "supportsAgentCapability n ''container.reinstall.v1''" "n_enabled n"
    and i: "select (\<lambda>j. i_id j = i_id i) (instances d) = Some i" "i_status i = Running" "i_runtime i = Some Running"
      "i_image i = ref" "i_version i = version" "i_digest i = nullable digest" "instTab.unique d"
    and may: "taskMayCallAgent t [Running] d = Inr ()"
    and ok: "\<And>req. call op n req d = (d, Inr [])"
  shows "fst (executeReinstall call op t i host n d) = Some ErrConflict"
proof -
  have ii: "i \<in> set (instances d)" using select_SomeD [OF i(1)] by simp
  have same: "transitionRow Running (Some Running) (setImage ref version (nullable digest)) i = i"
    using i by (simp add: transitionRow_def setImage_def)
  have "affected (\<lambda>r. i_id r = i_id i \<and> i_status r \<in> set [Running]) (transitionRow Running (Some Running) (setImage ref version (nullable digest)))
      (instances d) \<noteq> 1"
    using instTab.affected_key [OF i(7) ii, of "\<lambda>r. i_id r = i_id i \<and> i_status r \<in> set [Running]"] same by simp
  then show ?thesis
    by (simp add: executeReinstall_def pl cap i(1,2) may callThen_def nodeRequest_def ok transitionThen_def
        transitionInstance_def canTransitionInstance_def Let_def)
qed

text \<open>A resize task whose plan change is no longer processing succeeds without settling it: the
  Agent applies the target resources, the settlement finds nothing to do and reports no error, and
  the change keeps its status and its withheld money.\<close>

theorem resize_of_blocked_change_succeeds:
  assumes p: "resizePayload (t_payload t) = Some (cid, cpu, mem)" "t_action t = Resize"
    and c: "select (\<lambda>c. pc_id c = cid) (planChanges e) = Some c" "pc_status c \<noteq> Processing"
    and may: "taskMayCallAgent t [Running, Stopped] d = Inr ()" "instanceRuntimePayload (i_id i) (i_container i) (i_route i) d = Inr pl"
    and ok: "n_enabled n" "\<And>req. call op n req d = (e, Inr [])"
  shows "executeResize call fresh op t i n d = (None, e)"
  by (simp add: executeResize_def p may callThen_def nodeRequest_def ok Let_def completePlanChange_def c)

section \<open>Concrete executions\<close>

text \<open>An Agent that says yes while nothing else happens.\<close>

definition quietAgent :: agent where
  "quietAgent op n r d = (d, Inr [])"

lemma quiet_keeps: "(\<And>d. R d d) \<Longrightarrow> agentKeeps R quietAgent"
  by (simp add: agentKeeps_def quietAgent_def)

theorem execution_safe_witness:
  "statusPath exampleLease (snd (executeTask quietAgent (\<lambda>a b. a @ b) exampleTask exampleLease))"
  using execution_safe [OF quiet_keeps quiet_keeps, of exampleLease "\<lambda>a b. a @ b" exampleTask] by simp

theorem no_call_without_lock_witness:
  "\<exists>e. \<forall>call fresh. executeTask call fresh exampleTask (exampleLease\<lparr>now := leaseTime\<rparr>) = (Some e, exampleLease\<lparr>now := leaseTime\<rparr>)"
  by (rule no_call_without_lock) (simp_all add: exampleLease_def exampleTask_def newTask_def leaseRow_def)

definition exampleAlive :: inst where
  "exampleAlive = blankInst\<lparr>i_id := ''i'', i_owner := ''u'', i_status := Running, i_runtime := Some Running\<rparr>"

definition exampleRenewal :: order where
  "exampleRenewal = blankOrder\<lparr>o_id := ''o'', o_owner := ''u'', o_plan := ''p'', o_renewal := Some ''i'', o_amount := 3000\<rparr>"

theorem renewal_start_refused_witness:
  "\<exists>t d'. confirmRenewal ''t1'' ''a'' exampleRenewal examplePlan ''i'' ((emptyDb 0)\<lparr>instances := [exampleAlive], orders := [exampleRenewal]\<rparr>)
       = Inr (t, d') \<and>
     (\<exists>err. \<forall>call fresh. executeTask call fresh t ((emptyDb 0)\<lparr>instances := [exampleAlive], tasks := [t]\<rparr>)
        = (Some err, (emptyDb 0)\<lparr>instances := [exampleAlive], tasks := [t]\<rparr>))"
proof -
  let ?d = "(emptyDb 0)\<lparr>instances := [exampleAlive], orders := [exampleRenewal]\<rparr>"
  have a: "i_id exampleAlive = ''i''" "i_owner exampleAlive = ''u''" "i_status exampleAlive = Running"
    "i_runtime exampleAlive = Some Running" "i_expires exampleAlive = None" "i_activeExpires exampleAlive = None"
    by (simp_all add: exampleAlive_def blankInst_def)
  have o: "o_id exampleRenewal = ''o''" "o_owner exampleRenewal = ''u''" "o_amount exampleRenewal = 3000" "p_monthly examplePlan = 3000"
    by (simp_all add: exampleRenewal_def examplePlan_def)
  have ne: "transitionRow Running (Some Running) (renewedRow e) exampleAlive \<noteq> exampleAlive" for e
  proof
    assume "transitionRow Running (Some Running) (renewedRow e) exampleAlive = exampleAlive"
    then have "i_expires (transitionRow Running (Some Running) (renewedRow e) exampleAlive) = None" by (simp add: a)
    then show False by (simp add: transitionRow_def renewedRow_def)
  qed
  have tables: "instances ?d = [exampleAlive]" "tasks ?d = []" "now ?d = 0" "tasks (emptyDb 0) = []" by (simp_all add: emptyDb_def)
  obtain t d' where c: "confirmRenewal ''t1'' ''a'' exampleRenewal examplePlan ''i'' ?d = Inr (t, d')"
    by (simp add: confirmRenewal_def tables a o resumedRuntime_def paidMonths_def Let_def transitionInstance_def
        canTransitionInstance_def ne liftT_def insertTask_def setOrder_def reviewPayments_def go_div_def)
  have "\<exists>err. \<forall>call fresh. executeTask call fresh t ((emptyDb 0)\<lparr>instances := [exampleAlive], tasks := [t]\<rparr>)
        = (Some err, (emptyDb 0)\<lparr>instances := [exampleAlive], tasks := [t]\<rparr>)"
    by (rule conjunct2 [OF renewal_start_refused [OF c]]) (simp_all add: taskTab.unique_def a)
  with c show ?thesis by blast
qed

definition exampleGone :: inst where
  "exampleGone = blankInst\<lparr>i_id := ''ins_1'', i_owner := ''u'', i_status := Destroyed, i_node := Some ''n1'', i_purgeAt := Some 3,
     i_activeTask := Some ''task_1'', i_activeToken := Some ''exec_1'', i_activeExpires := Some leaseTime\<rparr>"

definition examplePurge :: controlTask where
  "examplePurge = exampleTask\<lparr>t_action := Purge\<rparr>"

definition exampleGrave :: db where
  "exampleGrave = (emptyDb 5)\<lparr>tasks := [examplePurge], instances := [exampleGone], nodes := [exampleNode]\<rparr>"

lemma gone_rows: "i_id exampleGone = ''ins_1''" "i_status exampleGone = Destroyed" "i_purgeAt exampleGone = Some 3"
    "i_owner exampleGone = ''u''" "i_node exampleGone = Some ''n1''" "i_activeTask exampleGone = Some ''task_1''"
    "i_activeToken exampleGone = Some ''exec_1''" "i_activeExpires exampleGone = Some leaseTime"
    "t_id examplePurge = ''task_1''" "t_instance examplePurge = ''ins_1''" "t_status examplePurge = TaskRunning"
    "t_worker examplePurge = Some ''w1''" "t_token examplePurge = Some ''exec_1''" "t_claimExpires examplePurge = Some leaseTime"
    "t_generation examplePurge = 0" "t_action examplePurge = Purge" "n_id exampleNode = ''n1''" "n_enabled exampleNode"
    "n_kind exampleNode = Platform" "5 < leaseTime"
  by (simp_all add: exampleGone_def examplePurge_def exampleTask_def newTask_def exampleNode_def leaseTime_def time_units)

lemma grave_tables: "tasks exampleGrave = [examplePurge]" "instances exampleGrave = [exampleGone]" "nodes exampleGrave = [exampleNode]"
    "orders exampleGrave = []" "now exampleGrave = 5"
  by (simp_all add: exampleGrave_def emptyDb_def)

lemma grave_purged: "\<exists>d'. executePurgeTask quietAgent None examplePurge ''ins_1'' ''c'' exampleNode exampleGrave = (None, d') \<and>
    instances d' = [purgedInst 5 exampleGone]"
proof -
  have may: "taskMayCallAgent examplePurge [Destroyed] exampleGrave = Inr ()"
    by (simp add: taskMayCallAgent_def fenceCount_def fenceRow_def leaseRow_def lockRow_def generationOk_def grave_tables gone_rows)
  have p: "purgeable ''ins_1'' exampleGrave exampleGone" "leased examplePurge exampleGrave exampleGone"
    by (simp_all add: purgeable_def leased_def leaseRow_def lockRow_def grave_tables gone_rows)
  have "i_status (purgedInst 5 exampleGone) \<noteq> i_status exampleGone" by (simp add: purgedInst_def gone_rows)
  then have ne: "purgedInst 5 exampleGone \<noteq> exampleGone" by auto
  show ?thesis
    by (simp add: executePurgeTask_def may grave_tables p callThen_def nodeRequest_def gone_rows quietAgent_def ne Let_def split: option.split)
qed

theorem purge_safe_witness:
  "\<exists>i \<in> set (instances exampleGrave). i_status i = Destroyed \<and> \<not> (\<exists>r \<in> set (orders exampleGrave). paidActive ''ins_1'' exampleGrave r) \<and>
     leased examplePurge exampleGrave i"
proof -
  obtain d' where d': "executePurgeTask quietAgent None examplePurge ''ins_1'' ''c'' exampleNode exampleGrave = (None, d')"
    "instances d' = [purgedInst 5 exampleGone]" using grave_purged by blast
  have p: "purgedInst 5 exampleGone \<in> set (instances d')" "i_status (purgedInst 5 exampleGone) = Purged"
    by (simp_all add: d'(2)) (simp add: purgedInst_def)
  have "purgedInst 5 exampleGone \<notin> set (instances exampleGrave)"
    using p(2) by (auto simp: grave_tables) (metis gone_rows(2) istatus.distinct)
  then show ?thesis using purge_safe [OF d'(1) p] by (auto simp: quietAgent_def)
qed

theorem purge_spares_paid_witness:
  "snd (executePurgeTask quietAgent None examplePurge ''ins_1'' ''c'' exampleNode
     (exampleGrave\<lparr>orders := [blankOrder\<lparr>o_instance := Some ''ins_1'', o_status := OrderActive, o_expires := Some 9\<rparr>]\<rparr>))
   = exampleGrave\<lparr>orders := [blankOrder\<lparr>o_instance := Some ''ins_1'', o_status := OrderActive, o_expires := Some 9\<rparr>]\<rparr>"
  by (rule purge_spares_paid [where r = "blankOrder\<lparr>o_instance := Some ''ins_1'', o_status := OrderActive, o_expires := Some 9\<rparr>"])
    (simp_all add: paidActive_def grave_tables)

theorem stale_destroy_harmless_witness:
  "executeDestroyTask quietAgent None (exampleTask\<lparr>t_key := LifecycleKey Destroy ''ins_1'' 100\<rparr>) ''ins_1'' ''c'' exampleNode
     (exampleLease\<lparr>instances := [blankInst\<lparr>i_id := ''ins_1'', i_status := DestroyScheduled, i_destroyAt := Some 200\<rparr>]\<rparr>)
   = (None, exampleLease\<lparr>instances := [blankInst\<lparr>i_id := ''ins_1'', i_status := DestroyScheduled, i_destroyAt := Some 200\<rparr>]\<rparr>)"
  by (rule stale_destroy_harmless) simp

theorem update_drops_terminal_witness:
  "executeUpdate quietAgent None exampleTask exampleAlive False exampleNode exampleLease =
   executeUpdate (\<lambda>op n r d. if terminalOf r = Some True then (d, Inl ErrNoRows) else quietAgent op n r d) None exampleTask exampleAlive
     False exampleNode exampleLease"
  by (rule update_drops_terminal) simp

definition exampleRebuilt :: inst where
  "exampleRebuilt = exampleGone\<lparr>i_status := Running, i_runtime := Some Running, i_image := ''repo'', i_version := ''1.0'', i_digest := None\<rparr>"

theorem reinstall_same_image_conflicts_witness:
  "fst (executeReinstall quietAgent None (exampleTask\<lparr>t_action := Reinstall, t_payload := ReinstallPayload ''repo'' ''1.0'' [] True\<rparr>)
     exampleRebuilt False (exampleNode\<lparr>n_capabilities := [''container.reinstall.v1'']\<rparr>)
     (exampleGrave\<lparr>instances := [exampleRebuilt], tasks := [exampleTask\<lparr>t_action := Reinstall, t_payload := ReinstallPayload ''repo'' ''1.0'' [] True\<rparr>]\<rparr>))
   = Some ErrConflict"
proof -
  let ?t = "exampleTask\<lparr>t_action := Reinstall, t_payload := ReinstallPayload ''repo'' ''1.0'' [] True\<rparr>"
  let ?d = "exampleGrave\<lparr>instances := [exampleRebuilt], tasks := [?t]\<rparr>"
  have v: "validImageTag ''1.0''" by code_simp
  have r: "i_id exampleRebuilt = ''ins_1''" "i_status exampleRebuilt = Running" "i_node exampleRebuilt = Some ''n1''"
    "i_activeTask exampleRebuilt = Some ''task_1''" "i_activeToken exampleRebuilt = Some ''exec_1''"
    "i_activeExpires exampleRebuilt = Some leaseTime"
    by (simp_all add: exampleRebuilt_def gone_rows)
  have t: "t_id ?t = ''task_1''" "t_instance ?t = ''ins_1''" "t_status ?t = TaskRunning" "t_worker ?t = Some ''w1''"
    "t_token ?t = Some ''exec_1''" "t_claimExpires ?t = Some leaseTime" "t_generation ?t = 0"
    by (simp_all add: exampleTask_def newTask_def)
  have may: "taskMayCallAgent ?t [Running] ?d = Inr ()"
    using gone_rows(20) by (simp add: taskMayCallAgent_def fenceCount_def fenceRow_def leaseRow_def lockRow_def generationOk_def grave_tables gone_rows r t)
  show ?thesis
    by (rule reinstall_same_image_conflicts [OF _ _ v _ _ _ _ _ _ _ _ _ may])
      (simp_all add: supportsAgentCapability_def gone_rows r exampleRebuilt_def nullable_def trimSpace_def trimLeft_def trimRight_def
        instTab.unique_def quietAgent_def)
qed

definition exampleReview :: db where
  "exampleReview = exampleGrave\<lparr>instances := [exampleRebuilt], planChanges := [exampleChange\<lparr>pc_status := NeedsReview\<rparr>],
     tasks := [examplePurge\<lparr>t_action := Resize, t_payload := ResizePayload (exampleIds ''resize'') 4 8192 True\<rparr>]\<rparr>"

theorem resize_of_blocked_change_succeeds_witness:
  "executeResize quietAgent (\<lambda>a b. a @ b) None (examplePurge\<lparr>t_action := Resize, t_payload := ResizePayload (exampleIds ''resize'') 4 8192 True\<rparr>)
     exampleRebuilt exampleNode exampleReview = (None, exampleReview)"
proof -
  let ?t = "examplePurge\<lparr>t_action := Resize, t_payload := ResizePayload (exampleIds ''resize'') 4 8192 True\<rparr>"
  have r: "i_id exampleRebuilt = ''ins_1''" "i_status exampleRebuilt = Running" "i_node exampleRebuilt = Some ''n1''"
    "i_activeTask exampleRebuilt = Some ''task_1''" "i_activeToken exampleRebuilt = Some ''exec_1''"
    "i_activeExpires exampleRebuilt = Some leaseTime"
    by (simp_all add: exampleRebuilt_def gone_rows)
  have d: "instances exampleReview = [exampleRebuilt]" "tasks exampleReview = [?t]" "nodes exampleReview = [exampleNode]"
    "now exampleReview = 5" "planChanges exampleReview = [exampleChange\<lparr>pc_status := NeedsReview\<rparr>]"
    by (simp_all add: exampleReview_def grave_tables)
  have may: "taskMayCallAgent ?t [Running, Stopped] exampleReview = Inr ()"
    by (simp add: taskMayCallAgent_def fenceCount_def fenceRow_def leaseRow_def lockRow_def generationOk_def d gone_rows r)
  obtain pl where pl: "instanceRuntimePayload (i_id exampleRebuilt) (i_container exampleRebuilt) (i_route exampleRebuilt) exampleReview = Inr pl"
    by (simp add: instanceRuntimePayload_def effectiveHostAccess_def d)
  show ?thesis
    by (rule resize_of_blocked_change_succeeds [OF _ _ _ _ may pl, where cid = "exampleIds ''resize''" and cpu = 4 and mem = 8192
          and c = "exampleChange\<lparr>pc_status := NeedsReview\<rparr>"])
      (simp_all add: resizePayload_def d example_change gone_rows quietAgent_def)
qed

end
