(* ===== verification/Scheduler.thy ===== *)
theory Scheduler
  imports Executor
begin

text \<open>
  The periodic loops (\<open>control_plane.go\<close>, \<open>control_loops.go\<close>): scheduling of instance tasks, expiry,
  destruction and purge of services, reminders, the synchronisation of instance states, node heartbeats
  and benefit programs, and the reconciliation of uncertain Agent operations. Agent answers are
  functions that may change the database while they wait. A loop reads its rows first and then handles
  them one by one on the current database.
\<close>

section \<open>Queuing tasks\<close>

fun actionName :: "action \<Rightarrow> string" where
  "actionName Create = ''create''" | "actionName RetryDeploy = ''retry-deploy''" | "actionName Start = ''start''"
| "actionName Stop = ''stop''" | "actionName Update = ''update''" | "actionName Restart = ''restart''"
| "actionName Reinstall = ''reinstall''" | "actionName Destroy = ''destroy''" | "actionName Purge = ''purge''"
| "actionName Resize = ''resize''" | "actionName CompensateResize = ''compensate-resize''"
| "actionName HostAccess = ''host-access''" | "actionName Bandwidth = ''bandwidth''" | "actionName (OtherAction s) = s"

text \<open>The idempotency key of \<open>scheduleInstanceTask\<close> has a resolution of one second.\<close>

definition scheduleInstanceTask :: "id \<Rightarrow> id \<Rightarrow> action \<Rightarrow> id \<Rightarrow> db \<Rightarrow> error + controlTask \<times> db" where
  "scheduleInstanceTask tid iid act actor db =
     bindE (orElse (select (\<lambda>i. i_id i = iid) (instances db)) ErrNoRows) (\<lambda>i.
     let t = (newTask tid iid act (ActionKey act iid (now db div second)) (now db) (now db))\<lparr>t_generation := i_generation i\<rparr>;
         operation = \<lparr>op_task = tid, op_instance = iid, op_generation = i_generation i, op_kind = act,
                      op_status = ''pending'', op_key = t_key t\<rparr>
     in bindE (insertTask t db) (\<lambda>d.
     Inr (t, appendTaskEvent tid ''queued'' (writeAudit actor (''instance.'' @ actionName act) iid
       (d\<lparr>instanceOperations := instanceOperations d @ [operation]\<rparr>)))))"

text \<open>\<open>INSERT IGNORE\<close>: an existing key leaves the table alone and the stored task is returned.\<close>

definition scheduleLifecycleTaskAt :: "id \<Rightarrow> id \<Rightarrow> action \<Rightarrow> gotime \<Rightarrow> gotime \<Rightarrow> db \<Rightarrow> error + controlTask \<times> db" where
  "scheduleLifecycleTaskAt tid iid act at_time runAfter db =
     (let key = LifecycleKey act iid at_time; t = newTask tid iid act key runAfter (now db)
      in (case insertTask t db of
            Inr d \<Rightarrow> Inr (t, appendTaskEvent tid ''queued'' d)
          | Inl _ \<Rightarrow> bindE (orElse (select (\<lambda>r. t_key r = key) (tasks db)) ErrNoRows) (\<lambda>old. Inr (old, db))))"

definition scheduleLifecycleTask :: "id \<Rightarrow> id \<Rightarrow> action \<Rightarrow> gotime \<Rightarrow> db \<Rightarrow> error + controlTask \<times> db" where
  "scheduleLifecycleTask tid iid act at_time db = scheduleLifecycleTaskAt tid iid act at_time (now db) db"

section \<open>Expiry, destruction, purge\<close>

definition notifyDestroyScheduled :: "id \<Rightarrow> string \<Rightarrow> db \<Rightarrow> db" where
  "notifyDestroyScheduled iid why db =
     (case select (\<lambda>i. i_id i = iid) (instances db) of
        None \<Rightarrow> db
      | Some i \<Rightarrow> if i_destroyAt i = None then db
          else notifyOnce iid (''destroy_scheduled_'' @ why) ''instance_destroy_scheduled'' (i_owner i) db)"

definition overdue :: "db \<Rightarrow> inst \<Rightarrow> bool" where
  "overdue db i \<longleftrightarrow> someAnd (\<lambda>e. e < now db) (i_expires i) \<and> (i_status i = Running \<or> i_status i = Stopped)"

definition expiredRow :: "inst \<Rightarrow> inst" where
  "expiredRow i = i\<lparr>i_destroyReason := Some Expired, i_destroyAt := map_option (\<lambda>e. e + 7 * day) (i_expires i), i_purgeAt := None\<rparr>"

definition expireOrders :: "id \<Rightarrow> db \<Rightarrow> db" where
  "expireOrders iid db = db\<lparr>orders := update (\<lambda>r. o_instance r = Some iid \<and> (o_status r = OrderActive \<or> o_status r = OrderDeploy))
     (\<lambda>r. r\<lparr>o_status := OrderExpired, o_updatedAt := now db\<rparr>) (orders db)\<rparr>"

definition expireInstance :: "inst \<Rightarrow> db \<Rightarrow> db" where
  "expireInstance i db =
     (case transitionInstance (i_id i) [Running, Stopped] DestroyScheduled (Some (i_status i)) expiredRow db of
        Inl _ \<Rightarrow> db
      | Inr (False, d) \<Rightarrow> d
      | Inr (True, d) \<Rightarrow> notifyDestroyScheduled (i_id i) ''expired''
          (writeAudit ''system'' ''instance.destroy_scheduled'' (i_id i) (expireOrders (i_id i) d)))"

definition expireServices :: "db \<Rightarrow> db" where
  "expireServices db = fold expireInstance (filter (overdue db) (instances db)) db"

text \<open>The instances whose scheduled moment has come and that have no such task in flight.\<close>

definition due :: "action \<Rightarrow> istatus \<Rightarrow> (inst \<Rightarrow> gotime option) \<Rightarrow> db \<Rightarrow> inst \<Rightarrow> bool" where
  "due act status moment db i \<longleftrightarrow> i_status i = status \<and> someAnd (\<lambda>t. t \<le> now db) (moment i) \<and>
     \<not> list_ex (\<lambda>t. t_instance t = i_id i \<and> t_action t = act \<and> (t_status t = TaskPending \<or> t_status t = TaskRunning)) (tasks db)"

definition queueDue :: "(string \<Rightarrow> id \<Rightarrow> id) \<Rightarrow> action \<Rightarrow> (inst \<Rightarrow> gotime option) \<Rightarrow> inst \<Rightarrow> db \<Rightarrow> db" where
  "queueDue fresh act moment i db =
     (case moment i of None \<Rightarrow> db
      | Some t \<Rightarrow> (case scheduleLifecycleTask (fresh (actionName act) (i_id i)) (i_id i) act t db of Inl _ \<Rightarrow> db | Inr (_, d) \<Rightarrow> d))"

definition queueAllDue :: "(string \<Rightarrow> id \<Rightarrow> id) \<Rightarrow> action \<Rightarrow> istatus \<Rightarrow> (inst \<Rightarrow> gotime option) \<Rightarrow> db \<Rightarrow> db" where
  "queueAllDue fresh act status moment db = fold (queueDue fresh act moment) (filter (due act status moment db) (instances db)) db"

definition reminderRow :: "duration \<Rightarrow> duration \<Rightarrow> db \<Rightarrow> inst \<Rightarrow> bool" where
  "reminderRow lo hi db i \<longleftrightarrow> i_status i = Destroyed \<and> i_archivedAt i = None \<and>
     someAnd (\<lambda>p. now db + lo < p \<and> p \<le> now db + hi) (i_purgeAt i)"

definition remind :: "string \<Rightarrow> duration \<Rightarrow> duration \<Rightarrow> db \<Rightarrow> db" where
  "remind event lo hi db =
     fold (\<lambda>i. notifyOnce (i_id i) event ''instance_retention'' (i_owner i)) (filter (reminderRow lo hi db) (instances db)) db"

definition notifyRetentionReminders :: "db \<Rightarrow> db" where
  "notifyRetentionReminders db = remind ''purge_1d'' 0 day (remind ''purge_7d'' (6 * day) (7 * day) db)"

definition scheduleLifecycle :: "(string \<Rightarrow> id \<Rightarrow> id) \<Rightarrow> db \<Rightarrow> db" where
  "scheduleLifecycle fresh db =
     notifyRetentionReminders
       (queueAllDue fresh Purge Destroyed i_purgeAt
         (queueAllDue fresh Destroy DestroyScheduled i_destroyAt
           (expireServices db)))"

section \<open>Synchronisation of instance states\<close>

definition syncRow :: "db \<Rightarrow> inst \<times> node \<Rightarrow> bool" where
  "syncRow db = (\<lambda>(i, n). i_node i = Some (n_id n) \<and> n_kind n = Platform \<and>
     (i_status i = Deploying \<or> i_status i = Running \<or> i_status i = Stopped \<or> i_status i = DestroyScheduled) \<and>
     i_runtime i \<noteq> Some Updating)"

definition observedNext :: "istatus \<Rightarrow> istatus option \<Rightarrow> string \<Rightarrow> istatus \<times> istatus option" where
  "observedNext stored runtime answer =
     (if answer = ''running'' then (if stored \<noteq> DestroyScheduled then Running else stored, Some Running)
      else if answer = ''exited'' \<or> answer = ''created''
      then (if stored \<noteq> DestroyScheduled then Stopped else stored, Some Stopped)
      else (stored, runtime))"

text \<open>\<open>probe\<close> is the status request, \<open>isMissing\<close> recognises the Agent's 404.\<close>

definition syncInstance ::
  "(inst \<Rightarrow> node \<Rightarrow> db \<Rightarrow> db \<times> (error + string)) \<Rightarrow> (error \<Rightarrow> bool) \<Rightarrow> inst \<times> node \<Rightarrow> db \<Rightarrow> db" where
  "syncInstance probe isMissing row db = (case row of (i, n) \<Rightarrow>
     (case (if n_enabled n then probe i n db else (db, Inl (Msg ''node disabled''))) of
        (d, Inl e) \<Rightarrow>
          if \<not> isMissing e then d
          else
            let p = (\<lambda>r. i_id r = i_id i \<and> i_status r = i_status i \<and> i_runtime r \<noteq> Some Missing);
                f = (\<lambda>r. r\<lparr>i_runtime := Some Missing\<rparr>); d1 = d\<lparr>instances := update p f (instances d)\<rparr>
            in if affected p f (instances d) = 1 then writeAudit ''system'' ''instance.runtime_missing'' (i_id i) d1 else d1
      | (d, Inr answer) \<Rightarrow>
          (case observedNext (i_status i) (i_runtime i) answer of (nxt, runtime) \<Rightarrow>
             if nxt = i_status i \<and> runtime = i_runtime i then d
             else transitionOr d (transitionInstance (i_id i) [i_status i] nxt runtime (\<lambda>r. r) d))))"

definition syncInstanceStates ::
  "(inst \<Rightarrow> node \<Rightarrow> db \<Rightarrow> db \<times> (error + string)) \<Rightarrow> (error \<Rightarrow> bool) \<Rightarrow> db \<Rightarrow> db" where
  "syncInstanceStates probe isMissing db =
     fold (syncInstance probe isMissing) (filter (syncRow db) (List.product (instances db) (nodes db))) db"

section \<open>Node heartbeats\<close>

record heartbeat =
  hb_apiVersion :: int
  hb_capabilities :: "string list"
  hb_cpu :: rat
  hb_memory :: int

definition heartbeatNodes :: "db \<Rightarrow> node list" where
  "heartbeatNodes db = filter (\<lambda>n. n_enabled n \<and> n_kind n = Platform) (nodes db)"

definition enabledNodes :: "duration \<Rightarrow> db \<Rightarrow> node list" where
  "enabledNodes ttl db = filter (\<lambda>n. n_enabled n \<and> n_kind n = Platform \<and> someAnd (\<lambda>h. now db - ttl \<le> h) (n_heartbeat n)) (nodes db)"

definition heartbeatRow :: "gotime \<Rightarrow> heartbeat \<Rightarrow> node \<Rightarrow> node" where
  "heartbeatRow t h n =
     (let m = n\<lparr>n_heartbeat := Some t, n_lastError := None, n_apiVersion := hb_apiVersion h, n_capabilities := hb_capabilities h\<rparr>
      in if hb_cpu h > 0 \<and> hb_memory h \<ge> 256 then m\<lparr>n_cpuDetected := hb_cpu h, n_memDetected := hb_memory h\<rparr> else m)"

definition beat :: "(node \<Rightarrow> db \<Rightarrow> db \<times> (error + heartbeat)) \<Rightarrow> node \<Rightarrow> db \<Rightarrow> db" where
  "beat probe n db =
     (case probe n db of
        (d, Inl e) \<Rightarrow> d\<lparr>nodes := update (\<lambda>m. n_id m = n_id n) (\<lambda>m. m\<lparr>n_lastError := Some (truncateError (errText e))\<rparr>) (nodes d)\<rparr>
      | (d, Inr h) \<Rightarrow> d\<lparr>nodes := update (\<lambda>m. n_id m = n_id n) (heartbeatRow (now d) h) (nodes d)\<rparr>)"

definition syncNodeHeartbeat :: "(node \<Rightarrow> db \<Rightarrow> db \<times> (error + heartbeat)) \<Rightarrow> db \<Rightarrow> db" where
  "syncNodeHeartbeat probe db = fold (beat probe) (heartbeatNodes db) db"

section \<open>Benefit programs\<close>

definition startsProgram :: "db \<Rightarrow> benefitProgram \<Rightarrow> bool" where
  "startsProgram db p \<longleftrightarrow> bp_status p = Scheduled \<and> noneOr (\<lambda>s. s \<le> now db) (bp_starts p) \<and> noneOr (\<lambda>e. now db < e) (bp_ends p)"

definition endsProgram :: "db \<Rightarrow> benefitProgram \<Rightarrow> bool" where
  "endsProgram db p \<longleftrightarrow> (bp_status p = Scheduled \<or> bp_status p = Active) \<and> someAnd (\<lambda>e. e \<le> now db) (bp_ends p)"

definition syncBenefitProgramStates :: "db \<Rightarrow> db" where
  "syncBenefitProgramStates db =
     (let d1 = db\<lparr>programs := update (startsProgram db) (\<lambda>p. p\<lparr>bp_status := Active\<rparr>) (programs db)\<rparr>;
          d2 = d1\<lparr>programs := update (endsProgram d1) (\<lambda>p. p\<lparr>bp_status := Ended\<rparr>) (programs d1)\<rparr>
      in d2\<lparr>codes := update (\<lambda>c. bc_enabled c \<and>
            list_ex (\<lambda>p. bp_id p = bc_program c \<and> (bp_status p = Paused \<or> bp_status p = Ended)) (programs d2))
          (\<lambda>c. c\<lparr>bc_enabled := False\<rparr>) (codes d2)\<rparr>)"

section \<open>Uncertain Agent operations\<close>

definition operationMatchesDesired :: "string \<Rightarrow> string \<Rightarrow> bool" where
  "operationMatchesDesired desired observed \<longleftrightarrow>
     (if desired = ''running'' then observed = ''running''
      else if desired = ''stopped'' then observed = ''exited'' \<or> observed = ''created''
      else desired = ''absent'' \<and> observed = ''absent'')"

definition finalizeSafeReconciledTask :: "id \<Rightarrow> id \<Rightarrow> action \<Rightarrow> istatus \<Rightarrow> id \<Rightarrow> db \<Rightarrow> bool \<times> db" where
  "finalizeSafeReconciledTask tid iid act lifecycle opID db =
     (if act \<notin> {Create, RetryDeploy, Start, Stop, Restart} then (False, db)
      else
        let nxt = (if act = Create \<or> act = RetryDeploy then Running
                   else if lifecycle = DestroyScheduled then lifecycle
                   else if act = Stop then Stopped else Running);
            runtime = (if act = Stop then Stopped else Running)
        in (case transitionInstance iid [lifecycle] nxt (Some runtime) (\<lambda>r. r) db of
              Inl _ \<Rightarrow> (False, db)
            | Inr (False, d) \<Rightarrow> (False, d)
            | Inr (True, d) \<Rightarrow>
                let d1 = (if nxt = Running \<and> (act = Create \<or> act = RetryDeploy \<or> act = Start) then activateOrders iid d else d);
                    p = (\<lambda>t. t_id t = tid \<and> t_status t = TaskReview \<and> t_agentOp t = Some opID);
                    f = (\<lambda>t. t\<lparr>t_status := TaskDone, t_lastError := None, t_finishedAt := Some (now d1),
                          t_agentState := Some OpSucceeded, t_updatedAt := now d1\<rparr>)
                in (affected p f (tasks d1) = 1, d1\<lparr>tasks := update p f (tasks d1)\<rparr>)))"

definition uncertain :: "agentOperation \<times> controlTask \<times> inst \<Rightarrow> bool" where
  "uncertain = (\<lambda>(x, t, i). t_id t = ao_task x \<and> i_id i = ao_instance x \<and> t_status t = TaskReview \<and>
     (ao_status x = OpRunning \<or> ao_status x = OpUnknown) \<and> i_selfhosted i)"

text \<open>\<open>ask\<close> is the request for the state the Agent sees.\<close>

definition reconcileOperation ::
  "(inst \<Rightarrow> node \<Rightarrow> id \<Rightarrow> db \<Rightarrow> db \<times> (error + string)) \<Rightarrow> agentOperation \<times> controlTask \<times> inst \<Rightarrow> db \<Rightarrow> db" where
  "reconcileOperation ask row db = (case row of (x, t, i) \<Rightarrow>
     (case select (\<lambda>n. n_id n = ao_node x) (nodes db) of
        None \<Rightarrow> db
      | Some n \<Rightarrow>
          if n_kind n \<noteq> SelfHosted \<or> \<not> n_enabled n then db
          else (case ask i n (ao_id x) db of
            (d, Inl _) \<Rightarrow> d
          | (d, Inr observed) \<Rightarrow>
              let d1 = d\<lparr>agentOperations := update (\<lambda>y. ao_id y = ao_id x)
                    (\<lambda>y. y\<lparr>ao_observed := (if observed = [] then None else Some observed)\<rparr>) (agentOperations d)\<rparr>
              in if \<not> operationMatchesDesired (ao_desired x) observed then d1
                 else (case finalizeSafeReconciledTask (ao_task x) (ao_instance x) (ao_action x) (i_status i) (ao_id x) d1 of
                         (False, d2) \<Rightarrow> d2
                       | (True, d2) \<Rightarrow>
                           writeAudit ''system'' ''task.agent_operation_reconciled'' (ao_task x)
                             (appendTaskEvent (ao_task x) ''agent_operation_reconciled''
                               (d2\<lparr>agentOperations := update (\<lambda>y. ao_id y = ao_id x)
                                  (\<lambda>y. y\<lparr>ao_status := OpSucceeded\<rparr>) (agentOperations d2)\<rparr>))))))"

definition reconcileUncertainSelfHostedOperations ::
  "(inst \<Rightarrow> node \<Rightarrow> id \<Rightarrow> db \<Rightarrow> db \<times> (error + string)) \<Rightarrow> db \<Rightarrow> db" where
  "reconcileUncertainSelfHostedOperations ask db =
     fold (reconcileOperation ask) (take 100 (filter uncertain
       (List.product (agentOperations db) (List.product (tasks db) (instances db))))) db"

section \<open>Frames\<close>

lemma insertEvent_frame:
  "insertEvent iid ev d = (b, d') \<Longrightarrow> instances d' = instances d \<and> tasks d' = tasks d \<and> now d' = now d \<and> orders d' = orders d"
  by (auto simp: insertEvent_def split: if_splits)

lemma notifyOnce_frame [simp]:
  "instances (notifyOnce iid ev k u d) = instances d" "tasks (notifyOnce iid ev k u d) = tasks d"
  "now (notifyOnce iid ev k u d) = now d" "orders (notifyOnce iid ev k u d) = orders d"
  by (auto simp: notifyOnce_def insertEvent_def)

lemma notifyDestroy_frame [simp]:
  "instances (notifyDestroyScheduled iid w d) = instances d" "tasks (notifyDestroyScheduled iid w d) = tasks d"
  "now (notifyDestroyScheduled iid w d) = now d" "orders (notifyDestroyScheduled iid w d) = orders d"
  by (auto simp: notifyDestroyScheduled_def split: option.split)

lemma fold_frame:
  assumes "\<And>i d. f (step i d) = f d" shows "f (fold step xs d) = f d"
  using assms by (induction xs arbitrary: d) simp_all

lemma reminders_frame [simp]:
  "instances (notifyRetentionReminders d) = instances d" "tasks (notifyRetentionReminders d) = tasks d"
  "now (notifyRetentionReminders d) = now d"
  unfolding notifyRetentionReminders_def remind_def by (simp_all add: fold_frame)

lemma frameSet_expired [simp]: "frameSet expiredRow"
  by (simp add: frameSet_def expiredRow_def)

section \<open>Expiry\<close>

definition scheduledInst :: "inst \<Rightarrow> inst \<Rightarrow> inst" where
  "scheduledInst i x = (if i_status x = Running \<or> i_status x = Stopped
     then transitionRow DestroyScheduled (Some (i_status i)) expiredRow x else x)"

lemma scheduledInst_id: "i_id (scheduledInst i x) = i_id x"
  using transitionRow_frame [OF frameSet_expired] by (simp add: scheduledInst_def)

lemma expire_step: "instances (expireInstance i d) = map (\<lambda>x. if i_id x = i_id i then scheduledInst i x else x) (instances d)"
proof -
  let ?p = "\<lambda>x. i_id x = i_id i \<and> (i_status x = Running \<or> i_status x = Stopped)"
  let ?f = "transitionRow DestroyScheduled (Some (i_status i)) expiredRow"
  have "transitionInstance (i_id i) [Running, Stopped] DestroyScheduled (Some (i_status i)) expiredRow d
      = Inr (affected ?p ?f (instances d) = 1, d\<lparr>instances := update ?p ?f (instances d)\<rparr>)"
    by (simp add: transitionInstance_def canTransitionInstance_def Let_def)
  moreover have "update ?p ?f (instances d) = map (\<lambda>x. if i_id x = i_id i then scheduledInst i x else x) (instances d)"
    by (auto simp: update_def scheduledInst_def)
  ultimately show ?thesis
    by (cases "affected ?p ?f (instances d) = 1") (simp_all add: expireInstance_def expireOrders_def)
qed

lemma expire_frame [simp]: "tasks (expireInstance i d) = tasks d" "now (expireInstance i d) = now d"
  by (auto simp: expireInstance_def expireOrders_def dest: transition_frame split: sum.split bool.split)

lemma expireServices_frame [simp]: "tasks (expireServices d) = tasks d" "now (expireServices d) = now d"
  unfolding expireServices_def by (simp_all add: fold_frame)

lemma expireServices_rows:
  assumes "instTab.unique d"
  shows "instances (expireServices d) = map (\<lambda>x. if overdue d x then scheduledInst x x else x) (instances d)"
  unfolding expireServices_def
  by (rule instTab.fold_filter_rows [OF assms expire_step]) (rule scheduledInst_id)

section \<open>Queued lifecycle tasks\<close>

text \<open>What a loop adds to the task table.\<close>

definition addsTasks :: "(controlTask \<Rightarrow> bool) \<Rightarrow> db \<Rightarrow> db \<Rightarrow> bool" where
  "addsTasks P d d' \<longleftrightarrow> instances d' = instances d \<and> now d' = now d \<and> (\<exists>ts. tasks d' = tasks d @ ts \<and> (\<forall>t \<in> set ts. P t))"

lemma addsTasks_refl: "addsTasks P d d" by (simp add: addsTasks_def)

lemma addsTasks_trans: "addsTasks P d e \<Longrightarrow> addsTasks P e f \<Longrightarrow> addsTasks P d f"
  by (fastforce simp: addsTasks_def)

lemma addsTasks_mono: "addsTasks P d e \<Longrightarrow> (\<And>t. P t \<Longrightarrow> Q t) \<Longrightarrow> addsTasks Q d e"
  by (auto simp: addsTasks_def)

lemma schedule_adds:
  assumes "scheduleLifecycleTaskAt tid iid act at_time run d = Inr (t, d')"
  shows "addsTasks (\<lambda>x. x = newTask tid iid act (LifecycleKey act iid at_time) run (now d)) d d'"
  using assms
  by (auto simp: scheduleLifecycleTaskAt_def Let_def addsTasks_def orElse_Inr_iff bindE_Inr_iff insertTask_def split: sum.splits if_splits)

definition dueTask :: "action \<Rightarrow> (inst \<Rightarrow> gotime option) \<Rightarrow> inst \<Rightarrow> gotime \<Rightarrow> controlTask \<Rightarrow> bool" where
  "dueTask act moment i n t \<longleftrightarrow> t_instance t = i_id i \<and> t_action t = act \<and> t_status t = TaskPending \<and> t_runAfter t = n \<and>
     (\<exists>m. moment i = Some m \<and> t_key t = LifecycleKey act (i_id i) m)"

lemma queueDue_adds: "addsTasks (dueTask act moment i (now d)) d (queueDue fresh act moment i d)"
proof (cases "moment i")
  case (Some m)
  show ?thesis
  proof (cases "scheduleLifecycleTask (fresh (actionName act) (i_id i)) (i_id i) act m d")
    case (Inr x)
    then obtain t d' where x: "scheduleLifecycleTask (fresh (actionName act) (i_id i)) (i_id i) act m d = Inr (t, d')" by (cases x) auto
    have "addsTasks (dueTask act moment i (now d)) d d'"
      by (rule addsTasks_mono [OF schedule_adds [OF x [unfolded scheduleLifecycleTask_def]]])
        (simp add: dueTask_def newTask_def Some)
    then show ?thesis by (simp add: queueDue_def Some x)
  qed (simp add: queueDue_def Some addsTasks_refl)
qed (simp add: queueDue_def addsTasks_refl)

lemma queueDue_fold: "addsTasks (\<lambda>t. \<exists>i \<in> set xs. dueTask act moment i (now d) t) d (fold (queueDue fresh act moment) xs d)"
proof (induction xs arbitrary: d)
  case (Cons i xs)
  let ?e = "queueDue fresh act moment i d"
  let ?P = "\<lambda>t. \<exists>j \<in> set (i # xs). dueTask act moment j (now d) t"
  have s: "addsTasks (dueTask act moment i (now d)) d ?e" by (rule queueDue_adds)
  then have "now ?e = now d" by (simp add: addsTasks_def)
  with Cons.IH [of ?e] have "addsTasks (\<lambda>t. \<exists>j \<in> set xs. dueTask act moment j (now d) t) ?e (fold (queueDue fresh act moment) xs ?e)"
    by simp
  then have "addsTasks ?P ?e (fold (queueDue fresh act moment) xs ?e)" by (rule addsTasks_mono) auto
  moreover have "addsTasks ?P d ?e" by (rule addsTasks_mono [OF s]) auto
  ultimately show ?case using addsTasks_trans by simp
qed (simp add: addsTasks_refl)

lemma queueAllDue_adds:
  "addsTasks (\<lambda>t. \<exists>i \<in> set (instances d). due act st moment d i \<and> dueTask act moment i (now d) t) d (queueAllDue fresh act st moment d)"
  unfolding queueAllDue_def
  by (rule addsTasks_mono [OF queueDue_fold [where xs = "filter (due act st moment d) (instances d)"]]) auto

section \<open>Orders of an expired service\<close>

lemma expire_step_orders:
  assumes u: "instTab.unique d" and i: "i \<in> set (instances d)" and s: "i_status i = Running \<or> i_status i = Stopped"
  shows "orders (expireInstance i d) = orders (expireOrders (i_id i) d)"
proof -
  let ?p = "\<lambda>x. i_id x = i_id i \<and> (i_status x = Running \<or> i_status x = Stopped)"
  let ?f = "transitionRow DestroyScheduled (Some (i_status i)) expiredRow"
  have "i_status (?f i) = DestroyScheduled" using transitionRow_frame [OF frameSet_expired] by blast
  then have "?f i \<noteq> i" using s by auto
  moreover have "affected ?p ?f (instances d) = 1 \<longleftrightarrow> ?p i \<and> ?f i \<noteq> i"
    by (rule instTab.affected_key [OF u i]) simp
  ultimately have "affected ?p ?f (instances d) = 1" using s by simp
  then show ?thesis
    by (simp add: expireInstance_def transitionInstance_def canTransitionInstance_def Let_def expireOrders_def)
qed

lemma expire_keeps_unique: "instTab.unique d \<Longrightarrow> instTab.unique (expireInstance i d)"
  by (simp add: instTab.unique_def expire_step comp_def if_distrib scheduledInst_id cong: if_cong)

lemma expire_other_row: "x \<in> set (instances d) \<Longrightarrow> i_id x \<noteq> i_id i \<Longrightarrow> x \<in> set (instances (expireInstance i d))"
  by (force simp: expire_step)

definition orderExpires :: "inst list \<Rightarrow> order \<Rightarrow> bool" where
  "orderExpires xs r \<longleftrightarrow> (\<exists>i \<in> set xs. o_instance r = Some (i_id i)) \<and> (o_status r = OrderActive \<or> o_status r = OrderDeploy)"

lemma expire_fold_orders:
  assumes "instTab.unique d" "distinct (map i_id xs)" "set xs \<subseteq> set (instances d)"
    and "\<forall>i \<in> set xs. i_status i = Running \<or> i_status i = Stopped"
  shows "orders (fold expireInstance xs d)
    = update (orderExpires xs) (\<lambda>r. r\<lparr>o_status := OrderExpired, o_updatedAt := now d\<rparr>) (orders d)"
  using assms
proof (induction xs arbitrary: d)
  case Nil
  then show ?case by (simp add: orderExpires_def update_def)
next
  case (Cons i xs)
  let ?e = "expireInstance i d"
  have "i_id x \<noteq> i_id i" if "x \<in> set xs" for x
    using Cons.prems(2) that by (metis distinct.simps(2) imageI list.set_map list.simps(9))
  then have "set xs \<subseteq> set (instances ?e)" using Cons.prems(3) expire_other_row by fastforce
  with Cons have "orders (fold expireInstance xs ?e)
      = update (orderExpires xs) (\<lambda>r. r\<lparr>o_status := OrderExpired, o_updatedAt := now d\<rparr>) (orders ?e)"
    by (simp add: expire_keeps_unique)
  also have "orders ?e = orders (expireOrders (i_id i) d)" using Cons.prems by (intro expire_step_orders) auto
  finally show ?case by (auto simp: expireOrders_def orderExpires_def update_def)
qed

section \<open>Properties of the lifecycle loop\<close>


text \<open>C28. C20. Only what is due is queued: one pass of \<open>scheduleLifecycle\<close> leaves every stored task alone and
  adds only pending tasks, runnable at once, each the destruction of an instance in \<open>destroy_scheduled\<close>
  whose destruction time has come or the purge of a destroyed instance whose retention is over.\<close>

theorem lifecycle_tasks_due:
  "\<exists>ts. tasks (scheduleLifecycle fresh d) = tasks d @ ts \<and>
     (\<forall>t \<in> set ts. t_status t = TaskPending \<and> t_runAfter t = now d \<and>
        (\<exists>i \<in> set (instances (scheduleLifecycle fresh d)). t_instance t = i_id i \<and>
           (t_action t = Destroy \<and> i_status i = DestroyScheduled \<and> (\<exists>m. i_destroyAt i = Some m \<and> m \<le> now d)
            \<or> t_action t = Purge \<and> i_status i = Destroyed \<and> (\<exists>m. i_purgeAt i = Some m \<and> m \<le> now d))))"
proof -
  let ?a = "expireServices d" let ?b = "queueAllDue fresh Destroy DestroyScheduled i_destroyAt ?a"
  let ?c = "queueAllDue fresh Purge Destroyed i_purgeAt ?b"
  let ?Q = "\<lambda>t. t_status t = TaskPending \<and> t_runAfter t = now d \<and> (\<exists>i \<in> set (instances ?a). t_instance t = i_id i \<and>
           (t_action t = Destroy \<and> i_status i = DestroyScheduled \<and> (\<exists>m. i_destroyAt i = Some m \<and> m \<le> now d)
            \<or> t_action t = Purge \<and> i_status i = Destroyed \<and> (\<exists>m. i_purgeAt i = Some m \<and> m \<le> now d)))"
  have ab: "addsTasks ?Q ?a ?b"
    by (rule addsTasks_mono [OF queueAllDue_adds]) (auto simp: due_def dueTask_def someAnd_iff)
  then have b: "instances ?b = instances ?a" "now ?b = now d" by (auto simp: addsTasks_def)
  have bc: "addsTasks ?Q ?b ?c"
    by (rule addsTasks_mono [OF queueAllDue_adds]) (auto simp: due_def dueTask_def someAnd_iff b)
  have "addsTasks ?Q ?a ?c" by (rule addsTasks_trans [OF ab bc])
  then show ?thesis by (auto simp: addsTasks_def scheduleLifecycle_def)
qed

text \<open>A spent key blocks the destruction: once a destroy task for the scheduled moment of an instance
  exists and is no longer pending or running (failed, discarded by an administrator or succeeded), the
  loop tries to queue the destruction in every pass, but \<open>INSERT IGNORE\<close> keeps the old task: no task
  of the instance is added and it stays in \<open>destroy_scheduled\<close>.\<close>

theorem spent_key_never_requeued:
  assumes "old \<in> set (tasks d)" and "t_key old = LifecycleKey Destroy (i_id i) m" and "i_destroyAt i = Some m"
  shows "queueDue fresh Destroy i_destroyAt i d = d"
proof -
  have "t_key old \<in> t_key ` set (tasks d)" using assms(1) by simp
  then have "insertTask (newTask tid (i_id i) Destroy (LifecycleKey Destroy (i_id i) m) t u) d = Inl ErrDuplicate" for tid t u
    using assms(2) by (simp add: insertTask_def newTask_def)
  then show ?thesis
    by (simp add: queueDue_def assms(3) scheduleLifecycleTask_def scheduleLifecycleTaskAt_def Let_def orElse_def bindE_def split: option.split)
qed

text \<open>The announcement of an expiry is sent once in the life of an instance: its event is recorded
  when the first expiry is announced and renewal does not clear it, so when every service that expires
  now expired before, nobody is notified although each of them is scheduled for destruction.\<close>

theorem second_expiry_silent:
  assumes "\<forall>i \<in> set (instances d). overdue d i \<longrightarrow> (i_id i, ''destroy_scheduled_expired'') \<in> set (notificationEvents d)"
  shows "notifications (expireServices d) = notifications d"
proof -
  have step: "notifications (expireInstance i e) = notifications e \<and> notificationEvents (expireInstance i e) = notificationEvents e"
    if "(i_id i, ''destroy_scheduled_expired'') \<in> set (notificationEvents e)" for i e
    using that
    by (auto simp: expireInstance_def expireOrders_def notifyDestroyScheduled_def notifyOnce_def insertEvent_def writeAudit_def
        dest!: transition_Inr split: sum.split bool.split option.split)
  have "notifications (fold expireInstance xs e) = notifications e"
    if "\<forall>i \<in> set xs. (i_id i, ''destroy_scheduled_expired'') \<in> set (notificationEvents e)" for xs e
    using that by (induction xs arbitrary: e) (simp_all add: step)
  then show ?thesis using assms by (simp add: expireServices_def)
qed

section \<open>Properties of the synchronisation\<close>

text \<open>What the synchronisation may do to a row.\<close>

definition observedRow :: "inst \<Rightarrow> inst \<Rightarrow> bool" where
  "observedRow x y \<longleftrightarrow> (\<exists>s rt. y = x\<lparr>i_status := s, i_runtime := rt\<rparr> \<and>
     (s = i_status x \<or> i_status x \<in> {Deploying, Running, Stopped} \<and> s \<in> {Running, Stopped}))"

lemma observedRow_refl: "observedRow x x"
  unfolding observedRow_def by (rule exI [of _ "i_status x"], rule exI [of _ "i_runtime x"]) simp

lemma observedRow_trans: "observedRow x y \<Longrightarrow> observedRow y z \<Longrightarrow> observedRow x z"
  unfolding observedRow_def by (elim exE conjE, rule exI, rule exI, rule conjI, erule trans, simp) auto

lemma observedRows_update:
  assumes "\<And>r. p r \<Longrightarrow> observedRow r (f r)" shows "list_all2 observedRow t (update p f t)"
  using assms by (induction t) (auto simp: observedRow_refl)

lemma observedNext_cases:
  assumes "observedNext st rt a = (n, rt')"
  shows "n = st \<or> st \<noteq> DestroyScheduled \<and> n \<in> {Running, Stopped}"
  using assms by (auto simp: observedNext_def split: if_splits)

lemma syncInstance_rows:
  assumes q: "\<And>i n e. instances (fst (probe i n e)) = instances e" and r: "syncRow d0 (i, n)"
  shows "list_all2 observedRow (instances d) (instances (syncInstance probe isMissing (i, n) d))"
proof -
  obtain e a where e: "(if n_enabled n then probe i n d else (d, Inl (Msg ''node disabled''))) = (e, a)" by fastforce
  then have ie: "instances e = instances d" using q [of i n d] by (auto split: if_splits)
  have st: "i_status i \<in> {Deploying, Running, Stopped, DestroyScheduled}" using r by (auto simp: syncRow_def)
  show ?thesis
  proof (cases a)
    case (Inl err)
    have "list_all2 observedRow (instances d) (update (\<lambda>r. i_id r = i_id i \<and> i_status r = i_status i \<and> i_runtime r \<noteq> Some Missing)
        (\<lambda>r. r\<lparr>i_runtime := Some Missing\<rparr>) (instances d))"
    proof (rule observedRows_update)
      show "observedRow r (r\<lparr>i_runtime := Some Missing\<rparr>)" for r
        unfolding observedRow_def by (rule exI [of _ "i_status r"], rule exI [of _ "Some Missing"]) simp
    qed
    then show ?thesis
      by (simp add: syncInstance_def e Inl Let_def ie list.rel_refl observedRow_refl)
  next
    case (Inr ans)
    obtain nx rt where nx: "observedNext (i_status i) (i_runtime i) ans = (nx, rt)" by fastforce
    have "list_all2 observedRow (instances d) (update (\<lambda>r. i_id r = i_id i \<and> i_status r \<in> set [i_status i]) (transitionRow nx rt (\<lambda>r. r)) (instances d))"
    proof (rule observedRows_update)
      fix r :: inst assume "i_id r = i_id i \<and> i_status r \<in> set [i_status i]"
      then have "i_status r = i_status i" by simp
      moreover have "transitionRow nx rt (\<lambda>r. r) r = r\<lparr>i_status := nx, i_runtime := (if rt = None then i_runtime r else rt)\<rparr>"
        by (auto simp: transitionRow_def split: option.split)
      moreover have "nx = i_status i \<or> i_status i \<in> {Deploying, Running, Stopped} \<and> nx \<in> {Running, Stopped}"
        using observedNext_cases [OF nx] st by blast
      ultimately show "observedRow r (transitionRow nx rt (\<lambda>r. r) r)"
        unfolding observedRow_def
        by (intro exI [of _ nx] exI [of _ "if rt = None then i_runtime r else rt"] conjI) simp_all
    qed
    then show ?thesis
      by (auto simp: syncInstance_def e Inr nx ie transitionOr_def list.rel_refl observedRow_refl dest!: transition_Inr split: sum.split)
  qed
qed

text \<open>Synchronisation is no lifecycle decision: when the probes themselves write nothing, a pass
  changes only the status and the runtime status of instance rows. The status moves only among
  deploying, running and stopped, towards running or stopped, and every schedule, lock, expiry and
  generation is kept; an instance waiting for its destruction keeps waiting.\<close>

theorem sync_spares_lifecycle:
  assumes "\<And>i n e. instances (fst (probe i n e)) = instances e"
  shows "list_all2 (\<lambda>x y. \<exists>s rt. y = x\<lparr>i_status := s, i_runtime := rt\<rparr> \<and>
      (s = i_status x \<or> i_status x \<in> {Deploying, Running, Stopped} \<and> s \<in> {Running, Stopped}))
    (instances d) (instances (syncInstanceStates probe isMissing d))"
proof -
  have "list_all2 observedRow (instances e) (instances (fold (syncInstance probe isMissing) xs e))"
    if "\<forall>x \<in> set xs. syncRow d x" for xs e
    using that
  proof (induction xs arbitrary: e)
    case (Cons x xs)
    have "list_all2 observedRow (instances e) (instances (syncInstance probe isMissing x e))"
      using Cons.prems syncInstance_rows [OF assms, of d "fst x" "snd x"] by simp
    moreover have "list_all2 observedRow (instances (syncInstance probe isMissing x e)) (instances (fold (syncInstance probe isMissing) xs (syncInstance probe isMissing x e)))"
      using Cons by simp
    ultimately show ?case by (auto intro: list_all2_trans [OF observedRow_trans])
  qed (simp add: list.rel_refl observedRow_refl)
  then show ?thesis unfolding syncInstanceStates_def observedRow_def [abs_def, symmetric] by simp
qed

text \<open>The synchronisation can overtake the worker: when it sees the new container running before
  the create request returns, the row already says running, and \<open>executeTask\<close> finds nothing to
  change: the task succeeds but the order stays deploying for ever.\<close>

theorem create_after_sync:
  assumes u: "instTab.unique d" and i: "x \<in> set (instances d)" "i_id x = i_id i" "i_status x = Running"
    and pl: "instanceRuntimePayload (i_id i) (i_container i) (i_route i) db = Inr pl"
    and call: "nodeRequest call op n (ReqCreate pl) db = (d, Inr a)"
  shows "executeCreate call op i n db = (None, d)"
proof -
  have "i_status y \<noteq> Deploying" if "y \<in> set (instances d)" "i_id y = i_id i" for y
    using instTab.key_unique [OF u that(1) i(1)] that i by simp
  then have "update (\<lambda>r. i_id r = i_id i \<and> i_status r \<in> set [Deploying]) (transitionRow Running (Some Running) (\<lambda>r. r)) (instances d) = instances d"
    by (intro update_id) auto
  moreover from this have "affected (\<lambda>r. i_id r = i_id i \<and> i_status r \<in> set [Deploying]) (transitionRow Running (Some Running) (\<lambda>r. r)) (instances d) = 0"
    by (simp add: affected_0)
  ultimately show ?thesis
    by (simp add: executeCreate_def pl tryE_def callThen_def call deployed_def transitionThen_def transitionInstance_def canTransitionInstance_def Let_def)
qed

section \<open>Properties of the reconciliation\<close>

definition reconcilable :: "action set" where
  "reconcilable = {Create, RetryDeploy, Start, Stop, Restart}"

lemma finalize_tasks:
  "\<exists>p f. tasks (snd (finalizeSafeReconciledTask tid iid act lc op d)) = update p f (tasks d) \<and>
     (\<forall>t. p t \<longrightarrow> t_id t = tid \<and> act \<in> reconcilable)"
proof (cases "finalizeSafeReconciledTask tid iid act lc op d = (False, d) \<or> act \<notin> reconcilable")
  case True
  then have "tasks (snd (finalizeSafeReconciledTask tid iid act lc op d)) = update (\<lambda>t. False) id (tasks d)"
    by (auto simp: finalizeSafeReconciledTask_def reconcilable_def update_def)
  then show ?thesis by blast
next
  case False
  let ?nx = "if act = Create \<or> act = RetryDeploy then Running else if lc = DestroyScheduled then lc else if act = Stop then Stopped else Running"
  let ?rt = "if act = Stop then Stopped else Running"
  show ?thesis
  proof (cases "transitionInstance iid [lc] ?nx (Some ?rt) (\<lambda>r. r) d")
    case (Inr r)
    obtain b e where r: "transitionInstance iid [lc] ?nx (Some ?rt) (\<lambda>r. r) d = Inr (b, e)" using Inr by (cases r) auto
    have e: "tasks e = tasks d" by (rule transition_frame [OF r])
    show ?thesis
    proof (cases b)
      case True
      then show ?thesis using False r e unfolding finalizeSafeReconciledTask_def
        by (auto simp: Let_def reconcilable_def activateOrders_def)
    next
      case b: False
      have "tasks (snd (finalizeSafeReconciledTask tid iid act lc op d)) = update (\<lambda>t. False) id (tasks d)"
        using False r e b by (auto simp: finalizeSafeReconciledTask_def Let_def reconcilable_def update_def)
      then show ?thesis by blast
    qed
  next
    case (Inl e)
    have "tasks (snd (finalizeSafeReconciledTask tid iid act lc op d)) = update (\<lambda>t. False) id (tasks d)"
      using False Inl by (auto simp: finalizeSafeReconciledTask_def Let_def update_def)
    then show ?thesis by blast
  qed
qed

lemma reconcile_step:
  assumes q: "\<And>i n op e. tasks (fst (ask i n op e)) = tasks e" and t: "t \<in> set (tasks d)"
    and x: "ao_task x = t_id t \<Longrightarrow> ao_action x \<notin> reconcilable"
  shows "t \<in> set (tasks (reconcileOperation ask (x, r, i) d))"
proof (cases "select (\<lambda>n. n_id n = ao_node x) (nodes d)")
  case (Some n)
  obtain e a where e: "ask i n (ao_id x) d = (e, a)" by fastforce
  then have te: "tasks e = tasks d" using q [of i n "ao_id x" d] by simp
  show ?thesis
  proof (cases a)
    case (Inr obs)
    let ?d1 = "e\<lparr>agentOperations := update (\<lambda>y. ao_id y = ao_id x) (\<lambda>y. y\<lparr>ao_observed := (if obs = [] then None else Some obs)\<rparr>) (agentOperations e)\<rparr>"
    obtain b d2 where f: "finalizeSafeReconciledTask (ao_task x) (ao_instance x) (ao_action x) (i_status i) (ao_id x) ?d1 = (b, d2)" by fastforce
    obtain p g where pg: "tasks d2 = update p g (tasks d)" "\<And>s. p s \<Longrightarrow> t_id s = ao_task x \<and> ao_action x \<in> reconcilable"
      using finalize_tasks [of "ao_task x" "ao_instance x" "ao_action x" "i_status i" "ao_id x" ?d1] f te by auto
    have "\<not> p t" using pg(2) x by auto
    then have "t \<in> set (tasks d2)" using t by (auto simp: pg(1) in_update)
    then show ?thesis using t by (simp add: reconcileOperation_def Some e Inr te f Let_def split: bool.split)
  qed (simp add: reconcileOperation_def Some e te t)
qed (simp add: reconcileOperation_def t)

text \<open>Reconciliation never guesses: a task whose recorded Agent operations are all of the other kinds
  (resize, update, reinstallation, host access, destruction, purge) is left exactly as it is,
  whatever the Agent reports about the container.\<close>

theorem reconcile_spares_dangerous:
  assumes "\<And>i n op e. tasks (fst (ask i n op e)) = tasks e" and "t \<in> set (tasks d)"
    and "\<forall>x \<in> set (agentOperations d). ao_task x = t_id t \<longrightarrow> ao_action x \<notin> {Create, RetryDeploy, Start, Stop, Restart}"
  shows "t \<in> set (tasks (reconcileUncertainSelfHostedOperations ask d))"
proof -
  have "t \<in> set (tasks (fold (reconcileOperation ask) rows e))"
    if "t \<in> set (tasks e)" "\<forall>(x, s, i) \<in> set rows. ao_task x = t_id t \<longrightarrow> ao_action x \<notin> reconcilable" for rows e
    using that
  proof (induction rows arbitrary: e)
    case (Cons row rows)
    obtain x s i where row: "row = (x, s, i)" by (cases row)
    have "t \<in> set (tasks (reconcileOperation ask row e))"
      unfolding row by (rule reconcile_step [OF assms(1) Cons.prems(1)]) (use Cons.prems(2) row in auto)
    then show ?case using Cons by simp
  qed simp
  moreover have "\<forall>(x, s, i) \<in> set (take 100 (filter uncertain (List.product (agentOperations d) (List.product (tasks d) (instances d))))).
      ao_task x = t_id t \<longrightarrow> ao_action x \<notin> reconcilable"
    using assms(3) by (auto simp: reconcilable_def dest!: in_set_takeD)
  ultimately show ?thesis using assms(2) unfolding reconcileUncertainSelfHostedOperations_def by blast
qed

text \<open>A restart is never reconciled: the row of a running instance already says running, so the
  conditional update changes nothing and reports no row, \<open>finalizeSafeReconciledTask\<close> gives up, and
  the task stays in review although the Agent reports the desired state.\<close>

theorem restart_never_reconciled:
  assumes u: "instTab.unique d" and i: "i \<in> set (instances d)" "i_status i = Running" "i_runtime i = Some Running"
  shows "finalizeSafeReconciledTask tid (i_id i) Restart Running op d = (False, d)"
proof -
  let ?p = "\<lambda>r. i_id r = i_id i \<and> i_status r \<in> set [Running]" and ?f = "transitionRow Running (Some Running) (\<lambda>r. r)"
  have "?f i = i" using i by (simp add: transitionRow_def)
  then have "update ?p ?f (instances d) = instances d"
    using instTab.key_unique [OF u _ i(1)] by (intro update_id) metis
  moreover from this have "affected ?p ?f (instances d) = 0" by (simp add: affected_0)
  ultimately show ?thesis
    by (simp add: finalizeSafeReconciledTask_def transitionInstance_def Let_def)
qed

section \<open>Properties of heartbeats and programs\<close>

interpretation nodeTab: keyed_table nodes nodes_update n_id
  by unfold_locales (auto simp: comp_def)

lemma heartbeatRow_frame:
  "n_id (heartbeatRow t h n) = n_id n" "n_enabled (heartbeatRow t h n) = n_enabled n"
  "n_kind (heartbeatRow t h n) = n_kind n" "n_heartbeat (heartbeatRow t h n) = Some t"
  by (simp_all add: heartbeatRow_def Let_def)

lemma beat_row:
  assumes q: "fst (probe m e) = e" and y: "y \<in> set (nodes e)"
  shows "\<exists>z \<in> set (nodes (beat probe m e)). n_id z = n_id y \<and> n_enabled z = n_enabled y \<and> n_kind z = n_kind y \<and>
    (n_heartbeat z = n_heartbeat y \<or> n_heartbeat z = Some (now e)) \<and>
    (n_id m = n_id y \<and> (\<exists>h. snd (probe m e) = Inr h) \<longrightarrow> n_heartbeat z = Some (now e))"
proof -
  obtain r where r: "probe m e = (e, r)" using q by (cases "probe m e") auto
  define g where "g = (case r of Inl x \<Rightarrow> (\<lambda>m. m\<lparr>n_lastError := Some (truncateError (errText x))\<rparr>) | Inr h \<Rightarrow> heartbeatRow (now e) h)"
  have n: "nodes (beat probe m e) = update (\<lambda>x. n_id x = n_id m) g (nodes e)"
    by (simp add: beat_def r g_def split: sum.split)
  let ?z = "if n_id y = n_id m then g y else y"
  have "?z \<in> set (nodes (beat probe m e))" using y by (auto simp: n in_update)
  then show ?thesis by (rule bexI [rotated]) (auto simp: r g_def heartbeatRow_frame split: sum.split)
qed

text \<open>A node comes back: every enabled platform node that answers its probe counts as healthy after one
  pass, however old its last heartbeat is or if it never had one, provided the probes write nothing.\<close>

theorem heartbeat_heals:
  assumes n: "n \<in> set (nodes d)" "n_enabled n" "n_kind n = Platform"
    and q: "\<And>m e. fst (probe m e) = e" and a: "\<And>e. \<exists>h. snd (probe n e) = Inr h" and ttl: "ttl \<ge> 0"
  shows "n_id n \<in> n_id ` set (enabledNodes ttl (syncNodeHeartbeat probe d))"
proof -
  have nw: "now (beat probe m e) = now e" for m e using q [of m e] by (auto simp: beat_def split: prod.split sum.split)
  have fnow: "now (fold (beat probe) xs e) = now e" for xs e by (rule fold_frame) (rule nw)
  have run: "\<exists>z \<in> set (nodes (fold (beat probe) xs e)). n_id z = n_id n \<and> n_enabled z \<and> n_kind z = Platform \<and>
      (n \<in> set xs \<or> n_heartbeat y = Some (now e) \<longrightarrow> n_heartbeat z = Some (now e))"
    if "y \<in> set (nodes e)" "n_id y = n_id n" "n_enabled y" "n_kind y = Platform" for xs e y
    using that
  proof (induction xs arbitrary: e y)
    case (Cons m xs)
    obtain z where z: "z \<in> set (nodes (beat probe m e))" "n_id z = n_id y" "n_enabled z = n_enabled y" "n_kind z = n_kind y"
      "n_heartbeat z = n_heartbeat y \<or> n_heartbeat z = Some (now e)"
      "n_id m = n_id y \<and> (\<exists>h. snd (probe m e) = Inr h) \<longrightarrow> n_heartbeat z = Some (now e)"
      using beat_row [of probe m e y] q Cons.prems(1) by blast
    have "m = n \<Longrightarrow> n_heartbeat z = Some (now e)" using z(6) a Cons.prems(2) by simp
    moreover obtain w where "w \<in> set (nodes (fold (beat probe) xs (beat probe m e)))" "n_id w = n_id n" "n_enabled w" "n_kind w = Platform"
      "n \<in> set xs \<or> n_heartbeat z = Some (now e) \<longrightarrow> n_heartbeat w = Some (now e)"
      using Cons.IH [of z "beat probe m e"] z(1-4) Cons.prems by (auto simp: nw)
    ultimately show ?case using z(5) by auto
  qed auto
  have "n \<in> set (heartbeatNodes d)" using n by (simp add: heartbeatNodes_def)
  with run [OF n(1) refl n(2,3), of "heartbeatNodes d"] obtain z where z:
    "z \<in> set (nodes (syncNodeHeartbeat probe d))" "n_id z = n_id n" "n_enabled z" "n_kind z = Platform" "n_heartbeat z = Some (now d)"
    unfolding syncNodeHeartbeat_def by blast
  moreover have "now (syncNodeHeartbeat probe d) = now d" by (simp add: syncNodeHeartbeat_def fnow)
  ultimately have "z \<in> set (enabledNodes ttl (syncNodeHeartbeat probe d))" using ttl by (simp add: enabledNodes_def)
  then show ?thesis using z(2) by (metis imageI)
qed

text \<open>The two updates that start and end programs agree with one function of the row and the clock.\<close>

definition programState :: "gotime \<Rightarrow> benefitProgram \<Rightarrow> programStatus" where
  "programState t p = (if bp_status p \<noteq> Scheduled \<and> bp_status p \<noteq> Active then bp_status p
     else if someAnd (\<lambda>e. e \<le> t) (bp_ends p) then Ended
     else if bp_status p = Scheduled \<and> \<not> noneOr (\<lambda>s. s \<le> t) (bp_starts p) then Scheduled
     else Active)"


section \<open>The loops and the life of an instance\<close>

lemma path_log [simp]:
  "statusPath e (writeAudit a b c d) = statusPath e d" "statusPath e (appendTaskEvent x y d) = statusPath e d"
  "statusPath e (createNotification u v w d) = statusPath e d"
  by (simp_all add: statusPath_def)

lemma path_fold: "(\<And>i e. i \<in> set xs \<Longrightarrow> statusPath e (step i e)) \<Longrightarrow> statusPath d (fold step xs d)"
  by (induction xs arbitrary: d) (auto intro: statusPath_trans)

lemma expire_path: "statusPath d (expireInstance i d)"
proof (rule statusPath_update)
  show "instances (expireInstance i d) = update (\<lambda>x. i_id x = i_id i) (scheduledInst i) (instances d)"
    by (simp add: expire_step update_def)
qed (auto simp: scheduledInst_id scheduledInst_def transitionRow_frame canTransitionInstance_def)

lemma scheduleLifecycle_path: "statusPath d (scheduleLifecycle fresh d)"
proof -
  let ?a = "expireServices d"
  have p: "statusPath d ?a" unfolding expireServices_def by (rule path_fold) (rule expire_path)
  have "instances (queueAllDue fresh act st m e) = instances e" for act st m e
    using queueAllDue_adds [where act = act and st = st and moment = m and d = e and fresh = fresh] by (simp add: addsTasks_def)
  then have "instances (scheduleLifecycle fresh d) = instances ?a" by (simp add: scheduleLifecycle_def)
  then show ?thesis by (rule statusPath_trans [OF p statusPath_same])
qed

definition probeKeeps :: "(db \<Rightarrow> db \<Rightarrow> bool) \<Rightarrow> ('x \<Rightarrow> db \<Rightarrow> db \<times> 'y) \<Rightarrow> bool" where
  "probeKeeps R probe \<longleftrightarrow> (\<forall>x d. R d (fst (probe x d)))"

lemma sync_path:
  assumes "probeKeeps statusPath (\<lambda>(i, n). probe i n)" shows "statusPath d (syncInstanceStates probe isMissing d)"
  unfolding syncInstanceStates_def
proof (rule path_fold)
  fix x :: "inst \<times> node" and e
  obtain i n where x: "x = (i, n)" by (cases x)
  obtain e1 a where r: "(if n_enabled n then probe i n e else (e, Inl (Msg ''node disabled''))) = (e1, a)" by fastforce
  have "statusPath e (fst (probe i n e))" using assms by (auto simp: probeKeeps_def)
  then have p: "statusPath e e1" using r by (auto split: if_splits)
  have q: "statusPath e1 (e1\<lparr>instances := update g (\<lambda>r. r\<lparr>i_runtime := Some Missing\<rparr>) (instances e1)\<rparr>)" for g
    by (rule statusPath_update [where p = g and f = "\<lambda>r. r\<lparr>i_runtime := Some Missing\<rparr>"]) simp_all
  show "statusPath e (syncInstance probe isMissing x e)"
  proof (cases a)
    case (Inl err)
    then show ?thesis using statusPath_trans [OF p q] p by (simp add: x syncInstance_def r Let_def)
  next
    case (Inr ans)
    then show ?thesis using statusPath_trans [OF p transitionOr_path [OF frameSet_id]] p
      by (auto simp: x syncInstance_def r split: prod.split)
  qed
qed

lemma finalize_path: "statusPath d (snd (finalizeSafeReconciledTask tid iid act lc op d))"
proof (cases "act \<in> {Create, RetryDeploy, Start, Stop, Restart}")
  case True
  let ?nx = "if act = Create \<or> act = RetryDeploy then Running else if lc = DestroyScheduled then lc else if act = Stop then Stopped else Running"
  let ?rt = "if act = Stop then Stopped else Running"
  show ?thesis
  proof (cases "transitionInstance iid [lc] ?nx (Some ?rt) (\<lambda>r. r) d")
    case (Inr r)
    obtain b e where r: "transitionInstance iid [lc] ?nx (Some ?rt) (\<lambda>r. r) d = Inr (b, e)" using Inr by (cases r) auto
    have "instances (snd (finalizeSafeReconciledTask tid iid act lc op d)) = instances e"
      using True r by (cases b) (simp_all add: finalizeSafeReconciledTask_def Let_def activateOrders_def)
    then show ?thesis by (rule statusPath_trans [OF transition_path [OF frameSet_id r] statusPath_same])
  qed (use True in \<open>simp add: finalizeSafeReconciledTask_def Let_def\<close>)
qed (simp add: finalizeSafeReconciledTask_def)

lemma reconcile_path:
  assumes "probeKeeps statusPath (\<lambda>(i, n, op). ask i n op)" shows "statusPath d (reconcileUncertainSelfHostedOperations ask d)"
  unfolding reconcileUncertainSelfHostedOperations_def
proof (rule path_fold)
  fix row :: "agentOperation \<times> controlTask \<times> inst" and e
  obtain x t i where row: "row = (x, t, i)" by (cases row)
  have p: "statusPath e (fst (ask i n op e))" for n op using assms by (auto simp: probeKeeps_def)
  show "statusPath e (reconcileOperation ask row e)"
  proof (cases "select (\<lambda>n. n_id n = ao_node x) (nodes e)")
    case (Some n)
    obtain e1 a where r: "ask i n (ao_id x) e = (e1, a)" by fastforce
    then have e1: "statusPath e e1" using p [of n "ao_id x"] by simp
    show ?thesis
    proof (cases a)
      case (Inr obs)
      let ?d1 = "e1\<lparr>agentOperations := update (\<lambda>y. ao_id y = ao_id x) (\<lambda>y. y\<lparr>ao_observed := (if obs = [] then None else Some obs)\<rparr>) (agentOperations e1)\<rparr>"
      obtain b d2 where f: "finalizeSafeReconciledTask (ao_task x) (ao_instance x) (ao_action x) (i_status i) (ao_id x) ?d1 = (b, d2)" by fastforce
      have "statusPath ?d1 d2" using finalize_path [of ?d1 "ao_task x"] f by (metis snd_conv)
      moreover have d1: "statusPath e ?d1" by (rule statusPath_trans [OF e1 statusPath_same]) simp
      ultimately have "statusPath e d2" using statusPath_trans by blast
      with d1 show ?thesis
        by (auto simp: row reconcileOperation_def Some r Inr Let_def f intro: statusPath_trans [OF _ statusPath_same] split: bool.split)
    qed (simp add: row reconcileOperation_def Some r e1)
  qed (simp add: row reconcileOperation_def)
qed

section \<open>Concrete passes\<close>

definition exampleDue :: db where
  "exampleDue = (emptyDb 100)\<lparr>instances := [
     blankInst\<lparr>i_id := ''a'', i_status := Running, i_expires := Some 50\<rparr>,
     blankInst\<lparr>i_id := ''b'', i_status := DestroyScheduled, i_destroyAt := Some 90\<rparr>]\<rparr>"

lemma exampleDue_unique: "instTab.unique exampleDue"
  by (simp add: instTab.unique_def exampleDue_def emptyDb_def blankInst_def)


definition exampleNames :: "string \<Rightarrow> id \<Rightarrow> id" where
  "exampleNames a i = a @ i"

theorem lifecycle_tasks_due_witness:
  "\<exists>ts. tasks (scheduleLifecycle exampleNames exampleDue) = tasks exampleDue @ ts"
  using lifecycle_tasks_due [of exampleNames exampleDue] by blast

definition exampleSpent :: db where
  "exampleSpent = exampleDue\<lparr>tasks := [(newTask ''t'' ''b'' Destroy (LifecycleKey Destroy ''b'' 90) 90 90)\<lparr>t_status := TaskDiscarded\<rparr>]\<rparr>"

theorem spent_key_never_requeued_witness:
  "queueDue exampleNames Destroy i_destroyAt (blankInst\<lparr>i_id := ''b'', i_status := DestroyScheduled, i_destroyAt := Some 90\<rparr>) exampleSpent
     = exampleSpent"
  by (rule spent_key_never_requeued [where m = 90
        and old = "(newTask ''t'' ''b'' Destroy (LifecycleKey Destroy ''b'' 90) 90 90)\<lparr>t_status := TaskDiscarded\<rparr>"])
    (simp_all add: exampleSpent_def newTask_def)

theorem second_expiry_silent_witness:
  "notifications (expireServices (exampleDue\<lparr>notificationEvents := [(''a'', ''destroy_scheduled_expired'')]\<rparr>)) = []"
  using second_expiry_silent [of "exampleDue\<lparr>notificationEvents := [(''a'', ''destroy_scheduled_expired'')]\<rparr>"]
  by (simp add: exampleDue_def emptyDb_def blankInst_def overdue_def)

theorem sync_spares_lifecycle_witness:
  "length (instances (syncInstanceStates (\<lambda>i n d. (d, Inr ''exited'')) (\<lambda>e. False) exampleDue)) = 2"
  using list_all2_lengthD [OF sync_spares_lifecycle [of "\<lambda>i n d. (d, Inr ''exited'')" exampleDue "\<lambda>e. False"]]
  by (simp add: exampleDue_def)

theorem restart_never_reconciled_witness:
  "finalizeSafeReconciledTask ''t'' ''i'' Restart Running ''op'' ((emptyDb 0)\<lparr>instances := [exampleAlive]\<rparr>)
     = (False, (emptyDb 0)\<lparr>instances := [exampleAlive]\<rparr>)"
  using restart_never_reconciled [of "(emptyDb 0)\<lparr>instances := [exampleAlive]\<rparr>" exampleAlive "''t''" "''op''"]
  by (simp add: instTab.unique_def exampleAlive_def)

theorem create_after_sync_witness:
  "\<exists>d. executeCreate (\<lambda>op n r d. (d\<lparr>instances := [exampleAlive]\<rparr>, Inr [])) None exampleAlive exampleNode
     ((emptyDb 0)\<lparr>instances := [exampleAlive\<lparr>i_status := Deploying\<rparr>]\<rparr>) = (None, d)"
proof -
  let ?d = "(emptyDb 0)\<lparr>instances := [exampleAlive\<lparr>i_status := Deploying\<rparr>]\<rparr>"
  obtain pl where "instanceRuntimePayload (i_id exampleAlive) (i_container exampleAlive) (i_route exampleAlive) ?d = Inr pl"
    by (simp add: instanceRuntimePayload_def effectiveHostAccess_def Let_def exampleAlive_def)
  from create_after_sync [OF _ _ refl _ this, where d = "?d\<lparr>instances := [exampleAlive]\<rparr>" and a = "[]"
      and call = "\<lambda>op n r d. (d\<lparr>instances := [exampleAlive]\<rparr>, Inr [])" and op = None and n = exampleNode]
  show ?thesis by (simp add: instTab.unique_def exampleAlive_def nodeRequest_def exampleNode_def)
qed

theorem reconcile_spares_dangerous_witness:
  "exampleTask\<lparr>t_status := TaskReview\<rparr> \<in> set (tasks (reconcileUncertainSelfHostedOperations (\<lambda>i n op d. (d, Inr ''running''))
     (exampleLease\<lparr>tasks := [exampleTask\<lparr>t_status := TaskReview\<rparr>], agentOperations := []\<rparr>)))"
  by (rule reconcile_spares_dangerous) simp_all

theorem heartbeat_heals_witness:
  "n_id exampleNode \<in> n_id ` set (enabledNodes 5 (syncNodeHeartbeat
     (\<lambda>n d. (d, Inr \<lparr>hb_apiVersion = 1, hb_capabilities = [], hb_cpu = 4, hb_memory = 8192\<rparr>))
     ((emptyDb 1000)\<lparr>nodes := [exampleNode\<lparr>n_heartbeat := None\<rparr>, exampleNode]\<rparr>)))"
  by (rule heartbeat_heals) (simp_all add: exampleNode_def)


end
