(* ===== verification/Worker.thy ===== *)
theory Worker
  imports Executor
begin

text \<open>
  The task worker (\<open>task_queue.go\<close>): what one delivery of a queue message does, and the two loops that
  repair the task table: \<open>recoverExpiredTaskLeases\<close> and \<open>quarantineDangerousFailedTasks\<close>. A delivery is
  acknowledged, or refused for good (dead letter). The renewal goroutine, which runs while the Agent
  answers, is part of the Agent's effect on the database.
\<close>

section \<open>One delivery\<close>

datatype verdict = Ack | DeadLetter

text \<open>The latest Agent failure is kept with the node; \<open>nodeFailure\<close> recognises the texts that
  \<open>nodeRequest\<close> builds.\<close>

definition recordAgentError :: "(string \<Rightarrow> bool) \<Rightarrow> controlTask \<Rightarrow> error \<Rightarrow> db \<Rightarrow> db" where
  "recordAgentError nodeFailure task e db =
     (if nodeFailure (errText e) then
        db\<lparr>nodes := update (\<lambda>n. \<exists>i \<in> set (instances db). i_id i = t_instance task \<and> i_node i = Some (n_id n))
          (\<lambda>n. n\<lparr>n_lastError := Some (truncateError (errText e))\<rparr>) (nodes db)\<rparr>
      else db)"

definition processDelivery ::
  "agent \<Rightarrow> (string \<Rightarrow> bool) \<Rightarrow> (string \<Rightarrow> id \<Rightarrow> id) \<Rightarrow> string \<Rightarrow> string \<Rightarrow> id \<Rightarrow> db \<Rightarrow> verdict \<times> db" where
  "processDelivery call nodeFailure fresh worker token tid db =
     (case loadTask tid db of
        None \<Rightarrow> (Ack, db)
      | Some task \<Rightarrow>
          (case claimTask worker token task db of
             (False, d) \<Rightarrow> (Ack, d)
           | (True, d) \<Rightarrow>
               (case loadTask (t_id task) d of
                  None \<Rightarrow> (Ack, d)
                | Some t \<Rightarrow>
                    (case executeTask call fresh t d of (err, d1) \<Rightarrow>
                       (case finishTask t err d1 of
                          Inl _ \<Rightarrow> (Ack, d1)
                        | Inr (False, d2) \<Rightarrow> (Ack, d2)
                        | Inr (True, d2) \<Rightarrow>
                            (case err of
                               Some e \<Rightarrow> (if t_attempts t \<ge> 3 then DeadLetter else Ack,
                                          failDeployment fresh t e (recordAgentError nodeFailure t e d2))
                             | None \<Rightarrow> (Ack, writeAudit ''system'' ''task.succeeded'' (t_id t) d2)))))))"

section \<open>Recovery of expired leases\<close>

definition dangerousRecoveredTask :: "action \<Rightarrow> bool" where
  "dangerousRecoveredTask a \<longleftrightarrow> a \<in> {Stop, Update, Restart, Reinstall, Destroy, Purge, RetryDeploy, Resize, HostAccess}"

definition safeRecoveryState :: "controlTask \<Rightarrow> db \<Rightarrow> bool" where
  "safeRecoveryState task db \<longleftrightarrow>
     (if t_action task \<noteq> Create \<and> t_action task \<noteq> Start then False
      else case select (\<lambda>i. i_id i = t_instance task) (instances db) of
        None \<Rightarrow> False
      | Some i \<Rightarrow> (t_action task = Create \<and> i_status i = Deploying) \<or>
          (t_action task = Start \<and> (i_status i = Stopped \<or> i_status i = DestroyScheduled)))"

definition recoveredStatus :: "controlTask \<Rightarrow> db \<Rightarrow> tstatus \<times> string" where
  "recoveredStatus task db =
     (if t_action task = CompensateResize then (TaskPending, ''compensation lease expired, retried'')
      else if dangerousRecoveredTask (t_action task) \<or> \<not> safeRecoveryState task db
      then (TaskReview, ''quarantined, waiting for review'')
      else (TaskPending, ''lease expired, queued again''))"

definition expiredLease :: "gotime \<Rightarrow> controlTask \<Rightarrow> bool" where
  "expiredLease t r \<longleftrightarrow> t_status r = TaskRunning \<and> someAnd (\<lambda>e. e \<le> t) (t_claimExpires r)"

definition recoveredRow :: "tstatus \<Rightarrow> string \<Rightarrow> gotime \<Rightarrow> controlTask \<Rightarrow> controlTask" where
  "recoveredRow status detail t r = r\<lparr>t_status := status, t_runAfter := t, t_claimedAt := None, t_claimExpires := None,
     t_worker := None, t_token := None, t_recovery := Suc (t_recovery r), t_lastError := Some detail, t_updatedAt := t\<rparr>"

text \<open>One row of the loop. \<open>inspect\<close> is the Agent's inspection used for a recovered resize.\<close>

definition recoverLease ::
  "(inst \<Rightarrow> node \<Rightarrow> db \<Rightarrow> db \<times> (error + (int \<times> int) option)) \<Rightarrow> (string \<Rightarrow> id \<Rightarrow> id) \<Rightarrow> controlTask \<Rightarrow> db \<Rightarrow> db" where
  "recoverLease inspect fresh task db =
     (let (status, detail) = recoveredStatus task db;
          p = (\<lambda>r. t_id r = t_id task \<and> expiredLease (now db) r);
          f = recoveredRow status detail (now db);
          event = (if status = TaskReview then ''recovery_quarantined'' else ''lease_recovered'')
      in if affected p f (tasks db) \<noteq> 1 then db
         else
           let d = writeAudit ''system'' (''task.'' @ event) (t_id task)
                 (appendTaskEvent (t_id task) event (db\<lparr>tasks := update p f (tasks db)\<rparr>))
           in if status = TaskReview \<and> t_action task = Resize then reconcileRecoveredPlanChange inspect fresh task d else d)"

definition expiredTasks :: "db \<Rightarrow> controlTask list" where
  "expiredTasks db = take 100 (sort_key (\<lambda>t. case t_claimExpires t of None \<Rightarrow> 0 | Some e \<Rightarrow> e)
     (filter (expiredLease (now db)) (tasks db)))"

definition recoverExpiredTaskLeases ::
  "(inst \<Rightarrow> node \<Rightarrow> db \<Rightarrow> db \<times> (error + (int \<times> int) option)) \<Rightarrow> (string \<Rightarrow> id \<Rightarrow> id) \<Rightarrow> db \<Rightarrow> db" where
  "recoverExpiredTaskLeases inspect fresh db = fold (recoverLease inspect fresh) (expiredTasks db) db"

section \<open>Quarantine of failed tasks\<close>

definition quarantined :: "action \<Rightarrow> bool" where
  "quarantined a \<longleftrightarrow> a \<in> {Stop, Update, Restart, Reinstall, Destroy, Purge, RetryDeploy, HostAccess}"

definition quarantineTask :: "controlTask \<Rightarrow> db \<Rightarrow> db" where
  "quarantineTask task db =
     (let p = (\<lambda>r. t_id r = t_id task \<and> t_status r = TaskFailed);
          f = (\<lambda>r. r\<lparr>t_status := TaskReview, t_updatedAt := now db,
                 t_lastError := Some ((case t_lastError r of None \<Rightarrow> [] | Some s \<Rightarrow> s) @ '' quarantined for review'')\<rparr>)
      in if affected p f (tasks db) \<noteq> 1 then db
         else writeAudit ''system'' ''task.failed_quarantined'' (t_id task)
           (appendTaskEvent (t_id task) ''failed_task_quarantined'' (db\<lparr>tasks := update p f (tasks db)\<rparr>)))"

definition failedTasks :: "db \<Rightarrow> controlTask list" where
  "failedTasks db = take 100 (sort_key t_updatedAt (filter (\<lambda>t. t_status t = TaskFailed \<and> quarantined (t_action t)) (tasks db)))"

definition quarantineDangerousFailedTasks :: "db \<Rightarrow> db" where
  "quarantineDangerousFailedTasks db = fold quarantineTask (failedTasks db) db"

section \<open>The tasks after one delivery\<close>

lemma failPlanChange_tasks [simp]: "tasks (failPlanChange fresh t e d) = tasks d"
  using giveBack_frame
  by (fastforce simp: failPlanChange_def Let_def setChange_def setExchange_def split: option.split sum.split)

lemma failDeployment_tasks [simp]: "tasks (failDeployment fresh t e d) = tasks d"
  by (auto simp: failDeployment_def Let_def split: sum.split option.split bool.split dest: transition_frame)

lemma recordAgentError_tasks [simp]: "tasks (recordAgentError nf t e d) = tasks d"
  by (simp add: recordAgentError_def)

text \<open>What is asked of the Agent's time span: it does not end the lease of this execution (the renewal
  goroutine keeps it alive).\<close>

definition agentSpares :: "id \<Rightarrow> string \<Rightarrow> agent \<Rightarrow> bool" where
  "agentSpares tid token call \<longleftrightarrow> (\<forall>t. t_id t = tid \<and> t_token t = Some token \<longrightarrow> agentKeeps (leaseKept t) call)"

definition claimedRow :: "string \<Rightarrow> string \<Rightarrow> gotime \<Rightarrow> controlTask \<Rightarrow> controlTask" where
  "claimedRow w k t r = r\<lparr>t_status := TaskRunning, t_attempts := Suc (t_attempts r), t_claimedAt := Some t,
     t_heartbeat := Some t, t_claimExpires := Some (t + leaseTime), t_worker := Some w, t_token := Some k, t_updatedAt := t\<rparr>"

lemma claimed_tasks:
  assumes "claimTask w k r d = (True, d1)"
  shows "tasks d1 = update (\<lambda>x. t_id x = t_id r \<and> t_status x = TaskPending) (claimedRow w k (now d)) (tasks d)"
    and "now d1 = now d" and "\<exists>x \<in> set (tasks d). t_id x = t_id r \<and> t_status x = TaskPending"
  using claim_true(1,2,4) [OF assms] by (simp_all add: claimedRow_def [abs_def])

text \<open>The row a successful claim runs with, and the lease it holds.\<close>

lemma claimed_row:
  assumes u: "taskTab.unique d" and r: "r \<in> set (tasks d)" and c: "claimTask w k r d = (True, d1)"
  shows "taskTab.unique d1" "claimedRow w k (now d) r \<in> set (tasks d1)"
    "loadTask (t_id r) d1 = Some (claimedRow w k (now d) r)" "leaseRow (claimedRow w k (now d) r) d1 (claimedRow w k (now d) r)"
proof -
  let ?f = "claimedRow w k (now d)" and ?p = "\<lambda>x. t_id x = t_id r \<and> t_status x = TaskPending"
  note t = claimed_tasks [OF c]
  have id: "t_id (?f x) = t_id x" for x by (simp add: claimedRow_def)
  show u1: "taskTab.unique d1" by (rule taskTab.unique_rows_update [OF u t(1)]) (rule id)
  have "?p r" using t(3) taskTab.key_unique [OF u _ r] by blast
  then show m: "?f r \<in> set (tasks d1)" using r by (auto simp: t(1) in_update)
  show "loadTask (t_id r) d1 = Some (?f r)"
    unfolding loadTask_def by (rule taskTab.select_key [OF u1 m]) (simp_all add: id)
  show "leaseRow (?f r) d1 (?f r)"
    by (simp add: leaseRow_def claimedRow_def t(2) leaseTime_def time_units)
qed

lemma delivery_steps:
  assumes u: "taskTab.unique d" and r: "r \<in> set (tasks d)" and c: "claimTask w k r d = (True, d1)"
    and a: "agentSpares (t_id r) k call"
  obtains err d2 d3 s where "executeTask call fresh (claimedRow w k (now d) r) d1 = (err, d2)"
    "finishTask (claimedRow w k (now d) r) err d2 = Inr (True, d3)" "taskTab.unique d2"
    "s \<in> set (tasks d2)" "leaseRow (claimedRow w k (now d) r) d2 s" "leaseKey s = leaseKey (claimedRow w k (now d) r)"
    "fst (processDelivery call nf fresh w k (t_id r) d) = (if err \<noteq> None \<and> 3 \<le> Suc (t_attempts r) then DeadLetter else Ack)"
    "tasks (snd (processDelivery call nf fresh w k (t_id r) d)) = tasks d3"
proof -
  let ?t = "claimedRow w k (now d) r"
  note cr = claimed_row [OF u r c]
  obtain err d2 where e: "executeTask call fresh ?t d1 = (err, d2)" by fastforce
  have "agentKeeps (leaseKept ?t) call" using a by (simp add: agentSpares_def claimedRow_def)
  from exec_lease.execute_rel [OF this, of d1 fresh ?t] have k: "leaseKept ?t d1 d2" by (simp add: e)
  then obtain s where s: "s \<in> set (tasks d2)" "leaseRow ?t d2 s" "leaseKey s = leaseKey ?t" and u2: "taskTab.unique d2"
    using cr by (auto simp: leaseKept_def)
  have "t_worker ?t \<noteq> None" by (simp add: claimedRow_def)
  from finish_exact [OF u2 s(1,2) this, of err] obtain d3 where f: "finishTask ?t err d2 = Inr (True, d3)" by blast
  have l: "loadTask (t_id r) d = Some r"
    unfolding loadTask_def by (rule taskTab.select_key [OF u r]) simp_all
  have at: "t_attempts ?t = Suc (t_attempts r)" by (simp add: claimedRow_def)
  show thesis
    by (rule that [OF e f u2 s]) (simp_all add: processDelivery_def l c cr(3) e f at split: option.split)
qed

section \<open>Recovery, row by row\<close>

lemma all2_origin: "list_all2 R xs ys \<Longrightarrow> y \<in> set ys \<Longrightarrow> \<exists>x \<in> set xs. R x y"
  by (induction rule: list_all2_induct) auto

text \<open>The reconciliation after a recovery may close the row of its task, which is in review by then; it
  leaves every other task alone.\<close>

definition closeOnly :: "(controlTask \<Rightarrow> controlTask) \<Rightarrow> bool" where
  "closeOnly h \<longleftrightarrow> (\<forall>x. t_id (h x) = t_id x \<and> t_action (h x) = t_action x \<and> t_attempts (h x) = t_attempts x \<and>
     t_recovery (h x) = t_recovery x \<and> t_token (h x) = t_token x \<and> t_claimExpires (h x) = t_claimExpires x \<and>
     (h x = x \<or> t_status (h x) = TaskDone \<or> t_status (h x) = TaskFailed))"

definition closes :: "controlTask \<Rightarrow> db \<Rightarrow> db \<Rightarrow> bool" where
  "closes t d d' \<longleftrightarrow> now d' = now d \<and>
     (\<exists>h. closeOnly h \<and> tasks d' = update (\<lambda>x. t_id x = t_id t \<and> t_status x = TaskReview) h (tasks d))"

lemma closes_same: "tasks d' = tasks d \<Longrightarrow> now d' = now d \<Longrightarrow> closes t d d'"
  unfolding closes_def by (intro conjI exI [of _ "\<lambda>x. x"]) (simp_all add: closeOnly_def update_id)

lemma closes_review:
  assumes "tasks e = tasks d" "now e = now d" "st = TaskDone \<or> st = TaskFailed"
  shows "closes t d (closeReviewTask t st err ev e)"
  unfolding closes_def closeReviewTask_def using assms
  by (intro conjI exI [of _ "\<lambda>x. x\<lparr>t_status := st, t_finishedAt := Some (now d), t_lastError := err, t_updatedAt := now d\<rparr>"])
    (auto simp: closeOnly_def)

lemma failPlanChange_now [simp]: "now (failPlanChange fresh t e d) = now d"
  using giveBack_frame
  by (fastforce simp: failPlanChange_def Let_def setChange_def setExchange_def split: option.split sum.split)

lemma resume_tasks: "resumeBlockedPlanChange cid d = (b, d') \<Longrightarrow> tasks d' = tasks d \<and> now d' = now d"
  by (auto simp: resumeBlockedPlanChange_def)

lemma settleObserved_closes: "closes t d (settleObserved fresh t cid cpu mem c d)"
proof -
  obtain b d1 where r: "resumeBlockedPlanChange cid d = (b, d1)" by fastforce
  have d1: "tasks d1 = tasks d" "now d1 = now d" using resume_tasks [OF r] by simp_all
  have go: "closes t d (if b then x else d1)" if "closes t d x" for x
    using that closes_same [OF d1] by simp
  have target: "closes t d (case completePlanChange fresh t d1 of Inl e \<Rightarrow> markPlanChangeBlocked cid (errText e) d1
      | Inr d2 \<Rightarrow> closeReviewTask t TaskDone None ev d2)" for ev
    using complete_tasks d1 by (auto split: sum.split intro: closes_same closes_review)
  have source: "closes t d (closeReviewTask t TaskFailed e ev (setChange cid q f (failPlanChange fresh t m d1)))" for e ev m q f
    by (rule closes_review) (simp_all add: setChange_def d1)
  have other: "closes t d (appendTaskEvent i ev (markPlanChangeBlocked cid m d))" for i ev m
    by (rule closes_same) simp_all
  show ?thesis using go [OF target] go [OF source] other
    by (cases b) (simp_all add: settleObserved_def r Let_def)
qed

text \<open>An inspection that leaves the tasks and the clock alone.\<close>

definition quietInspect :: "(inst \<Rightarrow> node \<Rightarrow> db \<Rightarrow> db \<times> (error + (int \<times> int) option)) \<Rightarrow> bool" where
  "quietInspect inspect \<longleftrightarrow> (\<forall>i n d. tasks (fst (inspect i n d)) = tasks d \<and> now (fst (inspect i n d)) = now d)"

lemma reconcile_closes:
  assumes "quietInspect inspect"
  shows "closes t d (reconcileRecoveredPlanChange inspect fresh t d)"
proof -
  have i: "tasks d1 = tasks d \<and> now d1 = now d" if "inspect i n d = (d1, a)" for i n d1 a
    using assms that unfolding quietInspect_def by (metis fst_conv)
  have s: "closes t d (settleObserved fresh t cid cpu mem c (observe iid cid cpu mem d1))"
    if "inspect i n d = (d1, a)" for i n d1 a cid cpu mem c iid
  proof -
    have "tasks (observe iid cid cpu mem d1) = tasks d" "now (observe iid cid cpu mem d1) = now d"
      using i [OF that] by (simp_all add: observe_def setChange_def)
    then show ?thesis using settleObserved_closes [of t "observe iid cid cpu mem d1" fresh cid cpu mem c]
      by (simp add: closes_def)
  qed
  show ?thesis
    unfolding reconcileRecoveredPlanChange_def Let_def
    by (auto split: option.split prod.split sum.split intro!: closes_same s dest: i)
qed

definition replayable :: "action \<Rightarrow> bool" where
  "replayable a \<longleftrightarrow> a = Create \<or> a = Start \<or> a = CompensateResize"

text \<open>\<open>r\<close> was taken back from its worker and is now \<open>s\<close>.\<close>

definition takenBack :: "controlTask \<Rightarrow> controlTask \<Rightarrow> bool" where
  "takenBack r s \<longleftrightarrow> t_id s = t_id r \<and> t_action s = t_action r \<and> t_attempts s = t_attempts r \<and>
     t_recovery s = Suc (t_recovery r) \<and> t_token s = None \<and>
     (t_status s = TaskPending \<and> replayable (t_action r) \<or> t_status s \<in> {TaskReview, TaskDone, TaskFailed})"

lemma recoveredStatus_cases:
  assumes "recoveredStatus t d = (st, detail)"
  shows "st = TaskPending \<and> replayable (t_action t) \<or> st = TaskReview"
  using assms
  by (auto simp: recoveredStatus_def replayable_def dangerousRecoveredTask_def safeRecoveryState_def split: if_splits)

lemma recoveredRow_taken:
  assumes "recoveredStatus t d = (st, detail)" "t_action r = t_action t"
  shows "takenBack r (recoveredRow st detail n r)"
  using recoveredStatus_cases [OF assms(1)] assms(2) by (auto simp: takenBack_def recoveredRow_def)

lemma closeOnly_taken:
  assumes "closeOnly h" "takenBack r s" shows "takenBack r (h s)"
  using assms unfolding closeOnly_def takenBack_def by (metis insertCI)

lemma recoverLease_rows:
  assumes u: "taskTab.unique d" and i: "quietInspect inspect"
    and t: "\<forall>r \<in> set (tasks d). t_id r = t_id t \<longrightarrow> t_action r = t_action t"
  shows "now (recoverLease inspect fresh t d) = now d \<and>
    (\<exists>g. (\<forall>r \<in> set (tasks d). t_id r = t_id t \<longrightarrow> takenBack r (g r)) \<and>
       tasks (recoverLease inspect fresh t d) = update (\<lambda>r. t_id r = t_id t \<and> expiredLease (now d) r) g (tasks d))"
proof -
  let ?p = "\<lambda>r. t_id r = t_id t \<and> expiredLease (now d) r"
  obtain st detail where rs: "recoveredStatus t d = (st, detail)" by fastforce
  let ?f = "recoveredRow st detail (now d)"
  have tb: "takenBack r (?f r)" if "r \<in> set (tasks d)" "t_id r = t_id t" for r
    using recoveredRow_taken [OF rs] t that by blast
  show ?thesis
  proof (cases "affected ?p ?f (tasks d) = 1")
    case False
    then have "affected ?p ?f (tasks d) = 0" using taskTab.affected_le_1 [OF u, of ?p "t_id t" ?f] by auto
    then have "update ?p ?f (tasks d) = tasks d" by (simp add: affected_0)
    then show ?thesis using False tb by (intro conjI exI [of _ ?f]) (simp_all add: recoverLease_def rs Let_def)
  next
    case True
    then obtain r0 where r0: "r0 \<in> set (tasks d)" "?p r0" using taskTab.affected_one_row [of ?p ?f d 0] by auto
    define e where "e = writeAudit ''system'' (''task.'' @ (if st = TaskReview then ''recovery_quarantined'' else ''lease_recovered'')) (t_id t)
                 (appendTaskEvent (t_id t) (if st = TaskReview then ''recovery_quarantined'' else ''lease_recovered'')
                    (d\<lparr>tasks := update ?p ?f (tasks d)\<rparr>))"
    have e: "tasks e = update ?p ?f (tasks d)" "now e = now d" by (simp_all add: e_def)
    have "recoverLease inspect fresh t d = (if st = TaskReview \<and> t_action t = Resize then reconcileRecoveredPlanChange inspect fresh t e else e)"
      by (simp only: recoverLease_def rs Let_def prod.case e_def True simp_thms if_False)
    then have "closes t e (recoverLease inspect fresh t d)"
      using reconcile_closes [OF i, of t e fresh] closes_same [of e e t] by simp
    then obtain h where h: "closeOnly h" "now (recoverLease inspect fresh t d) = now e"
      "tasks (recoverLease inspect fresh t d) = update (\<lambda>x. t_id x = t_id t \<and> t_status x = TaskReview) h (tasks e)"
      by (auto simp: closes_def)
    let ?g = "\<lambda>r. if st = TaskReview then h (?f r) else ?f r"
    have all: "?p r" if "r \<in> set (tasks d)" "t_id r = t_id t" for r
      using taskTab.key_unique [OF u that(1) r0(1)] that(2) r0(2) by simp
    have "update (\<lambda>x. t_id x = t_id t \<and> t_status x = TaskReview) h (update ?p ?f (tasks d)) = update ?p ?g (tasks d)"
      unfolding update_def map_map using all by (intro map_cong refl) (auto simp: recoveredRow_def)
    moreover have "takenBack r (?g r)" if "r \<in> set (tasks d)" "t_id r = t_id t" for r
      by (cases "st = TaskReview") (use tb [OF that] closeOnly_taken [OF h(1) tb [OF that]] in auto)
    ultimately show ?thesis using h(2,3) e by (intro conjI exI [of _ ?g]) simp_all
  qed
qed

text \<open>The whole loop: every row is as before or was taken back, and a taken-back row was expired.\<close>

definition recoveredFrom :: "gotime \<Rightarrow> controlTask \<Rightarrow> controlTask \<Rightarrow> bool" where
  "recoveredFrom t r s \<longleftrightarrow> s = r \<or> expiredLease t r \<and> takenBack r s"

lemma recoveredFrom_sel: "recoveredFrom t r s \<Longrightarrow> t_id s = t_id r \<and> t_action s = t_action r"
  by (auto simp: recoveredFrom_def takenBack_def)

lemma recoveredFrom_expired: "recoveredFrom t r s \<Longrightarrow> expiredLease t s \<Longrightarrow> s = r"
  by (auto simp: recoveredFrom_def takenBack_def expiredLease_def)

lemma recover_fold:
  assumes u: "taskTab.unique d0" and i: "quietInspect inspect"
  shows "set ts \<subseteq> set (tasks d0) \<Longrightarrow> now d = now d0 \<Longrightarrow> list_all2 (recoveredFrom (now d0)) (tasks d0) (tasks d) \<Longrightarrow>
    (\<forall>s \<in> set (tasks d). expiredLease (now d0) s \<longrightarrow> s \<notin> seen) \<Longrightarrow>
    now (fold (recoverLease inspect fresh) ts d) = now d0 \<and>
    list_all2 (recoveredFrom (now d0)) (tasks d0) (tasks (fold (recoverLease inspect fresh) ts d)) \<and>
    (\<forall>s \<in> set (tasks (fold (recoverLease inspect fresh) ts d)). expiredLease (now d0) s \<longrightarrow> s \<notin> seen \<union> set ts)"
proof (induction ts arbitrary: d seen)
  case (Cons t ts)
  let ?R = "recoveredFrom (now d0)"
  note n = Cons.prems(2) and l = Cons.prems(3)
  have ids: "map t_id (tasks d) = map t_id (tasks d0)"
    using l by (auto simp: list_all2_conv_all_nth recoveredFrom_sel intro!: nth_equalityI)
  have u': "taskTab.unique d" using u by (simp add: taskTab.unique_def ids)
  note from0 = all2_origin [OF l]
  have t: "t \<in> set (tasks d0)" using Cons.prems(1) by simp
  have origin: "r = t" if "s \<in> set (tasks d)" "t_id s = t_id t" "r \<in> set (tasks d0)" "?R r s" for r s
    using taskTab.key_unique [OF u that(3) t] recoveredFrom_sel [OF that(4)] that(2) by simp
  have act: "\<forall>r \<in> set (tasks d). t_id r = t_id t \<longrightarrow> t_action r = t_action t"
    using from0 origin recoveredFrom_sel by metis
  obtain g where g: "now (recoverLease inspect fresh t d) = now d"
    "\<And>r. r \<in> set (tasks d) \<Longrightarrow> t_id r = t_id t \<Longrightarrow> takenBack r (g r)"
    "tasks (recoverLease inspect fresh t d) = update (\<lambda>r. t_id r = t_id t \<and> expiredLease (now d) r) g (tasks d)"
    using recoverLease_rows [OF u' i act, of fresh] by blast
  have step: "?R r (if t_id s = t_id t \<and> expiredLease (now d) s then g s else s)" if "?R r s" "s \<in> set (tasks d)" for r s
    using that recoveredFrom_expired [OF that(1)] g(2) [OF that(2)] n by (auto simp: recoveredFrom_def)
  have l': "list_all2 ?R (tasks d0) (tasks (recoverLease inspect fresh t d))"
    using l step unfolding g(3) update_def by (auto simp: list_all2_conv_all_nth)
  have "\<forall>s \<in> set (tasks (recoverLease inspect fresh t d)). expiredLease (now d0) s \<longrightarrow> s \<notin> insert t seen"
  proof (intro ballI impI)
    fix s assume s: "s \<in> set (tasks (recoverLease inspect fresh t d))" "expiredLease (now d0) s"
    then obtain s0 where s0: "s0 \<in> set (tasks d)"
      "s = (if t_id s0 = t_id t \<and> expiredLease (now d) s0 then g s0 else s0)" by (auto simp: g(3) in_update)
    have "\<not> expiredLease (now d0) (g s0)" if "t_id s0 = t_id t"
      using g(2) [OF s0(1) that] by (auto simp: takenBack_def expiredLease_def)
    then have "s = s0" "t_id s0 \<noteq> t_id t" using s0(2) s(2) n by (auto split: if_splits)
    then show "s \<notin> insert t seen" using Cons.prems(4) s0(1) s(2) by auto
  qed
  from Cons.IH [OF _ _ l' this] show ?case using Cons.prems(1) g(1) n by simp
qed simp

section \<open>The number of executions\<close>

lemma taken_retry: "retryOk r \<Longrightarrow> takenBack r s \<Longrightarrow> retryOk s"
  by (auto simp: retryOk_def takenBack_def)

lemma claim_retries:
  assumes "claimTask w k r d = (b, d')" "retriesOk d" shows "retriesOk d'"
proof (cases b)
  case True
  then have "tasks d' = update (\<lambda>x. t_id x = t_id r \<and> t_status x = TaskPending) (claimedRow w k (now d)) (tasks d)"
    using assms claimed_tasks(1) by simp
  then show ?thesis by (rule retriesOk_update [OF assms(2)]) (auto simp: retryOk_def claimedRow_def)
next
  case False
  then show ?thesis using assms claim_false retriesOk_same by metis
qed

lemma finish_retries:
  assumes f: "finishTask t err d = Inr (b, d')" and r: "retriesOk d"
    and s: "\<And>x. x \<in> set (tasks d) \<Longrightarrow> leaseRow t d x \<Longrightarrow> t_attempts x = t_attempts t \<and> t_action x = t_action t"
  shows "retriesOk d'"
proof -
  have w: "t_worker t \<noteq> None" using f by (auto simp: finishTask_def split: if_splits)
  obtain g post where g: "finishTask t err d = Inr (finishUpdate t g post d)"
    "\<And>x. t_status (g x) = finishStatus t err" "\<And>x. tasks (post x) = tasks x"
    "\<And>x. t_attempts (g x) = t_attempts x \<and> t_action (g x) = t_action x \<and> t_recovery (g x) = t_recovery x"
    using finishTask_shape [OF w, of err d] by metis
  have p: "finishStatus t err = TaskPending \<Longrightarrow> t_action t = CompensateResize \<or> t_attempts t < 3"
    by (auto simp: finishStatus_def split: option.splits error.splits if_splits)
  have "tasks d' = update (leaseRow t d) (\<lambda>x. g (releaseRow (now d) x)) (tasks d)"
    using f g(1,3) by (auto simp: finishUpdate_def Let_def split: if_splits)
  then show ?thesis
    by (rule retriesOk_update [OF r]) (use s p in \<open>auto simp: retryOk_def g releaseRow_def\<close>)
qed

text \<open>The steps of the workers and of the repair loops, and what is asked of the network calls in them.\<close>

datatype workerCall =
    Deliver agent "string \<Rightarrow> bool" "string \<Rightarrow> id \<Rightarrow> id" string string id
  | Recover "inst \<Rightarrow> node \<Rightarrow> db \<Rightarrow> db \<times> (error + (int \<times> int) option)" "string \<Rightarrow> id \<Rightarrow> id"
  | Quarantine

fun workerStep :: "workerCall \<Rightarrow> db \<Rightarrow> db" where
  "workerStep (Deliver call nf fresh w k tid) db = snd (processDelivery call nf fresh w k tid db)"
| "workerStep (Recover inspect fresh) db = recoverExpiredTaskLeases inspect fresh db"
| "workerStep Quarantine db = quarantineDangerousFailedTasks db"

fun callOk :: "workerCall \<Rightarrow> bool" where
  "callOk (Deliver call nf fresh w k tid) \<longleftrightarrow>
     agentSpares tid k call \<and> agentKeeps (\<lambda>d d'. retriesOk d \<longrightarrow> retriesOk d') call"
| "callOk (Recover inspect fresh) \<longleftrightarrow> quietInspect inspect"
| "callOk Quarantine \<longleftrightarrow> True"

lemma quarantine_rows:
  "\<exists>p f. tasks (quarantineTask t d) = update p f (tasks d) \<and>
     (\<forall>x. t_id (f x) = t_id x \<and> t_status (f x) = TaskReview \<and> t_action (f x) = t_action x \<and>
        t_attempts (f x) = t_attempts x \<and> t_recovery (f x) = t_recovery x)"
proof -
  let ?p = "\<lambda>r. t_id r = t_id t \<and> t_status r = TaskFailed"
  let ?f = "\<lambda>r. r\<lparr>t_status := TaskReview, t_updatedAt := now d,
                 t_lastError := Some ((case t_lastError r of None \<Rightarrow> [] | Some s \<Rightarrow> s) @ '' quarantined for review'')\<rparr>"
  show ?thesis
  proof (cases "affected ?p ?f (tasks d) = 1")
    case True
    then show ?thesis by (intro exI [of _ ?p] exI [of _ ?f]) (simp add: quarantineTask_def Let_def)
  next
    case False
    then show ?thesis
      by (intro exI [of _ "\<lambda>_. False"] exI [of _ ?f]) (simp add: quarantineTask_def Let_def update_id)
  qed
qed

lemma quarantine_fold:
  "taskTab.unique d \<and> retriesOk d \<Longrightarrow> taskTab.unique (fold quarantineTask ts d) \<and> retriesOk (fold quarantineTask ts d)"
proof (induction ts arbitrary: d)
  case (Cons t ts)
  obtain p f where q: "tasks (quarantineTask t d) = update p f (tasks d)"
    "\<And>x. t_id (f x) = t_id x \<and> t_status (f x) = TaskReview \<and> t_action (f x) = t_action x \<and>
        t_attempts (f x) = t_attempts x \<and> t_recovery (f x) = t_recovery x"
    using quarantine_rows by metis
  have "taskTab.unique (quarantineTask t d)"
    by (rule taskTab.unique_rows_update [OF _ q(1)]) (use Cons.prems q(2) in auto)
  moreover have "retriesOk (quarantineTask t d)"
    by (rule retriesOk_update [OF _ q(1)]) (use Cons.prems q(2) in \<open>auto simp: retryOk_def\<close>)
  ultimately show ?case using Cons.IH by simp
qed simp

lemma expired_subset: "set (expiredTasks d) \<subseteq> set (tasks d)" "t \<in> set (expiredTasks d) \<Longrightarrow> expiredLease (now d) t"
  using set_take_subset [of 100 "sort_key (\<lambda>t. case t_claimExpires t of None \<Rightarrow> 0 | Some e \<Rightarrow> e) (filter (expiredLease (now d)) (tasks d))"]
  by (auto simp: expiredTasks_def)

lemma recover_all:
  assumes u: "taskTab.unique d" and i: "quietInspect inspect"
  shows "now (recoverExpiredTaskLeases inspect fresh d) = now d"
    and "list_all2 (recoveredFrom (now d)) (tasks d) (tasks (recoverExpiredTaskLeases inspect fresh d))"
    and "\<forall>s \<in> set (tasks (recoverExpiredTaskLeases inspect fresh d)). expiredLease (now d) s \<longrightarrow> s \<notin> set (expiredTasks d)"
proof -
  have "list_all2 (recoveredFrom (now d)) (tasks d) (tasks d)" by (simp add: recoveredFrom_def list.rel_refl)
  from recover_fold [OF u i expired_subset(1) refl this, where seen = "{}" and fresh = fresh]
  have "now (recoverExpiredTaskLeases inspect fresh d) = now d \<and>
      list_all2 (recoveredFrom (now d)) (tasks d) (tasks (recoverExpiredTaskLeases inspect fresh d)) \<and>
      (\<forall>s \<in> set (tasks (recoverExpiredTaskLeases inspect fresh d)). expiredLease (now d) s \<longrightarrow> s \<notin> set (expiredTasks d))"
    by (simp add: recoverExpiredTaskLeases_def)
  then show "now (recoverExpiredTaskLeases inspect fresh d) = now d"
    and "list_all2 (recoveredFrom (now d)) (tasks d) (tasks (recoverExpiredTaskLeases inspect fresh d))"
    and "\<forall>s \<in> set (tasks (recoverExpiredTaskLeases inspect fresh d)). expiredLease (now d) s \<longrightarrow> s \<notin> set (expiredTasks d)"
    by blast+
qed

section \<open>Properties\<close>

text \<open>C10. A duplicate message is harmless: a delivery whose task is unknown or not pending is acknowledged
  and leaves the database as it was, whatever the Agent would have answered; so a message delivered
  twice, or republished by the recovery loop while a worker runs the task, never executes it again.\<close>

theorem duplicate_delivery_harmless:
  assumes "\<forall>r \<in> set (tasks d). t_id r = tid \<longrightarrow> t_status r \<noteq> TaskPending"
  shows "processDelivery call nf fresh w k tid d = (Ack, d)"
proof (cases "loadTask tid d")
  case (Some task)
  then have id: "t_id task = tid" by (auto simp: loadTask_def dest: select_SomeD)
  have "affected (\<lambda>r. t_id r = t_id task \<and> t_status r = TaskPending) f (tasks d) = 0" for f
    using assms id by (auto simp: affected_zero_iff)
  then have "claimTask w k task d = (False, d)" by (simp add: claimTask_def Let_def)
  with Some show ?thesis by (simp add: processDelivery_def)
qed (simp add: processDelivery_def)



text \<open>No task stays with a dead worker: when at most a hundred leases have expired, one run of the loop
  takes all of them back, so afterwards no running task has an expired lease.\<close>

theorem recovery_complete:
  assumes u: "taskTab.unique d" and i: "quietInspect inspect"
    and n: "length (filter (expiredLease (now d)) (tasks d)) \<le> 100"
    and s: "s \<in> set (tasks (recoverExpiredTaskLeases inspect fresh d))" "t_status s = TaskRunning" "t_claimExpires s = Some e"
  shows "now (recoverExpiredTaskLeases inspect fresh d) < e"
proof (rule ccontr)
  assume "\<not> ?thesis"
  then have x: "expiredLease (now d) s" using s recover_all(1) [OF u i, of fresh] by (simp add: expiredLease_def)
  obtain r where r: "r \<in> set (tasks d)" "recoveredFrom (now d) r s"
    using s(1) all2_origin [OF recover_all(2) [OF u i]] by blast
  have "s = r" by (rule recoveredFrom_expired [OF r(2) x])
  then have "s \<in> set (expiredTasks d)" using r(1) x n by (simp add: expiredTasks_def)
  then show False using recover_all(3) [OF u i, of fresh] s(1) x by blast
qed

text \<open>A step of the workers keeps the bound.\<close>

lemma delivery_retries:
  assumes u: "taskTab.unique d" and r: "retriesOk d"
    and a: "agentSpares tid k call" "agentKeeps (\<lambda>d d'. retriesOk d \<longrightarrow> retriesOk d') call"
  shows "taskTab.unique (snd (processDelivery call nf fresh w k tid d)) \<and> retriesOk (snd (processDelivery call nf fresh w k tid d))"
proof (cases "loadTask tid d")
  case (Some task)
  then have t: "task \<in> set (tasks d)" "t_id task = tid" by (auto simp: loadTask_def dest: select_SomeD)
  obtain b d1 where c: "claimTask w k task d = (b, d1)" by fastforce
  show ?thesis
  proof (cases b)
    case False
    then have "tasks d1 = tasks d" "processDelivery call nf fresh w k tid d = (Ack, d1)"
      using c claim_false by (simp_all add: processDelivery_def Some)
    then show ?thesis using u r by (simp add: taskTab.unique_def retriesOk_def)
  next
    case True
    let ?t = "claimedRow w k (now d) task"
    have c: "claimTask w k task d = (True, d1)" and sp: "agentSpares (t_id task) k call" using c True a(1) t(2) by simp_all
    show ?thesis
    proof (rule delivery_steps [OF u t(1) c sp, of fresh nf])
      fix err d2 d3 s
      assume e: "executeTask call fresh ?t d1 = (err, d2)" and f: "finishTask ?t err d2 = Inr (True, d3)"
        and u2: "taskTab.unique d2" and s: "s \<in> set (tasks d2)" "leaseRow ?t d2 s" "leaseKey s = leaseKey ?t"
        and out: "tasks (snd (processDelivery call nf fresh w k (t_id task) d)) = tasks d3"
      have "retriesOk d2" using exec_retry.execute_rel [OF a(2), of d1 fresh ?t] claim_retries [OF c r] e by simp
      moreover have "t_attempts x = t_attempts ?t \<and> t_action x = t_action ?t" if "x \<in> set (tasks d2)" "leaseRow ?t d2 x" for x
        using lease_unique [OF u2 that(1) s(1) that(2)] s(2,3) by (simp add: leaseRow_def leaseKey_def)
      ultimately have "retriesOk d3" by (rule finish_retries [OF f])
      moreover have "taskTab.unique d3"
      proof -
        have w: "t_worker ?t \<noteq> None" by (simp add: claimedRow_def)
        obtain g post where g: "finishTask ?t err d2 = Inr (finishUpdate ?t g post d2)"
          "\<And>x. t_id (g x) = t_id x" "\<And>x. tasks (post x) = tasks x" using finishTask_shape [OF w, of err d2] by metis
        have "tasks d3 = update (leaseRow ?t d2) (\<lambda>x. g (releaseRow (now d2) x)) (tasks d2)"
          using f g(1,3) by (auto simp: finishUpdate_def Let_def split: if_splits)
        then show ?thesis by (rule taskTab.unique_rows_update [OF u2]) (simp add: g(2) releaseRow_def)
      qed
      ultimately show ?thesis using out t(2) by (simp add: taskTab.unique_def retriesOk_def)
    qed
  qed
qed (use u r in \<open>simp add: processDelivery_def\<close>)

lemma workerStep_retries:
  assumes "callOk c" "taskTab.unique d" "retriesOk d" shows "taskTab.unique (workerStep c d) \<and> retriesOk (workerStep c d)"
proof (cases c)
  case (Recover inspect fresh)
  then have i: "quietInspect inspect" using assms(1) by simp
  note l = recover_all(2) [OF assms(2) i, of fresh]
  have "map t_id (tasks (workerStep c d)) = map t_id (tasks d)"
    using l by (auto simp: Recover list_all2_conv_all_nth recoveredFrom_sel intro!: nth_equalityI)
  moreover have "retryOk s" if "s \<in> set (tasks (workerStep c d))" for s
    using all2_origin [OF l, of s] that assms(3) taken_retry by (auto simp: Recover retriesOk_def recoveredFrom_def)
  ultimately show ?thesis using assms(2) by (simp add: taskTab.unique_def retriesOk_def)
qed (use assms delivery_retries quarantine_fold in \<open>auto simp: quarantineDangerousFailedTasks_def\<close>)


text \<open>The stop task of the running example, waiting for its third attempt.\<close>

definition exampleWaiting :: controlTask where
  "exampleWaiting = (newTask ''task_1'' ''ins_1'' Stop (ActionKey Stop ''ins_1'' 0) 0 0)\<lparr>t_attempts := 2\<rparr>"

definition exampleQueue :: db where
  "exampleQueue = exampleLease\<lparr>tasks := [exampleWaiting], instances := [blankInst\<lparr>i_id := ''ins_1'', i_status := Running,
     i_node := Some ''n1''\<rparr>]\<rparr>"

definition deafInspect :: "inst \<Rightarrow> node \<Rightarrow> db \<Rightarrow> db \<times> (error + (int \<times> int) option)" where
  "deafInspect i n d = (d, Inl ErrNoRows)"

lemma waiting_rows: "tasks exampleQueue = [exampleWaiting]" "taskTab.unique exampleQueue" "t_id exampleWaiting = ''task_1''"
  "t_attempts exampleWaiting = 2" "t_status exampleWaiting = TaskPending" "t_action exampleWaiting = Stop"
  "t_instance exampleWaiting = ''ins_1''" "now exampleQueue = 5" "t_recovery exampleWaiting = 0"
  by (simp_all add: exampleQueue_def taskTab.unique_def exampleWaiting_def newTask_def exampleLease_def emptyDb_def)

lemma waiting_claim: "\<exists>d1. claimTask ''w'' ''k'' exampleWaiting exampleQueue = (True, d1)"
proof -
  have "instances exampleQueue = [blankInst\<lparr>i_id := ''ins_1'', i_status := Running, i_node := Some ''n1''\<rparr>]"
    by (simp add: exampleQueue_def)
  moreover have "exampleWaiting\<lparr>t_status := TaskRunning, t_attempts := Suc 2, t_claimedAt := Some 5, t_heartbeat := Some 5,
      t_claimExpires := Some (5 + leaseTime), t_worker := Some ''w'', t_token := Some ''k'', t_updatedAt := 5\<rparr> \<noteq> exampleWaiting"
    by (simp add: exampleWaiting_def newTask_def)
  ultimately show ?thesis by (simp add: claimTask_def Let_def waiting_rows blankInst_def)
qed

lemma quiet_spares: "agentSpares tid k quietAgent" "quietInspect deafInspect"
  by (simp_all add: agentSpares_def quiet_keeps leaseKept_same quietInspect_def deafInspect_def)

theorem duplicate_delivery_harmless_witness:
  "processDelivery quietAgent (\<lambda>_. False) (\<lambda>a b. a @ b) ''w'' ''k'' ''task_1'' exampleLease = (Ack, exampleLease)"
  by (rule duplicate_delivery_harmless) (simp add: exampleLease_def exampleTask_def)


lemma expired_example: "taskTab.unique (exampleLease\<lparr>now := leaseTime\<rparr>)"
  "length (filter (expiredLease leaseTime) (tasks (exampleLease\<lparr>now := leaseTime\<rparr>))) \<le> 100"
  by (simp_all add: taskTab.unique_def exampleLease_def)


theorem recovery_complete_witness:
  "\<forall>s \<in> set (tasks (recoverExpiredTaskLeases deafInspect (\<lambda>a b. a @ b) (exampleLease\<lparr>now := leaseTime\<rparr>))).
     \<forall>e. t_status s = TaskRunning \<and> t_claimExpires s = Some e \<longrightarrow>
       now (recoverExpiredTaskLeases deafInspect (\<lambda>a b. a @ b) (exampleLease\<lparr>now := leaseTime\<rparr>)) < e"
  using recovery_complete [OF expired_example(1) quiet_spares(2)] expired_example(2) by simp


end
