(* ===== verification/Console.thy ===== *)
theory Console
  imports Scheduler Worker
begin

text \<open>
  What users and administrators do with instances and tasks (\<open>control_handlers.go\<close>). A handler gets the
  instance row that was read when the request arrived, which may be stale; its answer is an error or
  success, with the database. Publishing a task to the queue is transport; a task that could not be
  published is published by the scheduler's next pass.
\<close>

section \<open>Manual operations on tasks\<close>

definition refuse :: "string \<Rightarrow> db \<Rightarrow> outcome" where
  "refuse why db = (Some (Msg why), db)"

definition quarantineText :: "string option \<Rightarrow> string \<Rightarrow> string option" where
  "quarantineText old txt = Some ((case old of None \<Rightarrow> [] | Some s \<Rightarrow> s) @ txt)"

definition unclaimed :: "gotime \<Rightarrow> controlTask \<Rightarrow> controlTask" where
  "unclaimed t r = r\<lparr>t_claimedAt := None, t_claimExpires := None, t_worker := None, t_token := None, t_updatedAt := t\<rparr>"

definition retryTask :: "id \<Rightarrow> id \<Rightarrow> db \<Rightarrow> outcome" where
  "retryTask actor tid db =
     (case loadTask tid db of
        None \<Rightarrow> (Some ErrNoRows, db)
      | Some task \<Rightarrow>
          if t_status task \<noteq> TaskFailed then refuse ''task cannot be retried'' db
          else
            let p = (\<lambda>r. t_id r = t_id task \<and> t_status r = TaskFailed) in
            if dangerousRecoveredTask (t_action task) then
              let f = (\<lambda>r. (unclaimed (now db) r)\<lparr>t_status := TaskReview,
                        t_lastError := quarantineText (t_lastError r) '' quarantined by an administrator''\<rparr>);
                  d = db\<lparr>tasks := update p f (tasks db)\<rparr>
              in if affected p f (tasks db) \<noteq> 1 then refuse ''task changed'' d
                 else (None, writeAudit actor ''task.retry_quarantined'' (t_id task) (appendTaskEvent (t_id task) ''manual_retry_quarantined'' d))
            else
              let f = (\<lambda>r. (unclaimed (now db) r)\<lparr>t_status := TaskPending, t_attempts := 0, t_runAfter := now db,
                        t_lastError := None, t_finishedAt := None\<rparr>);
                  d = db\<lparr>tasks := update p f (tasks db)\<rparr>
              in if affected p f (tasks db) \<noteq> 1 then refuse ''task cannot be retried'' d
                 else (None, writeAudit actor ''task.retry'' (t_id task) (appendTaskEvent (t_id task) ''manual_retry'' d)))"

definition unlockTask :: "id \<Rightarrow> db \<Rightarrow> db" where
  "unlockTask tid db = db\<lparr>instances := update (\<lambda>i. i_activeTask i = Some tid)
     (\<lambda>i. i\<lparr>i_activeTask := None, i_activeToken := None, i_activeExpires := None\<rparr>) (instances db)\<rparr>"

definition resumeReviewTask :: "id \<Rightarrow> id \<Rightarrow> db \<Rightarrow> outcome" where
  "resumeReviewTask actor tid db =
     (let p = (\<lambda>r. t_id r = tid \<and> t_status r = TaskReview);
          f = (\<lambda>r. (unclaimed (now db) r)\<lparr>t_status := TaskPending, t_runAfter := now db, t_lastError := None\<rparr>);
          d = db\<lparr>tasks := update p f (tasks db)\<rparr>
      in if affected p f (tasks db) \<noteq> 1 then refuse ''task cannot be resumed'' d
         else (None, writeAudit actor ''task.review_resume'' tid (appendTaskEvent tid ''review_resumed'' (unlockTask tid d))))"

text \<open>Closing the saga of a discarded resize or compensation.\<close>

definition abandonChange :: "(string \<Rightarrow> id \<Rightarrow> id) \<Rightarrow> action \<Rightarrow> controlTask \<Rightarrow> db \<Rightarrow> db" where
  "abandonChange fresh act task db =
     (if act = Resize then failPlanChange fresh task (Msg ''discarded by an administrator'') db
      else if act = CompensateResize then
        (case payloadChange (t_payload task) of None \<Rightarrow> db
         | Some c \<Rightarrow> markPlanChangeBlocked c ''compensation discarded by an administrator'' db)
      else db)"

definition discardReviewTask :: "(string \<Rightarrow> id \<Rightarrow> id) \<Rightarrow> id \<Rightarrow> id \<Rightarrow> db \<Rightarrow> outcome" where
  "discardReviewTask fresh actor tid db =
     (case loadTask tid db of
        None \<Rightarrow> (Some ErrNoRows, db)
      | Some task \<Rightarrow>
          let p = (\<lambda>r. t_id r = tid \<and> t_status r = TaskReview);
              f = (\<lambda>r. r\<lparr>t_status := TaskFailed, t_finishedAt := Some (now db), t_lastError := Some ''discarded by an administrator'',
                     t_updatedAt := now db\<rparr>);
              d = db\<lparr>tasks := update p f (tasks db)\<rparr>
          in if affected p f (tasks db) \<noteq> 1 then refuse ''task cannot be discarded'' d
             else (None, writeAudit actor ''task.review_discard'' tid
                    (appendTaskEvent tid ''review_discarded'' (unlockTask tid (abandonChange fresh (t_action task) task d)))))"

definition abnormal :: "controlTask \<Rightarrow> bool" where
  "abnormal t \<longleftrightarrow> t_status t = TaskFailed \<or> t_status t = TaskReview"

definition discardOne :: "(string \<Rightarrow> id \<Rightarrow> id) \<Rightarrow> controlTask \<Rightarrow> db \<Rightarrow> db" where
  "discardOne fresh item db =
     (let p = (\<lambda>r. t_id r = t_id item \<and> abnormal r);
          f = (\<lambda>r. (unclaimed (now db) r)\<lparr>t_status := TaskDiscarded, t_finishedAt := Some (now db),
                 t_lastError := quarantineText (t_lastError r) '' discarded by an administrator''\<rparr>);
          d = db\<lparr>tasks := update p f (tasks db)\<rparr>
      in if affected p f (tasks db) \<noteq> 1 then d
         else
           let d1 = (case loadTask (t_id item) d of None \<Rightarrow> d | Some task \<Rightarrow> abandonChange fresh (t_action item) task d)
           in appendTaskEvent (t_id item) ''discarded_by_admin''
                (d1\<lparr>instances := update (\<lambda>i. i_id i = t_instance item \<and> i_activeTask i = Some (t_id item))
                   (\<lambda>i. i\<lparr>i_activeTask := None, i_activeToken := None, i_activeExpires := None\<rparr>) (instances d1)\<rparr>))"

definition discardAllAdminTasks :: "(string \<Rightarrow> id \<Rightarrow> id) \<Rightarrow> id \<Rightarrow> db \<Rightarrow> db" where
  "discardAllAdminTasks fresh actor db =
     writeAudit actor ''task.discard_all'' ''all''
       (fold (discardOne fresh) (take 500 (sort_key t_createdAt (filter abnormal (tasks db)))) db)"

section \<open>Operations on an instance\<close>

text \<open>A \<open>DATETIME\<close> column keeps whole seconds: MySQL rounds what the driver sends.\<close>

definition storedTime :: "gotime \<Rightarrow> gotime" where
  "storedTime t = (t + second div 2) div second * second"

definition scheduleManualDestroy :: "id \<Rightarrow> id \<Rightarrow> inst \<Rightarrow> db \<Rightarrow> outcome" where
  "scheduleManualDestroy tid actor item db =
     (if i_status item = DestroyScheduled then refuse ''already scheduled'' db
      else if i_status item = Destroyed \<or> i_status item = Purged then refuse ''already destroyed'' db
      else if i_status item \<noteq> Running \<and> i_status item \<noteq> Stopped \<and> i_status item \<noteq> DeploymentFailed
      then refuse ''cannot be scheduled'' db
      else
        let failed = i_status item = DeploymentFailed;
            expected = [Running, Stopped] @ (if failed then [DeploymentFailed] else []);
            why = (if failed then FailedDeployment else Manual);
            destroyAt = addDays (now db) 7
        in transitionThen (i_id item) expected DestroyScheduled (Some (resumedRuntime (i_runtime item)))
             (\<lambda>r. r\<lparr>i_destroyReason := Some why, i_destroyAt := Some (storedTime destroyAt), i_destroyedAt := None, i_purgeAt := None\<rparr>) db
             (\<lambda>changed d. if \<not> changed then refuse ''instance changed'' d
                else (case scheduleLifecycleTaskAt tid (i_id item) Destroy destroyAt destroyAt d of
                   Inl e \<Rightarrow> (Some e, d)
                 | Inr (t, e) \<Rightarrow> (None, createNotification (i_owner item) ''instance_destroy_scheduled'' (i_id item)
                     (writeAudit actor ''instance.destroy_scheduled'' (i_id item)
                       (appendTaskEvent (t_id t) ''manual_destroy_scheduled'' e))))))"

text \<open>The cancellation is one transaction: the state change and the deferred task go together.\<close>

definition canceledTask :: "gotime \<Rightarrow> controlTask \<Rightarrow> controlTask" where
  "canceledTask t r = (unclaimed t r)\<lparr>t_status := TaskCanceled, t_lastError := Some ''destruction canceled'', t_finishedAt := Some t\<rparr>"

definition deferredDestroy :: "id \<Rightarrow> db \<Rightarrow> controlTask \<Rightarrow> bool" where
  "deferredDestroy iid db r \<longleftrightarrow> t_instance r = iid \<and> t_action r = Destroy \<and> t_status r = TaskPending \<and> now db < t_runAfter r"

definition cancelManualDestroy :: "id \<Rightarrow> inst \<Rightarrow> db \<Rightarrow> outcome" where
  "cancelManualDestroy actor item db =
     (if activeLifecycleTask (i_id item) db \<noteq> None then refuse ''instance is being processed'' db
      else if i_status item \<noteq> DestroyScheduled then refuse ''not scheduled'' db
      else if i_destroyReason item = Some Refunded then refuse ''a refund is final'' db
      else if i_destroyReason item = Some Expired then refuse ''renew first'' db
      else if i_destroyReason item \<noteq> Some Manual \<and> i_destroyReason item \<noteq> Some FailedDeployment
      then refuse ''the destruction is final'' db
      else
        let back = resumedRuntime (i_runtime item) in
        transitionThen (i_id item) [DestroyScheduled] back (Some back) (\<lambda>r. r\<lparr>i_destroyAt := None, i_destroyReason := None\<rparr>) db
          (\<lambda>changed d.
             if \<not> changed then refuse ''instance changed'' db
             else if affected (deferredDestroy (i_id item) d) (canceledTask (now d)) (tasks d) \<noteq> 1
             then refuse ''the destruction has begun'' db
             else (None, createNotification (i_owner item) ''instance_destroy_cancelled'' (i_id item)
                    (writeAudit actor ''instance.destroy_cancelled'' (i_id item)
                      (d\<lparr>tasks := update (deferredDestroy (i_id item) d) (canceledTask (now d)) (tasks d)\<rparr>)))))"

definition queueImmediateDestroy :: "id \<Rightarrow> id \<Rightarrow> inst \<Rightarrow> db \<Rightarrow> outcome" where
  "queueImmediateDestroy tid actor item db =
     (if i_status item \<noteq> DestroyScheduled then refuse ''not scheduled'' db
      else
        let at_time = (case i_destroyAt item of None \<Rightarrow> now db | Some t \<Rightarrow> t);
            d = db\<lparr>instances := update (\<lambda>i. i_id i = i_id item \<and> i_owner i = i_owner item \<and> i_status i = DestroyScheduled \<and>
                  i_destroyReason i = Some Manual) (\<lambda>i. i\<lparr>i_destroyReason := Some UserNoRefund\<rparr>) (instances db)\<rparr>
        in (case scheduleLifecycleTask tid (i_id item) Destroy at_time d of
              Inl e \<Rightarrow> (Some e, d)
            | Inr (t, e) \<Rightarrow> (None, writeAudit actor ''instance.destroy_now'' (i_id item) e)))"

definition archiveDestroyedInstance :: "id \<Rightarrow> inst \<Rightarrow> db \<Rightarrow> outcome" where
  "archiveDestroyedInstance actor item db =
     (if i_status item \<noteq> Destroyed then refuse ''only destroyed instances'' db
      else
        let p = (\<lambda>i. i_id i = i_id item \<and> i_owner i = i_owner item \<and> i_status i = Destroyed \<and> i_archivedAt i = None);
            f = (\<lambda>i. i\<lparr>i_archivedAt := Some (now db)\<rparr>); d = db\<lparr>instances := update p f (instances db)\<rparr>
        in if affected p f (instances db) \<noteq> 1 then refuse ''instance changed'' d
           else (None, writeAudit actor ''instance.archived'' (i_id item) d))"

definition queueDeploymentRetry :: "id \<Rightarrow> id \<Rightarrow> inst \<Rightarrow> db \<Rightarrow> outcome" where
  "queueDeploymentRetry tid actor item db =
     (if i_status item \<noteq> DeploymentFailed then refuse ''deployment cannot be retried'' db
      else transitionThen (i_id item) [DeploymentFailed] Deploying (Some UnknownRuntime) (\<lambda>r. r) db
        (\<lambda>changed d. if \<not> changed then refuse ''instance changed'' d
           else (case scheduleInstanceTask tid (i_id item) RetryDeploy actor d of
                   Inl e \<Rightarrow> (Some e, transitionOr d (transitionInstance (i_id item) [Deploying] DeploymentFailed None (\<lambda>r. r) d))
                 | Inr (t, e) \<Rightarrow> (None, writeAudit actor ''instance.deployment_retry'' (i_id item) e))))"

definition queueInstanceUpdate :: "id \<Rightarrow> id \<Rightarrow> inst \<Rightarrow> db \<Rightarrow> outcome" where
  "queueInstanceUpdate tid actor item db =
     (if i_status item \<noteq> Running then refuse ''only running instances'' db
      else if \<not> validImageTag (i_version item) then refuse ''no version tag'' db
      else
        let t = newTask tid (i_id item) Update (ActionKey Update (i_id item) (now db)) (now db) (now db);
            p = (\<lambda>i. i_id i = i_id item \<and> i_owner i = i_owner item \<and> i_status i = Running \<and> i_runtime i \<noteq> Some Updating);
            f = (\<lambda>i. i\<lparr>i_runtime := Some Updating\<rparr>); d = db\<lparr>instances := update p f (instances db)\<rparr>
        in if affected p f (instances db) \<noteq> 1 then refuse ''already updating'' d
           else (case insertTask t d of
             Inl e \<Rightarrow> (Some e, d\<lparr>instances := update (\<lambda>i. i_id i = i_id item \<and> i_status i = Running \<and> i_runtime i = Some Updating)
                           (\<lambda>i. i\<lparr>i_runtime := Some Running\<rparr>) (instances d)\<rparr>)
           | Inr d1 \<Rightarrow> (None, writeAudit actor ''instance.update'' (i_id item) (appendTaskEvent tid ''queued'' d1))))"

definition selectedRelease :: "id \<Rightarrow> string \<Rightarrow> db \<Rightarrow> error + payload" where
  "selectedRelease imageID tag db =
     bindE (orElse (select (\<lambda>g. g_id g = imageID \<and> g_enabled g) (images db)) (Msg ''release withdrawn'')) (\<lambda>g.
       (case select (\<lambda>v. v_image v = g_id g \<and> v_tag v = tag \<and> v_enabled v \<and> v_status v = ''ready'') (imageVersions db) of
          Some v \<Rightarrow> Inr (ReinstallPayload (g_ref g) (v_tag v) (v_digest v) (g_terminalOnly g))
        | None \<Rightarrow> guardE (toLower tag = ''latest'') (Msg ''release cannot be bought'')
            (Inr (ReinstallPayload (g_ref g) ''latest'' [] (g_terminalOnly g)))))"

definition queueInstanceReinstall :: "id \<Rightarrow> id \<Rightarrow> (string \<times> string) option \<Rightarrow> inst \<Rightarrow> db \<Rightarrow> outcome" where
  "queueInstanceReinstall tid actor body item db =
     (if i_status item \<noteq> Running \<and> i_status item \<noteq> Stopped then refuse ''only running or stopped instances'' db
      else (case body of
        None \<Rightarrow> refuse ''choose a release'' db
      | Some (img, version) \<Rightarrow>
          if img = [] \<or> version = [] \<or> \<not> validImageTag (trimSpace version) then refuse ''choose a release'' db
          else tryE (selectedRelease (trimSpace img) (trimSpace version) db) db (\<lambda>pl.
            let d = db\<lparr>instances := update (\<lambda>i. i_id i = i_id item \<and> i_owner i = i_owner item \<and> (i_status i = Running \<or> i_status i = Stopped))
                      (\<lambda>i. i\<lparr>i_generation := i_generation i + 1\<rparr>) (instances db)\<rparr>
            in tryE (orElse (select (\<lambda>i. i_id i = i_id item) (instances d)) ErrNoRows) db (\<lambda>i.
              let t = (newTask tid (i_id item) Reinstall (ActionKey Reinstall (i_id item) (now db)) (now db) (now db))
                        \<lparr>t_generation := i_generation i, t_payload := pl\<rparr>
              in tryE (insertTask t d) db (\<lambda>d1.
                (None, writeAudit actor ''instance.reinstall'' (i_id item) (appendTaskEvent tid ''queued'' d1)))))))"

definition queuePower :: "id \<Rightarrow> id \<Rightarrow> action \<Rightarrow> inst \<Rightarrow> db \<Rightarrow> outcome" where
  "queuePower tid actor act item db =
     (if i_status item = Destroyed \<or> i_status item = Purged then refuse ''resources are destroyed'' db
      else tryE (scheduleInstanceTask tid (i_id item) act actor db) db (\<lambda>(_, d). (None, d)))"

text \<open>The request: the instance is read for its owner, archived ones excluded.\<close>

definition getStoredInstance :: "id \<Rightarrow> id \<Rightarrow> db \<Rightarrow> inst option" where
  "getStoredInstance iid owner db = select (\<lambda>i. i_id i = iid \<and> i_owner i = owner \<and> i_archivedAt i = None) (instances db)"

definition instanceAction :: "id \<Rightarrow> id \<Rightarrow> string \<Rightarrow> (string \<times> string) option \<Rightarrow> inst \<Rightarrow> db \<Rightarrow> outcome" where
  "instanceAction tid user act body item db =
     (if act = ''destroy'' \<or> act = ''delete'' then scheduleManualDestroy tid user item db
      else if act = ''cancel-destroy'' then cancelManualDestroy user item db
      else if act = ''archive'' then archiveDestroyedInstance user item db
      else if activeLifecycleTask (i_id item) db \<noteq> None then refuse ''instance is being processed'' db
      else if act = ''destroy-now'' then queueImmediateDestroy tid user item db
      else if act = ''retry-deploy'' then queueDeploymentRetry tid user item db
      else if act = ''update'' then queueInstanceUpdate tid user item db
      else if act = ''reinstall'' then queueInstanceReinstall tid user body item db
      else if act = ''start'' then queuePower tid user Start item db
      else if act = ''stop'' then queuePower tid user Stop item db
      else if act = ''restart'' then queuePower tid user Restart item db
      else refuse ''unsupported action'' db)"

definition queueInstanceAction :: "id \<Rightarrow> id \<Rightarrow> id \<Rightarrow> string \<Rightarrow> (string \<times> string) option \<Rightarrow> db \<Rightarrow> outcome" where
  "queueInstanceAction tid user iid act body db =
     (case getStoredInstance iid user db of None \<Rightarrow> (Some ErrNoRows, db) | Some item \<Rightarrow> instanceAction tid user act body item db)"

section \<open>The tasks after a manual operation\<close>

lemma unlock_tasks [simp]: "tasks (unlockTask tid d) = tasks d" "now (unlockTask tid d) = now d"
  by (simp_all add: unlockTask_def)

lemma abandon_tasks [simp]: "tasks (abandonChange fresh a t d) = tasks d" "now (abandonChange fresh a t d) = now d"
  by (simp_all add: abandonChange_def split: option.split)

lemma unclaimed_sel [simp]:
  "t_id (unclaimed t r) = t_id r" "t_status (unclaimed t r) = t_status r" "t_action (unclaimed t r) = t_action r"
  "t_instance (unclaimed t r) = t_instance r" "t_attempts (unclaimed t r) = t_attempts r"
  by (simp_all add: unclaimed_def)

lemma update_rows: "(\<And>r. r \<in> set t \<Longrightarrow> p r \<Longrightarrow> R r (f r)) \<Longrightarrow> (\<And>r. R r r) \<Longrightarrow> list_all2 R t (update p f t)"
  by (induction t) auto

text \<open>C27. A manual retry never replays a dangerous operation: for every task row, either nothing happens to
  it, or it had failed and then becomes pending with a new budget of attempts, unless its action is
  one of the dangerous ones: then it can only go to review.\<close>

theorem retry_never_replays:
  assumes u: "taskTab.unique d"
  shows "list_all2 (\<lambda>x y. y = x \<or> t_status x = TaskFailed \<and> t_id y = t_id x \<and> t_action y = t_action x \<and>
      (if dangerousRecoveredTask (t_action x) then t_status y = TaskReview else t_status y = TaskPending \<and> t_attempts y = 0))
    (tasks d) (tasks (snd (retryTask actor tid d)))"
proof (cases "loadTask tid d")
  case (Some task)
  have task: "task \<in> set (tasks d)" using Some select_SomeD unfolding loadTask_def by fastforce
  have same: "r \<in> set (tasks d) \<Longrightarrow> t_id r = t_id task \<Longrightarrow> r = task" for r by (rule taskTab.key_unique [OF u _ task])
  show ?thesis
  proof (cases "t_status task = TaskFailed")
    case True
    show ?thesis
    proof (cases "dangerousRecoveredTask (t_action task)")
      case d: True
      have "tasks (snd (retryTask actor tid d)) = update (\<lambda>r. t_id r = t_id task \<and> t_status r = TaskFailed)
          (\<lambda>r. (unclaimed (now d) r)\<lparr>t_status := TaskReview, t_lastError := quarantineText (t_lastError r) '' quarantined by an administrator''\<rparr>) (tasks d)"
        using True d by (simp add: retryTask_def Some Let_def refuse_def)
      then show ?thesis by (auto intro!: update_rows simp: d dest: same)
    next
      case d: False
      have "tasks (snd (retryTask actor tid d)) = update (\<lambda>r. t_id r = t_id task \<and> t_status r = TaskFailed)
          (\<lambda>r. (unclaimed (now d) r)\<lparr>t_status := TaskPending, t_attempts := 0, t_runAfter := now d, t_lastError := None, t_finishedAt := None\<rparr>) (tasks d)"
        using True d by (simp add: retryTask_def Some Let_def refuse_def)
      then show ?thesis by (auto intro!: update_rows simp: d dest: same)
    qed
  qed (simp add: retryTask_def Some refuse_def list.rel_refl)
qed (simp add: retryTask_def list.rel_refl)

section \<open>Discarding everything\<close>

definition discardedRow :: "controlTask \<Rightarrow> controlTask \<Rightarrow> bool" where
  "discardedRow x y \<longleftrightarrow> y = x \<or> abnormal x \<and> t_status y = TaskDiscarded \<and> t_id y = t_id x \<and> t_instance y = t_instance x \<and>
     t_action y = t_action x \<and> t_worker y = None \<and> t_token y = None"

lemma discardOne_tasks: "tasks (discardOne fresh i d) = update (\<lambda>r. t_id r = t_id i \<and> abnormal r)
   (\<lambda>r. (unclaimed (now d) r)\<lparr>t_status := TaskDiscarded, t_finishedAt := Some (now d),
      t_lastError := quarantineText (t_lastError r) '' discarded by an administrator''\<rparr>) (tasks d)"
  by (simp add: discardOne_def Let_def split: option.split)

lemma discardOne_now [simp]: "now (discardOne fresh i d) = now d"
  by (simp add: discardOne_def Let_def split: option.split)

lemma discard_rows:
  assumes "distinct (map t_id xs)" "\<forall>x \<in> set xs. abnormal x"
  shows "tasks (fold (discardOne fresh) xs d) = update (\<lambda>r. abnormal r \<and> t_id r \<in> t_id ` set xs)
     (\<lambda>r. (unclaimed (now d) r)\<lparr>t_status := TaskDiscarded, t_finishedAt := Some (now d),
        t_lastError := quarantineText (t_lastError r) '' discarded by an administrator''\<rparr>) (tasks d)"
  using assms
proof (induction xs arbitrary: d)
  case Nil
  then show ?case by (simp add: update_def)
next
  case (Cons x xs)
  then show ?case by (auto simp: discardOne_tasks update_def abnormal_def)
qed

text \<open>Discarding all abnormal tasks is exact: with at most 500 of them, every failed task and every task in
  review becomes discarded, loses its claim and keeps its recorded error, and every pending, running,
  finished or cancelled task stays exactly as it is.\<close>

theorem discard_all_exact:
  assumes u: "taskTab.unique d" and n: "length (filter abnormal (tasks d)) \<le> 500"
  shows "tasks (discardAllAdminTasks fresh actor d) = map (\<lambda>r. if abnormal r
      then r\<lparr>t_status := TaskDiscarded, t_finishedAt := Some (now d), t_claimedAt := None, t_claimExpires := None, t_worker := None,
             t_token := None, t_updatedAt := now d, t_lastError := quarantineText (t_lastError r) '' discarded by an administrator''\<rparr>
      else r) (tasks d)"
proof -
  let ?xs = "take 500 (sort_key t_createdAt (filter abnormal (tasks d)))"
  have xs: "?xs = sort_key t_createdAt (filter abnormal (tasks d))" using n by simp
  have "distinct (map t_id (filter abnormal (tasks d)))" using u by (simp add: taskTab.unique_def distinct_map_filter)
  then have "distinct (map t_id ?xs)" unfolding xs by (simp add: distinct_map)
  then have "tasks (discardAllAdminTasks fresh actor d) = update (\<lambda>r. abnormal r \<and> t_id r \<in> t_id ` set ?xs)
     (\<lambda>r. (unclaimed (now d) r)\<lparr>t_status := TaskDiscarded, t_finishedAt := Some (now d),
        t_lastError := quarantineText (t_lastError r) '' discarded by an administrator''\<rparr>) (tasks d)"
    unfolding discardAllAdminTasks_def log_frame by (rule discard_rows) (simp only: xs set_sort, simp)
  then show ?thesis unfolding xs by (auto simp: update_def unclaimed_def)
qed

section \<open>Planning and cancelling a destruction\<close>

text \<open>The conditional update, seen from the one row it is about.\<close>

lemma transition_row:
  assumes u: "instTab.unique d" and x: "x \<in> set (instances d)" and ok: "ex \<noteq> []" "\<forall>c \<in> set ex. canTransitionInstance c n"
  shows "transitionInstance (i_id x) ex n rt f d = Inr (i_status x \<in> set ex \<and> transitionRow n rt f x \<noteq> x,
    d\<lparr>instances := map (\<lambda>y. if y = x \<and> i_status x \<in> set ex then transitionRow n rt f x else y) (instances d)\<rparr>)"
proof -
  have "affected (\<lambda>r. i_id r = i_id x \<and> i_status r \<in> set ex) (transitionRow n rt f) (instances d) = 1
      \<longleftrightarrow> (i_id x = i_id x \<and> i_status x \<in> set ex) \<and> transitionRow n rt f x \<noteq> x"
    by (rule instTab.affected_key [OF u x]) simp
  moreover have "update (\<lambda>r. i_id r = i_id x \<and> i_status r \<in> set ex) (transitionRow n rt f) (instances d)
      = map (\<lambda>y. if y = x \<and> i_status x \<in> set ex then transitionRow n rt f x else y) (instances d)"
    unfolding update_def using instTab.key_unique [OF u _ x] by (intro map_cong) auto
  ultimately show ?thesis using ok by (auto simp: transitionInstance_def Let_def firstIllegal_None [THEN iffD2])
qed

lemma canceled_differs: "deferredDestroy iid d r \<Longrightarrow> canceledTask t r \<noteq> r"
  by (auto simp: deferredDestroy_def canceledTask_def dest: arg_cong [where f = t_status])

lemma deferred_instances [simp]: "deferredDestroy iid (d\<lparr>instances := xs\<rparr>) = deferredDestroy iid d"
  by (simp add: fun_eq_iff deferredDestroy_def)

lemma affected_deferred: "affected (deferredDestroy iid d) (canceledTask t) ts = countRows (deferredDestroy iid d) ts"
  by (induction ts) (auto simp: canceled_differs)

lemma resumed_cases: "resumedRuntime rt = Running \<or> resumedRuntime rt = Stopped"
  by (auto simp: resumedRuntime_def split: option.split)

lemma cancel_rows:
  assumes u: "instTab.unique d" and x: "x \<in> set (instances d)" "i_id x = i_id item"
    and c: "cancelManualDestroy actor item d = (None, d')"
  shows "i_status x = DestroyScheduled \<and> i_destroyReason item \<in> {Some Manual, Some FailedDeployment} \<and>
    instances d' = map (\<lambda>y. if y = x then x\<lparr>i_status := resumedRuntime (i_runtime item),
       i_runtime := Some (resumedRuntime (i_runtime item)), i_destroyAt := None, i_destroyReason := None\<rparr> else y) (instances d) \<and>
    tasks d' = update (deferredDestroy (i_id item) d) (canceledTask (now d)) (tasks d) \<and>
    countRows (deferredDestroy (i_id item) d) (tasks d) = 1"
proof -
  let ?b = "resumedRuntime (i_runtime item)"
  let ?g = "\<lambda>r. r\<lparr>i_destroyAt := None, i_destroyReason := None\<rparr>"
  let ?d1 = "d\<lparr>instances := map (\<lambda>y. if y = x \<and> i_status x \<in> set [DestroyScheduled] then transitionRow ?b (Some ?b) ?g x else y) (instances d)\<rparr>"
  have ok: "\<forall>c \<in> set [DestroyScheduled]. canTransitionInstance c ?b"
    using resumed_cases [of "i_runtime item"] by (auto simp: canTransitionInstance_def)
  have t: "transitionInstance (i_id item) [DestroyScheduled] ?b (Some ?b) ?g d
      = Inr (i_status x \<in> set [DestroyScheduled] \<and> transitionRow ?b (Some ?b) ?g x \<noteq> x, ?d1)"
    using transition_row [OF u x(1) _ ok] x(2) by simp
  have g: "activeLifecycleTask (i_id item) d = None" "i_status item = DestroyScheduled" "i_destroyReason item \<in> {Some Manual, Some FailedDeployment}"
    using c unfolding cancelManualDestroy_def refuse_def by (auto split: if_splits)
  have r: "i_destroyReason item \<noteq> Some Refunded" "i_destroyReason item \<noteq> Some Expired" using g(3) by auto
  from c have k: "i_status x = DestroyScheduled" "affected (deferredDestroy (i_id item) d) (canceledTask (now d)) (tasks d) = 1"
    "d' = createNotification (i_owner item) ''instance_destroy_cancelled'' (i_id item) (writeAudit actor ''instance.destroy_cancelled'' (i_id item)
       (?d1\<lparr>tasks := update (deferredDestroy (i_id item) d) (canceledTask (now d)) (tasks d)\<rparr>))"
    using g r unfolding cancelManualDestroy_def transitionThen_def Let_def t refuse_def by (auto split: if_splits)
  have "instances d' = map (\<lambda>y. if y = x then x\<lparr>i_status := ?b, i_runtime := Some ?b, i_destroyAt := None, i_destroyReason := None\<rparr> else y) (instances d)"
    unfolding k(3) using k(1) by (simp add: transitionRow_def)
  then show ?thesis using k g(3) by (simp add: affected_deferred)
qed

lemma update_none: "(\<And>y. \<not> p (f y)) \<Longrightarrow> t \<in> set (update p f l) \<Longrightarrow> \<not> p t"
  unfolding in_update by metis

text \<open>Cancelling a destruction is all or nothing: when it is refused, nothing is written; when it
  succeeds, the instance was waiting for a destruction its owner had asked for, goes back to running
  or stopped without any schedule, exactly one deferred destroy task existed, it is cancelled, and
  none is left to fire later.\<close>

theorem cancel_atomic:
  assumes u: "instTab.unique d" and x: "x \<in> set (instances d)" "i_id x = i_id item"
    and c: "cancelManualDestroy actor item d = (err, d')"
  shows "(err \<noteq> None \<longrightarrow> d' = d) \<and>
    (err = None \<longrightarrow> i_status x = DestroyScheduled \<and> i_destroyReason item \<in> {Some Manual, Some FailedDeployment} \<and>
       (\<forall>y \<in> set (instances d'). i_id y = i_id x \<longrightarrow> i_status y \<in> {Running, Stopped} \<and> i_destroyAt y = None \<and> i_destroyReason y = None) \<and>
       countRows (deferredDestroy (i_id x) d) (tasks d) = 1 \<and>
       (\<forall>t \<in> set (tasks d'). \<not> deferredDestroy (i_id x) d t))"
proof (intro conjI impI)
  assume "err \<noteq> None"
  then show "d' = d" using c by (auto simp: cancelManualDestroy_def transitionThen_def refuse_def Let_def split: if_splits sum.splits)
next
  assume "err = None"
  note r = cancel_rows [OF u x c [unfolded this]]
  show "i_status x = DestroyScheduled" "i_destroyReason item \<in> {Some Manual, Some FailedDeployment}"
    "countRows (deferredDestroy (i_id x) d) (tasks d) = 1" using r x(2) by simp_all
  show "\<forall>y \<in> set (instances d'). i_id y = i_id x \<longrightarrow> i_status y \<in> {Running, Stopped} \<and> i_destroyAt y = None \<and> i_destroyReason y = None"
    using r instTab.key_unique [OF u _ x(1)] resumed_cases [of "i_runtime item"] by auto
  have "\<not> deferredDestroy iid d (canceledTask t y)" for iid t y
    by (simp add: deferredDestroy_def canceledTask_def)
  then show "\<forall>t \<in> set (tasks d'). \<not> deferredDestroy (i_id x) d t" using r x(2) update_none by metis
qed

text \<open>A cancelled clean-up of a failed deployment cannot be deployed again: the notification promises that
  deployment can be retried, but the instance comes back as running or stopped, and
  \<open>queueDeploymentRetry\<close> accepts only \<open>deployment_failed\<close>.\<close>

theorem cancelled_cleanup_cannot_retry:
  assumes u: "instTab.unique d" and x: "x \<in> set (instances d)" "i_destroyReason x = Some FailedDeployment"
    and c: "cancelManualDestroy actor x d = (None, d')" and y: "y \<in> set (instances d')" "i_id y = i_id x"
  shows "queueDeploymentRetry tid user y d' = (Some (Msg ''deployment cannot be retried''), d')"
proof -
  have "i_status y \<noteq> DeploymentFailed"
    using cancel_rows [OF u x(1) refl c] y instTab.key_unique [OF u _ x(1)] resumed_cases [of "i_runtime x"] by auto
  then show ?thesis by (simp add: queueDeploymentRetry_def refuse_def)
qed

lemma schedule_fresh:
  assumes "tid \<notin> t_id ` set (tasks d)" "LifecycleKey act iid m \<notin> t_key ` set (tasks d)"
  shows "scheduleLifecycleTaskAt tid iid act m run d = Inr (newTask tid iid act (LifecycleKey act iid m) run (now d),
    appendTaskEvent tid ''queued'' (d\<lparr>tasks := tasks d @ [newTask tid iid act (LifecycleKey act iid m) run (now d)]\<rparr>))"
  using assms by (simp add: scheduleLifecycleTaskAt_def insertTask_def newTask_def Let_def)

definition plannedRow :: "reason \<Rightarrow> gotime \<Rightarrow> inst \<Rightarrow> inst" where
  "plannedRow why t x = x\<lparr>i_status := DestroyScheduled, i_runtime := Some (resumedRuntime (i_runtime x)), i_destroyReason := Some why,
     i_destroyAt := Some (storedTime (addDays t 7)), i_destroyedAt := None, i_purgeAt := None\<rparr>"

lemma manual_destroy_rows:
  assumes u: "instTab.unique d" and x: "x \<in> set (instances d)" "i_status x \<in> {Running, Stopped, DeploymentFailed}"
    and new: "tid \<notin> t_id ` set (tasks d)" "LifecycleKey Destroy (i_id x) (addDays (now d) 7) \<notin> t_key ` set (tasks d)"
  shows "\<exists>d1. scheduleManualDestroy tid actor x d = (None, d1) \<and>
    instances d1 = map (\<lambda>y. if y = x then plannedRow (if i_status x = DeploymentFailed then FailedDeployment else Manual) (now d) x else y) (instances d) \<and>
    tasks d1 = tasks d @ [newTask tid (i_id x) Destroy (LifecycleKey Destroy (i_id x) (addDays (now d) 7)) (addDays (now d) 7) (now d)] \<and>
    now d1 = now d"
proof -
  let ?ex = "[Running, Stopped] @ (if i_status x = DeploymentFailed then [DeploymentFailed] else [])"
  let ?why = "if i_status x = DeploymentFailed then FailedDeployment else Manual"
  let ?f = "\<lambda>r. r\<lparr>i_destroyReason := Some ?why, i_destroyAt := Some (storedTime (addDays (now d) 7)), i_destroyedAt := None, i_purgeAt := None\<rparr>"
  let ?g = "transitionRow DestroyScheduled (Some (resumedRuntime (i_runtime x))) ?f"
  define e where "e = d\<lparr>instances := map (\<lambda>y. if y = x \<and> i_status x \<in> set ?ex then ?g x else y) (instances d)\<rparr>"
  have ok: "\<forall>c \<in> set ?ex. canTransitionInstance c DestroyScheduled" by (auto simp: canTransitionInstance_def)
  have "?g x \<noteq> x" using x(2) by (auto simp: transitionRow_def dest: arg_cong [where f = i_status])
  then have t: "transitionInstance (i_id x) ?ex DestroyScheduled (Some (resumedRuntime (i_runtime x))) ?f d = Inr (True, e)"
    unfolding e_def using transition_row [OF u x(1) _ ok] x(2) by auto
  have g: "?g x = plannedRow ?why (now d) x" by (simp add: transitionRow_def plannedRow_def)
  have sf: "scheduleLifecycleTaskAt tid (i_id x) Destroy (addDays (now d) 7) (addDays (now d) 7) e = Inr
     (newTask tid (i_id x) Destroy (LifecycleKey Destroy (i_id x) (addDays (now d) 7)) (addDays (now d) 7) (now d),
      appendTaskEvent tid ''queued'' (e\<lparr>tasks := tasks d @ [newTask tid (i_id x) Destroy (LifecycleKey Destroy (i_id x) (addDays (now d) 7)) (addDays (now d) 7) (now d)]\<rparr>))"
    using schedule_fresh [of tid e Destroy "i_id x"] new by (simp add: e_def)
  have s: "i_status x \<noteq> DestroyScheduled \<and> i_status x \<noteq> Destroyed \<and> i_status x \<noteq> Purged" using x(2) by auto
  have "scheduleManualDestroy tid actor x d =
     transitionThen (i_id x) ?ex DestroyScheduled (Some (resumedRuntime (i_runtime x))) ?f d
       (\<lambda>changed c. if \<not> changed then refuse ''instance changed'' c
          else (case scheduleLifecycleTaskAt tid (i_id x) Destroy (addDays (now d) 7) (addDays (now d) 7) c of
             Inl e \<Rightarrow> (Some e, c)
           | Inr (t, e) \<Rightarrow> (None, createNotification (i_owner x) ''instance_destroy_scheduled'' (i_id x)
               (writeAudit actor ''instance.destroy_scheduled'' (i_id x) (appendTaskEvent (t_id t) ''manual_destroy_scheduled'' e)))))"
    using s x(2) by (cases "i_status x = DeploymentFailed") (auto simp: scheduleManualDestroy_def Let_def)
  then have "\<exists>d1. scheduleManualDestroy tid actor x d = (None, d1) \<and> instances d1 = instances e \<and> now d1 = now d \<and>
      tasks d1 = tasks d @ [newTask tid (i_id x) Destroy (LifecycleKey Destroy (i_id x) (addDays (now d) 7)) (addDays (now d) 7) (now d)]"
    unfolding transitionThen_def t by (simp only: sum.case prod.case sf not_True_eq_False if_False) (simp add: e_def)
  then show ?thesis using x(2) unfolding e_def g by auto
qed

text \<open>Cancelling undoes planning: for a running or stopped instance whose container state is known, with
  no schedule and no lifecycle task, planning its destruction and cancelling it on the row read then
  gives back every instance row exactly as it was, and leaves one more task, which is cancelled.\<close>

theorem cancel_undoes_destroy:
  assumes u: "instTab.unique d" and x: "x \<in> set (instances d)" "i_status x \<in> {Running, Stopped}" "i_runtime x = Some (i_status x)"
    "i_destroyAt x = None" "i_destroyReason x = None" "i_destroyedAt x = None" "i_purgeAt x = None"
    and idle: "\<forall>t \<in> set (tasks d). \<not> activeTaskRow (i_id x) d t \<and> \<not> deferredDestroy (i_id x) d t"
    and new: "tid \<notin> t_id ` set (tasks d)" "LifecycleKey Destroy (i_id x) (addDays (now d) 7) \<notin> t_key ` set (tasks d)"
  shows "\<exists>d1 y d2 t. scheduleManualDestroy tid actor x d = (None, d1) \<and> y \<in> set (instances d1) \<and> i_id y = i_id x \<and>
    i_status y = DestroyScheduled \<and> cancelManualDestroy actor y d1 = (None, d2) \<and>
    instances d2 = instances d \<and> tasks d2 = tasks d @ [t] \<and> t_id t = tid \<and> t_status t = TaskCanceled"
proof -
  have st: "i_status x \<in> {Running, Stopped, DeploymentFailed}" "i_status x \<noteq> DeploymentFailed" using x(2) by auto
  let ?t = "newTask tid (i_id x) Destroy (LifecycleKey Destroy (i_id x) (addDays (now d) 7)) (addDays (now d) 7) (now d)"
  let ?y = "plannedRow Manual (now d) x"
  obtain d1 where d1: "scheduleManualDestroy tid actor x d = (None, d1)"
    "instances d1 = map (\<lambda>y. if y = x then ?y else y) (instances d)" "tasks d1 = tasks d @ [?t]" "now d1 = now d"
    using manual_destroy_rows [OF u x(1) st(1) new, where actor = actor] st(2) by auto
  have later: "now d < addDays (now d) 7" by (simp add: addDays_def time_units)
  have y: "?y \<in> set (instances d1)" "i_id ?y = i_id x" "i_status ?y = DestroyScheduled" "i_destroyReason ?y = Some Manual"
    "resumedRuntime (i_runtime ?y) = i_status x"
    using x by (auto simp: d1(2) plannedRow_def resumedRuntime_def)
  have "map i_id (instances d1) = map i_id (instances d)" by (simp add: d1(2) y(2))
  then have u1: "instTab.unique d1" using u by (simp add: instTab.unique_def)
  have row: "activeTaskRow (i_id x) d1 = activeTaskRow (i_id x) d" "deferredDestroy (i_id x) d1 = deferredDestroy (i_id x) d"
    by (auto simp: fun_eq_iff activeTaskRow_def deferredDestroy_def d1(4))
  have "filter (activeTaskRow (i_id x) d1) (tasks d1) = []"
    using idle later by (auto simp: row d1(3) filter_empty_conv activeTaskRow_def newTask_def)
  then have active: "activeLifecycleTask (i_id ?y) d1 = None" by (simp add: activeLifecycleTask_def y(2))
  have none: "filter (deferredDestroy (i_id x) d) (tasks d) = []" using idle by (simp add: filter_empty_conv)
  have t: "deferredDestroy (i_id x) d ?t" using later by (simp add: deferredDestroy_def newTask_def)
  have one: "affected (deferredDestroy (i_id x) d) (canceledTask (now d)) (tasks d1) = 1"
    using none t by (simp add: affected_deferred d1(3) countRows_def)
  let ?g = "\<lambda>r. r\<lparr>i_destroyAt := None, i_destroyReason := None\<rparr>"
  have ok: "\<forall>c \<in> set [DestroyScheduled]. canTransitionInstance c (i_status x)" using x(2) by (auto simp: canTransitionInstance_def)
  have undo: "transitionRow (i_status x) (Some (i_status x)) ?g ?y = x" using x by (simp add: transitionRow_def plannedRow_def)
  have ne: "x \<noteq> ?y" using x(2) y(3) by auto
  have rest: "map (\<lambda>z. if z = ?y \<and> i_status ?y \<in> set [DestroyScheduled] then x else z) (instances d1) = instances d"
  proof -
    have "?y \<notin> set (instances d)" using instTab.key_unique [OF u _ x(1)] y(2) ne by metis
    then show ?thesis by (auto simp: d1(2) y(3) intro!: map_idI)
  qed
  have "transitionInstance (i_id ?y) [DestroyScheduled] (i_status x) (Some (i_status x)) ?g d1 = Inr (True, d1\<lparr>instances := instances d\<rparr>)"
    using transition_row [OF u1 y(1) _ ok, of "Some (i_status x)" ?g] ne y(3) unfolding undo rest by simp
  then have "\<exists>d2. cancelManualDestroy actor ?y d1 = (None, d2) \<and> instances d2 = instances d \<and>
      tasks d2 = update (deferredDestroy (i_id x) d) (canceledTask (now d)) (tasks d1)"
    using active y one by (simp add: cancelManualDestroy_def transitionThen_def row d1(4))
  moreover have "update (deferredDestroy (i_id x) d) (canceledTask (now d)) (tasks d1) = tasks d @ [canceledTask (now d) ?t]"
  proof -
    have "update (deferredDestroy (i_id x) d) (canceledTask (now d)) (tasks d) = tasks d" using idle by (intro update_id) auto
    then show ?thesis using t by (simp add: d1(3) update_def)
  qed
  moreover have "t_id (canceledTask (now d) ?t) = tid" "t_status (canceledTask (now d) ?t) = TaskCanceled"
    by (simp_all add: canceledTask_def newTask_def)
  ultimately show ?thesis using d1(1) y by metis
qed

lemma storedTime_whole: "second dvd storedTime t"
  by (simp add: storedTime_def)

text \<open>The planned destroy task is a dummy. Its key carries the planned moment in nanoseconds, while the
  column keeps whole seconds, and \<open>executeDestroyTask\<close> compares the two: unless the request arrived on
  a whole second, the task that planning a destruction stores succeeds without asking the Agent
  whenever it runs, as long as the plan stands, and the instance is not destroyed by it.\<close>

theorem planned_task_is_dummy:
  assumes u: "instTab.unique d" and x: "x \<in> set (instances d)" "i_status x \<in> {Running, Stopped, DeploymentFailed}"
    and new: "tid \<notin> t_id ` set (tasks d)" "LifecycleKey Destroy (i_id x) (addDays (now d) 7) \<notin> t_key ` set (tasks d)"
    and frac: "\<not> second dvd now d"
  shows "\<exists>d1 t. scheduleManualDestroy tid actor x d = (None, d1) \<and> t \<in> set (tasks d1) \<and> t_id t = tid \<and>
    (\<forall>e. (\<forall>y \<in> set (instances e). i_id y = i_id x \<longrightarrow> i_destroyAt y = Some (storedTime (addDays (now d) 7))) \<longrightarrow>
       (\<forall>call op n. executeDestroyTask call op t (i_id x) (i_container x) n e = (None, e)))"
proof -
  let ?t = "newTask tid (i_id x) Destroy (LifecycleKey Destroy (i_id x) (addDays (now d) 7)) (addDays (now d) 7) (now d)"
  obtain d1 where d1: "scheduleManualDestroy tid actor x d = (None, d1)" "tasks d1 = tasks d @ [?t]"
    using manual_destroy_rows [OF u x new, where actor = actor] by auto
  have "\<not> second dvd addDays (now d) 7" using frac by (simp add: addDays_def day_def hour_def minute_def dvd_add_left_iff)
  then have "addDays (now d) 7 \<noteq> storedTime (addDays (now d) 7)" using storedTime_whole by metis
  then have "executeDestroyTask call op ?t (i_id x) (i_container x) n e = (None, e)"
    if "\<forall>y \<in> set (instances e). i_id y = i_id x \<longrightarrow> i_destroyAt y = Some (storedTime (addDays (now d) 7))" for call op n e
    using that by (auto simp: executeDestroyTask_def newTask_def split: option.split dest: select_SomeD)
  moreover have "?t \<in> set (tasks d1)" "t_id ?t = tid" by (simp_all add: d1(2) newTask_def)
  ultimately show ?thesis using d1(1) by blast
qed

section \<open>Repairs that do not repair\<close>

text \<open>Retrying the creation of a failed deployment is futile: once the deployment is marked failed, the
  retried create task fails at the fence before any Agent request, whatever the Agent would answer,
  and changes nothing.\<close>

theorem retried_create_refused:
  assumes u: "taskTab.unique e" and x: "x \<in> set (tasks e)" "t_action x = Create"
    and f: "\<forall>i \<in> set (instances e). i_id i = t_instance x \<longrightarrow> i_status i = DeploymentFailed"
  shows "\<exists>err. \<forall>call fresh. executeTask call fresh x e = (Some err, e)"
proof (rule blocked_execution)
  show "\<forall>y \<in> set (tasks e). \<forall>i \<in> set (instances e). \<not> (leaseRow x e y \<and> lockRow e y i \<and> generationOk y i \<and>
      i_status i \<in> set (expectedStates (t_action x)))"
  proof (intro ballI notI)
    fix y i assume y: "y \<in> set (tasks e)" "i \<in> set (instances e)"
      and a: "leaseRow x e y \<and> lockRow e y i \<and> generationOk y i \<and> i_status i \<in> set (expectedStates (t_action x))"
    have "y = x" using taskTab.key_unique [OF u y(1) x(1)] a by (simp add: leaseRow_def)
    then show False using a f y(2) x(2) by (auto simp: lockRow_def)
  qed
qed (simp add: x(2))

text \<open>A deployment that is retried successfully leaves its order failed: queuing the retry writes no order,
  and a successful deployment activates only orders that are still deploying.\<close>

theorem redeployed_order_stays_failed:
  assumes "o_status r = OrderDeploymentFailed" and "r \<in> set (orders d)"
    and "queueDeploymentRetry tid actor item d = (None, d1)" and "orders e = orders d1"
  shows "r \<in> set (orders (snd (deployed iid ex n e)))"
proof -
  obtain e1 e2 t where e: "transitionInstance (i_id item) [DeploymentFailed] Deploying (Some UnknownRuntime) (\<lambda>r. r) d = Inr (True, e1)"
    "scheduleInstanceTask tid (i_id item) RetryDeploy actor e1 = Inr (t, e2)"
    "d1 = writeAudit actor ''instance.deployment_retry'' (i_id item) e2"
    using assms(3) by (auto simp: queueDeploymentRetry_def transitionThen_def refuse_def split: if_splits sum.splits)
  have "orders e2 = orders e1" using e(2) by (auto simp: scheduleInstanceTask_def Let_def resultE insertE)
  then have "orders d1 = orders d" using transition_frame(2) [OF e(1)] e(3) by simp
  then have "r \<in> set (orders e)" using assms(2,4) by simp
  moreover have "r \<in> set (orders (activateOrders iid f))" if "r \<in> set (orders f)" for f
    using that assms(1) by (auto simp: activateOrders_def update_def intro!: image_eqI [where x = r])
  ultimately show ?thesis using transition_frame(2)
    by (cases "transitionInstance iid ex n (Some Running) (\<lambda>r. r) e") (auto simp: deployed_def transitionThen_def)
qed

text \<open>Discarding the task of a blocked plan change closes the task but not the change: while the change
  waits for review its reservation stays withheld, no wallet entry gives it back, and the change
  stays in review with no task left that could settle it.\<close>

theorem discarded_resize_keeps_hold:
  assumes u: "taskTab.unique d" and t: "task \<in> set (tasks d)" "t_action task = Resize" "t_status task = TaskReview"
    and p: "t_payload task = ResizePayload cid cpu mem run"
    and c: "select (\<lambda>c. pc_id c = cid) (planChanges d) = Some c" "pc_status c = NeedsReview"
  shows "\<exists>d1. discardReviewTask fresh actor (t_id task) d = (None, d1) \<and> planChanges d1 = planChanges d \<and>
    walletEntries d1 = walletEntries d \<and> (\<forall>s \<in> set (tasks d1). t_id s = t_id task \<longrightarrow> t_status s = TaskFailed)"
proof -
  let ?p = "\<lambda>r. t_id r = t_id task \<and> t_status r = TaskReview"
  let ?f = "\<lambda>r. r\<lparr>t_status := TaskFailed, t_finishedAt := Some (now d), t_lastError := Some ''discarded by an administrator'', t_updatedAt := now d\<rparr>"
  let ?d = "d\<lparr>tasks := update ?p ?f (tasks d)\<rparr>"
  have l: "loadTask (t_id task) d = Some task" unfolding loadTask_def by (rule taskTab.select_key [OF u t(1)]) simp_all
  have "?f task \<noteq> task" using t(3) by (auto dest: arg_cong [where f = t_status])
  then have a: "affected ?p ?f (tasks d) = 1" using taskTab.affected_key [OF u t(1), of ?p ?f] t(3) by simp
  have "failPlanChange fresh task e ?d = ?d" for e using c p by (simp add: failPlanChange_def resizePayload_def)
  then have ab: "abandonChange fresh (t_action task) task ?d = ?d" by (simp add: abandonChange_def t(2))
  have "t_status s = TaskFailed" if "s \<in> set (update ?p ?f (tasks d))" "t_id s = t_id task" for s
  proof -
    note m = that
    obtain s0 where s0: "s0 \<in> set (tasks d)" "s = (if ?p s0 then ?f s0 else s0)" using m(1) unfolding in_update by blast
    then have "t_id s0 = t_id task" using m(2) by (auto split: if_splits)
    then have "s0 = task" by (rule taskTab.key_unique [OF u s0(1) t(1)])
    then show ?thesis using s0(2) t(3) by simp
  qed
  then show ?thesis
    unfolding discardReviewTask_def l option.case Let_def using a ab
    by (simp add: unlockTask_def)
qed

section \<open>Console requests and the life of an instance\<close>

lemma transitionThen_path:
  assumes "frameSet f" "\<And>b e. statusPath d e \<Longrightarrow> statusPath d (snd (k b e))"
  shows "statusPath d (snd (transitionThen iid ex n rt f d k))"
  using assms transition_path [OF assms(1)] by (auto simp: transitionThen_def split: sum.split)

lemma path_fields [simp]:
  "statusPath d (e\<lparr>tasks := ts\<rparr>) = statusPath d e" "statusPath d (e\<lparr>instanceOperations := os\<rparr>) = statusPath d e"
  by (simp_all add: statusPath_def)

lemma path_flags:
  assumes "\<And>i. i_id (f i) = i_id i \<and> i_status (f i) = i_status i"
  shows "statusPath d e \<Longrightarrow> statusPath d (e\<lparr>instances := update p f (instances e)\<rparr>)"
  by (erule statusPath_trans, rule statusPath_update [where p = p and f = f]) (simp_all add: assms)

lemma path_flags_twice:
  assumes "\<And>i. i_id (f i) = i_id i \<and> i_status (f i) = i_status i"
  shows "statusPath d (e\<lparr>instances := xs\<rparr>) \<Longrightarrow> statusPath d (e\<lparr>instances := update p f xs\<rparr>)"
  using path_flags [OF assms, of d "e\<lparr>instances := xs\<rparr>" p] by simp

lemma scheduleInstance_path: "scheduleInstanceTask tid iid act actor e = Inr (t, e') \<Longrightarrow> statusPath d e \<Longrightarrow> statusPath d e'"
  by (auto simp: scheduleInstanceTask_def Let_def resultE insertE)

lemma scheduleLifecycle_at_path: "scheduleLifecycleTaskAt tid iid act m run e = Inr (t, e') \<Longrightarrow> statusPath d e \<Longrightarrow> statusPath d e'"
  using schedule_adds by (fastforce simp: addsTasks_def statusPath_def)

lemma manualDestroy_path: "statusPath d (snd (scheduleManualDestroy tid actor item d))"
  unfolding scheduleManualDestroy_def Let_def
  by (auto simp: refuse_def frameSet_def intro!: transitionThen_path dest: scheduleLifecycle_at_path split: sum.split)

lemma cancel_path: "statusPath d (snd (cancelManualDestroy actor item d))"
  unfolding cancelManualDestroy_def Let_def by (auto simp: refuse_def frameSet_def intro!: transitionThen_path)

lemma immediate_path: "statusPath d (snd (queueImmediateDestroy tid actor item d))"
  unfolding queueImmediateDestroy_def Let_def
  by (auto simp: refuse_def scheduleLifecycleTask_def intro!: path_flags dest!: scheduleLifecycle_at_path [where d = d] split: sum.split)

lemma archive_path: "statusPath d (snd (archiveDestroyedInstance actor item d))"
  unfolding archiveDestroyedInstance_def Let_def by (auto simp: refuse_def intro!: path_flags)

lemma redeploy_path: "statusPath d (snd (queueDeploymentRetry tid actor item d))"
  unfolding queueDeploymentRetry_def
  by (auto simp: refuse_def intro!: transitionThen_path statusPath_trans [OF _ transitionOr_path] dest: scheduleInstance_path split: sum.split)

lemma updateRequest_path: "statusPath d (snd (queueInstanceUpdate tid actor item d))"
  unfolding queueInstanceUpdate_def Let_def
  by (auto simp: refuse_def insertE intro!: path_flags path_flags_twice split: sum.split)

lemma reinstall_path: "statusPath d (snd (queueInstanceReinstall tid actor body item d))"
  unfolding queueInstanceReinstall_def Let_def tryE_def
  by (auto simp: refuse_def insertE intro!: path_flags split: sum.split option.split)

lemma power_path: "statusPath d (snd (queuePower tid actor act item d))"
  unfolding queuePower_def tryE_def by (auto simp: refuse_def dest: scheduleInstance_path [where d = d] split: sum.split)

lemmas request_paths = manualDestroy_path cancel_path immediate_path archive_path redeploy_path updateRequest_path reinstall_path power_path

lemma queueInstanceAction_path: "statusPath d (snd (queueInstanceAction tid user iid act body d))"
  unfolding queueInstanceAction_def instanceAction_def
  by (simp add: request_paths refuse_def split: option.split)

interpretation console_life: lifecycle_op "\<lambda>(tid, user, iid, act, body) d. snd (queueInstanceAction tid user iid act body d)"
  by unfold_locales (auto simp: queueInstanceAction_path)

section \<open>Concrete requests\<close>

definition exampleFailed :: controlTask where
  "exampleFailed = (newTask ''t'' ''i'' Destroy (LifecycleKey Destroy ''i'' 0) 0 0)\<lparr>t_status := TaskFailed\<rparr>"

lemma failed_unique: "taskTab.unique ((emptyDb 9)\<lparr>tasks := [exampleFailed]\<rparr>)"
  by (simp add: taskTab.unique_def)

theorem retry_never_replays_witness:
  "length (tasks (snd (retryTask ''admin'' ''t'' ((emptyDb 9)\<lparr>tasks := [exampleFailed]\<rparr>)))) = 1"
  using list_all2_lengthD [OF retry_never_replays [OF failed_unique, of "''admin''" "''t''"]] by simp

theorem discard_all_exact_witness:
  "map t_status (tasks (discardAllAdminTasks (\<lambda>a b. b) ''admin'' ((emptyDb 9)\<lparr>tasks := [exampleFailed]\<rparr>))) = [TaskDiscarded]"
  using discard_all_exact [OF failed_unique, of "\<lambda>a b. b" "''admin''"] by (simp add: exampleFailed_def abnormal_def newTask_def)

definition examplePlanned :: db where
  "examplePlanned = (emptyDb 9)\<lparr>instances := [plannedRow FailedDeployment 9 (exampleAlive\<lparr>i_status := DeploymentFailed, i_runtime := Some UnknownRuntime\<rparr>)],
     tasks := [newTask ''t'' ''i'' Destroy (LifecycleKey Destroy ''i'' 90) 90 9]\<rparr>"

definition examplePlannedRow :: inst where
  "examplePlannedRow = plannedRow FailedDeployment 9 (exampleAlive\<lparr>i_status := DeploymentFailed, i_runtime := Some UnknownRuntime\<rparr>)"

lemma planned_rows:
  "instTab.unique examplePlanned" "instances examplePlanned = [examplePlannedRow]" "i_id examplePlannedRow = ''i''"
  "i_status examplePlannedRow = DestroyScheduled" "i_destroyReason examplePlannedRow = Some FailedDeployment"
  "i_runtime examplePlannedRow = Some Stopped"
  by (simp_all add: instTab.unique_def examplePlanned_def examplePlannedRow_def plannedRow_def exampleAlive_def resumedRuntime_def)

lemma planned_cancel: "\<exists>d'. cancelManualDestroy ''u'' examplePlannedRow examplePlanned = (None, d')"
proof -
  let ?g = "\<lambda>r. r\<lparr>i_destroyAt := None, i_destroyReason := None\<rparr>"
  have "activeLifecycleTask ''i'' examplePlanned = None"
    by (simp add: activeLifecycleTask_def activeTaskRow_def examplePlanned_def newTask_def emptyDb_def)
  moreover have "transitionRow Stopped (Some Stopped) ?g examplePlannedRow \<noteq> examplePlannedRow"
    using planned_rows(4) by (auto simp: transitionRow_def dest: arg_cong [where f = i_status])
  moreover have "countRows (deferredDestroy ''i'' examplePlanned) (tasks examplePlanned) = 1"
    by (simp add: deferredDestroy_def examplePlanned_def newTask_def emptyDb_def)
  moreover have "now examplePlanned = 9" by (simp add: examplePlanned_def emptyDb_def)
  ultimately show ?thesis
    by (simp add: cancelManualDestroy_def transitionThen_def planned_rows transitionInstance_def canTransitionInstance_def
        resumedRuntime_def affected_deferred)
qed

theorem cancel_atomic_witness:
  "\<exists>d'. cancelManualDestroy ''u'' examplePlannedRow examplePlanned = (None, d') \<and>
     countRows (deferredDestroy ''i'' examplePlanned) (tasks examplePlanned) = 1"
  using planned_cancel cancel_atomic [OF planned_rows(1), of examplePlannedRow examplePlannedRow "''u''" None] planned_rows by auto

theorem cancelled_cleanup_cannot_retry_witness:
  "\<exists>d' y. y \<in> set (instances d') \<and> queueDeploymentRetry ''t2'' ''u'' y d' = (Some (Msg ''deployment cannot be retried''), d')"
proof -
  obtain d' where c: "cancelManualDestroy ''u'' examplePlannedRow examplePlanned = (None, d')" using planned_cancel by blast
  have x: "examplePlannedRow \<in> set (instances examplePlanned)" by (simp add: planned_rows)
  obtain y where y: "y \<in> set (instances d')" "i_id y = i_id examplePlannedRow"
    using cancel_rows [OF planned_rows(1) x refl c] by (auto simp: planned_rows)
  from cancelled_cleanup_cannot_retry [OF planned_rows(1) x planned_rows(5) c y] y(1) show ?thesis by blast
qed

definition exampleIdle :: db where
  "exampleIdle = (emptyDb 9)\<lparr>instances := [exampleAlive]\<rparr>"

lemma idle_rows: "instTab.unique exampleIdle" "exampleAlive \<in> set (instances exampleIdle)" "tasks exampleIdle = []"
  "i_status exampleAlive = Running" "i_runtime exampleAlive = Some Running" "i_destroyAt exampleAlive = None"
  "i_destroyReason exampleAlive = None" "i_destroyedAt exampleAlive = None" "i_purgeAt exampleAlive = None" "now exampleIdle = 9"
  by (simp_all add: instTab.unique_def exampleIdle_def emptyDb_def exampleAlive_def blankInst_def)

theorem cancel_undoes_destroy_witness:
  "\<exists>d1 y d2. scheduleManualDestroy ''t'' ''u'' exampleAlive exampleIdle = (None, d1) \<and>
     cancelManualDestroy ''u'' y d1 = (None, d2) \<and> instances d2 = instances exampleIdle"
  using cancel_undoes_destroy [OF idle_rows(1,2), of "''t''" "''u''"] by (simp add: idle_rows) blast

theorem planned_task_is_dummy_witness:
  "\<exists>d1 t. scheduleManualDestroy ''t'' ''u'' exampleAlive exampleIdle = (None, d1) \<and> t \<in> set (tasks d1) \<and> t_id t = ''t''"
  using planned_task_is_dummy [OF idle_rows(1,2), of "''t''" "''u''"]
  by (simp add: idle_rows time_units) blast

theorem retried_create_refused_witness:
  "\<exists>err. \<forall>call fresh. executeTask call fresh (exampleFailed\<lparr>t_action := Create, t_status := TaskRunning\<rparr>)
     ((emptyDb 9)\<lparr>tasks := [exampleFailed\<lparr>t_action := Create, t_status := TaskRunning\<rparr>],
        instances := [exampleAlive\<lparr>i_status := DeploymentFailed\<rparr>]\<rparr>)
   = (Some err, (emptyDb 9)\<lparr>tasks := [exampleFailed\<lparr>t_action := Create, t_status := TaskRunning\<rparr>],
        instances := [exampleAlive\<lparr>i_status := DeploymentFailed\<rparr>]\<rparr>)"
  by (rule retried_create_refused) (simp_all add: taskTab.unique_def)

definition exampleStuck :: controlTask where
  "exampleStuck = exampleFailed\<lparr>t_status := TaskReview, t_action := Resize, t_payload := ResizePayload ''c'' 1 1 True\<rparr>"

theorem discarded_resize_keeps_hold_witness:
  "\<exists>d1. discardReviewTask (\<lambda>a b. b) ''admin'' (t_id exampleStuck) ((emptyDb 9)\<lparr>tasks := [exampleStuck],
       planChanges := [exampleChange\<lparr>pc_id := ''c'', pc_status := NeedsReview\<rparr>]\<rparr>) = (None, d1) \<and>
     planChanges d1 = [exampleChange\<lparr>pc_id := ''c'', pc_status := NeedsReview\<rparr>]"
  using discarded_resize_keeps_hold [of "(emptyDb 9)\<lparr>tasks := [exampleStuck], planChanges := [exampleChange\<lparr>pc_id := ''c'', pc_status := NeedsReview\<rparr>]\<rparr>"
      exampleStuck "''c''" 1 1 True "exampleChange\<lparr>pc_id := ''c'', pc_status := NeedsReview\<rparr>" "\<lambda>a b. b" "''admin''"]
  by (auto simp: taskTab.unique_def exampleStuck_def)

theorem redeployed_order_stays_failed_witness:
  "\<exists>d1. queueDeploymentRetry ''t'' ''u'' (exampleAlive\<lparr>i_status := DeploymentFailed\<rparr>) ((emptyDb 9)\<lparr>
       instances := [exampleAlive\<lparr>i_status := DeploymentFailed\<rparr>], orders := [blankOrder\<lparr>o_status := OrderDeploymentFailed\<rparr>]\<rparr>) = (None, d1) \<and>
     blankOrder\<lparr>o_status := OrderDeploymentFailed\<rparr> \<in> set (orders (snd (deployed ''i'' [Deploying] Running d1)))"
proof -
  let ?x = "exampleAlive\<lparr>i_status := DeploymentFailed\<rparr>"
  let ?d = "(emptyDb 9)\<lparr>instances := [?x], orders := [blankOrder\<lparr>o_status := OrderDeploymentFailed\<rparr>]\<rparr>"
  have "transitionRow Deploying (Some UnknownRuntime) (\<lambda>r. r) ?x \<noteq> ?x" by (auto simp: transitionRow_def dest: arg_cong [where f = i_status])
  then obtain d1 where q: "queueDeploymentRetry ''t'' ''u'' ?x ?d = (None, d1)"
    by (simp add: queueDeploymentRetry_def transitionThen_def transitionInstance_def canTransitionInstance_def scheduleInstanceTask_def
        insertTask_def emptyDb_def Let_def transitionRow_def)
  then show ?thesis using redeployed_order_stays_failed [OF _ _ q refl, of "blankOrder\<lparr>o_status := OrderDeploymentFailed\<rparr>"] by auto
qed

end
