(* ===== verification/Declarative.thy ===== *)
theory Declarative
  imports Executor
begin

text \<open>
  The declarative side of an instance (\<open>declarative_instances.go\<close>, \<open>host_access.go\<close>): the desired state with its
  optimistic version, the projection of tasks into operations, and host access, which needs both the
  instance's switch and its owner's place on the allow list. SHA-256 is a parameter; \<open>agent_capabilities\<close>
  is the already parsed list.
\<close>

section \<open>Operations\<close>

definition operationStatus :: "tstatus \<Rightarrow> string" where
  "operationStatus s = (if s = TaskPending then ''pending'' else if s = TaskRunning then ''running''
     else if s = TaskDone then ''done'' else if s = TaskCanceled then ''cancel_requested'' else ''error'')"

text \<open>The \<open>UPDATE \<dots> JOIN\<close>: an operation that is not closed takes the state of its task.\<close>

definition reconcileInstance :: "id \<Rightarrow> db \<Rightarrow> db" where
  "reconcileInstance iid db =
     (if iid = [] then db
      else db\<lparr>instanceOperations := map (\<lambda>x.
        if op_instance x = iid \<and> op_status x \<noteq> ''done'' \<and> op_status x \<noteq> ''cancel_requested''
        then (case select (\<lambda>t. t_id t = op_task x) (tasks db) of None \<Rightarrow> x | Some t \<Rightarrow> x\<lparr>op_status := operationStatus (t_status t)\<rparr>)
        else x) (instanceOperations db)\<rparr>)"

text \<open>The row both requests upsert: the specification was accepted and waits for the controller.\<close>

definition acceptSpec :: "id \<Rightarrow> id \<Rightarrow> int \<Rightarrow> string \<Rightarrow> db \<Rightarrow> db" where
  "acceptSpec iid tid generation why db =
     (let row = \<lparr>cd_instance = iid, cd_type = ''Reconciling'', cd_true = True, cd_reason = why, cd_task = tid, cd_generation = generation\<rparr>;
          p = (\<lambda>c. cd_instance c = iid \<and> cd_type c = ''Reconciling'')
      in db\<lparr>conditions := (if countRows p (conditions db) = 0 then conditions db @ [row] else update p (\<lambda>_. row) (conditions db))\<rparr>)"

section \<open>The desired state\<close>

definition desiredSpecHash :: "(string \<Rightarrow> string) \<Rightarrow> string \<Rightarrow> string \<Rightarrow> string \<Rightarrow> bool \<Rightarrow> string" where
  "desiredSpecHash sha wanted recreate deletion host =
     sha (wanted @ CHR 0x00 # recreate @ CHR 0x00 # deletion @ CHR 0x00 # (if host then ''true'' else ''false''))"

record desiredPatch =
  dp_version :: int
  dp_key :: string
  dp_power :: "string option"
  dp_recreate :: "string option"
  dp_deletion :: "string option"

definition textOr :: "string \<Rightarrow> string option \<Rightarrow> string" where
  "textOr old x = (case x of None \<Rightarrow> old | Some v \<Rightarrow> v)"

text \<open>Which task the patch asks for.\<close>

definition desiredAction :: "desiredPatch \<Rightarrow> istatus \<Rightarrow> error + action option" where
  "desiredAction b lifecycle =
     guardE (dp_deletion b \<noteq> Some ''absent'') (Msg ''use the destroy interface'')
     (guardE (dp_power b = None \<or> dp_power b = Some ''running'' \<or> dp_power b = Some ''stopped'') (Msg ''bad power state'')
     (let a = (if dp_power b = Some ''running'' \<and> lifecycle = Stopped then Some Start
               else if dp_power b = Some ''stopped'' \<and> lifecycle = Running then Some Stop else None)
      in if dp_recreate b = None then Inr a
         else guardE (lifecycle = Running \<or> lifecycle = Stopped) (Msg ''cannot be recreated'') (Inr (Some Restart))))"

definition desiredRow :: "(string \<Rightarrow> string) \<Rightarrow> desiredPatch \<Rightarrow> inst \<Rightarrow> inst" where
  "desiredRow sha b i =
     (let wanted = textOr (i_desiredPower i) (dp_power b); recreate = textOr (i_recreateNonce i) (dp_recreate b);
          deletion = textOr (textOr [] (i_deletionIntent i)) (dp_deletion b)
      in i\<lparr>i_desiredPower := wanted, i_recreateNonce := recreate,
           i_deletionIntent := (if deletion = [] then None else Some deletion),
           i_specHash := Some (desiredSpecHash sha wanted recreate deletion (i_hostEnabled i)),
           i_resourceVersion := i_resourceVersion i + 1, i_generation := i_generation i + 1\<rparr>)"

definition patchInstanceDesired :: "(string \<Rightarrow> string) \<Rightarrow> id \<Rightarrow> id \<Rightarrow> id \<Rightarrow> desiredPatch \<Rightarrow> db \<Rightarrow> error + controlTask option \<times> db" where
  "patchInstanceDesired sha tid user iid b db =
     guardE (dp_version b \<ge> 1 \<and> trimSpace (dp_key b) \<noteq> []) (Msg ''version and key are required'')
     (guardE (dp_power b \<noteq> None \<or> dp_recreate b \<noteq> None \<or> dp_deletion b \<noteq> None) (Msg ''nothing desired'')
     (guardE (activeLifecycleTask iid db = None) (Msg ''conflicting operation'')
     (bindE (orElse (select (\<lambda>i. i_id i = iid \<and> i_owner i = user) (instances db)) ErrNoRows) (\<lambda>i.
      bindE (desiredAction b (i_status i)) (\<lambda>act.
      let p = (\<lambda>r. i_id r = iid \<and> i_owner r = user \<and> i_resourceVersion r = dp_version b);
          d = db\<lparr>instances := update p (desiredRow sha b) (instances db)\<rparr>
      in guardE (affected p (desiredRow sha b) (instances db) = 1) (Msg ''the resource changed'')
      (case act of
         None \<Rightarrow> Inr (None, writeAudit user ''instance.desired.patch'' iid (reconcileInstance iid
           (acceptSpec iid [] (i_generation i + 1) ''SpecChanged'' d)))
       | Some a \<Rightarrow>
           let t = (newTask tid iid a (DesiredKey iid (dp_key b)) (now db) (now db))\<lparr>t_generation := i_generation i + 1\<rparr>;
               op = \<lparr>op_task = tid, op_instance = iid, op_generation = i_generation i + 1, op_kind = a, op_status = ''pending'', op_key = t_key t\<rparr>
           in bindE (insertTask t d) (\<lambda>d1.
              Inr (Some t, writeAudit user ''instance.desired.patch'' iid (reconcileInstance iid
                (acceptSpec iid tid (i_generation i + 1) ''SpecChanged''
                  (d1\<lparr>instanceOperations := instanceOperations d1 @ [op]\<rparr>)))))))))))"

section \<open>Host access\<close>

definition lockHostAccessUser :: "id \<Rightarrow> db \<Rightarrow> error + bool" where
  "lockHostAccessUser u db = bindE (orElse (select (\<lambda>x. u_id x = u) (users db)) (Msg ''unknown user'')) (\<lambda>x. Inr (u_hostAllowed x))"

definition livingStatus :: "istatus \<Rightarrow> bool" where
  "livingStatus s \<longleftrightarrow> s = Running \<or> s = Stopped \<or> s = DestroyScheduled"

definition busyRow :: "id \<Rightarrow> db \<Rightarrow> controlTask \<Rightarrow> bool" where
  "busyRow iid db t \<longleftrightarrow> t_instance t = iid \<and> t_status t \<in> {TaskPending, TaskRunning} \<and> lifecycleTask (t_action t) \<and>
     \<not> (t_status t = TaskPending \<and> t_action t \<in> {Destroy, Purge} \<and> now db < t_runAfter t)"

definition hostRow :: "(string \<Rightarrow> string) \<Rightarrow> bool \<Rightarrow> inst \<Rightarrow> inst" where
  "hostRow sha enabled i = i\<lparr>i_hostEnabled := enabled, i_resourceVersion := i_resourceVersion i + 1, i_generation := i_generation i + 1,
     i_specHash := Some (desiredSpecHash sha (i_desiredPower i) (i_recreateNonce i) (textOr [] (i_deletionIntent i)) enabled)\<rparr>"

definition hostTask :: "id \<Rightarrow> inst \<Rightarrow> gotime \<Rightarrow> controlTask" where
  "hostTask tid i t = (newTask tid (i_id i) HostAccess (HostAccessKey tid) t t)\<lparr>t_generation := i_generation i + 1\<rparr>"

definition setInstanceHostAccessTx ::
  "(string \<Rightarrow> string) \<Rightarrow> id \<Rightarrow> id \<Rightarrow> id \<Rightarrow> bool \<Rightarrow> int option \<Rightarrow> db \<Rightarrow> error + controlTask option \<times> db" where
  "setInstanceHostAccessTx sha tid iid owner enabled version db =
     bindE (orElse (select (\<lambda>i. i_id i = iid \<and> i_owner i = owner \<and> i_archivedAt i = None) (instances db)) (Msg ''unknown instance'')) (\<lambda>i.
     guardE (version = None \<or> version = Some (i_resourceVersion i)) (Msg ''the resource changed'')
     (if i_hostEnabled i = enabled then Inr (None, db)
      else
        guardE (\<not> enabled \<or> i_status i = Running \<or> i_status i = Stopped) (Msg ''cannot be enabled now'')
        (guardE (countRows (busyRow iid db) (tasks db) = 0) (Msg ''instance is being processed'')
        (bindE (if livingStatus (i_status i)
                then bindE (orElse (select (\<lambda>n. n_id n = textOr [] (i_node i)) (nodes db)) ErrNoRows) (\<lambda>n.
                       guardE (supportsAgentCapability n hostAccessCapability) (Msg ''upgrade the agent first'') (Inr ()))
                else Inr ()) (\<lambda>_.
         let d = db\<lparr>instances := update (\<lambda>r. i_id r = iid) (hostRow sha enabled) (instances db)\<rparr>
         in if \<not> livingStatus (i_status i) then Inr (None, d)
            else
              let t = hostTask tid i (now db);
                  op = \<lparr>op_task = tid, op_instance = iid, op_generation = t_generation t, op_kind = HostAccess, op_status = ''pending'', op_key = t_key t\<rparr>
              in bindE (insertTask t d) (\<lambda>d1.
                 Inr (Some t, acceptSpec iid tid (t_generation t) ''HostAccessChanged''
                   (d1\<lparr>instanceOperations := instanceOperations d1 @ [op]\<rparr>))))))))"

definition patchInstanceHostAccess ::
  "(string \<Rightarrow> string) \<Rightarrow> id \<Rightarrow> id \<Rightarrow> id \<Rightarrow> bool \<Rightarrow> int \<Rightarrow> db \<Rightarrow> error + controlTask option \<times> db" where
  "patchInstanceHostAccess sha tid user iid enabled version db =
     guardE (version \<ge> 1) (Msg ''switch and version are required'')
     (bindE (lockHostAccessUser user db) (\<lambda>allowed.
      guardE (enabled \<longrightarrow> allowed) (Msg ''not on the allow list'')
      (bindE (setInstanceHostAccessTx sha tid iid user enabled (Some version) db) (\<lambda>(t, d).
        Inr (t, writeAudit user ''instance.host_access'' iid d)))))"

fun revokeAll :: "(string \<Rightarrow> string) \<Rightarrow> (id \<Rightarrow> id) \<Rightarrow> id \<Rightarrow> id list \<Rightarrow> db \<Rightarrow> error + db" where
  "revokeAll sha fresh owner [] db = Inr db"
| "revokeAll sha fresh owner (i # is) db =
     bindE (setInstanceHostAccessTx sha (fresh i) i owner False None db) (\<lambda>(_, d). revokeAll sha fresh owner is d)"

definition enabledIds :: "id \<Rightarrow> db \<Rightarrow> id list" where
  "enabledIds owner db = map i_id (filter (\<lambda>i. i_owner i = owner \<and> i_hostEnabled i \<and> i_archivedAt i = None) (instances db))"

definition adminUserHostAccess :: "(string \<Rightarrow> string) \<Rightarrow> (id \<Rightarrow> id) \<Rightarrow> id \<Rightarrow> id \<Rightarrow> bool \<Rightarrow> db \<Rightarrow> error + db" where
  "adminUserHostAccess sha fresh actor owner permit db =
     bindE (lockHostAccessUser owner db) (\<lambda>_.
     bindE (if permit then Inr db else revokeAll sha fresh owner (enabledIds owner db) db) (\<lambda>d.
     Inr (writeAudit actor ''user.host_access_allowlist'' owner
       (d\<lparr>users := update (\<lambda>u. u_id u = owner) (\<lambda>u. u\<lparr>u_hostAllowed := permit\<rparr>) (users d)\<rparr>))))"

section \<open>What the requests write\<close>

lemma accept_frame [simp]:
  "instances (acceptSpec i t g w d) = instances d" "tasks (acceptSpec i t g w d) = tasks d" "users (acceptSpec i t g w d) = users d"
  "now (acceptSpec i t g w d) = now d"
  by (simp_all add: acceptSpec_def Let_def)

lemma reconcile_frame [simp]:
  "instances (reconcileInstance i d) = instances d" "tasks (reconcileInstance i d) = tasks d" "users (reconcileInstance i d) = users d"
  by (simp_all add: reconcileInstance_def)

lemma users_audit [simp]: "users (writeAudit a b c d) = users d"
  by (simp add: writeAudit_def)

lemma host_ids [simp]: "i_id (hostRow sha b i) = i_id i" "i_owner (hostRow sha b i) = i_owner i" "i_status (hostRow sha b i) = i_status i"
  "i_archivedAt (hostRow sha b i) = i_archivedAt i" "i_hostEnabled (hostRow sha b i) = b"
  by (simp_all add: hostRow_def)

lemma desired_ids [simp]: "i_id (desiredRow sha b i) = i_id i" "i_resourceVersion (desiredRow sha b i) = i_resourceVersion i + 1"
  "i_generation (desiredRow sha b i) = i_generation i + 1" "i_status (desiredRow sha b i) = i_status i"
  "i_hostEnabled (desiredRow sha b i) = i_hostEnabled i" "i_owner (desiredRow sha b i) = i_owner i"
  "i_archivedAt (desiredRow sha b i) = i_archivedAt i"
  by (simp_all add: desiredRow_def Let_def)

text \<open>An update by key touches one row.\<close>

lemma update_one:
  assumes u: "instTab.unique d" and x: "x \<in> set (instances d)" "p x" and k: "\<And>r. p r \<Longrightarrow> i_id r = i_id x"
  shows "update p f (instances d) = map (\<lambda>y. if y = x then f x else y) (instances d)"
  unfolding update_def
proof (rule map_cong [OF refl])
  fix y assume y: "y \<in> set (instances d)"
  show "(if p y then f y else y) = (if y = x then f x else y)"
  proof (cases "p y")
    case True
    then have "y = x" by (intro instTab.key_unique [OF u y x(1)] k)
    then show ?thesis using True by simp
  qed (use x(2) in auto)
qed

lemma setHost_cases:
  assumes u: "instTab.unique d" and s: "setInstanceHostAccessTx sha tid iid owner en v d = Inr (t, d')"
  obtains x where "x \<in> set (instances d)" "i_id x = iid" "i_owner x = owner" "i_archivedAt x = None" "v = None \<or> v = Some (i_resourceVersion x)"
    "i_hostEnabled x = en" "t = None" "d' = d"
  | x where "x \<in> set (instances d)" "i_id x = iid" "i_owner x = owner" "i_archivedAt x = None" "v = None \<or> v = Some (i_resourceVersion x)"
    "i_hostEnabled x \<noteq> en" "instances d' = map (\<lambda>y. if y = x then hostRow sha en x else y) (instances d)" "users d' = users d" "now d' = now d"
    "tasks d' = tasks d @ (if livingStatus (i_status x) then [hostTask tid x (now d)] else [])"
proof -
  from s obtain x where x: "select (\<lambda>i. i_id i = iid \<and> i_owner i = owner \<and> i_archivedAt i = None) (instances d) = Some x"
    "v = None \<or> v = Some (i_resourceVersion x)"
    by (auto simp: setInstanceHostAccessTx_def resultE)
  then have m: "x \<in> set (instances d)" "i_id x = iid" "i_owner x = owner" "i_archivedAt x = None" by (auto dest: select_SomeD)
  let ?d = "d\<lparr>instances := update (\<lambda>r. i_id r = iid) (hostRow sha en) (instances d)\<rparr>"
  show thesis
  proof (cases "i_hostEnabled x = en")
    case True
    then show thesis using that(1) [OF m x(2)] s x by (simp add: setInstanceHostAccessTx_def)
  next
    case False
    have upd: "update (\<lambda>r. i_id r = iid) (hostRow sha en) (instances d) = map (\<lambda>y. if y = x then hostRow sha en x else y) (instances d)"
      by (rule update_one [OF u m(1)]) (simp_all add: m(2))
    have "instances d' = instances ?d \<and> users d' = users d \<and> now d' = now d \<and>
        tasks d' = tasks d @ (if livingStatus (i_status x) then [hostTask tid x (now d)] else [])"
      using s x False by (auto simp: setInstanceHostAccessTx_def resultE insertE Let_def split: if_splits)
    then show thesis using that(2) [OF m x(2) False] upd by simp
  qed
qed

section \<open>The desired state is a compare-and-swap\<close>

text \<open>An accepted patch of the desired state was based on the current version of the owner's own
  instance; it raises version and generation by one, changes no other row, keeps the status, and
  stores at most one task, pending and carrying the new generation.\<close>

theorem desired_patch_exact:
  assumes u: "instTab.unique d" and x: "x \<in> set (instances d)" "i_id x = iid"
    and p: "patchInstanceDesired sha tid user iid b d = Inr (t, d')"
  shows "i_owner x = user \<and> dp_version b = i_resourceVersion x \<and>
    instances d' = map (\<lambda>y. if y = x then desiredRow sha b x else y) (instances d) \<and>
    i_resourceVersion (desiredRow sha b x) = i_resourceVersion x + 1 \<and> i_generation (desiredRow sha b x) = i_generation x + 1 \<and>
    i_status (desiredRow sha b x) = i_status x \<and>
    tasks d' = tasks d @ (case t of None \<Rightarrow> [] | Some s \<Rightarrow> [s]) \<and>
    (\<forall>s. t = Some s \<longrightarrow> t_instance s = iid \<and> t_status s = TaskPending \<and> t_generation s = i_generation x + 1)"
proof -
  obtain z a where z: "select (\<lambda>i. i_id i = iid \<and> i_owner i = user) (instances d) = Some z" "desiredAction b (i_status z) = Inr a"
    using p by (auto simp: patchInstanceDesired_def resultE)
  let ?p = "\<lambda>r. i_id r = iid \<and> i_owner r = user \<and> i_resourceVersion r = dp_version b"
  let ?d = "d\<lparr>instances := update ?p (desiredRow sha b) (instances d)\<rparr>"
  have zx: "z = x" using select_SomeD [OF z(1)] instTab.key_unique [OF u _ x(1)] x(2) by simp
  have own: "i_owner x = user" using select_SomeD [OF z(1)] zx by simp
  have aff: "affected ?p (desiredRow sha b) (instances d) = 1"
    using p z by (auto simp: patchInstanceDesired_def resultE Let_def)
  then have ver: "?p x" using instTab.affected_key [OF u x(1), of ?p "desiredRow sha b"] x(2) by simp
  have "instances d' = instances ?d \<and> tasks d' = tasks d @ (case t of None \<Rightarrow> [] | Some s \<Rightarrow> [s]) \<and>
      (\<forall>s. t = Some s \<longrightarrow> t_instance s = iid \<and> t_status s = TaskPending \<and> t_generation s = i_generation x + 1)"
    using p z by (cases a) (auto simp: patchInstanceDesired_def resultE insertE Let_def newTask_def zx)
  moreover have "update ?p (desiredRow sha b) (instances d) = map (\<lambda>y. if y = x then desiredRow sha b x else y) (instances d)"
    by (rule update_one [OF u x(1), where p = ?p]) (use ver x(2) in simp_all)
  ultimately show ?thesis using own ver by simp
qed

lemma desired_refused:
  assumes u: "instTab.unique d" and x: "x \<in> set (instances d)" "i_id x = iid" "i_resourceVersion x \<noteq> dp_version b"
  shows "\<exists>e. patchInstanceDesired sha tid user iid b d = Inl e"
proof (cases "patchInstanceDesired sha tid user iid b d")
  case (Inr r)
  then have "affected (\<lambda>r. i_id r = iid \<and> i_owner r = user \<and> i_resourceVersion r = dp_version b) (desiredRow sha b) (instances d) = 1"
    by (auto simp: patchInstanceDesired_def resultE Let_def)
  then show ?thesis
    using instTab.affected_key [OF u x(1), of "\<lambda>r. i_id r = iid \<and> i_owner r = user \<and> i_resourceVersion r = dp_version b" "desiredRow sha b"] x(2,3)
    by simp
qed simp

lemma desired_rows:
  assumes u: "instTab.unique d" and p: "patchInstanceDesired sha tid user iid b d = Inr (t, d')"
  shows "\<exists>x \<in> set (instances d). i_id x = iid \<and> i_resourceVersion x = dp_version b \<and> desiredRow sha b x \<in> set (instances d') \<and> instTab.unique d'"
proof -
  let ?p = "\<lambda>r. i_id r = iid \<and> i_owner r = user \<and> i_resourceVersion r = dp_version b"
  obtain z a where z: "select (\<lambda>i. i_id i = iid \<and> i_owner i = user) (instances d) = Some z" "desiredAction b (i_status z) = Inr a"
    and aff: "affected ?p (desiredRow sha b) (instances d) = 1"
    using p by (auto simp: patchInstanceDesired_def resultE Let_def)
  have i: "instances d' = update ?p (desiredRow sha b) (instances d)"
    using p z by (cases a) (auto simp: patchInstanceDesired_def resultE insertE Let_def)
  obtain x where x: "x \<in> set (instances d)" "?p x" using instTab.affected_one_row [of ?p "desiredRow sha b" d 0] aff by auto
  then have "desiredRow sha b x \<in> set (instances d')" by (force simp: i in_update)
  moreover have "instTab.unique d'" by (rule instTab.unique_rows_update [OF u i]) simp
  ultimately show ?thesis using x by blast
qed

text \<open>C24. No lost update: of two patches based on the same version of a resource at most one is accepted;
  after the first, the second is refused whoever sends it and whatever it asks for.\<close>

theorem lost_update_refused:
  assumes "instTab.unique d" and "patchInstanceDesired sha tid user iid b d = Inr (t, d1)" and "dp_version c = dp_version b"
  shows "\<exists>e. patchInstanceDesired sha tid2 user2 iid c d1 = Inl e"
proof -
  obtain x where x: "i_id x = iid" "i_resourceVersion x = dp_version b" "desiredRow sha b x \<in> set (instances d1)" "instTab.unique d1"
    using desired_rows [OF assms(1,2)] by blast
  show ?thesis by (rule desired_refused [OF x(4,3)]) (simp_all add: x assms(3))
qed

text \<open>Recreating a stopped instance is accepted but never done: the patch queues a restart, and whenever
  that task runs while the instance is stopped it is refused before any Agent request and changes
  nothing.\<close>

theorem recreate_stopped_refused:
  assumes p: "patchInstanceDesired sha tid user iid b d = Inr (Some t, d1)" and r: "dp_recreate b \<noteq> None"
    and x: "x \<in> set (tasks e)" "t_id x = t_id t" "t_action x = t_action t" "t_instance x = t_instance t" "taskTab.unique e"
    and stopped: "\<forall>i \<in> set (instances e). i_id i = iid \<longrightarrow> i_status i = Stopped"
  shows "t_action t = Restart \<and> (\<exists>err. \<forall>call fresh. executeTask call fresh x e = (Some err, e))"
proof
  have a: "desiredAction b s = Inr a \<Longrightarrow> a = Some Restart" for s a
    using r by (auto simp: desiredAction_def resultE Let_def)
  have t: "t_action t = Restart \<and> t_instance t = iid"
    using p by (auto simp: patchInstanceDesired_def resultE Let_def newTask_def dest!: a)
  then show "t_action t = Restart" by simp
  show "\<exists>err. \<forall>call fresh. executeTask call fresh x e = (Some err, e)"
  proof (rule blocked_execution)
    show "\<forall>y \<in> set (tasks e). \<forall>i \<in> set (instances e). \<not> (leaseRow x e y \<and> lockRow e y i \<and> generationOk y i \<and>
        i_status i \<in> set (expectedStates (t_action x)))"
    proof (intro ballI notI)
      fix y i assume y: "y \<in> set (tasks e)" "i \<in> set (instances e)"
        and l: "leaseRow x e y \<and> lockRow e y i \<and> generationOk y i \<and> i_status i \<in> set (expectedStates (t_action x))"
      have "y = x" using taskTab.key_unique [OF x(5) y(1) x(1)] l by (simp add: leaseRow_def)
      then show False using l stopped y(2) x(3,4) t by (auto simp: lockRow_def)
    qed
  qed (simp add: x(3) t)
qed

section \<open>Host access needs the allow list\<close>

text \<open>The invariant: an instance in the list of its owner with host access switched on belongs to a user on
  the allow list.\<close>

definition hostOk :: "db \<Rightarrow> bool" where
  "hostOk d \<longleftrightarrow> (\<forall>i \<in> set (instances d). i_hostEnabled i \<and> i_archivedAt i = None \<longrightarrow>
     (\<exists>u \<in> set (users d). u_id u = i_owner i \<and> u_hostAllowed u))"

lemma hostOk_step:
  assumes h: "hostOk d"
    and i: "\<And>y. y \<in> set (instances d') \<Longrightarrow> i_hostEnabled y \<Longrightarrow> i_archivedAt y = None \<Longrightarrow>
      \<exists>x \<in> set (instances d). i_owner x = i_owner y \<and> i_hostEnabled x \<and> i_archivedAt x = None"
    and u: "\<And>z. z \<in> set (users d) \<Longrightarrow> u_hostAllowed z \<Longrightarrow> \<exists>w \<in> set (users d'). u_id w = u_id z \<and> u_hostAllowed w"
  shows "hostOk d'"
  unfolding hostOk_def
proof (intro ballI impI)
  fix y assume "y \<in> set (instances d')" "i_hostEnabled y \<and> i_archivedAt y = None"
  then obtain x where "x \<in> set (instances d)" "i_owner x = i_owner y" "i_hostEnabled x" "i_archivedAt x = None" using i by blast
  then obtain z where "z \<in> set (users d)" "u_id z = i_owner y" "u_hostAllowed z" using h by (auto simp: hostOk_def)
  then show "\<exists>u \<in> set (users d'). u_id u = i_owner y \<and> u_hostAllowed u" using u by metis
qed

text \<open>A request that may switch host access keeps ids unique and the invariant.\<close>

locale access_op =
  fixes step :: "'a \<Rightarrow> db \<Rightarrow> db"
  assumes keeps: "instTab.unique d \<Longrightarrow> distinct (map u_id (users d)) \<Longrightarrow> hostOk d \<Longrightarrow>
      instTab.unique (step a d) \<and> distinct (map u_id (users (step a d))) \<and> hostOk (step a d)"
begin

lemma run_host:
  assumes "instTab.unique d" "distinct (map u_id (users d))" "hostOk d"
  shows "hostOk (fold step as d)"
  using assms by (induction as arbitrary: d) (simp_all add: keeps)

end

lemma unique_map: "instTab.unique d \<Longrightarrow> instances d' = map f (instances d) \<Longrightarrow> (\<And>y. i_id (f y) = i_id y) \<Longrightarrow> instTab.unique d'"
  by (simp add: instTab.unique_def comp_def)

lemma setHost_unique:
  assumes u: "instTab.unique d" and s: "setInstanceHostAccessTx sha tid iid owner en v d = Inr (t, d')"
  shows "instTab.unique d' \<and> users d' = users d"
proof (rule setHost_cases [OF u s])
  fix x assume "instances d' = map (\<lambda>y. if y = x then hostRow sha en x else y) (instances d)" "users d' = users d"
  then show ?thesis using unique_map [OF u, of d' "\<lambda>y. if y = x then hostRow sha en x else y"] by simp
qed (use u in simp)

lemma setHost_host:
  assumes u: "instTab.unique d" and s: "setInstanceHostAccessTx sha tid iid owner en v d = Inr (t, d')" and h: "hostOk d"
    and ok: "en \<Longrightarrow> \<exists>z \<in> set (users d). u_id z = owner \<and> u_hostAllowed z"
  shows "hostOk d'"
proof (rule setHost_cases [OF u s])
  fix x assume x: "i_owner x = owner" "instances d' = map (\<lambda>y. if y = x then hostRow sha en x else y) (instances d)" "users d' = users d"
  show ?thesis using h ok x by (auto simp: hostOk_def)
qed (use h in simp)

lemma lock_user: "lockHostAccessUser u d = Inr b \<Longrightarrow> \<exists>z \<in> set (users d). u_id z = u \<and> u_hostAllowed z = b"
  by (auto simp: lockHostAccessUser_def resultE dest: select_SomeD)

lemma patchHost_keeps:
  assumes u: "instTab.unique d" and p: "patchInstanceHostAccess sha tid user iid en v d = Inr (t, d')"
  shows "instTab.unique d' \<and> users d' = users d \<and> (hostOk d \<longrightarrow> hostOk d')"
proof -
  obtain a e where a: "lockHostAccessUser user d = Inr a" "en \<longrightarrow> a" and e: "setInstanceHostAccessTx sha tid iid user en (Some v) d = Inr (t, e)"
    "d' = writeAudit user ''instance.host_access'' iid e"
    using p by (auto simp: patchInstanceHostAccess_def resultE)
  have "hostOk d \<Longrightarrow> hostOk e" by (rule setHost_host [OF u e(1)]) (use lock_user [OF a(1)] a(2) in auto)
  then show ?thesis using setHost_unique [OF u e(1)] by (simp add: e(2) instTab.unique_def hostOk_def)
qed

lemma revoke_rows:
  assumes "instTab.unique d" "distinct ids" "revokeAll sha fresh owner ids d = Inr d'"
    and "\<forall>k \<in> set ids. \<exists>x \<in> set (instances d). i_id x = k \<and> i_hostEnabled x"
  shows "instances d' = map (\<lambda>y. if i_id y \<in> set ids then hostRow sha False y else y) (instances d) \<and> users d' = users d \<and> now d' = now d \<and>
    (\<exists>ts. tasks d' = tasks d @ ts \<and> (\<forall>x \<in> set (instances d). i_id x \<in> set ids \<and> livingStatus (i_status x) \<longrightarrow>
       (\<exists>t \<in> set ts. t_instance t = i_id x \<and> t_action t = HostAccess \<and> t_status t = TaskPending)))"
  using assms
proof (induction ids arbitrary: d)
  case (Cons k ids)
  obtain t e where e: "setInstanceHostAccessTx sha (fresh k) k owner False None d = Inr (t, e)" "revokeAll sha fresh owner ids e = Inr d'"
    using Cons.prems(3) by (auto simp: resultE)
  obtain x where x: "x \<in> set (instances d)" "i_id x = k" "i_hostEnabled x" using Cons.prems(4) by auto
  have same: "y = x" if "y \<in> set (instances d)" "i_id y = k" for y using instTab.key_unique [OF Cons.prems(1) that(1) x(1)] that x by simp
  have r: "instances e = map (\<lambda>y. if y = x then hostRow sha False x else y) (instances d)" "users e = users d" "now e = now d"
      "tasks e = tasks d @ (if livingStatus (i_status x) then [hostTask (fresh k) x (now d)] else [])"
    by (rule setHost_cases [OF Cons.prems(1) e(1)]; use same x in force)+
  have key: "i_id y = k \<longleftrightarrow> y = x" if "y \<in> set (instances d)" for y using same [OF that] x(2) by auto
  have u: "instTab.unique e" using setHost_unique [OF Cons.prems(1) e(1)] by simp
  have "\<forall>j \<in> set ids. \<exists>y \<in> set (instances e). i_id y = j \<and> i_hostEnabled y"
  proof
    fix j assume j: "j \<in> set ids"
    then obtain y where y: "y \<in> set (instances d)" "i_id y = j" "i_hostEnabled y" using Cons.prems(4) by auto
    have "y \<noteq> x" using j Cons.prems(2) y(2) x(2) by auto
    then show "\<exists>y \<in> set (instances e). i_id y = j \<and> i_hostEnabled y" using y by (auto simp: r(1))
  qed
  from Cons.IH [OF u _ e(2) this] Cons.prems(2) obtain ts where ih:
    "instances d' = map (\<lambda>y. if i_id y \<in> set ids then hostRow sha False y else y) (instances e)" "users d' = users e" "now d' = now e"
    "tasks d' = tasks e @ ts" "\<forall>y \<in> set (instances e). i_id y \<in> set ids \<and> livingStatus (i_status y) \<longrightarrow>
       (\<exists>t \<in> set ts. t_instance t = i_id y \<and> t_action t = HostAccess \<and> t_status t = TaskPending)" by auto
  let ?n = "if livingStatus (i_status x) then [hostTask (fresh k) x (now d)] else []"
  have A: "instances d' = map (\<lambda>y. if i_id y \<in> set (k # ids) then hostRow sha False y else y) (instances d)"
    unfolding ih(1) r(1) map_map using Cons.prems(2) x(2) key by (intro map_cong refl) auto
  have B: "tasks d' = tasks d @ (?n @ ts)" by (simp add: ih(4) r(4))
  have C: "\<exists>t \<in> set (?n @ ts). t_instance t = i_id y \<and> t_action t = HostAccess \<and> t_status t = TaskPending"
    if y: "y \<in> set (instances d)" "i_id y \<in> set (k # ids)" "livingStatus (i_status y)" for y
  proof (cases "y = x")
    case True
    then show ?thesis using y(3) by (simp add: hostTask_def newTask_def)
  next
    case False
    then have "y \<in> set (instances e)" using y(1) by (auto simp: r(1))
    then show ?thesis using ih(5) y False key by auto
  qed
  show ?case
    by (intro conjI exI [of _ "?n @ ts"], rule A, simp add: ih r, simp add: ih r, rule B) (use C in blast)
qed simp

lemma enabled_ids:
  assumes "instTab.unique d"
  shows "distinct (enabledIds owner d)" "\<forall>k \<in> set (enabledIds owner d). \<exists>x \<in> set (instances d). i_id x = k \<and> i_hostEnabled x"
    "x \<in> set (instances d) \<Longrightarrow> i_id x \<in> set (enabledIds owner d) \<longleftrightarrow> i_owner x = owner \<and> i_hostEnabled x \<and> i_archivedAt x = None"
proof -
  show "distinct (enabledIds owner d)" using assms by (simp add: enabledIds_def instTab.unique_def distinct_map_filter)
  show "\<forall>k \<in> set (enabledIds owner d). \<exists>x \<in> set (instances d). i_id x = k \<and> i_hostEnabled x" by (auto simp: enabledIds_def)
  show "i_id x \<in> set (enabledIds owner d) \<longleftrightarrow> i_owner x = owner \<and> i_hostEnabled x \<and> i_archivedAt x = None" if x: "x \<in> set (instances d)"
  proof
    assume "i_id x \<in> set (enabledIds owner d)"
    then obtain y where y: "y \<in> set (instances d)" "i_id y = i_id x" "i_owner y = owner \<and> i_hostEnabled y \<and> i_archivedAt y = None"
      by (auto simp: enabledIds_def)
    have "y = x" by (rule instTab.key_unique [OF assms y(1) x y(2)])
    then show "i_owner x = owner \<and> i_hostEnabled x \<and> i_archivedAt x = None" using y(3) by simp
  qed (use x in \<open>auto simp: enabledIds_def\<close>)
qed

lemma admin_cases:
  assumes "adminUserHostAccess sha fresh actor owner permit d = Inr d'"
  obtains e where "if permit then e = d else revokeAll sha fresh owner (enabledIds owner d) d = Inr e"
    "d' = writeAudit actor ''user.host_access_allowlist'' owner
       (e\<lparr>users := update (\<lambda>u. u_id u = owner) (\<lambda>u. u\<lparr>u_hostAllowed := permit\<rparr>) (users e)\<rparr>)"
  using assms by (auto simp: adminUserHostAccess_def resultE split: if_splits)

lemma user_ids [simp]: "map u_id (update p (\<lambda>u. u\<lparr>u_hostAllowed := b\<rparr>) us) = map u_id us"
  by (rule map_update) simp

lemma admin_keeps:
  assumes u: "instTab.unique d" and a: "adminUserHostAccess sha fresh actor owner permit d = Inr d'"
    and h: "hostOk d"
  shows "instTab.unique d' \<and> map u_id (users d') = map u_id (users d) \<and> hostOk d'"
proof (rule admin_cases [OF a])
  fix e assume e: "if permit then e = d else revokeAll sha fresh owner (enabledIds owner d) d = Inr e"
    and d': "d' = writeAudit actor ''user.host_access_allowlist'' owner
       (e\<lparr>users := update (\<lambda>u. u_id u = owner) (\<lambda>u. u\<lparr>u_hostAllowed := permit\<rparr>) (users e)\<rparr>)"
  show ?thesis
  proof (cases permit)
    case True
    then have ed: "e = d" using e by simp
    have "hostOk d'"
    proof (rule hostOk_step [OF h])
      fix z assume z: "z \<in> set (users d)" "u_hostAllowed z"
      let ?w = "if u_id z = owner then z\<lparr>u_hostAllowed := True\<rparr> else z"
      have "?w \<in> set (users d')" using z(1) True by (auto simp: d' ed in_update)
      then show "\<exists>w \<in> set (users d'). u_id w = u_id z \<and> u_hostAllowed w" using z(2) by (intro bexI [of _ ?w]) auto
    qed (auto simp: d' ed)
    then show ?thesis using u by (simp add: d' ed instTab.unique_def)
  next
    case False
    then have r: "revokeAll sha fresh owner (enabledIds owner d) d = Inr e" using e by simp
    note rows = revoke_rows [OF u enabled_ids(1) [OF u] r enabled_ids(2) [OF u]]
    have "instTab.unique e" by (rule unique_map [OF u conjunct1 [OF rows]]) simp
    moreover have "\<exists>z \<in> set (users d'). u_id z = i_owner y \<and> u_hostAllowed z"
      if y: "y \<in> set (instances d')" "i_hostEnabled y" "i_archivedAt y = None" for y
    proof -
      obtain x where x: "x \<in> set (instances d)" "y = (if i_id x \<in> set (enabledIds owner d) then hostRow sha False x else x)"
        using y(1) rows by (auto simp: d')
      then have "y = x" "i_id x \<notin> set (enabledIds owner d)" using y(2) by (auto split: if_splits)
      then have "i_owner y \<noteq> owner" using enabled_ids(3) [OF u x(1)] y by simp
      moreover obtain z where "z \<in> set (users d)" "u_id z = i_owner y" "u_hostAllowed z"
        using h x(1) y \<open>y = x\<close> by (auto simp: hostOk_def)
      ultimately show ?thesis using rows by (force simp: d' in_update)
    qed
    ultimately show ?thesis using rows by (simp add: d' instTab.unique_def hostOk_def)
  qed
qed

datatype accessCall =
    SwitchHost "string \<Rightarrow> string" id id id bool int
  | AllowUser "string \<Rightarrow> string" "id \<Rightarrow> id" id id bool
  | PatchDesired "string \<Rightarrow> string" id id id desiredPatch

fun accessStep :: "accessCall \<Rightarrow> db \<Rightarrow> db" where
  "accessStep (SwitchHost sha tid user iid on version) db =
     (case patchInstanceHostAccess sha tid user iid on version db of Inl _ \<Rightarrow> db | Inr (_, d) \<Rightarrow> d)"
| "accessStep (AllowUser sha fresh actor owner permit) db =
     (case adminUserHostAccess sha fresh actor owner permit db of Inl _ \<Rightarrow> db | Inr d \<Rightarrow> d)"
| "accessStep (PatchDesired sha tid user iid b) db =
     (case patchInstanceDesired sha tid user iid b db of Inl _ \<Rightarrow> db | Inr (_, d) \<Rightarrow> d)"

lemma desired_frame:
  assumes p: "patchInstanceDesired sha tid user iid b d = Inr (t, d')"
  shows "users d' = users d \<and> (\<exists>p. instances d' = update p (desiredRow sha b) (instances d))"
proof -
  obtain z a where z: "select (\<lambda>i. i_id i = iid \<and> i_owner i = user) (instances d) = Some z" "desiredAction b (i_status z) = Inr a"
    using p by (auto simp: patchInstanceDesired_def resultE)
  then show ?thesis
    using p by (cases a) (auto simp: patchInstanceDesired_def resultE insertE Let_def)
qed

interpretation access: access_op accessStep
proof
  fix a d assume d: "instTab.unique d" "distinct (map u_id (users d))" "hostOk d"
  show "instTab.unique (accessStep a d) \<and> distinct (map u_id (users (accessStep a d))) \<and> hostOk (accessStep a d)"
  proof (cases a)
    case (SwitchHost sha tid user iid on version)
    then show ?thesis using d patchHost_keeps [OF d(1)] by (auto split: sum.split)
  next
    case (AllowUser sha fresh actor owner permit)
    show ?thesis
    proof (cases "adminUserHostAccess sha fresh actor owner permit d")
      case (Inr e)
      have "distinct (map u_id (users e))" using admin_keeps [OF d(1) Inr d(3)] d(2) by metis
      then show ?thesis using admin_keeps [OF d(1) Inr d(3)] by (simp add: AllowUser Inr)
    qed (simp add: AllowUser d)
  next
    case (PatchDesired sha tid user iid b)
    show ?thesis
    proof (cases "patchInstanceDesired sha tid user iid b d")
      case (Inr r)
      then obtain t e where e: "patchInstanceDesired sha tid user iid b d = Inr (t, e)" by (cases r) auto
      obtain p where p: "users e = users d" "instances e = update p (desiredRow sha b) (instances d)" using desired_frame [OF e] by blast
      have "instTab.unique e" by (rule instTab.unique_rows_update [OF d(1) p(2)]) simp
      moreover have "hostOk e"
      proof (rule hostOk_step [OF d(3)])
        fix y assume y: "y \<in> set (instances e)" "i_hostEnabled y" "i_archivedAt y = None"
        then obtain x where "x \<in> set (instances d)" "y = (if p x then desiredRow sha b x else x)" unfolding p(2) in_update by blast
        then show "\<exists>x \<in> set (instances d). i_owner x = i_owner y \<and> i_hostEnabled x \<and> i_archivedAt x = None"
          using y(2,3) by (intro bexI [of _ x]) (auto split: if_splits)
      qed (auto simp: p(1))
      ultimately show ?thesis using d(2) p(1) by (simp add: PatchDesired e)
    qed (simp add: PatchDesired d)
  qed
qed


text \<open>Removing a user from the allow list is complete: when it succeeds, every listed instance of the user
  has host access off, no container of the user is created with host access any more, and every
  instance that may have a container got a pending task that takes the access away.\<close>

theorem revocation_complete:
  assumes u: "instTab.unique d" and a: "adminUserHostAccess sha fresh actor owner False d = Inr d'"
  shows "(\<forall>i \<in> set (instances d'). i_owner i = owner \<and> i_archivedAt i = None \<longrightarrow> \<not> i_hostEnabled i) \<and>
    (\<forall>i \<in> set (instances d'). i_owner i = owner \<longrightarrow> effectiveHostAccess (i_id i) d' = Inr False) \<and>
    (\<forall>x \<in> set (instances d). i_owner x = owner \<and> i_hostEnabled x \<and> i_archivedAt x = None \<and> livingStatus (i_status x) \<longrightarrow>
       (\<exists>t \<in> set (tasks d'). t_instance t = i_id x \<and> t_action t = HostAccess \<and> t_status t = TaskPending))"
proof (rule admin_cases [OF a])
  fix e assume "if False then e = d else revokeAll sha fresh owner (enabledIds owner d) d = Inr e"
    and d': "d' = writeAudit actor ''user.host_access_allowlist'' owner
       (e\<lparr>users := update (\<lambda>u. u_id u = owner) (\<lambda>u. u\<lparr>u_hostAllowed := False\<rparr>) (users e)\<rparr>)"
  then have r: "revokeAll sha fresh owner (enabledIds owner d) d = Inr e" by simp
  note rows = revoke_rows [OF u enabled_ids(1) [OF u] r enabled_ids(2) [OF u]]
  have ue: "instTab.unique e" by (rule unique_map [OF u conjunct1 [OF rows]]) simp
  have off: "\<not> i_hostEnabled y" if y: "y \<in> set (instances d')" "i_owner y = owner" "i_archivedAt y = None" for y
  proof -
    obtain x where x: "x \<in> set (instances d)" "y = (if i_id x \<in> set (enabledIds owner d) then hostRow sha False x else x)"
      using y(1) rows by (auto simp: d')
    show ?thesis using enabled_ids(3) [OF u x(1)] y(2,3) x(2) by (auto split: if_splits)
  qed
  have n: "\<not> u_hostAllowed z" if "z \<in> set (users d')" "u_id z = owner" for z
  proof -
    note z = that
    obtain w where "z = (if u_id w = owner then w\<lparr>u_hostAllowed := False\<rparr> else w)" using z(1) by (auto simp: d' in_update)
    then show ?thesis using z(2) by (cases "u_id w = owner") auto
  qed
  have eff: "effectiveHostAccess (i_id y) d' = Inr False" if y: "y \<in> set (instances d')" "i_owner y = owner" for y
  proof -
    have "instTab.unique d'" using ue by (simp add: d' instTab.unique_def)
    then have "select (\<lambda>i. i_id i = i_id y) (instances d') = Some y" by (rule instTab.select_key [OF _ y(1)]) simp_all
    then show ?thesis using n y(2) by (auto simp: effectiveHostAccess_def split: option.split dest: select_SomeD)
  qed
  have "\<exists>t \<in> set (tasks d'). t_instance t = i_id x \<and> t_action t = HostAccess \<and> t_status t = TaskPending"
    if "x \<in> set (instances d)" "i_owner x = owner \<and> i_hostEnabled x \<and> i_archivedAt x = None \<and> livingStatus (i_status x)" for x
  proof -
    note x = that
    obtain ts where ts: "tasks e = tasks d @ ts" "\<forall>x \<in> set (instances d). i_id x \<in> set (enabledIds owner d) \<and> livingStatus (i_status x) \<longrightarrow>
       (\<exists>t \<in> set ts. t_instance t = i_id x \<and> t_action t = HostAccess \<and> t_status t = TaskPending)" using rows by blast
    have "i_id x \<in> set (enabledIds owner d)" using enabled_ids(3) [OF u x(1), of owner] x(2) by simp
    then obtain t where "t \<in> set ts" "t_instance t = i_id x \<and> t_action t = HostAccess \<and> t_status t = TaskPending" using ts(2) x by blast
    then show ?thesis by (intro bexI [of _ t]) (simp_all add: d' ts(1))
  qed
  then show ?thesis using off eff by blast
qed

section \<open>Concrete requests\<close>

definition exampleHome :: db where
  "exampleHome = (emptyDb 7)\<lparr>users := [\<lparr>u_id = ''u'', u_hostAllowed = True\<rparr>], nodes := [exampleNode\<lparr>n_capabilities := [hostAccessCapability]\<rparr>],
     instances := [exampleAlive\<lparr>i_hostEnabled := True, i_node := Some ''n1''\<rparr>]\<rparr>"

lemma home_ok: "instTab.unique exampleHome" "distinct (map u_id (users exampleHome))" "hostOk exampleHome"
  by (simp_all add: instTab.unique_def exampleHome_def hostOk_def exampleAlive_def)


lemma revoked: "\<exists>d'. adminUserHostAccess (\<lambda>s. s) (\<lambda>i. i) ''admin'' ''u'' False exampleHome = Inr d'"
  by (simp add: adminUserHostAccess_def lockHostAccessUser_def exampleHome_def enabledIds_def setInstanceHostAccessTx_def exampleAlive_def
      blankInst_def emptyDb_def livingStatus_def textOr_def exampleNode_def supportsAgentCapability_def insertTask_def Let_def)

theorem revocation_complete_witness:
  "\<exists>d'. adminUserHostAccess (\<lambda>s. s) (\<lambda>i. i) ''admin'' ''u'' False exampleHome = Inr d' \<and>
     (\<exists>t \<in> set (tasks d'). t_action t = HostAccess)"
proof -
  obtain d' where d': "adminUserHostAccess (\<lambda>s. s) (\<lambda>i. i) ''admin'' ''u'' False exampleHome = Inr d'" using revoked by blast
  have "\<forall>x \<in> set (instances exampleHome). i_owner x = ''u'' \<and> i_hostEnabled x \<and> i_archivedAt x = None \<and> livingStatus (i_status x) \<longrightarrow>
       (\<exists>t \<in> set (tasks d'). t_instance t = i_id x \<and> t_action t = HostAccess \<and> t_status t = TaskPending)"
    using revocation_complete [OF home_ok(1) d'] by blast
  then show ?thesis using d' by (auto simp: exampleHome_def exampleAlive_def blankInst_def livingStatus_def)
qed

definition exampleStop :: desiredPatch where
  "exampleStop = \<lparr>dp_version = 1, dp_key = ''k'', dp_power = Some ''stopped'', dp_recreate = None, dp_deletion = None\<rparr>"

definition exampleRestart :: desiredPatch where
  "exampleRestart = exampleStop\<lparr>dp_power := None, dp_recreate := Some ''n1''\<rparr>"

definition exampleCold :: db where
  "exampleCold = (emptyDb 7)\<lparr>instances := [exampleAlive\<lparr>i_status := Stopped\<rparr>]\<rparr>"

lemma stop_accepted: "\<exists>t d1. patchInstanceDesired (\<lambda>s. s) ''t'' ''u'' ''i'' exampleStop exampleHome = Inr (t, d1)"
proof -
  let ?x = "exampleAlive\<lparr>i_hostEnabled := True, i_node := Some ''n1''\<rparr>"
  have "desiredRow (\<lambda>s. s) exampleStop ?x \<noteq> ?x" by (auto dest: arg_cong [where f = i_generation])
  then show ?thesis
    by (simp add: patchInstanceDesired_def exampleHome_def exampleStop_def desiredAction_def activeLifecycleTask_def emptyDb_def
        exampleAlive_def blankInst_def insertTask_def trimSpace_def trimLeft_def trimRight_def isSpace_def Let_def)
qed

theorem desired_patch_exact_witness:
  "\<exists>t d1. patchInstanceDesired (\<lambda>s. s) ''t'' ''u'' ''i'' exampleStop exampleHome = Inr (t, d1) \<and> dp_version exampleStop = 1"
  using stop_accepted desired_patch_exact [OF home_ok(1), of "exampleAlive\<lparr>i_hostEnabled := True, i_node := Some ''n1''\<rparr>" "''i''"]
  by (simp add: exampleHome_def exampleAlive_def exampleStop_def blankInst_def)

theorem lost_update_refused_witness:
  "\<exists>t d1 e. patchInstanceDesired (\<lambda>s. s) ''t'' ''u'' ''i'' exampleStop exampleHome = Inr (t, d1) \<and>
     patchInstanceDesired (\<lambda>s. s) ''t2'' ''u'' ''i'' exampleRestart d1 = Inl e"
proof -
  obtain t d1 where p: "patchInstanceDesired (\<lambda>s. s) ''t'' ''u'' ''i'' exampleStop exampleHome = Inr (t, d1)" using stop_accepted by blast
  have "\<exists>e. patchInstanceDesired (\<lambda>s. s) ''t2'' ''u'' ''i'' exampleRestart d1 = Inl e"
    by (rule lost_update_refused [OF home_ok(1) p]) (simp add: exampleRestart_def)
  then show ?thesis using p by blast
qed

lemma restart_accepted: "\<exists>t d1. patchInstanceDesired (\<lambda>s. s) ''t'' ''u'' ''i'' exampleRestart exampleCold = Inr (Some t, d1) \<and> t_instance t = ''i''"
proof -
  let ?x = "exampleAlive\<lparr>i_status := Stopped\<rparr>"
  have "desiredRow (\<lambda>s. s) exampleRestart ?x \<noteq> ?x" by (auto dest: arg_cong [where f = i_generation])
  then show ?thesis
    by (simp add: patchInstanceDesired_def exampleCold_def exampleRestart_def exampleStop_def desiredAction_def activeLifecycleTask_def emptyDb_def
        exampleAlive_def blankInst_def insertTask_def trimSpace_def trimLeft_def trimRight_def isSpace_def Let_def newTask_def)
qed

theorem recreate_stopped_refused_witness:
  "\<exists>t d1 err. patchInstanceDesired (\<lambda>s. s) ''t'' ''u'' ''i'' exampleRestart exampleCold = Inr (Some t, d1) \<and>
     (\<forall>call fresh. executeTask call fresh t (exampleCold\<lparr>tasks := [t]\<rparr>) = (Some err, exampleCold\<lparr>tasks := [t]\<rparr>))"
proof -
  obtain t d1 where p: "patchInstanceDesired (\<lambda>s. s) ''t'' ''u'' ''i'' exampleRestart exampleCold = Inr (Some t, d1)" using restart_accepted by blast
  have "t_action t = Restart \<and> (\<exists>err. \<forall>call fresh. executeTask call fresh t (exampleCold\<lparr>tasks := [t]\<rparr>) = (Some err, exampleCold\<lparr>tasks := [t]\<rparr>))"
    by (rule recreate_stopped_refused [OF p]) (simp_all add: exampleRestart_def taskTab.unique_def exampleCold_def)
  then show ?thesis using p by blast
qed

end
