(* ===== verification/Tickets.thy ===== *)
theory Tickets
  imports Schema "HOL-Library.Multiset"
begin

text \<open>
  Support tickets (\<open>tickets.go\<close>, \<open>ticket_handlers.go\<close>): the operations of users and administrators on
  tickets and their messages, and an abstract help desk - a map from ticket to owner, state and
  transcript - which they refine. Request bodies are decoded JSON, hence valid UTF-8, where the number
  of runes is the number of bytes that do not continue one.
\<close>

section \<open>Texts and vocabularies\<close>

definition validTicketCategory :: "string \<Rightarrow> bool" where
  "validTicketCategory v \<longleftrightarrow> v = ''instance'' \<or> v = ''billing'' \<or> v = ''account'' \<or> v = ''other''"

definition validTicketPriority :: "string \<Rightarrow> ticketPriority option" where
  "validTicketPriority v = (if v = ''normal'' then Some NormalPriority else if v = ''high'' then Some HighPriority
     else if v = ''urgent'' then Some UrgentPriority else None)"

definition validTicketStatus :: "string \<Rightarrow> ticketStatus option" where
  "validTicketStatus v = (if v = ''open'' then Some TicketOpen else if v = ''in_progress'' then Some TicketInProgress
     else if v = ''closed'' then Some TicketClosed else None)"

definition runeCount :: "string \<Rightarrow> nat" where
  "runeCount s = length (filter (\<lambda>c. \<not> (128 \<le> (of_char c :: nat) \<and> (of_char c :: nat) < 192)) s)"

definition normalizedTicketText :: "string \<Rightarrow> nat \<Rightarrow> error + string" where
  "normalizedTicketText value maximum =
     (let v = trimSpace value
      in guardE (v \<noteq> []) (Msg ''must not be empty'') (guardE (runeCount v \<le> maximum) (Msg ''too long'') (Inr v)))"

section \<open>Operations\<close>

text \<open>A ticket may refer to an instance and an order of its owner only.\<close>

definition validateTicketReference :: "id \<Rightarrow> id \<Rightarrow> id \<Rightarrow> db \<Rightarrow> error + unit" where
  "validateTicketReference owner iid oid db =
     guardE (iid \<noteq> [] \<longrightarrow> list_ex (\<lambda>i. i_id i = iid \<and> i_owner i = owner) (instances db)) (Msg ''no such instance'')
     (guardE (oid \<noteq> [] \<longrightarrow> list_ex (\<lambda>r. o_id r = oid \<and> o_owner r = owner) (orders db)) (Msg ''no such order'')
     (Inr ()))"

definition nullString :: "string \<Rightarrow> string option" where
  "nullString s = (if s = [] then None else Some s)"

definition insertTicket :: "ticket \<Rightarrow> db \<Rightarrow> error + db" where
  "insertTicket r db = (if tk_id r \<in> tk_id ` set (tickets db) then Inl ErrDuplicate
     else Inr (db\<lparr>tickets := tickets db @ [r]\<rparr>))"

definition insertMessage :: "ticketMessage \<Rightarrow> db \<Rightarrow> error + db" where
  "insertMessage r db = (if tm_id r \<in> tm_id ` set (ticketMessages db) then Inl ErrDuplicate
     else Inr (db\<lparr>ticketMessages := ticketMessages db @ [r]\<rparr>))"

definition createTicket :: "id \<Rightarrow> id \<Rightarrow> id \<Rightarrow> string \<Rightarrow> string \<Rightarrow> string \<Rightarrow> string \<Rightarrow> string \<Rightarrow> string \<Rightarrow> db \<Rightarrow> error + ticket \<times> db" where
  "createTicket tid mid owner category priority subject body iid oid db =
     guardE (validTicketCategory category) (Msg ''bad category or priority'')
     (bindE (orElse (validTicketPriority priority) (Msg ''bad category or priority'')) (\<lambda>pr.
      bindE (normalizedTicketText subject 160) (\<lambda>subject.
      bindE (normalizedTicketText body 4000) (\<lambda>body.
      bindE (validateTicketReference owner (trimSpace iid) (trimSpace oid) db) (\<lambda>_.
      let item = \<lparr>tk_id = tid, tk_owner = owner, tk_category = category, tk_priority = pr, tk_subject = subject,
            tk_instance = nullString (trimSpace iid), tk_order = nullString (trimSpace oid), tk_status = TicketOpen,
            tk_lastAdmin = None, tk_closedAt = None, tk_createdAt = now db, tk_updatedAt = now db\<rparr>;
          message = \<lparr>tm_id = mid, tm_ticket = tid, tm_sender = owner, tm_role = ''user'', tm_body = body, tm_createdAt = now db\<rparr>
      in bindE (insertTicket item db) (\<lambda>d1.
         bindE (insertMessage message d1) (\<lambda>d2.
         Inr (item, createNotification owner ''ticket'' tid (writeAudit owner ''ticket.create'' tid d2)))))))))"

text \<open>\<open>ORDER BY created_at,id\<close>: an insertion sort by moment and then by id, in the byte order.\<close>

fun idLess :: "string \<Rightarrow> string \<Rightarrow> bool" where
  "idLess _ [] = False"
| "idLess [] (_ # _) = True"
| "idLess (a # as) (b # bs) = ((of_char a :: nat) < of_char b \<or> a = b \<and> idLess as bs)"

definition messageBefore :: "ticketMessage \<Rightarrow> ticketMessage \<Rightarrow> bool" where
  "messageBefore a b \<longleftrightarrow> tm_createdAt a < tm_createdAt b \<or> tm_createdAt a = tm_createdAt b \<and> \<not> idLess (tm_id b) (tm_id a)"

fun insertSorted :: "ticketMessage \<Rightarrow> ticketMessage list \<Rightarrow> ticketMessage list" where
  "insertSorted m [] = [m]"
| "insertSorted m (x # xs) = (if messageBefore m x then m # x # xs else x # insertSorted m xs)"

definition messagesOf :: "id \<Rightarrow> db \<Rightarrow> ticketMessage list" where
  "messagesOf tid db = foldr insertSorted (filter (\<lambda>m. tm_ticket m = tid) (ticketMessages db)) []"

definition ticketByID :: "id \<Rightarrow> id \<Rightarrow> bool \<Rightarrow> db \<Rightarrow> error + ticket \<times> ticketMessage list" where
  "ticketByID tid owner admin db =
     bindE (orElse (select (\<lambda>r. tk_id r = tid \<and> (admin \<or> tk_owner r = owner)) (tickets db)) (Msg ''no such ticket''))
       (\<lambda>item. Inr (item, messagesOf tid db))"

definition replyRow :: "bool \<Rightarrow> id \<Rightarrow> gotime \<Rightarrow> ticket \<Rightarrow> ticket" where
  "replyRow admin actor t r =
     (if admin then r\<lparr>tk_status := (if tk_status r = TicketOpen then TicketInProgress else tk_status r),
                      tk_lastAdmin := Some actor, tk_updatedAt := t\<rparr>
      else r\<lparr>tk_updatedAt := t\<rparr>)"

text \<open>\<open>replyTicket\<close>: both handlers pass the role as a literal, \<open>user\<close> or \<open>admin\<close>. The result is what
  \<open>ticketByID\<close> reads after the commit.\<close>

definition replyTicket :: "id \<Rightarrow> id \<Rightarrow> id \<Rightarrow> bool \<Rightarrow> string \<Rightarrow> db \<Rightarrow> (error + ticket \<times> ticketMessage list) \<times> db" where
  "replyTicket mid tid actor admin body db =
     (case bindE (normalizedTicketText body 4000) (\<lambda>body.
           bindE (orElse (select (\<lambda>r. tk_id r = tid) (tickets db)) (Msg ''no such ticket'')) (\<lambda>item.
           guardE (admin \<or> tk_owner item = actor) (Msg ''no such ticket'')
           (guardE (tk_status item \<noteq> TicketClosed) (Msg ''ticket is closed'')
           (bindE (insertMessage \<lparr>tm_id = mid, tm_ticket = tid, tm_sender = actor,
                     tm_role = (if admin then ''admin'' else ''user''), tm_body = body, tm_createdAt = now db\<rparr> db) (\<lambda>d1.
            Inr (let d2 = writeAudit actor ''ticket.reply'' tid
                       (d1\<lparr>tickets := update (\<lambda>r. tk_id r = tid) (replyRow admin actor (now db)) (tickets d1)\<rparr>)
                 in if admin then createNotification (tk_owner item) ''ticket'' tid d2 else d2))))))
      of Inl e \<Rightarrow> (Inl e, db) | Inr d \<Rightarrow> (ticketByID tid actor admin d, d))"

definition statusRow :: "ticketStatus \<Rightarrow> id \<Rightarrow> gotime \<Rightarrow> ticket \<Rightarrow> ticket" where
  "statusRow st actor t r = r\<lparr>tk_status := st, tk_lastAdmin := Some actor,
     tk_closedAt := (if st = TicketClosed then Some t else None), tk_updatedAt := t\<rparr>"

definition changeTicketStatus :: "id \<Rightarrow> id \<Rightarrow> string \<Rightarrow> db \<Rightarrow> (error + ticket \<times> ticketMessage list) \<times> db" where
  "changeTicketStatus tid actor status db =
     (case validTicketStatus status of None \<Rightarrow> (Inl (Msg ''bad status''), db)
      | Some st \<Rightarrow>
          if st = TicketOpen then (Inl (Msg ''bad status''), db)
          else
            let p = (\<lambda>r. tk_id r = tid \<and> tk_status r \<noteq> TicketClosed);
                d = db\<lparr>tickets := update p (statusRow st actor (now db)) (tickets db)\<rparr>
            in if affected p (statusRow st actor (now db)) (tickets db) \<noteq> 1 then (Inl (Msg ''cannot be changed''), d)
               else (case ticketByID tid actor True d of
                  Inl e \<Rightarrow> (Inl e, d)
                | Inr detail \<Rightarrow> (Inr detail, createNotification (tk_owner (fst detail)) ''ticket'' tid
                                  (writeAudit actor ''ticket.status'' tid d))))"

definition priorityRow :: "ticketPriority \<Rightarrow> id \<Rightarrow> gotime \<Rightarrow> ticket \<Rightarrow> ticket" where
  "priorityRow pr actor t r = r\<lparr>tk_priority := pr, tk_lastAdmin := Some actor, tk_updatedAt := t\<rparr>"

definition changeTicketPriority :: "id \<Rightarrow> id \<Rightarrow> string \<Rightarrow> db \<Rightarrow> (error + ticket \<times> ticketMessage list) \<times> db" where
  "changeTicketPriority tid actor priority db =
     (case validTicketPriority priority of None \<Rightarrow> (Inl (Msg ''bad priority''), db)
      | Some pr \<Rightarrow>
          let p = (\<lambda>r. tk_id r = tid);
              d = db\<lparr>tickets := update p (priorityRow pr actor (now db)) (tickets db)\<rparr>
          in if affected p (priorityRow pr actor (now db)) (tickets db) \<noteq> 1 then (Inl (Msg ''no such ticket''), d)
             else let d2 = writeAudit actor ''ticket.priority'' tid d in (ticketByID tid actor True d2, d2))"

definition reopenedRow :: "gotime \<Rightarrow> ticket \<Rightarrow> ticket" where
  "reopenedRow t r = r\<lparr>tk_status := TicketOpen, tk_closedAt := None, tk_updatedAt := t\<rparr>"

definition reopenTicket :: "id \<Rightarrow> id \<Rightarrow> db \<Rightarrow> (error + ticket \<times> ticketMessage list) \<times> db" where
  "reopenTicket tid owner db =
     (let p = (\<lambda>r. tk_id r = tid \<and> tk_owner r = owner \<and> tk_status r = TicketClosed);
          d = db\<lparr>tickets := update p (reopenedRow (now db)) (tickets db)\<rparr>
      in if affected p (reopenedRow (now db)) (tickets db) \<noteq> 1 then (Inl (Msg ''cannot be reopened''), d)
         else let d2 = createNotification owner ''ticket'' tid (writeAudit owner ''ticket.reopen'' tid d)
              in (ticketByID tid owner False d2, d2))"

definition listUserTickets :: "id \<Rightarrow> db \<Rightarrow> ticket list" where
  "listUserTickets owner db = sort_key (\<lambda>r. - tk_updatedAt r) (filter (\<lambda>r. tk_owner r = owner) (tickets db))"

fun priorityRank :: "ticketPriority \<Rightarrow> nat" where
  "priorityRank UrgentPriority = 0"
| "priorityRank HighPriority = 1"
| "priorityRank NormalPriority = 2"

definition listAdminTickets :: "string \<Rightarrow> string \<Rightarrow> db \<Rightarrow> error + ticket list" where
  "listAdminTickets status priority db =
     guardE (status \<noteq> [] \<longrightarrow> validTicketStatus status \<noteq> None) (Msg ''bad status'')
     (guardE (priority \<noteq> [] \<longrightarrow> validTicketPriority priority \<noteq> None) (Msg ''bad priority'')
     (Inr (sort_key (\<lambda>r. priorityRank (tk_priority r)) (sort_key (\<lambda>r. - tk_updatedAt r)
        (filter (\<lambda>r. (status \<noteq> [] \<longrightarrow> validTicketStatus status = Some (tk_status r)) \<and>
                     (priority \<noteq> [] \<longrightarrow> validTicketPriority priority = Some (tk_priority r))) (tickets db))))))"

section \<open>The abstract help desk\<close>

record thread =
  th_owner :: id
  th_status :: ticketStatus
  th_log :: "(id \<times> bool \<times> string) list"

type_synonym desk = "id \<Rightarrow> thread option"

text \<open>What may happen to a desk, by whom: \<open>Some u\<close> is the user \<open>u\<close>, \<open>None\<close> an administrator. An entry of the
  transcript is its author, whether it speaks for the platform, and its text.\<close>

inductive deskStep :: "id option \<Rightarrow> desk \<Rightarrow> desk \<Rightarrow> bool" where
  Idle: "deskStep w m m"
| Opened: "m tid = None \<Longrightarrow> b \<noteq> [] \<Longrightarrow>
    deskStep (Some u) m (m(tid \<mapsto> \<lparr>th_owner = u, th_status = TicketOpen, th_log = [(u, False, b)]\<rparr>))"
| Continued: "m tid = Some t \<Longrightarrow> th_owner t = u \<Longrightarrow> th_status t \<noteq> TicketClosed \<Longrightarrow> b \<noteq> [] \<Longrightarrow>
    deskStep (Some u) m (m(tid \<mapsto> t\<lparr>th_log := th_log t @ [(u, False, b)]\<rparr>))"
| Answered: "m tid = Some t \<Longrightarrow> th_status t \<noteq> TicketClosed \<Longrightarrow> b \<noteq> [] \<Longrightarrow>
    deskStep None m (m(tid \<mapsto> t\<lparr>th_status := TicketInProgress, th_log := th_log t @ [(a, True, b)]\<rparr>))"
| Moved: "m tid = Some t \<Longrightarrow> th_status t \<noteq> TicketClosed \<Longrightarrow> s \<noteq> TicketOpen \<Longrightarrow>
    deskStep None m (m(tid \<mapsto> t\<lparr>th_status := s\<rparr>))"
| Reopened: "m tid = Some t \<Longrightarrow> th_owner t = u \<Longrightarrow> th_status t = TicketClosed \<Longrightarrow>
    deskStep (Some u) m (m(tid \<mapsto> t\<lparr>th_status := TicketOpen\<rparr>))"

inductive_cases deskStepE: "deskStep w m m'"

datatype deskCall =
    CallOpen id id id string string string string string string
  | CallReply id id id bool string
  | CallStatus id id string
  | CallPriority id id string
  | CallReopen id id

fun caller :: "deskCall \<Rightarrow> id option" where
  "caller (CallOpen tid mid u c p s b i ord) = Some u"
| "caller (CallReply mid tid a admin b) = (if admin then None else Some a)"
| "caller (CallStatus tid a s) = None"
| "caller (CallPriority tid a p) = None"
| "caller (CallReopen tid u) = Some u"

fun deskRun :: "deskCall \<Rightarrow> db \<Rightarrow> db" where
  "deskRun (CallOpen tid mid u c p s b i ord) d =
     (case createTicket tid mid u c p s b i ord d of Inl _ \<Rightarrow> d | Inr (_, d') \<Rightarrow> d')"
| "deskRun (CallReply mid tid a admin b) d = snd (replyTicket mid tid a admin b d)"
| "deskRun (CallStatus tid a s) d = snd (changeTicketStatus tid a s d)"
| "deskRun (CallPriority tid a p) d = snd (changeTicketPriority tid a p d)"
| "deskRun (CallReopen tid u) d = snd (reopenTicket tid u d)"

definition threadOf :: "ticketMessage list \<Rightarrow> ticket \<Rightarrow> thread" where
  "threadOf ms r = \<lparr>th_owner = tk_owner r, th_status = tk_status r,
     th_log = map (\<lambda>m. (tm_sender m, tm_role m = ''admin'', tm_body m)) (filter (\<lambda>m. tm_ticket m = tk_id r) ms)\<rparr>"

definition absDesk :: "db \<Rightarrow> desk" where
  "absDesk d = (\<lambda>tid. map_option (threadOf (ticketMessages d)) (select (\<lambda>r. tk_id r = tid) (tickets d)))"

section \<open>The refinement\<close>

text \<open>A concrete machine whose runs are steps of an abstract one, under an invariant.\<close>

locale simulates =
  fixes abs :: "'c \<Rightarrow> 'a" and run :: "'l \<Rightarrow> 'c \<Rightarrow> 'c" and who :: "'l \<Rightarrow> 'w" and step :: "'w \<Rightarrow> 'a \<Rightarrow> 'a \<Rightarrow> bool"
    and inv :: "'c \<Rightarrow> bool"
  assumes sim: "inv c \<Longrightarrow> step (who l) (abs c) (abs (run l c))"
    and keep: "inv c \<Longrightarrow> inv (run l c)"
begin

lemma runs_keep: "inv c \<Longrightarrow> inv (fold run ls c)"
  by (induction ls arbitrary: c) (simp_all add: keep)

lemma runs_invariant:
  assumes "inv c" "P (abs c)" and s: "\<And>w a b. step w a b \<Longrightarrow> P a \<Longrightarrow> P b"
  shows "P (abs (fold run ls c))"
  using assms(1,2) by (induction ls arbitrary: c) (auto intro: s sim keep)

end

interpretation ticketTab: keyed_table tickets tickets_update tk_id
  by unfold_locales (auto simp: comp_def)

lemma log_tickets [simp]:
  "ticketMessages (writeAudit a b c d) = ticketMessages d" "ticketMessages (createNotification u v w d) = ticketMessages d"
  by (simp_all add: logdefs)

lemma row_ids [simp]:
  "tk_id (replyRow ad a t r) = tk_id r" "tk_id (statusRow st a t r) = tk_id r" "tk_id (priorityRow pr a t r) = tk_id r"
  "tk_id (reopenedRow t r) = tk_id r"
  by (simp_all add: replyRow_def statusRow_def priorityRow_def reopenedRow_def)

lemma ticket_update_key:
  "(\<And>r. k (f r) = k r) \<Longrightarrow> select (\<lambda>r. k r = x) (update p f t) = map_option (\<lambda>r. if p r then f r else r) (select (\<lambda>r. k r = x) t)"
  by (induction t) auto

lemma select_append: "select p (xs @ ys) = (case select p xs of None \<Rightarrow> select p ys | Some r \<Rightarrow> Some r)"
  by (induction xs) auto

lemma abs_update:
  assumes "tickets d' = update p f (tickets d)" "ticketMessages d' = ticketMessages d"
    and f: "\<And>r. tk_id (f r) = tk_id r" and p: "\<And>r. p r \<Longrightarrow> tk_id r = tid"
    and g: "\<And>ms r. p r \<Longrightarrow> threadOf ms (f r) = g (threadOf ms r)"
  shows "absDesk d' = absDesk d \<or>
    (\<exists>r. select (\<lambda>r. tk_id r = tid) (tickets d) = Some r \<and> p r \<and>
       absDesk d' = (absDesk d)(tid \<mapsto> g (threadOf (ticketMessages d) r)))"
proof -
  have a: "absDesk d' x = map_option (\<lambda>r. threadOf (ticketMessages d) (if p r then f r else r)) (select (\<lambda>r. tk_id r = x) (tickets d))" for x
    by (simp add: absDesk_def assms(1,2) ticket_update_key [where k = tk_id, OF f] option.map_comp comp_def)
  show ?thesis
  proof (cases "\<exists>r. select (\<lambda>r. tk_id r = tid) (tickets d) = Some r \<and> p r")
    case True
    then obtain r where r: "select (\<lambda>r. tk_id r = tid) (tickets d) = Some r" "p r" by blast
    have "absDesk d' x = ((absDesk d)(tid \<mapsto> g (threadOf (ticketMessages d) r))) x" for x
    proof (cases "x = tid")
      case False
      then have "\<not> p y" if "select (\<lambda>r. tk_id r = x) (tickets d) = Some y" for y using p [of y] select_SomeD [OF that] by auto
      then show ?thesis using False unfolding a fun_upd_other [OF False] by (cases "select (\<lambda>r. tk_id r = x) (tickets d)") (simp_all add: absDesk_def)
    qed (simp add: a r g)
    then show ?thesis using r by blast
  next
    case False
    have "absDesk d' x = absDesk d x" for x
    proof (cases "select (\<lambda>r. tk_id r = x) (tickets d)")
      case (Some y)
      then have "\<not> p y" using p [of y] select_SomeD [OF Some] False by auto
      then show ?thesis unfolding a Some by (simp add: absDesk_def Some)
    next
      case None
      show ?thesis unfolding a None by (simp add: absDesk_def None)
    qed
    then show ?thesis by blast
  qed
qed

text \<open>A ticket's closing time is set exactly while it is closed; whoever takes a ticket leaves a name;
  every message belongs to a ticket.\<close>

definition deskInv :: "db \<Rightarrow> bool" where
  "deskInv d \<longleftrightarrow> ticketTab.unique d \<and> (\<forall>m \<in> set (ticketMessages d). tm_ticket m \<in> tk_id ` set (tickets d)) \<and>
     (\<forall>r \<in> set (tickets d). (tk_closedAt r \<noteq> None) = (tk_status r = TicketClosed) \<and>
        (tk_status r = TicketInProgress \<longrightarrow> tk_lastAdmin r \<noteq> None))"

lemma deskInv_update:
  assumes d: "deskInv d" and t: "tickets d' = update p f (tickets d)" and f: "\<And>r. tk_id (f r) = tk_id r"
    and m: "\<forall>m \<in> set (ticketMessages d'). tm_ticket m \<in> tk_id ` set (tickets d)"
    and g: "\<And>r. r \<in> set (tickets d) \<Longrightarrow> p r \<Longrightarrow> (tk_closedAt (f r) \<noteq> None) = (tk_status (f r) = TicketClosed) \<and>
        (tk_status (f r) = TicketInProgress \<longrightarrow> tk_lastAdmin (f r) \<noteq> None)"
  shows "deskInv d'"
proof -
  have u: "ticketTab.unique d'" using d t f by (auto simp: deskInv_def intro: ticketTab.unique_rows_update)
  have "tk_id ` set (tickets d') = tk_id ` set (tickets d)" unfolding t set_map [symmetric] using map_update [of tk_id f] f by metis
  then show ?thesis using d m g u unfolding deskInv_def by (fastforce simp: t in_update split: if_splits)
qed

lemma normalized_text: "normalizedTicketText v n = Inr b \<Longrightarrow> b \<noteq> []"
  by (auto simp: normalizedTicketText_def Let_def resultE)

lemma create_rows:
  assumes "createTicket tid mid u c p s b i ord d = Inr (x, d')"
  obtains b' where "b' \<noteq> []" "tk_id x = tid" "tk_owner x = u" "tk_status x = TicketOpen" "tk_closedAt x = None"
    "tid \<notin> tk_id ` set (tickets d)" "tickets d' = tickets d @ [x]"
    "ticketMessages d' = ticketMessages d @ [\<lparr>tm_id = mid, tm_ticket = tid, tm_sender = u, tm_role = ''user'', tm_body = b', tm_createdAt = now d\<rparr>]"
  using assms normalized_text [of b 4000]
  by (auto simp: createTicket_def Let_def resultE insertTicket_def insertMessage_def split: if_splits)

lemma reply_rows:
  assumes "snd (replyTicket mid tid a admin b d) \<noteq> d"
  obtains r b' where "select (\<lambda>r. tk_id r = tid) (tickets d) = Some r" "tk_status r \<noteq> TicketClosed" "admin \<or> tk_owner r = a" "b' \<noteq> []"
    "tickets (snd (replyTicket mid tid a admin b d)) = update (\<lambda>r. tk_id r = tid) (replyRow admin a (now d)) (tickets d)"
    "ticketMessages (snd (replyTicket mid tid a admin b d)) = ticketMessages d @
       [\<lparr>tm_id = mid, tm_ticket = tid, tm_sender = a, tm_role = (if admin then ''admin'' else ''user''), tm_body = b', tm_createdAt = now d\<rparr>]"
  using assms normalized_text [of b 4000] unfolding replyTicket_def
  by (auto simp: Let_def resultE insertMessage_def split: sum.splits if_splits)

lemma status_rows:
  "snd (changeTicketStatus tid a s d) = d \<or> (\<exists>st. st \<noteq> TicketOpen \<and>
     tickets (snd (changeTicketStatus tid a s d)) =
       update (\<lambda>r. tk_id r = tid \<and> tk_status r \<noteq> TicketClosed) (statusRow st a (now d)) (tickets d) \<and>
     ticketMessages (snd (changeTicketStatus tid a s d)) = ticketMessages d)"
  by (auto simp: changeTicketStatus_def Let_def split: option.splits sum.splits)

lemma priority_rows:
  "snd (changeTicketPriority tid a s d) = d \<or> (\<exists>pr.
     tickets (snd (changeTicketPriority tid a s d)) = update (\<lambda>r. tk_id r = tid) (priorityRow pr a (now d)) (tickets d) \<and>
     ticketMessages (snd (changeTicketPriority tid a s d)) = ticketMessages d)"
  by (auto simp: changeTicketPriority_def Let_def split: option.splits)

lemma reopen_rows:
  "tickets (snd (reopenTicket tid u d)) =
     update (\<lambda>r. tk_id r = tid \<and> tk_owner r = u \<and> tk_status r = TicketClosed) (reopenedRow (now d)) (tickets d)"
  "ticketMessages (snd (reopenTicket tid u d)) = ticketMessages d"
  by (simp_all add: reopenTicket_def Let_def)

lemma desk_keeps:
  assumes d: "deskInv d"
  shows "deskInv (deskRun c d)"
proof (cases c)
  case (CallOpen tid mid u ca p s b i ord)
  then show ?thesis using d
    by (auto simp: deskInv_def ticketTab.unique_def elim!: create_rows split: sum.splits)
next
  case (CallReply mid tid a admin b)
  show ?thesis
  proof (cases "snd (replyTicket mid tid a admin b d) = d")
    case False
    then obtain r b' where r: "select (\<lambda>r. tk_id r = tid) (tickets d) = Some r" "tk_status r \<noteq> TicketClosed"
      and t: "tickets (snd (replyTicket mid tid a admin b d)) = update (\<lambda>r. tk_id r = tid) (replyRow admin a (now d)) (tickets d)"
      and m: "ticketMessages (snd (replyTicket mid tid a admin b d)) = ticketMessages d @
       [\<lparr>tm_id = mid, tm_ticket = tid, tm_sender = a, tm_role = (if admin then ''admin'' else ''user''), tm_body = b', tm_createdAt = now d\<rparr>]"
      by (rule reply_rows)
    have r': "r \<in> set (tickets d)" "tk_id r = tid" using select_SomeD [OF r(1)] by auto
    have "deskInv (snd (replyTicket mid tid a admin b d))"
    proof (rule deskInv_update [OF d t])
      show "\<forall>m \<in> set (ticketMessages (snd (replyTicket mid tid a admin b d))). tm_ticket m \<in> tk_id ` set (tickets d)"
        using d r' by (auto simp: m deskInv_def)
    qed (use d in \<open>auto simp: deskInv_def replyRow_def\<close>)
    then show ?thesis by (simp add: CallReply)
  qed (use d CallReply in simp)
next
  case (CallStatus tid a s)
  show ?thesis using status_rows [of tid a s d]
  proof (elim disjE exE conjE)
    fix st assume "st \<noteq> TicketOpen"
      and t: "tickets (snd (changeTicketStatus tid a s d)) =
        update (\<lambda>r. tk_id r = tid \<and> tk_status r \<noteq> TicketClosed) (statusRow st a (now d)) (tickets d)"
      and m: "ticketMessages (snd (changeTicketStatus tid a s d)) = ticketMessages d"
    have "deskInv (snd (changeTicketStatus tid a s d))" by (rule deskInv_update [OF d t]) (use d m in \<open>auto simp: deskInv_def statusRow_def\<close>)
    then show ?thesis by (simp add: CallStatus)
  qed (use d in \<open>simp add: CallStatus\<close>)
next
  case (CallPriority tid a s)
  show ?thesis using priority_rows [of tid a s d]
  proof (elim disjE exE conjE)
    fix pr assume t: "tickets (snd (changeTicketPriority tid a s d)) = update (\<lambda>r. tk_id r = tid) (priorityRow pr a (now d)) (tickets d)"
      and m: "ticketMessages (snd (changeTicketPriority tid a s d)) = ticketMessages d"
    have "deskInv (snd (changeTicketPriority tid a s d))" by (rule deskInv_update [OF d t]) (use d m in \<open>auto simp: deskInv_def priorityRow_def\<close>)
    then show ?thesis by (simp add: CallPriority)
  qed (use d in \<open>simp add: CallPriority\<close>)
next
  case (CallReopen tid u)
  show ?thesis unfolding CallReopen deskRun.simps
    by (rule deskInv_update [OF d reopen_rows(1)]) (use d in \<open>auto simp: reopen_rows deskInv_def reopenedRow_def\<close>)
qed

lemma thread_reply:
  assumes "tk_status r \<noteq> TicketClosed" "tk_id r = tid"
  shows "threadOf (ms @ [\<lparr>tm_id = mid, tm_ticket = tid, tm_sender = a, tm_role = (if admin then ''admin'' else ''user''), tm_body = b, tm_createdAt = z\<rparr>])
      (replyRow admin a t r) =
    (threadOf ms r)\<lparr>th_status := (if admin then TicketInProgress else tk_status r), th_log := th_log (threadOf ms r) @ [(a, admin, b)]\<rparr>"
  using assms by (cases "tk_status r"; cases admin) (simp_all add: threadOf_def replyRow_def)

lemma desk_sim:
  assumes d: "deskInv d"
  shows "deskStep (caller c) (absDesk d) (absDesk (deskRun c d))"
proof (cases c)
  case (CallOpen tid mid u ca p s b i ord)
  show ?thesis
  proof (cases "createTicket tid mid u ca p s b i ord d")
    case (Inr xd)
    obtain x d' where xd: "xd = (x, d')" by (cases xd)
    obtain b' where b: "b' \<noteq> []" and x: "tk_id x = tid" "tk_owner x = u" "tk_status x = TicketOpen" "tk_closedAt x = None"
      and n: "tid \<notin> tk_id ` set (tickets d)" and t: "tickets d' = tickets d @ [x]"
      and m: "ticketMessages d' = ticketMessages d @ [\<lparr>tm_id = mid, tm_ticket = tid, tm_sender = u, tm_role = ''user'', tm_body = b', tm_createdAt = now d\<rparr>]"
      by (rule create_rows [OF Inr [unfolded xd]])
    have e: "filter (\<lambda>m. tm_ticket m = tid) (ticketMessages d) = []" using d n by (auto simp: deskInv_def filter_empty_conv)
    have z: "absDesk d tid = None" using n by (auto simp: absDesk_def select_None)
    have "absDesk d' = (absDesk d)(tid \<mapsto> \<lparr>th_owner = u, th_status = TicketOpen, th_log = [(u, False, b')]\<rparr>)"
      using x e z by (intro ext) (auto simp: absDesk_def t m threadOf_def select_append split: option.splits dest!: select_SomeD)
    then show ?thesis using deskStep.Opened [where m = "absDesk d" and tid = tid, OF z b] by (simp add: CallOpen Inr xd)
  qed (simp add: CallOpen deskStep.Idle)
next
  case (CallReply mid tid a admin b)
  show ?thesis
  proof (cases "snd (replyTicket mid tid a admin b d) = d")
    case False
    then obtain r b' where r: "select (\<lambda>r. tk_id r = tid) (tickets d) = Some r" "tk_status r \<noteq> TicketClosed" "admin \<or> tk_owner r = a"
      and b: "b' \<noteq> []"
      and t: "tickets (snd (replyTicket mid tid a admin b d)) = update (\<lambda>r. tk_id r = tid) (replyRow admin a (now d)) (tickets d)"
      and m: "ticketMessages (snd (replyTicket mid tid a admin b d)) = ticketMessages d @
       [\<lparr>tm_id = mid, tm_ticket = tid, tm_sender = a, tm_role = (if admin then ''admin'' else ''user''), tm_body = b', tm_createdAt = now d\<rparr>]"
      by (rule reply_rows)
    let ?t = "threadOf (ticketMessages d) r"
    have z: "absDesk d tid = Some ?t" using r by (simp add: absDesk_def)
    have "absDesk (snd (replyTicket mid tid a admin b d)) = (absDesk d)(tid \<mapsto> ?t\<lparr>th_status := (if admin then TicketInProgress else tk_status r),
        th_log := th_log ?t @ [(a, admin, b')]\<rparr>)" (is "?l = ?r")
    proof
      fix x show "?l x = ?r x"
      proof (cases "x = tid")
        case True
        have "tk_id r = tid" using select_SomeD [OF r(1)] by simp
        moreover have "?l tid = Some (threadOf (ticketMessages (snd (replyTicket mid tid a admin b d))) (replyRow admin a (now d) r))"
          using \<open>tk_id r = tid\<close> by (simp add: absDesk_def t ticket_update_key [where k = tk_id] r(1))
        ultimately show ?thesis unfolding True m by (simp only: thread_reply [OF r(2)] fun_upd_same)
      next
        case False
        show ?thesis
        proof (cases "select (\<lambda>r. tk_id r = x) (tickets d)")
          case None
          then show ?thesis using False by (simp add: absDesk_def t ticket_update_key [where k = tk_id])
        next
          case (Some y)
          then have "tk_id y = x" using select_SomeD [OF Some] by simp
          then show ?thesis using False Some by (simp add: absDesk_def t m ticket_update_key [where k = tk_id] threadOf_def)
        qed
      qed
    qed
    then show ?thesis
      using deskStep.Answered [where m = "absDesk d" and tid = tid and a = a, OF z _ b] deskStep.Continued [where m = "absDesk d" and tid = tid and u = a, OF z _ _ b] r(2,3)
      by (cases admin) (auto simp: CallReply threadOf_def)
  qed (simp add: CallReply deskStep.Idle)
next
  case (CallStatus tid a s)
  show ?thesis using status_rows [of tid a s d]
  proof (elim disjE exE conjE)
    fix st assume st: "st \<noteq> TicketOpen"
      and t: "tickets (snd (changeTicketStatus tid a s d)) =
        update (\<lambda>r. tk_id r = tid \<and> tk_status r \<noteq> TicketClosed) (statusRow st a (now d)) (tickets d)"
      and m: "ticketMessages (snd (changeTicketStatus tid a s d)) = ticketMessages d"
    show ?thesis
    proof (rule disjE [OF abs_update [OF t m row_ids(2), where tid = tid and g = "\<lambda>x. x\<lparr>th_status := st\<rparr>"]]; (elim exE conjE)?)
      fix r assume r: "select (\<lambda>r. tk_id r = tid) (tickets d) = Some r" "tk_status r \<noteq> TicketClosed"
        and e: "absDesk (snd (changeTicketStatus tid a s d)) = (absDesk d)(tid \<mapsto> (threadOf (ticketMessages d) r)\<lparr>th_status := st\<rparr>)"
      show ?thesis unfolding CallStatus deskRun.simps caller.simps e
        by (rule deskStep.Moved) (use r st in \<open>simp_all add: absDesk_def threadOf_def\<close>)
    qed (auto simp: CallStatus threadOf_def statusRow_def intro: deskStep.Idle)
  qed (simp add: CallStatus deskStep.Idle)
next
  case (CallPriority tid a s)
  show ?thesis using priority_rows [of tid a s d]
  proof (elim disjE exE conjE)
    fix pr assume t: "tickets (snd (changeTicketPriority tid a s d)) = update (\<lambda>r. tk_id r = tid) (priorityRow pr a (now d)) (tickets d)"
      and m: "ticketMessages (snd (changeTicketPriority tid a s d)) = ticketMessages d"
    have "absDesk (snd (changeTicketPriority tid a s d)) = absDesk d"
      using abs_update [OF t m row_ids(3), where tid = tid and g = "\<lambda>x. x"]
      by (auto simp: threadOf_def priorityRow_def absDesk_def fun_upd_idem_iff)
    then show ?thesis by (simp add: CallPriority deskStep.Idle)
  qed (simp add: CallPriority deskStep.Idle)
next
  case (CallReopen tid u)
  show ?thesis
  proof (rule disjE [OF abs_update [OF reopen_rows row_ids(4), where tid = tid and g = "\<lambda>x. x\<lparr>th_status := TicketOpen\<rparr>"]]; (elim exE conjE)?)
    fix r assume r: "select (\<lambda>r. tk_id r = tid) (tickets d) = Some r" "tk_owner r = u" "tk_status r = TicketClosed"
      and e: "absDesk (snd (reopenTicket tid u d)) = (absDesk d)(tid \<mapsto> (threadOf (ticketMessages d) r)\<lparr>th_status := TicketOpen\<rparr>)"
    show ?thesis unfolding CallReopen deskRun.simps caller.simps e
      by (rule deskStep.Reopened) (use r in \<open>simp_all add: absDesk_def threadOf_def\<close>)
  qed (auto simp: CallReopen threadOf_def reopenedRow_def intro: deskStep.Idle)
qed

interpretation deskRuns: simulates absDesk deskRun caller deskStep deskInv
  by unfold_locales (auto intro: desk_sim desk_keeps)

lemma insertSorted_set [simp]: "set (insertSorted m xs) = insert m (set xs)"
  by (induction xs) auto

lemma messagesOf_set: "set (messagesOf tid d) = {m \<in> set (ticketMessages d). tm_ticket m = tid}"
proof -
  have "set (foldr insertSorted xs []) = set xs" for xs by (induction xs) auto
  then show ?thesis by (auto simp: messagesOf_def)
qed

lemma messagesOf_empty: "messagesOf tid d = [] \<longleftrightarrow> (\<forall>m \<in> set (ticketMessages d). tm_ticket m \<noteq> tid)"
  using messagesOf_set [of tid d] by (metis (mono_tags, lifting) Collect_empty_eq list.set(1) set_empty)

text \<open>Sorting by a second key keeps the first order among equals.\<close>

lemma insort_key_lex:
  assumes "sorted_wrt (\<lambda>a b. f a < f b \<or> f a = f b \<and> R a b) ys" "\<forall>y \<in> set ys. R x y"
  shows "sorted_wrt (\<lambda>a b. f a < (f b :: nat) \<or> f a = f b \<and> R a b) (insort_key f x ys)"
  using assms by (induction ys) (auto simp: set_insort_key)

lemma sort_key_lex:
  "sorted_wrt R xs \<Longrightarrow> sorted_wrt (\<lambda>a b. f a < (f b :: nat) \<or> f a = f b \<and> R a b) (sort_key f xs)"
  by (induction xs) (auto intro: insort_key_lex)

section \<open>Properties\<close>

definition transcriptOk :: "thread \<Rightarrow> bool" where
  "transcriptOk t \<longleftrightarrow> th_log t \<noteq> [] \<and> fst (hd (th_log t)) = th_owner t \<and>
     (\<forall>x \<in> set (th_log t). snd (snd x) \<noteq> [] \<and> (\<not> fst (snd x) \<longrightarrow> fst x = th_owner t))"

lemma transcript_simps [simp]:
  "transcriptOk (t\<lparr>th_status := s\<rparr>) = transcriptOk t"
  "transcriptOk (t\<lparr>th_status := s, th_log := l\<rparr>) = transcriptOk (t\<lparr>th_log := l\<rparr>)"
  by (simp_all add: transcriptOk_def)

lemma transcript_append:
  assumes "transcriptOk t" "b \<noteq> []" "\<not> admin \<longrightarrow> a = th_owner t"
  shows "transcriptOk (t\<lparr>th_log := th_log t @ [(a, admin, b)]\<rparr>)"
  using assms unfolding transcriptOk_def by (simp add: ball_Un)

lemma deskStep_transcripts:
  assumes "deskStep w m m'" and all: "\<forall>t \<in> ran m. transcriptOk t"
  shows "\<forall>t \<in> ran m'. transcriptOk t"
proof -
  have new: "\<forall>t \<in> ran (m(x \<mapsto> y)). transcriptOk t" if "transcriptOk y" for x y
    using all that by (auto simp: ran_def)
  have old: "transcriptOk t" if "m x = Some t" for x t using all that by (auto simp: ran_def)
  from assms(1) show ?thesis
  proof (cases rule: deskStep.cases)
    case (Opened tid b u)
    show ?thesis unfolding Opened(2) by (rule new) (simp add: transcriptOk_def Opened)
  qed (use all in \<open>auto simp only: transcript_simps intro!: new transcript_append dest!: old\<close>)
qed

text \<open>C15. The ticket system refines the abstract help desk: whatever a request does, on every branch, is a step
  that its caller may make - a user opens tickets, writes into and reopens his own, only an
  administrator answers or moves one, a closed ticket changes only by being reopened, transcripts only
  grow - and the request keeps the closing time set exactly on closed tickets.\<close>

theorem ticket_refinement:
  assumes "deskInv d"
  shows "deskStep (caller c) (absDesk d) (absDesk (deskRun c d)) \<and> deskInv (deskRun c d)"
  using deskRuns.sim [OF assms] deskRuns.keep [OF assms] by blast


text \<open>An administrator's list is complete and urgent first: it holds exactly the tickets that match, each once,
  and never puts a less urgent ticket before a more urgent one, nor among equals an older change before a newer.\<close>

theorem admin_queue:
  assumes "listAdminTickets status priority d = Inr ts"
  shows "mset ts = filter_mset (\<lambda>r. (status = [] \<or> validTicketStatus status = Some (tk_status r)) \<and>
      (priority = [] \<or> validTicketPriority priority = Some (tk_priority r))) (mset (tickets d)) \<and>
    sorted_wrt (\<lambda>a b. priorityRank (tk_priority a) < priorityRank (tk_priority b) \<or>
      priorityRank (tk_priority a) = priorityRank (tk_priority b) \<and> tk_updatedAt b \<le> tk_updatedAt a) ts"
proof
  let ?xs = "sort_key (\<lambda>r. - tk_updatedAt r) (filter (\<lambda>r. (status \<noteq> [] \<longrightarrow> validTicketStatus status = Some (tk_status r)) \<and>
      (priority \<noteq> [] \<longrightarrow> validTicketPriority priority = Some (tk_priority r))) (tickets d))"
  have ts: "ts = sort_key (\<lambda>r. priorityRank (tk_priority r)) ?xs"
    using assms by (auto simp: listAdminTickets_def resultE)
  then show "mset ts = filter_mset (\<lambda>r. (status = [] \<or> validTicketStatus status = Some (tk_status r)) \<and>
      (priority = [] \<or> validTicketPriority priority = Some (tk_priority r))) (mset (tickets d))"
    by (simp add: mset_filter imp_conv_disj)
  have "sorted_wrt (\<lambda>a b. tk_updatedAt b \<le> tk_updatedAt a) ?xs"
    using sorted_sort_key [of "\<lambda>r. - tk_updatedAt r"] by (simp add: sorted_map)
  then show "sorted_wrt (\<lambda>a b. priorityRank (tk_priority a) < priorityRank (tk_priority b) \<or>
      priorityRank (tk_priority a) = priorityRank (tk_priority b) \<and> tk_updatedAt b \<le> tk_updatedAt a) ts"
    unfolding ts by (rule sort_key_lex)
qed

section \<open>Concrete requests\<close>

definition exampleTicket :: ticket where
  "exampleTicket = \<lparr>tk_id = ''t'', tk_owner = ''u'', tk_category = ''billing'', tk_priority = HighPriority, tk_subject = ''s'',
     tk_instance = None, tk_order = None, tk_status = TicketOpen, tk_lastAdmin = None, tk_closedAt = None,
     tk_createdAt = 1, tk_updatedAt = 1\<rparr>"

definition exampleDesk :: db where
  "exampleDesk = (emptyDb 9)\<lparr>tickets := [exampleTicket]\<rparr>"

theorem ticket_refinement_witness:
  "deskStep None (absDesk exampleDesk) (absDesk (deskRun (CallStatus ''t'' ''admin'' ''closed'') exampleDesk)) \<and>
   map tk_status (tickets (deskRun (CallStatus ''t'' ''admin'' ''closed'') exampleDesk)) = [TicketClosed]"
proof -
  have "deskInv exampleDesk" by (simp add: deskInv_def ticketTab.unique_def exampleDesk_def emptyDb_def exampleTicket_def)
  from ticket_refinement [OF this, of "CallStatus ''t'' ''admin'' ''closed''"] show ?thesis
    by (simp add: changeTicketStatus_def validTicketStatus_def exampleDesk_def emptyDb_def exampleTicket_def statusRow_def
        ticketByID_def logdefs)
qed


theorem admin_queue_witness:
  "\<exists>ts. listAdminTickets ''open'' [] exampleDesk = Inr ts \<and> mset ts = mset [exampleTicket]"
  using admin_queue [of "''open''" "[]" exampleDesk]
  by (simp add: listAdminTickets_def exampleDesk_def exampleTicket_def validTicketStatus_def)

end
