(* ===== verification/SelfHosted.thy ===== *)
theory SelfHosted
  imports Executor
begin

text \<open>
  Customer-owned nodes: enrollment tokens and browser authorisations, the credential a device connects with,
  its heartbeat, quotas, instances on it and its revocation (\<open>control_tunnel.go\<close>, \<open>selfhosted_nodes.go\<close>,
  and \<open>enroll\<close>, \<open>connect\<close>, \<open>updateSelfHostedHeartbeat\<close> of \<open>gateway/main.go\<close>). Parameters: \<open>sha\<close>, the
  hexadecimal SHA-256; \<open>keyOk\<close>, whether a text decodes to an Ed25519 key; \<open>verify\<close>, the signature check;
  fresh identifiers and random tokens. A handler's error is its message; HTTP codes are left out.
\<close>

definition routeKey :: "(string \<Rightarrow> string) \<Rightarrow> string \<Rightarrow> string" where
  "routeKey sha value = CHR ''r'' # take 16 (sha value)"

section \<open>Enrollment tokens\<close>

definition insertEnrollToken :: "enrollToken \<Rightarrow> db \<Rightarrow> error + db" where
  "insertEnrollToken r db =
     (if et_id r \<in> et_id ` set (enrollTokens db) \<or> et_hash r \<in> et_hash ` set (enrollTokens db) then Inl ErrDuplicate
      else Inr (db\<lparr>enrollTokens := enrollTokens db @ [r]\<rparr>))"

definition controlEnrollmentTokenCreate ::
  "(string \<Rightarrow> string) \<Rightarrow> id \<Rightarrow> string \<Rightarrow> id \<Rightarrow> string \<Rightarrow> db \<Rightarrow> error + string \<times> db" where
  "controlEnrollmentTokenCreate sha tid token user name db =
     (let nm = trimSpace name; value = ''xctl_enroll_'' @ token
      in guardE (length nm \<noteq> 0 \<and> length nm \<le> 96) (Msg ''bad node name'')
         (bindE (insertEnrollToken \<lparr>et_id = tid, et_owner = user, et_hash = sha value, et_node = nm,
              et_expires = now db + 10 * minute, et_used = None, et_revoked = None, et_device = None\<rparr> db) (\<lambda>d.
          Inr (value, writeAudit user ''control.enrollment_token.create'' tid d))))"

text \<open>The state the list shows for a token.\<close>

definition tokenStatus :: "gotime \<Rightarrow> enrollToken \<Rightarrow> string" where
  "tokenStatus t r = (if et_revoked r \<noteq> None then ''revoked'' else if et_used r \<noteq> None then ''used''
     else if \<not> t < et_expires r then ''expired'' else ''pending'')"

definition controlEnrollmentTokenRevoke :: "id \<Rightarrow> id \<Rightarrow> db \<Rightarrow> error + db" where
  "controlEnrollmentTokenRevoke user tid db =
     (let p = (\<lambda>r. et_id r = tid \<and> et_owner r = user \<and> et_used r = None \<and> et_revoked r = None);
          f = (\<lambda>r. r\<lparr>et_revoked := Some (now db)\<rparr>)
      in guardE (affected p f (enrollTokens db) = 1) (Msg ''no such token'')
         (Inr (writeAudit user ''control.enrollment_token.revoke'' tid (db\<lparr>enrollTokens := update p f (enrollTokens db)\<rparr>))))"

section \<open>Devices\<close>

definition insertDevice :: "device \<Rightarrow> db \<Rightarrow> error + db" where
  "insertDevice r db =
     (if dv_id r \<in> dv_id ` set (devices db) \<or> dv_credential r \<in> dv_credential ` set (devices db) then Inl ErrDuplicate
      else Inr (db\<lparr>devices := devices db @ [r]\<rparr>))"

definition insertRoute :: "tunnelRoute \<Rightarrow> db \<Rightarrow> error + db" where
  "insertRoute r db =
     (if tr_id r \<in> tr_id ` set (tunnelRoutes db) \<or> tr_key r \<in> tr_key ` set (tunnelRoutes db) \<or>
         tr_device r \<in> tr_device ` set (tunnelRoutes db) then Inl ErrDuplicate
      else Inr (db\<lparr>tunnelRoutes := tunnelRoutes db @ [r]\<rparr>))"

definition insertNode :: "node \<Rightarrow> db \<Rightarrow> error + db" where
  "insertNode r db =
     (if n_id r \<in> n_id ` set (nodes db) \<or> n_device r \<noteq> None \<and> n_device r \<in> n_device ` set (nodes db) then Inl ErrDuplicate
      else Inr (db\<lparr>nodes := nodes db @ [r]\<rparr>))"

text \<open>The node row both enrollment paths insert; the other columns take the defaults of the schema.\<close>

definition selfHostedRow :: "id \<Rightarrow> string \<Rightarrow> id \<Rightarrow> id \<Rightarrow> node" where
  "selfHostedRow nid name owner dev =
     \<lparr>n_id = nid, n_kind = SelfHosted, n_device = Some dev, n_cpuTotal = 0, n_memTotal = 0, n_cpuDetected = 0,
      n_memDetected = 0, n_enabled = True, n_heartbeat = None, n_apiVersion = 0, n_capabilities = [], n_lastError = None,
      n_owner = Some owner, n_name = name, n_ready = False, n_issues = [], n_cpuQuota = 0, n_memQuota = 0, n_autoQuota = True\<rparr>"

text \<open>Fresh identifiers of a binding: device, route, node, and the new credential.\<close>

record binding =
  b_device :: id
  b_route :: id
  b_node :: id
  b_credential :: string

definition deviceRow :: "(string \<Rightarrow> string) \<Rightarrow> binding \<Rightarrow> id \<Rightarrow> string \<Rightarrow> device" where
  "deviceRow sha b owner key = \<lparr>dv_id = b_device b, dv_owner = owner, dv_key = key, dv_credential = sha (b_credential b),
     dv_status = DeviceEnabled, dv_rebind = False, dv_heartbeat = None\<rparr>"

definition routeRow :: "(string \<Rightarrow> string) \<Rightarrow> binding \<Rightarrow> id \<Rightarrow> tunnelRoute" where
  "routeRow sha b owner = \<lparr>tr_id = b_route b, tr_owner = owner, tr_device = b_device b,
     tr_key = routeKey sha (owner @ CHR 0x00 # b_device b), tr_status = RoutePaused\<rparr>"

definition bindDevice :: "(string \<Rightarrow> string) \<Rightarrow> binding \<Rightarrow> id \<Rightarrow> string \<Rightarrow> string \<Rightarrow> db \<Rightarrow> error + db" where
  "bindDevice sha b owner key name db =
     bindE (insertDevice (deviceRow sha b owner key) db) (\<lambda>d.
     bindE (insertRoute (routeRow sha b owner) d) (\<lambda>d.
     insertNode (selfHostedRow (b_node b) name owner (b_device b)) d))"

text \<open>\<open>enroll\<close>: the gateway exchanges a token for a device.\<close>

definition enroll ::
  "(string \<Rightarrow> string) \<Rightarrow> (string \<Rightarrow> bool) \<Rightarrow> binding \<Rightarrow> string \<Rightarrow> string \<Rightarrow> db \<Rightarrow> error + (id \<times> string \<times> id) \<times> db" where
  "enroll sha keyOk b token key db =
     guardE (keyOk key) (Msg ''invalid device key'')
     (bindE (orElse (select (\<lambda>r. et_hash r = sha token) (enrollTokens db)) (Msg ''enrollment token invalid'')) (\<lambda>r.
      guardE (et_used r = None \<and> et_revoked r = None \<and> now db < et_expires r) (Msg ''enrollment token invalid'')
      (bindE (orElse (select (\<lambda>u. u_id u = et_owner r) (users db)) ErrNoRows) (\<lambda>_.
       let name = (if trimSpace (et_node r) = [] then ''self-hosted node'' else trimSpace (et_node r));
           cred = ''xctl_device_'' @ b_credential b
       in bindE (bindDevice sha (b\<lparr>b_credential := cred\<rparr>) (et_owner r) key name db) (\<lambda>d.
          Inr ((b_device b, cred, et_owner r),
            d\<lparr>enrollTokens := update (\<lambda>x. et_hash x = sha token) (\<lambda>x. x\<lparr>et_used := Some (now db), et_device := Some (b_device b)\<rparr>)
                (enrollTokens d)\<rparr>))))))"

section \<open>Browser authorisation\<close>

definition controlAuthorizationCreate ::
  "(string \<Rightarrow> string) \<Rightarrow> id \<Rightarrow> string \<Rightarrow> string \<Rightarrow> string \<Rightarrow> db \<Rightarrow> error + db" where
  "controlAuthorizationCreate sha aid poll name key db =
     guardE (trimSpace name \<noteq> [] \<and> length name \<le> 96 \<and> trimSpace key \<noteq> []) (Msg ''bad device name or key'')
     (if aid \<in> au_id ` set (authorizations db) then Inl ErrDuplicate
      else Inr (db\<lparr>authorizations := authorizations db @ [\<lparr>au_id = aid, au_name = trimSpace name, au_key = trimSpace key,
              au_poll = sha poll, au_status = AuthPending, au_expires = now db + 10 * minute, au_owner = None, au_device = None,
              au_credential = None, au_delivered = None\<rparr>]\<rparr>))"

definition controlAuthorizationApprove ::
  "(string \<Rightarrow> string) \<Rightarrow> binding \<Rightarrow> id \<Rightarrow> id \<Rightarrow> string \<Rightarrow> string option \<Rightarrow> string \<Rightarrow> db \<Rightarrow> error + db" where
  "controlAuthorizationApprove sha b user aid token cookie form db =
     guardE (token \<noteq> [] \<and> someAnd (\<lambda>c. c \<noteq> [] \<and> c = form) cookie) (Msg ''missing authorisation code'')
     (bindE (orElse (select (\<lambda>u. u_id u = user) (users db)) (Msg ''log in first'')) (\<lambda>_.
      bindE (orElse (select (\<lambda>r. au_id r = aid \<and> au_poll r = sha token) (authorizations db)) (Msg ''authorisation over'')) (\<lambda>r.
      guardE (au_status r = AuthPending \<and> now db < au_expires r) (Msg ''authorisation over'')
      (bindE (bindDevice sha b user (au_key r) (au_name r) db) (\<lambda>d.
       Inr (createNotification user ''control_device'' (b_device b) (writeAudit user ''control.device.approve'' (b_device b)
         (d\<lparr>authorizations := update (\<lambda>x. au_id x = aid)
             (\<lambda>x. x\<lparr>au_status := AuthApproved, au_owner := Some user, au_device := Some (b_device b),
                    au_credential := Some (b_credential b)\<rparr>) (authorizations d)\<rparr>))))))))"

text \<open>\<open>controlAuthorizationPoll\<close> answers with the credential at most once.\<close>

definition controlAuthorizationPoll ::
  "(string \<Rightarrow> string) \<Rightarrow> id \<Rightarrow> string \<Rightarrow> db \<Rightarrow> error + (id \<times> string) option \<times> db" where
  "controlAuthorizationPoll sha aid token db =
     bindE (orElse (select (\<lambda>r. au_id r = aid \<and> au_poll r = sha token) (authorizations db)) (Msg ''authorisation over'')) (\<lambda>r.
     guardE (now db < au_expires r) (Msg ''authorisation over'')
     (if au_status r \<noteq> AuthApproved then Inr (None, db)
      else guardE (au_delivered r = None \<and> au_credential r \<noteq> None \<and> au_credential r \<noteq> Some []) (Msg ''credential already taken'')
        (Inr (Some (case au_device r of None \<Rightarrow> [] | Some dev \<Rightarrow> dev, case au_credential r of None \<Rightarrow> [] | Some c \<Rightarrow> c),
          db\<lparr>authorizations := update (\<lambda>x. au_id x = aid)
              (\<lambda>x. x\<lparr>au_delivered := Some (now db), au_credential := None\<rparr>) (authorizations db)\<rparr>))))"

section \<open>Connecting\<close>

record hello =
  h_device :: id
  h_credential :: string
  h_token :: string
  h_key :: string
  h_protocol :: bool

text \<open>\<open>connect\<close> up to the session: who may hold a tunnel, and for which device. The answer to the
  challenge is checked with the key registered for the device; an enrollment is committed before it.\<close>

definition connect ::
  "(string \<Rightarrow> string) \<Rightarrow> (string \<Rightarrow> bool) \<Rightarrow> (string \<Rightarrow> bool) \<Rightarrow> binding \<Rightarrow> hello \<Rightarrow> db \<Rightarrow> (error + id) \<times> db" where
  "connect sha keyOk proves b h db =
     (if \<not> h_protocol h then (Inl (Msg ''protocol''), db)
      else if h_device h = [] \<and> h_token h \<noteq> [] then
        (case enroll sha keyOk b (h_token h) (h_key h) db of
           Inl e \<Rightarrow> (Inl e, db)
         | Inr ((dev, cred, owner), d) \<Rightarrow> (if proves (h_key h) then Inr dev else Inl (Msg ''proof''), d))
      else if h_token h = [] then
        (case select (\<lambda>x. dv_id x = h_device h \<and> dv_credential x = sha (h_credential h)) (devices db) of
           None \<Rightarrow> (Inl ErrNoRows, db)
         | Some x \<Rightarrow>
             if dv_status x \<noteq> DeviceEnabled \<or> dv_rebind x then (Inl (Msg ''credential invalid''), db)
             else (if proves (dv_key x) then Inr (dv_id x) else Inl (Msg ''proof''), db))
      else (Inl (Msg ''credential invalid''), db))"

section \<open>Heartbeats\<close>

record report =
  hb_parses :: bool
  hb_cpu :: rat
  hb_mem :: int
  hb_ready :: "bool option"
  hb_inventory :: "bool option"
  hb_issues :: "(string \<times> string) list"
  hb_api :: int
  hb_capabilities :: "string list"
  hb_instances :: "(string \<times> string) list"

text \<open>CPU columns are \<open>DECIMAL(8,2)\<close>: what is stored is rounded to hundredths.\<close>

definition round2 :: "rat \<Rightarrow> rat" where
  "round2 x = of_int \<lfloor>x * 100 + 1 / 2\<rfloor> / 100"

text \<open>A new event only when the summary of the node differs from its last one.\<close>

definition recordSelfHostedReadinessEvent :: "id \<Rightarrow> bool \<Rightarrow> string \<Rightarrow> string \<Rightarrow> db \<Rightarrow> db" where
  "recordSelfHostedReadinessEvent dev ready code message db =
     (case select (\<lambda>n. n_device n = Some dev \<and> n_kind n = SelfHosted) (nodes db) of
        None \<Rightarrow> db
      | Some n \<Rightarrow>
          let e = \<lparr>re_node = n_id n, re_ready = ready, re_code = code, re_message = message\<rparr>
          in if select (\<lambda>x. re_node x = n_id n) (rev (readinessEvents db)) = Some e then db
             else db\<lparr>readinessEvents := readinessEvents db @ [e]\<rparr>)"

definition incompleteRow :: "node \<Rightarrow> node" where
  "incompleteRow n = n\<lparr>n_ready := False, n_issues := [(''runtime_status_incomplete'', ''upgrade the agent'')],
     n_lastError := Some ''incomplete report''\<rparr>"

text \<open>The readiness the report stands for: an Agent that does not say is not ready.\<close>

definition reportIssues :: "report \<Rightarrow> (string \<times> string) list" where
  "reportIssues r = (if hb_ready r = None then hb_issues r @ [(''runtime_readiness_not_reported'', ''upgrade the agent'')] else hb_issues r)"

definition reportReady :: "report \<Rightarrow> bool" where
  "reportReady r \<longleftrightarrow> hb_ready r = Some True"

definition reportProblem :: "report \<Rightarrow> string" where
  "reportProblem r = (if \<not> reportReady r \<and> reportIssues r \<noteq> [] then snd (hd (reportIssues r)) else [])"

definition reportedRow :: "gotime \<Rightarrow> report \<Rightarrow> node \<Rightarrow> node" where
  "reportedRow t r n = n\<lparr>n_cpuDetected := round2 (hb_cpu r), n_memDetected := hb_mem r, n_cpuTotal := round2 (hb_cpu r), n_memTotal := hb_mem r,
     n_cpuQuota := (if n_autoQuota n \<or> n_cpuQuota n \<le> 0 then round2 (hb_cpu r * 8 / 10) else n_cpuQuota n),
     n_memQuota := (if n_autoQuota n \<or> n_memQuota n \<le> 0 then \<lfloor>of_int (hb_mem r) * 8 / (10 :: rat)\<rfloor> else n_memQuota n),
     n_apiVersion := hb_api r, n_capabilities := hb_capabilities r, n_ready := reportReady r, n_issues := reportIssues r,
     n_lastError := (if reportReady r then None else Some (reportProblem r)), n_heartbeat := Some t\<rparr>"

definition deviceBeat :: "id \<Rightarrow> db \<Rightarrow> db" where
  "deviceBeat dev db = db\<lparr>devices := update (\<lambda>x. dv_id x = dev) (\<lambda>x. x\<lparr>dv_heartbeat := Some (now db)\<rparr>) (devices db)\<rparr>"

text \<open>Instances of the device: joined with their node.\<close>

definition onDevice :: "id \<Rightarrow> db \<Rightarrow> inst \<Rightarrow> bool" where
  "onDevice dev db i \<longleftrightarrow> i_selfhosted i \<and> i_status i \<in> {Running, Stopped, DestroyScheduled} \<and>
     list_ex (\<lambda>n. i_node i = Some (n_id n) \<and> n_device n = Some dev) (nodes db)"

definition observeInstances :: "id \<Rightarrow> (string \<times> string) list \<Rightarrow> db \<Rightarrow> db" where
  "observeInstances dev items db =
     fold (\<lambda>(route, st) d. d\<lparr>instances := update (\<lambda>i. i_route i = route \<and> onDevice dev d i)
             (\<lambda>i. i\<lparr>i_runtime := Some (if st = ''running'' then Running else Stopped)\<rparr>) (instances d)\<rparr>)
       items (db\<lparr>instances := update (\<lambda>i. onDevice dev db i \<and> i_runtime i \<noteq> Some Missing)
                 (\<lambda>i. i\<lparr>i_runtime := Some UnknownRuntime\<rparr>) (instances db)\<rparr>)"

text \<open>\<open>updated_at\<close> makes every row the \<open>UPDATE\<close> of a node matches a changed one.\<close>

definition updateSelfHostedHeartbeat :: "id \<Rightarrow> report \<Rightarrow> db \<Rightarrow> db" where
  "updateSelfHostedHeartbeat dev r db =
     (let p = (\<lambda>n. n_device n = Some dev \<and> n_kind n = SelfHosted);
          bound = countRows p (nodes db) \<noteq> 0
      in if \<not> hb_parses r \<or> hb_cpu r \<le> 0 \<or> hb_mem r \<le> 0 then
           let d = db\<lparr>nodes := update p incompleteRow (nodes db)\<rparr>
           in deviceBeat dev (if bound then recordSelfHostedReadinessEvent dev False ''runtime_status_incomplete'' ''upgrade the agent'' d else d)
         else
           let d = db\<lparr>nodes := update p (reportedRow (now db) r) (nodes db)\<rparr>;
               code = (if reportIssues r = [] then [] else fst (hd (reportIssues r)));
               d1 = deviceBeat dev (if bound then recordSelfHostedReadinessEvent dev (reportReady r) code (reportProblem r) d else d)
           in if hb_inventory r = Some True then observeInstances dev (hb_instances r) d1 else d1)"

section \<open>Owned nodes\<close>

definition ownNode :: "id \<Rightarrow> id \<Rightarrow> db \<Rightarrow> error + node" where
  "ownNode user nid db =
     orElse (select (\<lambda>n. n_id n = nid \<and> n_kind n = SelfHosted \<and> n_owner n = Some user \<and> n_enabled n) (nodes db)) (Msg ''no such node'')"

definition hostedOn :: "id \<Rightarrow> inst \<Rightarrow> bool" where
  "hostedOn nid i \<longleftrightarrow> i_node i = Some nid \<and> i_selfhosted i \<and> i_status i \<in> {Deploying, Running, Stopped, DestroyScheduled}"

definition hostedCpu :: "id \<Rightarrow> db \<Rightarrow> rat" where
  "hostedCpu nid db = sumRows (hostedOn nid) i_cpu (instances db)"

definition hostedMem :: "id \<Rightarrow> db \<Rightarrow> int" where
  "hostedMem nid db = sumRows (hostedOn nid) i_memory (instances db)"

definition updateSelfHostedNode :: "id \<Rightarrow> id \<Rightarrow> string \<Rightarrow> db \<Rightarrow> error + db" where
  "updateSelfHostedNode user nid name db =
     bindE (ownNode user nid db) (\<lambda>n.
       let nm = trimSpace name
       in guardE (nm \<noteq> [] \<and> length nm \<le> 96) (Msg ''bad node name'')
          (Inr (writeAudit user ''selfhosted_node.rename'' (n_id n)
            (db\<lparr>nodes := update (\<lambda>x. n_id x = n_id n \<and> n_owner x = Some user \<and> n_kind x = SelfHosted \<and> n_enabled x)
                (\<lambda>x. x\<lparr>n_name := nm\<rparr>) (nodes db)\<rparr>))))"

text \<open>The handler reads and checks, then writes: two statements without a transaction.\<close>

definition checkQuota :: "id \<Rightarrow> id \<Rightarrow> rat \<Rightarrow> int \<Rightarrow> db \<Rightarrow> error + node" where
  "checkQuota user nid cpu mem db =
     bindE (ownNode user nid db) (\<lambda>n.
       guardE (0 < cpu \<and> 0 < mem) (Msg ''bad quota'')
       (guardE (0 < n_cpuDetected n \<and> 0 < n_memDetected n) (Msg ''wait for the heartbeat'')
       (guardE (cpu \<le> n_cpuDetected n \<and> mem \<le> n_memDetected n) (Msg ''quota above the resources'')
       (guardE (hostedCpu (n_id n) db \<le> cpu \<and> hostedMem (n_id n) db \<le> mem) (Msg ''quota below what is allocated'') (Inr n)))))"

definition storeQuota :: "id \<Rightarrow> id \<Rightarrow> rat \<Rightarrow> int \<Rightarrow> db \<Rightarrow> db" where
  "storeQuota user nid cpu mem db = writeAudit user ''selfhosted_node.quota.update'' nid
     (db\<lparr>nodes := update (\<lambda>x. n_id x = nid) (\<lambda>x. x\<lparr>n_cpuQuota := round2 cpu, n_memQuota := mem, n_autoQuota := False\<rparr>) (nodes db)\<rparr>)"

definition updateSelfHostedNodeQuota :: "id \<Rightarrow> id \<Rightarrow> rat \<Rightarrow> int \<Rightarrow> db \<Rightarrow> error + db" where
  "updateSelfHostedNodeQuota user nid cpu mem db =
     bindE (checkQuota user nid cpu mem db) (\<lambda>n. Inr (storeQuota user (n_id n) cpu mem db))"

record hostRequest =
  hr_name :: string
  hr_image :: id
  hr_version :: string
  hr_cpu :: rat
  hr_mem :: int

definition hostedRow :: "(string \<Rightarrow> string) \<Rightarrow> id \<Rightarrow> id \<Rightarrow> id \<Rightarrow> string \<Rightarrow> string option \<Rightarrow> hostRequest \<Rightarrow> gotime \<Rightarrow> inst" where
  "hostedRow sha iid user nid ref digest b t =
     (let route = routeKey sha (user @ CHR 0x00 # iid)
      in blankInst\<lparr>i_id := iid, i_owner := user, i_image := ref, i_version := hr_version b, i_digest := digest,
           i_status := Deploying, i_runtime := Some Running, i_container := ''xcloud-'' @ route, i_cpu := round2 (hr_cpu b),
           i_memory := hr_mem b, i_node := Some nid, i_route := route, i_createdAt := t, i_selfhosted := True\<rparr>)"

definition releaseOf :: "id \<Rightarrow> string \<Rightarrow> db \<Rightarrow> (catalogImage \<times> imageVersion) option" where
  "releaseOf img tag db = select (\<lambda>(g, v). v_image v = g_id g \<and> g_id g = img \<and> g_enabled g \<and> v_tag v = tag \<and> v_enabled v \<and> v_status v = ''ready'')
     (List.product (images db) (imageVersions db))"

definition createSelfHostedInstance ::
  "(string \<Rightarrow> string) \<Rightarrow> duration \<Rightarrow> id \<Rightarrow> id \<Rightarrow> id \<Rightarrow> id \<Rightarrow> hostRequest \<Rightarrow> db \<Rightarrow> error + controlTask \<times> db" where
  "createSelfHostedInstance sha ttl iid tid user nid b db =
     bindE (ownNode user nid db) (\<lambda>n.
     guardE (someAnd (\<lambda>h. time_sub (now db) h \<le> ttl) (n_heartbeat n)) (Msg ''node offline'')
     (guardE (n_ready n) (Msg ''node not ready'')
     (guardE (trimSpace (hr_name b) \<noteq> [] \<and> 0 < hr_cpu b \<and> 0 < hr_mem b \<and> validImageTag (hr_version b)) (Msg ''bad parameters'')
     (bindE (orElse (releaseOf (hr_image b) (hr_version b) db) (Msg ''image not available'')) (\<lambda>(g, v).
      guardE (\<not> (hostedCpu (n_id n) db + hr_cpu b > n_cpuQuota n \<or> hostedMem (n_id n) db + hr_mem b > n_memQuota n)) (Msg ''no room'')
      (bindE (insertInst (hostedRow sha iid user (n_id n) (g_ref g) (nullable (v_digest v)) b (now db)) db) (\<lambda>d.
       let task = (newTask tid iid Create (SelfHostedKey iid) (now db) (now db))\<lparr>t_payload := SelfHostedPayload\<rparr>
       in bindE (insertTask task d) (\<lambda>d.
          Inr (task, appendTaskEvent tid ''queued'' (writeAudit user ''selfhosted_instance.create'' iid d))))))))))"

section \<open>Revocation\<close>

record revocation =
  rv_device :: id
  rv_node :: id
  rv_cancelled :: "id list"
  rv_isolated :: "id list"

definition boundNode :: "id \<Rightarrow> id \<Rightarrow> db \<Rightarrow> node \<Rightarrow> bool" where
  "boundNode owner nid db n \<longleftrightarrow> (nid = [] \<or> n_id n = nid) \<and> n_owner n = Some owner \<and> n_kind n = SelfHosted \<and> n_enabled n \<and>
     list_ex (\<lambda>x. n_device n = Some (dv_id x) \<and> dv_status x = DeviceEnabled) (devices db)"

text \<open>The tasks of the owner's self-hosted instances on the node.\<close>

definition hostedTask :: "id \<Rightarrow> id \<Rightarrow> db \<Rightarrow> controlTask \<Rightarrow> bool" where
  "hostedTask owner nid db t \<longleftrightarrow> list_ex (\<lambda>i. i_id i = t_instance t \<and> i_owner i = owner \<and> i_selfhosted i \<and> i_node i = Some nid) (instances db)"

definition closedTask :: "tstatus \<Rightarrow> gotime \<Rightarrow> controlTask \<Rightarrow> controlTask" where
  "closedTask st t r = r\<lparr>t_status := st, t_finishedAt := Some t, t_claimedAt := None, t_heartbeat := None, t_claimExpires := None,
     t_worker := None, t_token := None, t_updatedAt := t,
     t_lastError := (if st = TaskCanceled then Some ''node revoked, task cancelled''
        else Some ((case t_lastError r of None \<Rightarrow> [] | Some e \<Rightarrow> e) @ ''node revoked, task isolated'')),
     t_agentState := (if st = TaskCanceled then t_agentState r else Some OpUnknown)\<rparr>"

definition revokeDevice :: "id \<Rightarrow> db \<Rightarrow> db" where
  "revokeDevice dev db = db\<lparr>devices := update (\<lambda>x. dv_id x = dev) (\<lambda>x. x\<lparr>dv_status := DeviceRevoked\<rparr>) (devices db),
     tunnelRoutes := update (\<lambda>r. tr_device r = dev) (\<lambda>r. r\<lparr>tr_status := RouteDisabled\<rparr>) (tunnelRoutes db)\<rparr>"

definition retires :: "id \<Rightarrow> node \<Rightarrow> bool" where
  "retires nid n \<longleftrightarrow> n_id n = nid \<and> n_kind n = SelfHosted \<and> n_enabled n"

definition retired :: "node \<Rightarrow> node" where
  "retired n = n\<lparr>n_enabled := False, n_ready := False, n_issues := [(''device_revoked'', ''bind the node again'')],
     n_lastError := Some ''node unbound''\<rparr>"

definition retireNode :: "id \<Rightarrow> db \<Rightarrow> db" where
  "retireNode nid db =
     (let d = db\<lparr>nodes := update (retires nid) retired (nodes db)\<rparr>
      in if countRows (retires nid) (nodes db) = 0 then d
         else d\<lparr>readinessEvents := readinessEvents d @
               [\<lparr>re_node = nid, re_ready = False, re_code = ''device_revoked'', re_message = ''node revoked''\<rparr>]\<rparr>)"

definition isolateTasks :: "id \<Rightarrow> id \<Rightarrow> db \<Rightarrow> (id list \<times> id list) \<times> db" where
  "isolateTasks owner nid db =
     (let hosted = list_ex (\<lambda>n. n_id n = nid \<and> n_kind n = SelfHosted) (nodes db);
          i1 = update (\<lambda>i. hosted \<and> i_owner i = owner \<and> hostedOn nid i) (\<lambda>i. i\<lparr>i_runtime := Some UnknownRuntime\<rparr>) (instances db);
          pend = (\<lambda>t. hosted \<and> hostedTask owner nid db t \<and> t_status t = TaskPending);
          run = (\<lambda>t. hostedTask owner nid db t \<and> t_status t = TaskRunning);
          cancelled = map t_id (filter pend (tasks db));
          isolated = map t_id (filter run (tasks db));
          ts = update run (closedTask TaskReview (now db)) (update pend (closedTask TaskCanceled (now db)) (tasks db));
          i2 = (if isolated = [] then i1
                else update (\<lambda>i. i_node i = Some nid) (\<lambda>i. i\<lparr>i_activeTask := None, i_activeToken := None, i_activeExpires := None\<rparr>) i1)
      in ((cancelled, isolated), db\<lparr>instances := i2, tasks := ts\<rparr>))"

text \<open>Which node, and which device: none for a node whose device an older release revoked alone.\<close>

definition revokeTarget :: "id \<Rightarrow> id \<Rightarrow> db \<Rightarrow> error + id \<times> id" where
  "revokeTarget owner nid db =
     guardE (nid \<noteq> [] \<or> countRows (\<lambda>n. n_owner n = Some owner \<and> n_kind n = SelfHosted \<and> n_enabled n) (nodes db) \<le> 1) (Msg ''choose a node'')
     (case select (boundNode owner nid db) (nodes db) of
        Some n \<Rightarrow> Inr (n_id n, case n_device n of None \<Rightarrow> [] | Some dev \<Rightarrow> dev)
      | None \<Rightarrow> if nid \<noteq> [] then Inl ErrNoRows
          else Inr (case select (\<lambda>n. n_owner n = Some owner \<and> n_kind n = SelfHosted \<and> n_enabled n) (nodes db) of
                      None \<Rightarrow> [] | Some n \<Rightarrow> n_id n, []))"

text \<open>The old form also withdraws the open tokens of the account.\<close>

definition withdrawTokens :: "id \<Rightarrow> id \<Rightarrow> db \<Rightarrow> db" where
  "withdrawTokens owner nid db =
     (if nid \<noteq> [] then db
      else db\<lparr>enrollTokens := update (\<lambda>r. et_owner r = owner \<and> et_used r = None \<and> et_revoked r = None)
             (\<lambda>r. r\<lparr>et_revoked := Some (now db)\<rparr>) (enrollTokens db)\<rparr>)"

definition unbind :: "id \<Rightarrow> id \<Rightarrow> id \<Rightarrow> id \<Rightarrow> db \<Rightarrow> db" where
  "unbind owner nid node dev db = retireNode node (withdrawTokens owner nid (if dev = [] then db else revokeDevice dev db))"

definition revokeSelfHostedDevice :: "id \<Rightarrow> string \<Rightarrow> db \<Rightarrow> error + revocation \<times> db" where
  "revokeSelfHostedDevice owner requested db =
     bindE (revokeTarget owner (trimSpace requested) db) (\<lambda>(node, dev).
       let x = isolateTasks owner node (unbind owner (trimSpace requested) node dev db)
       in Inr (\<lparr>rv_device = dev, rv_node = node, rv_cancelled = fst (fst x), rv_isolated = snd (fst x)\<rparr>,
               writeAudit owner ''control.device.revoke'' (if dev = [] then owner else dev) (snd x)))"

text \<open>The two handlers: the old one for the only node of an account, the new one for a chosen node.\<close>

definition controlDeviceRevoke :: "id \<Rightarrow> db \<Rightarrow> error + db" where
  "controlDeviceRevoke user db =
     bindE (revokeSelfHostedDevice user [] db) (\<lambda>(r, d).
       Inr (createNotification user ''control_device'' (rv_device r)
         (fold (\<lambda>t. appendTaskEvent t ''cancelled_by_node_revoke'') (rv_cancelled r) d)))"

definition controlSelfHostedNodeRevoke :: "id \<Rightarrow> string \<Rightarrow> db \<Rightarrow> error + db" where
  "controlSelfHostedNodeRevoke user nid db =
     bindE (revokeSelfHostedDevice user nid db) (\<lambda>(r, d).
       Inr (createNotification user ''control_device'' (rv_device r)
         (fold (\<lambda>t. appendTaskEvent t ''isolated_by_node_revoke'') (rv_isolated r)
           (fold (\<lambda>t. appendTaskEvent t ''cancelled_by_node_revoke'') (rv_cancelled r) d))))"

section \<open>Histories\<close>

datatype tunnelCall =
    TokenCreate id string id string
  | TokenRevoke id id
  | AuthCreate id string string string
  | AuthApprove binding id id string "string option" string
  | AuthPoll id string
  | Connect "string \<Rightarrow> bool" binding hello
  | Beat id report
  | Rename id id string
  | SetQuota id id rat int
  | CreateHosted id id id id hostRequest
  | RevokeOnly id
  | RevokeNode id string
  | Later nat

fun tunnelRun :: "(string \<Rightarrow> string) \<Rightarrow> (string \<Rightarrow> bool) \<Rightarrow> duration \<Rightarrow> tunnelCall \<Rightarrow> db \<Rightarrow> db" where
  "tunnelRun sha keyOk ttl (TokenCreate tid token user name) d = (case controlEnrollmentTokenCreate sha tid token user name d of Inl _ \<Rightarrow> d | Inr (_, d') \<Rightarrow> d')"
| "tunnelRun sha keyOk ttl (TokenRevoke user tid) d = (case controlEnrollmentTokenRevoke user tid d of Inl _ \<Rightarrow> d | Inr d' \<Rightarrow> d')"
| "tunnelRun sha keyOk ttl (AuthCreate aid poll name key) d = (case controlAuthorizationCreate sha aid poll name key d of Inl _ \<Rightarrow> d | Inr d' \<Rightarrow> d')"
| "tunnelRun sha keyOk ttl (AuthApprove b user aid token cookie form) d =
     (case controlAuthorizationApprove sha b user aid token cookie form d of Inl _ \<Rightarrow> d | Inr d' \<Rightarrow> d')"
| "tunnelRun sha keyOk ttl (AuthPoll aid token) d = (case controlAuthorizationPoll sha aid token d of Inl _ \<Rightarrow> d | Inr (_, d') \<Rightarrow> d')"
| "tunnelRun sha keyOk ttl (Connect proves b h) d = snd (connect sha keyOk proves b h d)"
| "tunnelRun sha keyOk ttl (Beat dev r) d = updateSelfHostedHeartbeat dev r d"
| "tunnelRun sha keyOk ttl (Rename user nid name) d = (case updateSelfHostedNode user nid name d of Inl _ \<Rightarrow> d | Inr d' \<Rightarrow> d')"
| "tunnelRun sha keyOk ttl (SetQuota user nid cpu mem) d = (case updateSelfHostedNodeQuota user nid cpu mem d of Inl _ \<Rightarrow> d | Inr d' \<Rightarrow> d')"
| "tunnelRun sha keyOk ttl (CreateHosted iid tid user nid b) d =
     (case createSelfHostedInstance sha ttl iid tid user nid b d of Inl _ \<Rightarrow> d | Inr (_, d') \<Rightarrow> d')"
| "tunnelRun sha keyOk ttl (RevokeOnly user) d = (case controlDeviceRevoke user d of Inl _ \<Rightarrow> d | Inr d' \<Rightarrow> d')"
| "tunnelRun sha keyOk ttl (RevokeNode user nid) d = (case controlSelfHostedNodeRevoke user nid d of Inl _ \<Rightarrow> d | Inr d' \<Rightarrow> d')"
| "tunnelRun sha keyOk ttl (Later n) d = d\<lparr>now := now d + int n\<rparr>"

end
