(* ===== verification/Fleet.thy ===== *)
theory Fleet
  imports SelfHosted
begin

text \<open>
  What every call of \<open>SelfHosted\<close> keeps, over any history: the identity of tokens, devices, nodes and
  authorisations, the ownership of nodes, the quotas their owners set. From it: tokens bind one device, a revocation is
  final, a credential is shown once.
\<close>

section \<open>What every call keeps\<close>

text \<open>A table grows: its rows stay, in their order, each changed only as \<open>R\<close> allows.\<close>

definition grown :: "('r \<Rightarrow> 'r \<Rightarrow> bool) \<Rightarrow> 'r list \<Rightarrow> 'r list \<Rightarrow> bool" where
  "grown R xs ys \<longleftrightarrow> (\<exists>zs us. ys = zs @ us \<and> list_all2 R xs zs)"

lemma grown_refl: "(\<And>x. R x x) \<Longrightarrow> grown R xs xs"
  unfolding grown_def by (intro exI [of _ xs] exI [of _ "[]"]) (simp add: list_all2_refl)

lemma grown_trans:
  assumes "grown R xs ys" "grown R ys zs" "\<And>x y z. R x y \<Longrightarrow> R y z \<Longrightarrow> R x z"
  shows "grown R xs zs"
proof -
  obtain ys1 us where y: "ys = ys1 @ us" "list_all2 R xs ys1" using assms(1) by (auto simp: grown_def)
  obtain zs1 vs where z: "zs = zs1 @ vs" "list_all2 R ys zs1" using assms(2) by (auto simp: grown_def)
  obtain a b where "zs1 = a @ b" "list_all2 R ys1 a" using z(2) unfolding y(1) list_all2_append1 by auto
  moreover have "list_all2 R xs a" using list_all2_trans [of R R R xs ys1 a] assms(3) y(2) \<open>list_all2 R ys1 a\<close> by blast
  ultimately show ?thesis using z(1) unfolding grown_def by (intro exI [of _ a] exI [of _ "b @ vs"]) simp
qed

lemma grown_append: "(\<And>x. R x x) \<Longrightarrow> grown R xs (xs @ us)"
  unfolding grown_def by (intro exI [of _ xs] exI [of _ us]) (simp add: list_all2_refl)

lemma grown_update: "(\<And>x. R x x) \<Longrightarrow> (\<And>x. p x \<Longrightarrow> R x (f x)) \<Longrightarrow> grown R xs (update p f xs)"
  unfolding grown_def by (intro exI [of _ "update p f xs"] exI [of _ "[]"]) (simp add: update_def list_all2_conv_all_nth)

lemma grown_row: "grown R xs ys \<Longrightarrow> x \<in> set xs \<Longrightarrow> \<exists>y \<in> set ys. R x y"
  unfolding grown_def by (auto simp: list_all2_conv_all_nth in_set_conv_nth) (metis nth_append nth_mem set_append UnCI)

text \<open>Tokens, devices, nodes and authorisations keep their identity; a spent token stays spent, a revoked
  device revoked, a disabled node disabled, a delivered credential gone.\<close>

definition tokenStep :: "enrollToken \<Rightarrow> enrollToken \<Rightarrow> bool" where
  "tokenStep r s \<longleftrightarrow> et_id s = et_id r \<and> et_hash s = et_hash r \<and> et_owner s = et_owner r \<and> et_expires s = et_expires r \<and>
     (et_used r \<noteq> None \<longrightarrow> et_used s \<noteq> None) \<and> (et_revoked r \<noteq> None \<longrightarrow> et_revoked s \<noteq> None)"

definition deviceStep :: "device \<Rightarrow> device \<Rightarrow> bool" where
  "deviceStep r s \<longleftrightarrow> dv_id s = dv_id r \<and> dv_owner s = dv_owner r \<and> dv_key s = dv_key r \<and> dv_credential s = dv_credential r \<and>
     (dv_status r = DeviceRevoked \<longrightarrow> dv_status s = DeviceRevoked)"

definition nodeStep :: "node \<Rightarrow> node \<Rightarrow> bool" where
  "nodeStep r s \<longleftrightarrow> n_id s = n_id r \<and> n_kind s = n_kind r \<and> n_device s = n_device r \<and> n_owner s = n_owner r \<and> (n_enabled s \<longrightarrow> n_enabled r)"

definition authStep :: "authorization \<Rightarrow> authorization \<Rightarrow> bool" where
  "authStep r s \<longleftrightarrow> au_id s = au_id r \<and> au_poll s = au_poll r \<and>
     (au_status r = AuthApproved \<and> au_delivered r \<noteq> None \<longrightarrow> au_status s = AuthApproved \<and> au_delivered s \<noteq> None)"

definition fleetStep :: "db \<Rightarrow> db \<Rightarrow> bool" where
  "fleetStep d d' \<longleftrightarrow> now d \<le> now d' \<and> grown tokenStep (enrollTokens d) (enrollTokens d') \<and> grown deviceStep (devices d) (devices d') \<and>
     grown nodeStep (nodes d) (nodes d') \<and> grown authStep (authorizations d) (authorizations d')"

lemma step_refl [simp]: "tokenStep r r" "deviceStep x x" "nodeStep n n" "authStep a a"
  by (simp_all add: tokenStep_def deviceStep_def nodeStep_def authStep_def)

lemma fleetStep_refl [simp]: "fleetStep d d"
  by (simp add: fleetStep_def grown_refl)

lemma fleetStep_trans: "fleetStep a b \<Longrightarrow> fleetStep b c \<Longrightarrow> fleetStep a c"
  unfolding fleetStep_def
  by (auto intro: grown_trans elim!: grown_trans simp: tokenStep_def deviceStep_def nodeStep_def authStep_def)

text \<open>Well-formed tables of the tunnel: keys are unique; a self-hosted node belongs to the owner of its
  device and is enabled only while the device is; no device has two nodes; every device has its route,
  disabled once the device is revoked.\<close>

definition nodeBound :: "device list \<Rightarrow> node \<Rightarrow> bool" where
  "nodeBound ds n \<longleftrightarrow> n_kind n = SelfHosted \<longrightarrow>
     (\<exists>x \<in> set ds. n_device n = Some (dv_id x) \<and> n_owner n = Some (dv_owner x) \<and> (n_enabled n \<longrightarrow> dv_status x = DeviceEnabled))"

definition routed :: "tunnelRoute list \<Rightarrow> device \<Rightarrow> bool" where
  "routed rs x \<longleftrightarrow> (\<exists>r \<in> set rs. tr_device r = dv_id x \<and> tr_owner r = dv_owner x \<and> (dv_status x = DeviceRevoked \<longrightarrow> tr_status r = RouteDisabled))"

definition oneNode :: "node list \<Rightarrow> bool" where
  "oneNode ns \<longleftrightarrow> (\<forall>n \<in> set ns. \<forall>m \<in> set ns. n_device n \<noteq> None \<and> n_device n = n_device m \<longrightarrow> n_id n = n_id m)"

definition fleetOk :: "db \<Rightarrow> bool" where
  "fleetOk d \<longleftrightarrow> distinct (map et_hash (enrollTokens d)) \<and> distinct (map dv_id (devices d)) \<and> distinct (map n_id (nodes d)) \<and>
     distinct (map au_id (authorizations d)) \<and> (\<forall>n \<in> set (nodes d). nodeBound (devices d) n) \<and>
     (\<forall>x \<in> set (devices d). routed (tunnelRoutes d) x) \<and>
     oneNode (nodes d)"

lemma log_fleet [simp]:
  "enrollTokens (writeAudit a b c d) = enrollTokens d" "devices (writeAudit a b c d) = devices d"
  "authorizations (writeAudit a b c d) = authorizations d" "tunnelRoutes (writeAudit a b c d) = tunnelRoutes d"
  "enrollTokens (createNotification u v w d) = enrollTokens d" "devices (createNotification u v w d) = devices d"
  "authorizations (createNotification u v w d) = authorizations d" "tunnelRoutes (createNotification u v w d) = tunnelRoutes d"
  "enrollTokens (appendTaskEvent x y d) = enrollTokens d" "devices (appendTaskEvent x y d) = devices d"
  "authorizations (appendTaskEvent x y d) = authorizations d" "tunnelRoutes (appendTaskEvent x y d) = tunnelRoutes d"
  by (simp_all add: logdefs)

lemma events_fleet [simp]:
  "enrollTokens (fold (\<lambda>t. appendTaskEvent t e) ts d) = enrollTokens d" "devices (fold (\<lambda>t. appendTaskEvent t e) ts d) = devices d"
  "authorizations (fold (\<lambda>t. appendTaskEvent t e) ts d) = authorizations d" "nodes (fold (\<lambda>t. appendTaskEvent t e) ts d) = nodes d"
  "tunnelRoutes (fold (\<lambda>t. appendTaskEvent t e) ts d) = tunnelRoutes d" "now (fold (\<lambda>t. appendTaskEvent t e) ts d) = now d"
  "instances (fold (\<lambda>t. appendTaskEvent t e) ts d) = instances d" "tasks (fold (\<lambda>t. appendTaskEvent t e) ts d) = tasks d"
  by (induction ts arbitrary: d) simp_all

text \<open>The tables a call has to account for.\<close>

definition sameFleet :: "db \<Rightarrow> db \<Rightarrow> bool" where
  "sameFleet d d' \<longleftrightarrow> enrollTokens d' = enrollTokens d \<and> devices d' = devices d \<and> nodes d' = nodes d \<and>
     authorizations d' = authorizations d \<and> tunnelRoutes d' = tunnelRoutes d \<and> now d' = now d"

lemma sameFleet_keeps: "sameFleet d d' \<Longrightarrow> fleetOk d \<Longrightarrow> fleetStep d d' \<and> fleetOk d'"
  by (simp add: sameFleet_def fleetStep_def fleetOk_def grown_refl)

lemma oneNode_update:
  assumes o: "oneNode ns" and f: "\<And>n. n_device (f n) = n_device n" "\<And>n. n_id (f n) = n_id n"
  shows "oneNode (update p f ns)"
  unfolding oneNode_def
proof (intro ballI impI)
  fix n m assume "n \<in> set (update p f ns)" "m \<in> set (update p f ns)" and e: "n_device n \<noteq> None \<and> n_device n = n_device m"
  then obtain n0 m0 where z: "n0 \<in> set ns" "m0 \<in> set ns" "n = (if p n0 then f n0 else n0)" "m = (if p m0 then f m0 else m0)"
    by (auto simp only: in_update)
  then have "n_id n = n_id n0" "n_id m = n_id m0" "n_device n = n_device n0" "n_device m = n_device m0" using f by simp_all
  then show "n_id n = n_id m" using o e z(1,2) unfolding oneNode_def by metis
qed

lemma fleet_nodes:
  assumes "fleetOk d" "nodes d' = update p f (nodes d)" "enrollTokens d' = enrollTokens d" "devices d' = devices d"
    "authorizations d' = authorizations d" "tunnelRoutes d' = tunnelRoutes d" "now d' = now d"
    and f: "\<And>n. n_id (f n) = n_id n \<and> n_kind (f n) = n_kind n \<and> n_device (f n) = n_device n \<and> n_owner (f n) = n_owner n \<and> (n_enabled (f n) \<longrightarrow> n_enabled n)"
  shows "fleetStep d d' \<and> fleetOk d'"
proof
  show "fleetStep d d'" using assms by (auto simp: fleetStep_def grown_refl nodeStep_def intro!: grown_update)
  have "map n_id (update p f (nodes d)) = map n_id (nodes d)" by (rule map_update) (use f in blast)
  moreover have "\<forall>n \<in> set (update p f (nodes d)). nodeBound (devices d) n"
  proof
    fix n assume "n \<in> set (update p f (nodes d))"
    then obtain n0 where "n0 \<in> set (nodes d)" "n = (if p n0 then f n0 else n0)" by (auto simp only: in_update)
    then show "nodeBound (devices d) n" using assms(1) f [of n0] by (auto simp: fleetOk_def nodeBound_def)
  qed
  moreover have "oneNode (update p f (nodes d))" using assms(1) f by (intro oneNode_update) (simp_all add: fleetOk_def)
  ultimately show "fleetOk d'" using assms(1) unfolding fleetOk_def assms(2-7) by simp
qed

lemma oneNode_append: "oneNode ns \<Longrightarrow> n_device n \<notin> n_device ` set ns \<Longrightarrow> oneNode (ns @ [n])"
  unfolding oneNode_def by (auto simp: image_iff)

lemma bind_rows:
  "bindDevice sha b owner key name d = Inr d' \<Longrightarrow>
     d' = d\<lparr>devices := devices d @ [deviceRow sha b owner key], tunnelRoutes := tunnelRoutes d @ [routeRow sha b owner],
            nodes := nodes d @ [selfHostedRow (b_node b) name owner (b_device b)]\<rparr> \<and>
     b_device b \<notin> dv_id ` set (devices d) \<and> b_node b \<notin> n_id ` set (nodes d) \<and> Some (b_device b) \<notin> n_device ` set (nodes d)"
  by (auto simp: bindDevice_def insertDevice_def insertRoute_def insertNode_def deviceRow_def routeRow_def selfHostedRow_def
      bindE_Inr_iff split: if_splits)

lemmas boundRows = deviceRow_def routeRow_def selfHostedRow_def

lemma bind_fleet:
  assumes "fleetOk d" "bindDevice sha b owner key name d = Inr d'"
  shows "fleetStep d d' \<and> fleetOk d'"
proof -
  let ?x = "deviceRow sha b owner key" and ?r = "routeRow sha b owner" and ?n = "selfHostedRow (b_node b) name owner (b_device b)"
  have r: "d' = d\<lparr>devices := devices d @ [?x], tunnelRoutes := tunnelRoutes d @ [?r], nodes := nodes d @ [?n]\<rparr>"
    "b_device b \<notin> dv_id ` set (devices d)" "b_node b \<notin> n_id ` set (nodes d)" "Some (b_device b) \<notin> n_device ` set (nodes d)"
    using bind_rows [OF assms(2)] by auto
  have "nodeBound (devices d @ [?x]) m" if "nodeBound (devices d) m" for m using that by (auto simp: nodeBound_def)
  moreover have "nodeBound (devices d @ [?x]) ?n" by (simp add: nodeBound_def boundRows)
  moreover have "routed (tunnelRoutes d @ [?r]) y" if "routed (tunnelRoutes d) y" for y using that by (auto simp: routed_def)
  moreover have "routed (tunnelRoutes d @ [?r]) ?x" by (simp add: routed_def boundRows)
  moreover have "oneNode (nodes d @ [?n])" using assms(1) r by (intro oneNode_append) (simp_all add: fleetOk_def boundRows)
  moreover have "dv_id ?x = b_device b" "n_id ?n = b_node b" by (simp_all add: boundRows)
  ultimately have "fleetOk d'" using assms(1) r(2-4) unfolding fleetOk_def r(1) by simp
  then show ?thesis by (simp add: r(1) fleetStep_def grown_refl grown_append)
qed

lemma fleet_tokens:
  assumes "fleetOk d" "enrollTokens d' = update p f (enrollTokens d)" "nodes d' = nodes d" "devices d' = devices d"
    "authorizations d' = authorizations d" "tunnelRoutes d' = tunnelRoutes d" "now d' = now d"
    and f: "\<And>r. p r \<Longrightarrow> tokenStep r (f r)"
  shows "fleetStep d d' \<and> fleetOk d'"
proof
  show "fleetStep d d'" using assms by (simp add: fleetStep_def grown_refl grown_update)
  have "map et_hash (update p f t) = map et_hash t" for t using f by (induction t) (auto simp: tokenStep_def)
  then show "fleetOk d'" using assms by (simp add: fleetOk_def)
qed

lemma fleet_auths:
  assumes "fleetOk d" "authorizations d' = update p f (authorizations d)" "nodes d' = nodes d" "devices d' = devices d"
    "enrollTokens d' = enrollTokens d" "tunnelRoutes d' = tunnelRoutes d" "now d' = now d"
    and f: "\<And>r. p r \<Longrightarrow> authStep r (f r)"
  shows "fleetStep d d' \<and> fleetOk d'"
proof
  show "fleetStep d d'" using assms by (simp add: fleetStep_def grown_refl grown_update)
  have "map au_id (update p f t) = map au_id t" for t using f by (induction t) (auto simp: authStep_def)
  then show "fleetOk d'" using assms by (simp add: fleetOk_def)
qed

lemma fleet_trans: "fleetStep a b \<and> fleetOk b \<Longrightarrow> (fleetOk b \<Longrightarrow> fleetStep b c \<and> fleetOk c) \<Longrightarrow> fleetStep a c \<and> fleetOk c"
  using fleetStep_trans by blast

lemma enroll_rows:
  assumes "enroll sha keyOk b token key d = Inr (x, d')"
  shows "\<exists>r d1. r \<in> set (enrollTokens d) \<and> et_hash r = sha token \<and> et_used r = None \<and> et_revoked r = None \<and> now d < et_expires r \<and> keyOk key \<and>
    x = (b_device b, ''xctl_device_'' @ b_credential b, et_owner r) \<and>
    bindDevice sha (b\<lparr>b_credential := ''xctl_device_'' @ b_credential b\<rparr>) (et_owner r) key
      (if trimSpace (et_node r) = [] then ''self-hosted node'' else trimSpace (et_node r)) d = Inr d1 \<and>
    d' = d1\<lparr>enrollTokens := update (\<lambda>x. et_hash x = sha token) (\<lambda>x. x\<lparr>et_used := Some (now d), et_device := Some (b_device b)\<rparr>)
                (enrollTokens d1)\<rparr>"
  using assms by (auto simp: enroll_def Let_def resultE dest!: select_SomeD)

lemma enroll_fleet:
  assumes "fleetOk d" "enroll sha keyOk b token key d = Inr (x, d')"
  shows "fleetStep d d' \<and> fleetOk d'"
proof -
  obtain own nm d1 b' where b: "bindDevice sha b' own key nm d = Inr d1"
    and d': "d' = d1\<lparr>enrollTokens := update (\<lambda>x. et_hash x = sha token) (\<lambda>x. x\<lparr>et_used := Some (now d), et_device := Some (b_device b)\<rparr>)
                (enrollTokens d1)\<rparr>"
    using enroll_rows [OF assms(2)] by blast
  show ?thesis
  proof (rule fleet_trans [OF bind_fleet [OF assms(1) b]])
    assume "fleetOk d1"
    moreover have "enrollTokens d' = update (\<lambda>x. et_hash x = sha token) (\<lambda>x. x\<lparr>et_used := Some (now d), et_device := Some (b_device b)\<rparr>)
        (enrollTokens d1)" by (simp add: d')
    ultimately show "fleetStep d1 d' \<and> fleetOk d'" by (rule fleet_tokens) (auto simp: d' tokenStep_def)
  qed
qed

lemma connect_fleet: "fleetOk d \<Longrightarrow> fleetStep d (snd (connect sha keyOk proves b h d)) \<and> fleetOk (snd (connect sha keyOk proves b h d))"
  by (auto simp: connect_def split: sum.splits option.splits dest: enroll_fleet)

lemma approve_fleet:
  assumes "fleetOk d" "controlAuthorizationApprove sha b user aid token cookie form d = Inr d'"
  shows "fleetStep d d' \<and> fleetOk d'"
proof -
  obtain r :: authorization and d1 where b: "bindDevice sha b user (au_key r) (au_name r) d = Inr d1"
    and d': "authorizations d' = update (\<lambda>x. au_id x = aid)
             (\<lambda>x. x\<lparr>au_status := AuthApproved, au_owner := Some user, au_device := Some (b_device b),
                    au_credential := Some (b_credential b)\<rparr>) (authorizations d1)"
      "nodes d' = nodes d1" "devices d' = devices d1" "enrollTokens d' = enrollTokens d1" "tunnelRoutes d' = tunnelRoutes d1" "now d' = now d1"
    using assms(2) by (auto simp: controlAuthorizationApprove_def resultE)
  show ?thesis
  proof (rule fleet_trans [OF bind_fleet [OF assms(1) b]])
    assume "fleetOk d1"
    then show "fleetStep d1 d' \<and> fleetOk d'" by (rule fleet_auths [OF _ d']) (auto simp: authStep_def)
  qed
qed

lemma poll_fleet:
  assumes "fleetOk d" "controlAuthorizationPoll sha aid token d = Inr (x, d')"
  shows "fleetStep d d' \<and> fleetOk d'"
proof -
  have "d' = d \<or> d' = d\<lparr>authorizations := update (\<lambda>x. au_id x = aid) (\<lambda>x. x\<lparr>au_delivered := Some (now d), au_credential := None\<rparr>) (authorizations d)\<rparr>"
    using assms(2) by (auto simp: controlAuthorizationPoll_def resultE split: if_splits)
  then show ?thesis
  proof
    assume d': "d' = d\<lparr>authorizations := update (\<lambda>x. au_id x = aid) (\<lambda>x. x\<lparr>au_delivered := Some (now d), au_credential := None\<rparr>) (authorizations d)\<rparr>"
    have "authorizations d' = update (\<lambda>x. au_id x = aid) (\<lambda>x. x\<lparr>au_delivered := Some (now d), au_credential := None\<rparr>) (authorizations d)"
      by (simp add: d')
    then show ?thesis by (rule fleet_auths [OF assms(1)]) (auto simp: d' authStep_def)
  qed (use assms(1) in simp)
qed

lemma event_fleet: "sameFleet d (recordSelfHostedReadinessEvent dev b c m d)"
  by (simp add: recordSelfHostedReadinessEvent_def sameFleet_def Let_def split: option.split)

lemma observe_fleet: "sameFleet d (observeInstances dev items d)"
proof -
  have "sameFleet e (fold (\<lambda>(route, st) d. d\<lparr>instances := update (\<lambda>i. i_route i = route \<and> onDevice dev d i)
             (\<lambda>i. i\<lparr>i_runtime := Some (if st = ''running'' then Running else Stopped)\<rparr>) (instances d)\<rparr>) items e)" for e
    by (induction items arbitrary: e) (auto simp: sameFleet_def)
  then show ?thesis by (simp add: observeInstances_def sameFleet_def)
qed

lemma beat_fleet_device:
  assumes "fleetOk d"
  shows "fleetStep d (deviceBeat dev d) \<and> fleetOk (deviceBeat dev d)"
proof -
  let ?f = "\<lambda>x :: device. x\<lparr>dv_heartbeat := Some (now d)\<rparr>"
  have "map dv_id (update p ?f t) = map dv_id t" for p t by (rule map_update) simp
  moreover have "\<exists>y \<in> set (update p ?f ds). n_device n = Some (dv_id y) \<and> n_owner n = Some (dv_owner y) \<and> (n_enabled n \<longrightarrow> dv_status y = DeviceEnabled)"
    if "x \<in> set ds" "n_device n = Some (dv_id x)" "n_owner n = Some (dv_owner x)" "n_enabled n \<longrightarrow> dv_status x = DeviceEnabled" for p ds n x
    using that by (intro bexI [of _ "if p x then ?f x else x"]) (auto simp: in_update)
  then have "nodeBound ds n \<Longrightarrow> nodeBound (update p ?f ds) n" for p ds n unfolding nodeBound_def by blast
  moreover have k: "routed rs (?f x) = routed rs x" for rs x by (simp add: routed_def)
  have "\<forall>x \<in> set (update p ?f (devices d)). routed (tunnelRoutes d) x" for p
    using assms by (auto simp only: fleetOk_def in_update k split: if_split)
  ultimately have "fleetOk (deviceBeat dev d)" using assms unfolding fleetOk_def deviceBeat_def by simp
  moreover have "fleetStep d (deviceBeat dev d)"
    by (auto simp: fleetStep_def deviceBeat_def grown_refl deviceStep_def intro!: grown_update)
  ultimately show ?thesis by blast
qed

lemma beat_fleet:
  assumes "fleetOk d"
  shows "fleetStep d (updateSelfHostedHeartbeat dev r d) \<and> fleetOk (updateSelfHostedHeartbeat dev r d)"
proof -
  have row: "fleetStep d (d\<lparr>nodes := update p f (nodes d)\<rparr>) \<and> fleetOk (d\<lparr>nodes := update p f (nodes d)\<rparr>)"
    if "f = incompleteRow \<or> f = reportedRow t r" for p f t
    by (rule fleet_nodes [OF assms]) (use that in \<open>auto simp: incompleteRow_def reportedRow_def\<close>)
  have ev: "fleetStep d (recordSelfHostedReadinessEvent dev b c m e) \<and> fleetOk (recordSelfHostedReadinessEvent dev b c m e)"
    if "fleetStep d e \<and> fleetOk e" for b c m e
    by (rule fleet_trans [OF that]) (rule sameFleet_keeps [OF event_fleet])
  have dev: "fleetStep d (deviceBeat dev e) \<and> fleetOk (deviceBeat dev e)" if "fleetStep d e \<and> fleetOk e" for e
    by (rule fleet_trans [OF that]) (rule beat_fleet_device)
  have obs: "fleetStep d (observeInstances dev is e) \<and> fleetOk (observeInstances dev is e)" if "fleetStep d e \<and> fleetOk e" for "is" e
    by (rule fleet_trans [OF that]) (rule sameFleet_keeps [OF observe_fleet])
  have one: "fleetStep d (deviceBeat dev (if k then recordSelfHostedReadinessEvent dev b c m e else e)) \<and>
      fleetOk (deviceBeat dev (if k then recordSelfHostedReadinessEvent dev b c m e else e))"
    if "fleetStep d e \<and> fleetOk e" for k b c m e
    using dev [OF ev [OF that]] dev [OF that] by (cases k) simp_all
  have rows: "fleetStep d (d\<lparr>nodes := update p incompleteRow (nodes d)\<rparr>) \<and> fleetOk (d\<lparr>nodes := update p incompleteRow (nodes d)\<rparr>)"
    "fleetStep d (d\<lparr>nodes := update p (reportedRow t r) (nodes d)\<rparr>) \<and> fleetOk (d\<lparr>nodes := update p (reportedRow t r) (nodes d)\<rparr>)" for p t
    using row by blast+
  show ?thesis
  proof (cases "\<not> hb_parses r \<or> hb_cpu r \<le> 0 \<or> hb_mem r \<le> 0")
    case True
    then show ?thesis unfolding updateSelfHostedHeartbeat_def Let_def if_P [OF True] by (intro one rows)
  next
    case False
    show ?thesis
    proof (cases "hb_inventory r = Some True")
      case True
      show ?thesis unfolding updateSelfHostedHeartbeat_def Let_def if_not_P [OF False] if_P [OF True] by (rule obs one rows)+
    next
      case f: False
      show ?thesis unfolding updateSelfHostedHeartbeat_def Let_def if_not_P [OF False] if_not_P [OF f] by (rule one rows)+
    qed
  qed
qed

text \<open>What a revocation does to the tables, read off the code for both forms of the request.\<close>

lemma isolate_frame [simp]:
  "nodes (snd (isolateTasks o1 nid d)) = nodes d" "devices (snd (isolateTasks o1 nid d)) = devices d"
  "tunnelRoutes (snd (isolateTasks o1 nid d)) = tunnelRoutes d" "enrollTokens (snd (isolateTasks o1 nid d)) = enrollTokens d"
  "authorizations (snd (isolateTasks o1 nid d)) = authorizations d" "now (snd (isolateTasks o1 nid d)) = now d"
  by (simp_all add: isolateTasks_def Let_def)

lemma unbind_rows:
  "nodes (unbind o1 nid node dev d) = update (retires node) retired (nodes d)"
  "devices (unbind o1 nid node dev d) = (if dev = [] then devices d else update (\<lambda>x. dv_id x = dev) (\<lambda>x. x\<lparr>dv_status := DeviceRevoked\<rparr>) (devices d))"
  "tunnelRoutes (unbind o1 nid node dev d) = (if dev = [] then tunnelRoutes d
     else update (\<lambda>r. tr_device r = dev) (\<lambda>r. r\<lparr>tr_status := RouteDisabled\<rparr>) (tunnelRoutes d))"
  "authorizations (unbind o1 nid node dev d) = authorizations d" "now (unbind o1 nid node dev d) = now d"
  "instances (unbind o1 nid node dev d) = instances d" "tasks (unbind o1 nid node dev d) = tasks d"
  "enrollTokens (unbind o1 nid node dev d) = enrollTokens (withdrawTokens o1 nid d)"
  by (simp_all add: unbind_def retireNode_def withdrawTokens_def revokeDevice_def Let_def)

lemma withdraw_fleet: "fleetOk d \<Longrightarrow> fleetStep d (withdrawTokens o1 nid d) \<and> fleetOk (withdrawTokens o1 nid d)"
proof (cases "nid = []")
  case True
  assume d: "fleetOk d"
  have "enrollTokens (withdrawTokens o1 nid d) = update (\<lambda>r. et_owner r = o1 \<and> et_used r = None \<and> et_revoked r = None)
             (\<lambda>r. r\<lparr>et_revoked := Some (now d)\<rparr>) (enrollTokens d)" by (simp add: withdrawTokens_def True)
  then show ?thesis by (rule fleet_tokens [OF d]) (auto simp: withdrawTokens_def tokenStep_def)
qed (simp add: withdrawTokens_def)

lemma revoke_Inr:
  assumes "revokeSelfHostedDevice owner req d = Inr (r, d')"
  defines "e \<equiv> unbind owner (trimSpace req) (rv_node r) (rv_device r) d"
  shows "revokeTarget owner (trimSpace req) d = Inr (rv_node r, rv_device r)"
    "d' = writeAudit owner ''control.device.revoke'' (if rv_device r = [] then owner else rv_device r) (snd (isolateTasks owner (rv_node r) e))"
    "rv_cancelled r = fst (fst (isolateTasks owner (rv_node r) e))" "rv_isolated r = snd (fst (isolateTasks owner (rv_node r) e))"
  using assms(1) unfolding e_def by (auto simp: revokeSelfHostedDevice_def bindE_Inr_iff Let_def)

lemma target_cases:
  assumes "revokeTarget owner nid d = Inr (node, dev)"
  shows "(\<exists>n \<in> set (nodes d). boundNode owner nid d n \<and> n_id n = node \<and> n_device n = Some dev) \<or> dev = []"
proof (cases "select (boundNode owner nid d) (nodes d)")
  case (Some n)
  then have n: "n \<in> set (nodes d)" "boundNode owner nid d n" using select_SomeD [OF Some] by auto
  then obtain v where "n_device n = Some v" by (auto simp: boundNode_def list_ex_iff)
  then show ?thesis using assms n by (auto simp: revokeTarget_def guardE_Inr_iff Some)
qed (use assms in \<open>auto simp: revokeTarget_def guardE_Inr_iff split: if_splits\<close>)

lemma update_member: "r \<in> set t \<Longrightarrow> (if p r then f r else r) \<in> set (update p f t)"
  by (simp add: update_def)

lemma unbind_fleet:
  assumes d: "fleetOk d" and t: "revokeTarget owner nid d = Inr (node, dev)"
  shows "fleetStep d (unbind owner nid node dev d) \<and> fleetOk (unbind owner nid node dev d)"
proof (cases "dev = []")
  case True
  show ?thesis
  proof (rule fleet_trans [OF withdraw_fleet [OF d, of owner nid]])
    assume w: "fleetOk (withdrawTokens owner nid d)"
    have "nodes (unbind owner nid node dev d) = update (retires node) retired (nodes (withdrawTokens owner nid d))"
      by (simp add: unbind_rows withdrawTokens_def)
    then show "fleetStep (withdrawTokens owner nid d) (unbind owner nid node dev d) \<and> fleetOk (unbind owner nid node dev d)"
      by (rule fleet_nodes [OF w]) (simp_all add: True unbind_rows retired_def, simp_all add: withdrawTokens_def)
  qed
next
  case False
  then obtain n where n: "n \<in> set (nodes d)" "boundNode owner nid d n" "n_id n = node" "n_device n = Some dev"
    using target_cases [OF t] by blast
  let ?ds = "update (\<lambda>x. dv_id x = dev) (\<lambda>x. x\<lparr>dv_status := DeviceRevoked\<rparr>) (devices d)"
  let ?rs = "update (\<lambda>r. tr_device r = dev) (\<lambda>r. r\<lparr>tr_status := RouteDisabled\<rparr>) (tunnelRoutes d)"
  let ?ns = "update (retires node) retired (nodes d)"
  have step: "fleetStep d (unbind owner nid node dev d)"
    using withdraw_fleet [OF d, of owner nid] False
    by (auto simp: fleetStep_def unbind_rows deviceStep_def nodeStep_def retired_def grown_refl intro!: grown_update)
  have ids: "map dv_id ?ds = map dv_id (devices d)" "map n_id ?ns = map n_id (nodes d)"
    by (rule map_update, simp add: retired_def)+
  have bound: "nodeBound ?ds m" if m: "m \<in> set ?ns" for m
  proof -
    obtain m0 where m0: "m0 \<in> set (nodes d)" "m = (if retires node m0 then retired m0 else m0)" using m by (auto simp: in_update)
    show ?thesis unfolding nodeBound_def
    proof
      assume "n_kind m = SelfHosted"
      then have k: "n_kind m0 = SelfHosted" using m0 by (simp add: retired_def split: if_splits)
      obtain x where x: "x \<in> set (devices d)" "n_device m0 = Some (dv_id x)" "n_owner m0 = Some (dv_owner x)" "n_enabled m0 \<longrightarrow> dv_status x = DeviceEnabled"
        using d m0(1) k by (auto simp: fleetOk_def nodeBound_def)
      have en: "dv_id x \<noteq> dev" if "n_enabled m"
      proof
        assume "dv_id x = dev"
        then have "n_device m0 \<noteq> None \<and> n_device m0 = n_device n" using x(2) n(4) by simp
        moreover have "oneNode (nodes d)" using d by (simp add: fleetOk_def)
        ultimately have "n_id m0 = n_id n" using m0(1) n(1) unfolding oneNode_def by blast
        then show False using that m0 k n(3) by (auto simp: retires_def retired_def split: if_splits)
      qed
      have "n_device m = n_device m0" "n_owner m = n_owner m0" "n_enabled m \<longrightarrow> n_enabled m0" using m0 by (auto simp: retired_def)
      then show "\<exists>x \<in> set ?ds. n_device m = Some (dv_id x) \<and> n_owner m = Some (dv_owner x) \<and> (n_enabled m \<longrightarrow> dv_status x = DeviceEnabled)"
        using x en by (intro bexI [OF _ update_member [OF x(1)]]) auto
    qed
  qed
  have "routed ?rs x" if x: "x \<in> set ?ds" for x
  proof -
    obtain x0 where x0: "x0 \<in> set (devices d)" "x = (if dv_id x0 = dev then x0\<lparr>dv_status := DeviceRevoked\<rparr> else x0)" using x by (auto simp: in_update)
    obtain r where r: "r \<in> set (tunnelRoutes d)" "tr_device r = dv_id x0" "tr_owner r = dv_owner x0" "dv_status x0 = DeviceRevoked \<longrightarrow> tr_status r = RouteDisabled"
      using d x0(1) by (auto simp: fleetOk_def routed_def)
    then show ?thesis using x0 unfolding routed_def by (intro bexI [OF _ update_member [OF r(1)]]) auto
  qed
  moreover have "oneNode ?ns" using d by (intro oneNode_update) (simp_all add: fleetOk_def retired_def)
  ultimately have "fleetOk (unbind owner nid node dev d)"
    using withdraw_fleet [OF d, of owner nid] d False bound ids unfolding fleetOk_def unbind_rows by simp
  then show ?thesis using step by blast
qed

lemma isolate_same: "sameFleet d (snd (isolateTasks o1 nid d))"
  by (simp add: sameFleet_def)

lemma revoke_fleet:
  assumes "fleetOk d" "revokeSelfHostedDevice owner req d = Inr (r, d')"
  shows "fleetStep d d' \<and> fleetOk d'"
proof (rule fleet_trans [OF unbind_fleet [OF assms(1) revoke_Inr(1) [OF assms(2)]]])
  let ?u = "unbind owner (trimSpace req) (rv_node r) (rv_device r) d"
  assume "fleetOk ?u"
  moreover have "sameFleet ?u d'" unfolding revoke_Inr(2) [OF assms(2)] by (simp add: sameFleet_def)
  ultimately show "fleetStep ?u d' \<and> fleetOk d'" by (metis sameFleet_keeps)
qed

lemma run_fleet:
  assumes d: "fleetOk d"
  shows "fleetStep d (tunnelRun sha keyOk ttl c d) \<and> fleetOk (tunnelRun sha keyOk ttl c d)"
proof (cases c)
  case (TokenCreate tid token user name)
  have "fleetStep d d' \<and> fleetOk d'" if x: "controlEnrollmentTokenCreate sha tid token user name d = Inr (v, d')" for v d'
  proof -
    obtain r where "d' = writeAudit user ''control.enrollment_token.create'' tid (d\<lparr>enrollTokens := enrollTokens d @ [r]\<rparr>)"
      "et_hash r \<notin> et_hash ` set (enrollTokens d)"
      using x by (auto simp: controlEnrollmentTokenCreate_def insertEnrollToken_def Let_def resultE split: if_splits)
    then show ?thesis using d by (simp add: fleetStep_def fleetOk_def grown_refl grown_append)
  qed
  then show ?thesis using d by (auto simp: TokenCreate split: sum.split)
next
  case (TokenRevoke user tid)
  have "fleetStep d d' \<and> fleetOk d'" if x: "controlEnrollmentTokenRevoke user tid d = Inr d'" for d'
  proof -
    have "enrollTokens d' = update (\<lambda>r. et_id r = tid \<and> et_owner r = user \<and> et_used r = None \<and> et_revoked r = None)
       (\<lambda>r. r\<lparr>et_revoked := Some (now d)\<rparr>) (enrollTokens d)"
      using x by (auto simp: controlEnrollmentTokenRevoke_def Let_def resultE)
    then show ?thesis
      by (rule fleet_tokens [OF d]) (use x in \<open>auto simp: controlEnrollmentTokenRevoke_def Let_def resultE tokenStep_def\<close>)
  qed
  then show ?thesis using d by (auto simp: TokenRevoke split: sum.split)
next
  case (AuthCreate aid poll name key)
  then show ?thesis using d
    by (auto simp: controlAuthorizationCreate_def fleetStep_def fleetOk_def grown_refl grown_append guardE_def split: sum.split if_splits)
next
  case (AuthApprove b user aid token cookie form)
  then show ?thesis using d approve_fleet [OF d] by (auto split: sum.split)
next
  case (AuthPoll aid token)
  then show ?thesis using d poll_fleet [OF d] by (auto split: sum.split)
next
  case (Connect proves b h)
  then show ?thesis using connect_fleet [OF d] by simp
next
  case (Beat dev r)
  then show ?thesis using beat_fleet [OF d] by simp
next
  case (Rename user nid name)
  have "fleetStep d d' \<and> fleetOk d'" if x: "updateSelfHostedNode user nid name d = Inr d'" for d'
  proof -
    obtain p where p: "d' = writeAudit user ''selfhosted_node.rename'' (p :: id)
        (d\<lparr>nodes := update (\<lambda>x. n_id x = p \<and> n_owner x = Some user \<and> n_kind x = SelfHosted \<and> n_enabled x) (\<lambda>x. x\<lparr>n_name := trimSpace name\<rparr>) (nodes d)\<rparr>)"
      using x by (auto simp: updateSelfHostedNode_def Let_def resultE)
    show ?thesis by (rule fleet_nodes [OF d, where f = "\<lambda>x. x\<lparr>n_name := trimSpace name\<rparr>"]) (simp_all add: p)
  qed
  then show ?thesis using d by (auto simp: Rename split: sum.split)
next
  case (SetQuota user nid cpu mem)
  have "fleetStep d d' \<and> fleetOk d'" if x: "updateSelfHostedNodeQuota user nid cpu mem d = Inr d'" for d'
  proof -
    obtain p where p: "d' = writeAudit user ''selfhosted_node.quota.update'' (p :: id)
        (d\<lparr>nodes := update (\<lambda>x. n_id x = p) (\<lambda>x. x\<lparr>n_cpuQuota := round2 cpu, n_memQuota := mem, n_autoQuota := False\<rparr>) (nodes d)\<rparr>)"
      using x by (auto simp: updateSelfHostedNodeQuota_def checkQuota_def storeQuota_def resultE)
    show ?thesis
      by (rule fleet_nodes [OF d, where f = "\<lambda>x. x\<lparr>n_cpuQuota := round2 cpu, n_memQuota := mem, n_autoQuota := False\<rparr>"]) (simp_all add: p)
  qed
  then show ?thesis using d by (auto simp: SetQuota split: sum.split)
next
  case (CreateHosted iid tid user nid b)
  have "sameFleet d d'" if "createSelfHostedInstance sha ttl iid tid user nid b d = Inr (t, d')" for t d'
    using that by (auto simp: createSelfHostedInstance_def resultE insertE sameFleet_def Let_def split: prod.splits)
  then show ?thesis using d sameFleet_keeps by (auto simp: CreateHosted split: sum.split)
next
  case (RevokeOnly user)
  have "fleetStep d d' \<and> fleetOk d'" if z: "controlDeviceRevoke user d = Inr d'" for d'
  proof -
    obtain r e where re: "revokeSelfHostedDevice user [] d = Inr (r, e)" "sameFleet e d'"
      using z by (auto simp: controlDeviceRevoke_def resultE sameFleet_def)
    show ?thesis by (rule fleet_trans [OF revoke_fleet [OF d re(1)]]) (rule sameFleet_keeps [OF re(2)])
  qed
  then show ?thesis using d by (auto simp: RevokeOnly split: sum.split)
next
  case (RevokeNode user nid)
  have "fleetStep d d' \<and> fleetOk d'" if z: "controlSelfHostedNodeRevoke user nid d = Inr d'" for d'
  proof -
    obtain r e where re: "revokeSelfHostedDevice user nid d = Inr (r, e)" "sameFleet e d'"
      using z by (auto simp: controlSelfHostedNodeRevoke_def resultE sameFleet_def)
    show ?thesis by (rule fleet_trans [OF revoke_fleet [OF d re(1)]]) (rule sameFleet_keeps [OF re(2)])
  qed
  then show ?thesis using d by (auto simp: RevokeNode split: sum.split)
next
  case (Later n)
  then show ?thesis using d by (simp add: fleetStep_def fleetOk_def grown_refl)
qed

lemma runs_fleet:
  "fleetOk d \<Longrightarrow> fleetStep d (fold (tunnelRun sha keyOk ttl) cs d) \<and> fleetOk (fold (tunnelRun sha keyOk ttl) cs d)"
proof (induction cs arbitrary: d)
  case (Cons c cs)
  then show ?case using run_fleet [OF Cons.prems] fleetStep_trans by (metis fold_simps(2))
qed simp

section \<open>Quotas\<close>

text \<open>Hundredths, the values a \<open>DECIMAL(8,2)\<close> column can hold.\<close>

lemma round2_iff: "round2 x = x \<longleftrightarrow> (\<exists>k. x = of_int k / 100)"
proof
  assume "\<exists>k. x = of_int k / 100"
  then obtain k where k: "x = of_int k / 100" by blast
  have "\<lfloor>(of_int k :: rat) + 1 / 2\<rfloor> = k" by (simp add: floor_eq_iff)
  then show "round2 x = x" by (simp add: round2_def k)
qed (metis round2_def)

lemma round2_round2 [simp]: "round2 (round2 x) = round2 x"
  unfolding round2_iff by (auto simp: round2_def)

lemma round2_mono: "x \<le> y \<Longrightarrow> round2 x \<le> round2 y"
  unfolding round2_def by (intro divide_right_mono) (simp_all add: floor_mono)

lemma round2_diff: "round2 x = x \<Longrightarrow> round2 y = y \<Longrightarrow> round2 (x - y) = x - y"
  unfolding round2_iff by (metis diff_divide_distrib of_int_diff)

lemma round2_add: "round2 x = x \<Longrightarrow> round2 y = y \<Longrightarrow> round2 (x + y) = x + y"
  unfolding round2_iff by (metis add_divide_distrib of_int_add)

lemma round2_0 [simp]: "round2 0 = 0"
  unfolding round2_iff by (intro exI [of _ 0]) simp

lemma round2_sum: "(\<And>r. r \<in> set t \<Longrightarrow> round2 (f r) = f r) \<Longrightarrow> round2 (sumRows p f t) = sumRows p f t"
  by (induction t) (auto intro: round2_add)

text \<open>What the sums of a node depend on.\<close>

definition hostView :: "inst \<Rightarrow> id option \<times> bool \<times> istatus \<times> rat \<times> int" where
  "hostView i = (i_node i, i_selfhosted i, i_status i, i_cpu i, i_memory i)"

definition views :: "db \<Rightarrow> (id option \<times> bool \<times> istatus \<times> rat \<times> int) list" where
  "views d = map hostView (instances d)"

lemma views_sums:
  assumes "views d' = views d"
  shows "hostedCpu nid d' = hostedCpu nid d" "hostedMem nid d' = hostedMem nid d"
    "(\<forall>i \<in> set (instances d'). round2 (i_cpu i) = i_cpu i) = (\<forall>i \<in> set (instances d). round2 (i_cpu i) = i_cpu i)"
proof -
  let ?h = "\<lambda>(n, s, st, c, m). n = Some nid \<and> s \<and> st \<in> {Deploying, Running, Stopped, DestroyScheduled}"
  have t: "sumRows (hostedOn nid) i_cpu t = sumRows ?h (\<lambda>(n, s, st, c, m). c) (map hostView t)"
    "sumRows (hostedOn nid) i_memory t = sumRows ?h (\<lambda>(n, s, st, c, m). m) (map hostView t)" for t
    by (induction t) (auto simp: hostView_def hostedOn_def)
  have "hostedCpu nid e = sumRows ?h (\<lambda>(n, s, st, c, m). c) (views e)" "hostedMem nid e = sumRows ?h (\<lambda>(n, s, st, c, m). m) (views e)"
    "(\<forall>i \<in> set (instances e). round2 (i_cpu i) = i_cpu i) = (\<forall>v \<in> set (views e). round2 (fst (snd (snd (snd v)))) = fst (snd (snd (snd v))))" for e
    by (simp_all add: hostedCpu_def hostedMem_def views_def t hostView_def)
  then show "hostedCpu nid d' = hostedCpu nid d" "hostedMem nid d' = hostedMem nid d"
    "(\<forall>i \<in> set (instances d'). round2 (i_cpu i) = i_cpu i) = (\<forall>i \<in> set (instances d). round2 (i_cpu i) = i_cpu i)"
    using assms by simp_all
qed

lemma views_update: "(\<And>i. hostView (f i) = hostView i) \<Longrightarrow> map hostView (update p f t) = map hostView t"
  by (rule map_update)

text \<open>A quota its owner has set is never below what is allocated.\<close>

definition quotaRow :: "db \<Rightarrow> node \<Rightarrow> bool" where
  "quotaRow d n \<longleftrightarrow> n_kind n = SelfHosted \<longrightarrow> round2 (n_cpuQuota n) = n_cpuQuota n \<and>
     (\<not> n_autoQuota n \<longrightarrow> hostedCpu (n_id n) d \<le> n_cpuQuota n \<and> hostedMem (n_id n) d \<le> n_memQuota n)"

definition quotaOk :: "db \<Rightarrow> bool" where
  "quotaOk d \<longleftrightarrow> (\<forall>i \<in> set (instances d). round2 (i_cpu i) = i_cpu i) \<and> (\<forall>n \<in> set (nodes d). quotaRow d n)"

lemma quota_views:
  assumes "quotaOk d" "views d' = views d" and n: "\<And>n. n \<in> set (nodes d') \<Longrightarrow> (\<exists>m \<in> set (nodes d). quotaRow d m \<longrightarrow> quotaRow d n) \<or> quotaRow d n"
  shows "quotaOk d'"
proof -
  have "quotaRow d' n = quotaRow d n" for n by (simp add: quotaRow_def views_sums [OF assms(2)])
  then show ?thesis using assms views_sums(3) [OF assms(2)] unfolding quotaOk_def by blast
qed

lemma quota_same: "quotaOk d \<Longrightarrow> views d' = views d \<Longrightarrow> nodes d' = nodes d \<Longrightarrow> quotaOk d'"
  by (rule quota_views) (auto simp: quotaOk_def)

lemma quota_nodes:
  assumes "quotaOk d" "views d' = views d" "nodes d' = update p f (nodes d)" and f: "\<And>n. p n \<Longrightarrow> quotaRow d n \<Longrightarrow> quotaRow d (f n)"
  shows "quotaOk d'"
proof (rule quota_views [OF assms(1,2)])
  fix n assume "n \<in> set (nodes d')"
  then obtain m where m: "m \<in> set (nodes d)" "n = (if p m then f m else m)" by (auto simp: assms(3) in_update)
  then show "(\<exists>m \<in> set (nodes d). quotaRow d m \<longrightarrow> quotaRow d n) \<or> quotaRow d n" using f [of m] by auto
qed

lemma views_obs: "views (observeInstances dev items d) = views d"
proof -
  have "views (fold (\<lambda>(route, st) d. d\<lparr>instances := update (\<lambda>i. i_route i = route \<and> onDevice dev d i)
             (\<lambda>i. i\<lparr>i_runtime := Some (if st = ''running'' then Running else Stopped)\<rparr>) (instances d)\<rparr>) items e) = views e" for e
    by (induction items arbitrary: e) (auto simp: views_def views_update hostView_def)
  then show ?thesis by (simp add: observeInstances_def views_def views_update hostView_def)
qed

lemma views_isolate: "views (snd (isolateTasks o1 nid d)) = views d"
  by (simp add: isolateTasks_def Let_def views_def views_update hostView_def)

lemma reported_quota:
  assumes r: "0 < hb_cpu r" "0 < hb_mem r" and n: "quotaRow d n"
  shows "quotaRow d (reportedRow t r n)"
proof (cases "n_kind n = SelfHosted")
  case True
  have "0 \<le> round2 (hb_cpu r * 8 / 10)" using round2_mono [of 0 "hb_cpu r * 8 / 10"] r by simp
  moreover have "0 \<le> \<lfloor>of_int (hb_mem r) * 8 / (10 :: rat)\<rfloor>" using r by simp
  moreover have "\<not> n_autoQuota n \<Longrightarrow> hostedCpu (n_id n) d \<le> n_cpuQuota n \<and> hostedMem (n_id n) d \<le> n_memQuota n" "round2 (n_cpuQuota n) = n_cpuQuota n"
    using n True by (simp_all add: quotaRow_def)
  moreover have "n_autoQuota (reportedRow t r n) = n_autoQuota n" "n_id (reportedRow t r n) = n_id n"
    "n_cpuQuota (reportedRow t r n) = (if n_autoQuota n \<or> n_cpuQuota n \<le> 0 then round2 (hb_cpu r * 8 / 10) else n_cpuQuota n)"
    "n_memQuota (reportedRow t r n) = (if n_autoQuota n \<or> n_memQuota n \<le> 0 then \<lfloor>of_int (hb_mem r) * 8 / (10 :: rat)\<rfloor> else n_memQuota n)"
    by (simp_all add: reportedRow_def)
  ultimately show ?thesis unfolding quotaRow_def by (smt (verit) round2_round2 order_trans)
qed (simp add: quotaRow_def reportedRow_def)

lemma beat_quota:
  assumes "quotaOk d"
  shows "quotaOk (updateSelfHostedHeartbeat dev r d)"
proof -
  have ev: "quotaOk (recordSelfHostedReadinessEvent dev b c m e)" if "quotaOk e" for b c m e
    by (rule quota_same [OF that]) (simp_all add: recordSelfHostedReadinessEvent_def views_def Let_def split: option.split)
  have one: "quotaOk (deviceBeat dev (if k then recordSelfHostedReadinessEvent dev b c m e else e))" if "quotaOk e" for k b c m e
    by (rule quota_same [of "if k then recordSelfHostedReadinessEvent dev b c m e else e"]) (use ev [OF that] that in \<open>simp_all add: deviceBeat_def views_def\<close>)
  have obs: "quotaOk (observeInstances dev items e)" if "quotaOk e" for items e
    by (rule quota_same [OF that views_obs]) (use observe_fleet [of e dev items] in \<open>simp add: sameFleet_def\<close>)
  show ?thesis
  proof (cases "\<not> hb_parses r \<or> hb_cpu r \<le> 0 \<or> hb_mem r \<le> 0")
    case True
    have "quotaOk (d\<lparr>nodes := update p incompleteRow (nodes d)\<rparr>)" for p
      by (rule quota_nodes [OF assms, where p = p and f = incompleteRow]) (auto simp: views_def incompleteRow_def quotaRow_def)
    then show ?thesis unfolding updateSelfHostedHeartbeat_def Let_def if_P [OF True] by (rule one)
  next
    case False
    have row: "quotaOk (d\<lparr>nodes := update p (reportedRow t r) (nodes d)\<rparr>)" for p t
      by (rule quota_nodes [OF assms, where p = p and f = "reportedRow t r"]) (use False in \<open>auto simp: views_def intro: reported_quota\<close>)
    show ?thesis
    proof (cases "hb_inventory r = Some True")
      case True
      show ?thesis unfolding updateSelfHostedHeartbeat_def Let_def if_not_P [OF False] if_P [OF True] by (rule obs one row)+
    next
      case f: False
      show ?thesis unfolding updateSelfHostedHeartbeat_def Let_def if_not_P [OF False] if_not_P [OF f] by (rule one row)+
    qed
  qed
qed

lemma own_Inr: "ownNode user nid d = Inr n \<Longrightarrow> n \<in> set (nodes d) \<and> n_id n = nid \<and> n_kind n = SelfHosted \<and> n_owner n = Some user \<and> n_enabled n"
  unfolding ownNode_def orElse_Inr_iff by (drule select_SomeD) blast

lemma set_quota:
  assumes "quotaOk d" "updateSelfHostedNodeQuota user nid cpu mem d = Inr d'"
  shows "quotaOk d'"
proof -
  obtain n where n: "ownNode user nid d = Inr n" "hostedCpu (n_id n) d \<le> cpu" "hostedMem (n_id n) d \<le> mem"
    and d': "d' = writeAudit user ''selfhosted_node.quota.update'' (n_id n)
        (d\<lparr>nodes := update (\<lambda>x. n_id x = n_id n) (\<lambda>x. x\<lparr>n_cpuQuota := round2 cpu, n_memQuota := mem, n_autoQuota := False\<rparr>) (nodes d)\<rparr>)"
    using assms(2) by (auto simp: updateSelfHostedNodeQuota_def checkQuota_def storeQuota_def resultE)
  have "round2 (hostedCpu x d) = hostedCpu x d" for x
    using assms(1) by (auto simp: quotaOk_def hostedCpu_def intro: round2_sum)
  then have "hostedCpu (n_id n) d \<le> round2 cpu" using round2_mono [OF n(2)] by simp
  then show ?thesis
    by - (rule quota_nodes [OF assms(1), where p = "\<lambda>x. n_id x = n_id n"
          and f = "\<lambda>x. x\<lparr>n_cpuQuota := round2 cpu, n_memQuota := mem, n_autoQuota := False\<rparr>"],
      auto simp: d' views_def quotaRow_def n)
qed

lemma create_quota:
  assumes q: "quotaOk d" and f: "fleetOk d" and c: "createSelfHostedInstance sha ttl iid tid user nid b d = Inr (t, d')"
  shows "quotaOk d'"
proof -
  obtain n i where n: "ownNode user nid d = Inr n"
    and le: "hostedCpu (n_id n) d + hr_cpu b \<le> n_cpuQuota n" "hostedMem (n_id n) d + hr_mem b \<le> n_memQuota n"
    and i: "instances d' = instances d @ [i]" "i_node i = Some (n_id n)" "i_cpu i = round2 (hr_cpu b)" "i_memory i = hr_mem b" "hostedOn (n_id n) i"
    and d': "nodes d' = nodes d"
    using c by (auto simp: createSelfHostedInstance_def resultE insertE Let_def hostedRow_def hostedOn_def not_less split: prod.splits)
  have m: "n \<in> set (nodes d)" "n_kind n = SelfHosted" using own_Inr [OF n] by auto
  have sum: "round2 (hostedCpu x d) = hostedCpu x d" for x
    using q by (auto simp: quotaOk_def hostedCpu_def intro: round2_sum)
  have "round2 (n_cpuQuota n) = n_cpuQuota n" using q m by (auto simp: quotaOk_def quotaRow_def)
  then have "round2 (n_cpuQuota n - hostedCpu (n_id n) d) = n_cpuQuota n - hostedCpu (n_id n) d" using sum by (rule round2_diff)
  then have cpu: "hostedCpu (n_id n) d + round2 (hr_cpu b) \<le> n_cpuQuota n"
    using round2_mono [of "hr_cpu b" "n_cpuQuota n - hostedCpu (n_id n) d"] le(1) by linarith
  have sums: "hostedCpu x d' \<le> hostedCpu x d \<and> hostedMem x d' \<le> hostedMem x d" if "x \<noteq> n_id n" for x
    using that i by (simp add: hostedCpu_def hostedMem_def hostedOn_def)
  have own: "hostedCpu (n_id n) d' \<le> n_cpuQuota n \<and> hostedMem (n_id n) d' \<le> n_memQuota n"
    using cpu le i q m
    by (auto simp: hostedCpu_def hostedMem_def)
  have "quotaRow d' x" if x: "x \<in> set (nodes d')" for x
  proof (cases "n_id x = n_id n")
    case True
    then have "x = n" using f x m d' by (auto simp: fleetOk_def distinct_map inj_on_def)
    then show ?thesis using q m own by (auto simp: quotaOk_def quotaRow_def)
  next
    case False
    then show ?thesis using q x sums [OF False] unfolding d' quotaOk_def quotaRow_def by (meson order_trans)
  qed
  then show ?thesis using q i by (simp add: quotaOk_def)
qed

lemma bind_quota:
  assumes "quotaOk d" "bindDevice sha b owner key name d = Inr d'"
  shows "quotaOk d'"
  by (rule quota_views [OF assms(1)]) (use bind_rows [OF assms(2)] in \<open>auto simp: views_def quotaRow_def selfHostedRow_def\<close>)

lemma connect_quota:
  assumes "quotaOk d"
  shows "quotaOk (snd (connect sha keyOk proves b h d))"
proof -
  have "quotaOk d'" if e: "enroll sha keyOk b token key d = Inr (x, d')" for token key x d'
  proof -
    obtain b' own nm d1 where d1: "bindDevice sha b' own key nm d = Inr d1" "views d' = views d1" "nodes d' = nodes d1"
      using enroll_rows [OF e] by (auto simp: views_def)
    then show ?thesis using quota_same [OF bind_quota [OF assms d1(1)]] by blast
  qed
  then show ?thesis using assms by (auto simp: connect_def split: sum.splits option.splits)
qed

lemma revoke_quota:
  assumes "quotaOk d" "revokeSelfHostedDevice owner req d = Inr (r, d')"
  shows "quotaOk d'"
proof (rule quota_nodes [OF assms(1), where p = "retires (rv_node r)" and f = retired])
  show "views d' = views d" "nodes d' = update (retires (rv_node r)) retired (nodes d)"
    using views_isolate by (simp_all add: revoke_Inr(2) [OF assms(2)] views_def unbind_rows)
qed (simp add: quotaRow_def retired_def)

lemma views_fold: "views (fold (\<lambda>t. appendTaskEvent t e) ts d) = views d"
  by (simp add: views_def)

lemma run_quota:
  assumes d: "quotaOk d" and f: "fleetOk d"
  shows "quotaOk (tunnelRun sha keyOk ttl c d)"
proof (cases c)
  case (TokenCreate tid token user name)
  have "quotaOk d'" if x: "controlEnrollmentTokenCreate sha tid token user name d = Inr (v, d')" for v d'
    by (rule quota_same [OF d]) (use x in \<open>auto simp: controlEnrollmentTokenCreate_def insertEnrollToken_def Let_def resultE views_def split: if_splits\<close>)
  then show ?thesis using d by (auto simp: TokenCreate split: sum.split)
next
  case (TokenRevoke user tid)
  have "quotaOk d'" if x: "controlEnrollmentTokenRevoke user tid d = Inr d'" for d'
    by (rule quota_same [OF d]) (use x in \<open>auto simp: controlEnrollmentTokenRevoke_def Let_def resultE views_def\<close>)
  then show ?thesis using d by (auto simp: TokenRevoke split: sum.split)
next
  case (AuthCreate aid poll name key)
  have "quotaOk d'" if x: "controlAuthorizationCreate sha aid poll name key d = Inr d'" for d'
    by (rule quota_same [OF d]) (use x in \<open>auto simp: controlAuthorizationCreate_def resultE views_def split: if_splits\<close>)
  then show ?thesis using d by (auto simp: AuthCreate split: sum.split)
next
  case (AuthApprove b user aid token cookie form)
  have "quotaOk d'" if x: "controlAuthorizationApprove sha b user aid token cookie form d = Inr d'" for d'
  proof -
    obtain key name d1 where b: "bindDevice sha b user key name d = Inr d1" "views d' = views d1" "nodes d' = nodes d1"
      using x by (auto simp: controlAuthorizationApprove_def resultE views_def)
    then show ?thesis using quota_same [OF bind_quota [OF d b(1)]] by blast
  qed
  then show ?thesis using d by (auto simp: AuthApprove split: sum.split)
next
  case (AuthPoll aid token)
  have "quotaOk d'" if x: "controlAuthorizationPoll sha aid token d = Inr (v, d')" for v d'
    by (rule quota_same [OF d]) (use x in \<open>auto simp: controlAuthorizationPoll_def resultE views_def split: if_splits\<close>)
  then show ?thesis using d by (auto simp: AuthPoll split: sum.split)
next
  case (Connect proves b h)
  then show ?thesis using connect_quota [OF d] by simp
next
  case (Beat dev r)
  then show ?thesis using beat_quota [OF d] by simp
next
  case (Rename user nid name)
  have "quotaOk d'" if x: "updateSelfHostedNode user nid name d = Inr d'" for d'
  proof -
    obtain p where "nodes d' = update p (\<lambda>x. x\<lparr>n_name := trimSpace name\<rparr>) (nodes d)" "views d' = views d"
      using x by (auto simp: updateSelfHostedNode_def Let_def resultE views_def)
    then show ?thesis by (intro quota_nodes [OF d, where f = "\<lambda>x. x\<lparr>n_name := trimSpace name\<rparr>" and p = p]) (simp_all add: quotaRow_def)
  qed
  then show ?thesis using d by (auto simp: Rename split: sum.split)
next
  case (SetQuota user nid cpu mem)
  then show ?thesis using d set_quota [OF d] by (auto split: sum.split)
next
  case (CreateHosted iid tid user nid b)
  then show ?thesis using d create_quota [OF d f] by (auto split: sum.split)
next
  case (RevokeOnly user)
  have "quotaOk d'" if z: "controlDeviceRevoke user d = Inr d'" for d'
  proof -
    obtain r e where re: "revokeSelfHostedDevice user [] d = Inr (r, e)" "views d' = views e" "nodes d' = nodes e"
      using z by (auto simp: controlDeviceRevoke_def resultE views_def)
    then show ?thesis using quota_same [OF revoke_quota [OF d re(1)]] by blast
  qed
  then show ?thesis using d by (auto simp: RevokeOnly split: sum.split)
next
  case (RevokeNode user nid)
  have "quotaOk d'" if z: "controlSelfHostedNodeRevoke user nid d = Inr d'" for d'
  proof -
    obtain r e where re: "revokeSelfHostedDevice user nid d = Inr (r, e)" "views d' = views e" "nodes d' = nodes e"
      using z by (auto simp: controlSelfHostedNodeRevoke_def resultE views_def)
    then show ?thesis using quota_same [OF revoke_quota [OF d re(1)]] by blast
  qed
  then show ?thesis using d by (auto simp: RevokeNode split: sum.split)
next
  case (Later n)
  show ?thesis by (rule quota_same [OF d]) (simp_all add: Later views_def)
qed

lemma runs_quota: "quotaOk d \<Longrightarrow> fleetOk d \<Longrightarrow> quotaOk (fold (tunnelRun sha keyOk ttl) cs d)"
proof (induction cs arbitrary: d)
  case (Cons c cs)
  then show ?case using run_quota run_fleet by (metis fold_simps(2))
qed simp

section \<open>Ever after\<close>

lemma fleet_distinct: "fleetOk d \<Longrightarrow> distinct (map et_hash (enrollTokens d)) \<and> distinct (map dv_id (devices d)) \<and>
    distinct (map n_id (nodes d)) \<and> distinct (map au_id (authorizations d))"
  by (simp add: fleetOk_def)

lemma same_key: "distinct (map k t) \<Longrightarrow> x \<in> set t \<Longrightarrow> y \<in> set t \<Longrightarrow> k x = k y \<Longrightarrow> x = y"
  by (auto simp: distinct_map inj_on_def)

text \<open>A token that has left the state pending is refused from then on.\<close>

definition deadToken :: "gotime \<Rightarrow> enrollToken \<Rightarrow> bool" where
  "deadToken t r \<longleftrightarrow> tokenStatus t r \<noteq> ''pending''"

lemma dead_iff: "deadToken t r \<longleftrightarrow> et_used r \<noteq> None \<or> et_revoked r \<noteq> None \<or> et_expires r \<le> t"
  by (auto simp: deadToken_def tokenStatus_def)

lemma dead_token:
  assumes f: "fleetOk d" and r: "r \<in> set (enrollTokens d)" "et_hash r = sha token" "deadToken (now d) r"
  shows "\<exists>err. enroll sha keyOk b token key (fold (tunnelRun sha2 keyOk2 ttl) cs d) = Inl err"
proof -
  let ?e = "fold (tunnelRun sha2 keyOk2 ttl) cs d"
  have st: "fleetStep d ?e" "fleetOk ?e" using runs_fleet [OF f] by auto
  then obtain s where s: "s \<in> set (enrollTokens ?e)" "tokenStep r s"
    using grown_row [of tokenStep, OF _ r(1)] unfolding fleetStep_def by blast
  have dead: "deadToken (now ?e) s" using r(3) s(2) st(1) by (auto simp: dead_iff tokenStep_def fleetStep_def)
  have "False" if x: "enroll sha keyOk b token key ?e = Inr (v, d')" for v d'
  proof -
    obtain u where u: "u \<in> set (enrollTokens ?e)" "et_hash u = sha token" "\<not> deadToken (now ?e) u"
      using enroll_rows [OF x] by (auto simp: dead_iff)
    then show False using same_key [of et_hash _ u s] fleet_distinct [OF st(2)] s dead r(2) by (auto simp: tokenStep_def)
  qed
  then show ?thesis by (cases "enroll sha keyOk b token key ?e") auto
qed

lemma revoked_node:
  assumes f: "fleetOk d" and v: "revokeSelfHostedDevice owner req d = Inr (rv, d1)" "rv_device rv \<noteq> []"
  shows "\<exists>n \<in> set (nodes d). boundNode owner (trimSpace req) d n \<and> n_id n = rv_node rv \<and> n_device n = Some (rv_device rv)"
  using target_cases [OF revoke_Inr(1) [OF v(1)]] v(2) by blast

lemma revoked_rows:
  assumes f: "fleetOk d" and v: "revokeSelfHostedDevice owner req d = Inr (rv, d1)" "rv_device rv \<noteq> []"
  shows "\<exists>x \<in> set (devices d1). dv_id x = rv_device rv \<and> dv_status x = DeviceRevoked"
    "\<exists>n \<in> set (nodes d1). n_id n = rv_node rv \<and> \<not> n_enabled n"
proof -
  obtain n where n: "n \<in> set (nodes d)" "boundNode owner (trimSpace req) d n" "n_id n = rv_node rv" "n_device n = Some (rv_device rv)"
    using revoked_node [OF assms] by blast
  then obtain x where x: "x \<in> set (devices d)" "dv_id x = rv_device rv" by (auto simp: boundNode_def list_ex_iff)
  have d1: "devices d1 = update (\<lambda>x. dv_id x = rv_device rv) (\<lambda>x. x\<lparr>dv_status := DeviceRevoked\<rparr>) (devices d)"
    "nodes d1 = update (retires (rv_node rv)) retired (nodes d)"
    using v(2) by (simp_all add: revoke_Inr(2) [OF v(1)] unbind_rows)
  show "\<exists>x \<in> set (devices d1). dv_id x = rv_device rv \<and> dv_status x = DeviceRevoked"
    using update_member [OF x(1), where p = "\<lambda>x. dv_id x = rv_device rv" and f = "\<lambda>x. x\<lparr>dv_status := DeviceRevoked\<rparr>"] x(2)
    unfolding d1 by (auto intro!: bexI [of _ "x\<lparr>dv_status := DeviceRevoked\<rparr>"])
  have "retires (rv_node rv) n" using n by (simp add: retires_def boundNode_def)
  then show "\<exists>n \<in> set (nodes d1). n_id n = rv_node rv \<and> \<not> n_enabled n"
    using update_member [OF n(1), where p = "retires (rv_node rv)" and f = retired] n(3)
    unfolding d1 by (auto simp: retired_def intro!: bexI [of _ "retired n"])
qed

lemma revoked_later:
  assumes f: "fleetOk d" and v: "revokeSelfHostedDevice owner req d = Inr (rv, d1)" "rv_device rv \<noteq> []"
    and e: "e = fold (tunnelRun sha keyOk ttl) cs d1"
  shows "fleetOk e" "rv_device rv \<in> dv_id ` set (devices e)"
    "\<And>x. x \<in> set (devices e) \<Longrightarrow> dv_id x = rv_device rv \<Longrightarrow> dv_status x = DeviceRevoked"
    "\<And>n. n \<in> set (nodes e) \<Longrightarrow> n_id n = rv_node rv \<Longrightarrow> \<not> n_enabled n"
proof -
  have f1: "fleetOk d1" using revoke_fleet [OF f v(1)] by simp
  have st: "fleetStep d1 e" and fe: "fleetOk e" using runs_fleet [OF f1] by (auto simp: e)
  show "fleetOk e" by (rule fe)
  obtain x where x: "x \<in> set (devices d1)" "dv_id x = rv_device rv" "dv_status x = DeviceRevoked" using revoked_rows(1) [OF f v] by blast
  obtain y where y: "y \<in> set (devices e)" "deviceStep x y" using grown_row [of deviceStep _ _ x] st x(1) by (auto simp: fleetStep_def)
  then have yy: "dv_id y = rv_device rv" "dv_status y = DeviceRevoked" using x by (auto simp: deviceStep_def)
  then show "rv_device rv \<in> dv_id ` set (devices e)" using y(1) by force
  show "dv_status z = DeviceRevoked" if "z \<in> set (devices e)" "dv_id z = rv_device rv" for z
    using same_key [of dv_id _ z y] fleet_distinct [OF fe] that y(1) yy by auto
  obtain n where n: "n \<in> set (nodes d1)" "n_id n = rv_node rv" "\<not> n_enabled n" using revoked_rows(2) [OF f v] by blast
  obtain m where m: "m \<in> set (nodes e)" "nodeStep n m" using grown_row [of nodeStep _ _ n] st n(1) by (auto simp: fleetStep_def)
  then have mm: "n_id m = rv_node rv" "\<not> n_enabled m" using n by (auto simp: nodeStep_def)
  show "\<not> n_enabled k" if "k \<in> set (nodes e)" "n_id k = rv_node rv" for k
    using same_key [of n_id _ k m] fleet_distinct [OF fe] that m(1) mm by auto
qed

lemma enroll_spends:
  assumes "enroll sha keyOk b token key d = Inr (x, d')"
  shows "fst x \<notin> dv_id ` set (devices d) \<and> (\<exists>r \<in> set (enrollTokens d). et_hash r = sha token) \<and>
    enrollTokens d' = update (\<lambda>x. et_hash x = sha token) (\<lambda>x. x\<lparr>et_used := Some (now d), et_device := Some (b_device b)\<rparr>) (enrollTokens d)"
proof -
  obtain r d1 where r: "r \<in> set (enrollTokens d)" "et_hash r = sha token" "x = (b_device b, ''xctl_device_'' @ b_credential b, et_owner r)"
    "bindDevice sha (b\<lparr>b_credential := ''xctl_device_'' @ b_credential b\<rparr>) (et_owner r) key
      (if trimSpace (et_node r) = [] then ''self-hosted node'' else trimSpace (et_node r)) d = Inr d1"
    "d' = d1\<lparr>enrollTokens := update (\<lambda>x. et_hash x = sha token) (\<lambda>x. x\<lparr>et_used := Some (now d), et_device := Some (b_device b)\<rparr>)
                (enrollTokens d1)\<rparr>"
    using enroll_rows [OF assms] by blast
  show ?thesis using bind_rows [OF r(4)] r(1-3) unfolding r(5) by auto
qed

lemma spent_row:
  assumes "enroll sha keyOk b token key d = Inr (x, d')"
  shows "\<exists>r \<in> set (enrollTokens d'). et_hash r = sha token \<and> deadToken t r"
proof -
  obtain r where r: "r \<in> set (enrollTokens d)" "et_hash r = sha token" using enroll_spends [OF assms] by blast
  let ?f = "\<lambda>x :: enrollToken. x\<lparr>et_used := Some (now d), et_device := Some (b_device b)\<rparr>"
  have "?f r \<in> set (enrollTokens d')"
    using update_member [OF r(1), where p = "\<lambda>x. et_hash x = sha token" and f = ?f] r(2) enroll_spends [OF assms] by simp
  then show ?thesis using r(2) by (intro bexI [of _ "?f r"]) (simp_all add: dead_iff)
qed

lemma connect_enabled:
  assumes "fst (connect sha keyOk proves b h e) = Inr dev"
  shows "(\<exists>x \<in> set (devices e). dv_id x = dev \<and> dv_status x = DeviceEnabled) \<or> dev \<notin> dv_id ` set (devices e)"
proof (cases "h_device h = [] \<and> h_token h \<noteq> []")
  case True
  then obtain cred own d where "enroll sha keyOk b (h_token h) (h_key h) e = Inr ((dev, cred, own), d)"
    using assms by (auto simp: connect_def split: if_splits sum.splits)
  then show ?thesis using enroll_spends by force
next
  case False
  then obtain x where "select (\<lambda>x. dv_id x = h_device h \<and> dv_credential x = sha (h_credential h)) (devices e) = Some x"
    "dv_status x = DeviceEnabled" "dv_id x = dev"
    using assms by (auto simp: connect_def split: if_splits option.splits)
  then show ?thesis using select_SomeD by fast
qed

lemma fence_refused:
  assumes l: "lifecycleTask (t_action t)"
    and n: "\<forall>x \<in> set (tasks d). \<forall>i \<in> set (instances d). t_id x = t_id t \<and> i_id i = t_instance x \<longrightarrow> i_node i = Some nid"
    and off: "\<And>n. n \<in> set (nodes d) \<Longrightarrow> n_id n = nid \<Longrightarrow> \<not> n_enabled n"
  shows "\<exists>e. executeTask call fresh t d = (Some e, d)"
proof -
  have ex: "expectedStates (t_action t) \<noteq> []" using l by (cases "t_action t") auto
  have "filter (fenceRow t ex d) (List.product (tasks d) (List.product (instances d) (nodes d))) = []" for ex
    using n off by (auto simp: filter_empty_conv fenceRow_def leaseRow_def lockRow_def sqlEq_iff)
  then have "fenceCount t (expectedStates (t_action t)) d = 0" by (simp add: fenceCount_def countRows_def)
  then have "\<exists>e. taskMayCallAgent t (expectedStates (t_action t)) d = Inl e" using l by (simp add: taskMayCallAgent_def)
  then obtain e where e: "taskMayCallAgent t (expectedStates (t_action t)) d = Inl e" by blast
  show ?thesis by (cases "select (\<lambda>i. i_id i = t_instance t) (instances d)") (auto simp: executeTask_def ex e)
qed

definition ownership :: "db \<Rightarrow> (id \<times> id \<times> bool \<times> id option) list" where
  "ownership d = map (\<lambda>i. (i_id i, i_owner i, i_selfhosted i, i_node i)) (instances d)"

lemma hosted_rows:
  assumes "ownership d' = ownership d"
  shows "hostedTask owner nid d' t = hostedTask owner nid d t"
proof -
  have "hostedTask owner nid e t \<longleftrightarrow> (t_instance t, owner, True, Some nid) \<in> set (ownership e)" for e
    unfolding hostedTask_def list_ex_iff ownership_def set_map image_iff by force
  then show ?thesis by (simp only: assms)
qed

lemma hosted_same [simp]: "hostedTask owner nid (d\<lparr>tasks := ts\<rparr>) t = hostedTask owner nid d t"
  "hostedTask owner nid d (closedTask st z t) = hostedTask owner nid d t"
  by (simp_all add: hostedTask_def closedTask_def)

definition revokedTask :: "id \<Rightarrow> id \<Rightarrow> db \<Rightarrow> controlTask \<Rightarrow> controlTask" where
  "revokedTask owner nid d t =
     (if hostedTask owner nid d t \<and> t_status t = TaskPending then closedTask TaskCanceled (now d) t
      else if hostedTask owner nid d t \<and> t_status t = TaskRunning then closedTask TaskReview (now d) t else t)"

lemma isolate_exact:
  assumes h: "list_ex (\<lambda>n. n_id n = nid \<and> n_kind n = SelfHosted) (nodes d)" and r: "isolateTasks owner nid d = ((can, isol), d')"
  shows "tasks d' = map (revokedTask owner nid d) (tasks d) \<and>
    can = map t_id (filter (\<lambda>t. hostedTask owner nid d t \<and> t_status t = TaskPending) (tasks d)) \<and>
    isol = map t_id (filter (\<lambda>t. hostedTask owner nid d t \<and> t_status t = TaskRunning) (tasks d)) \<and>
    map i_status (instances d') = map i_status (instances d) \<and>
    ownership d' = ownership d \<and>
    (\<forall>i \<in> set (instances d'). i_owner i = owner \<and> hostedOn nid i \<longrightarrow> i_runtime i = Some UnknownRuntime) \<and>
    (isol \<noteq> [] \<longrightarrow> (\<forall>i \<in> set (instances d'). i_node i = Some nid \<longrightarrow> i_activeTask i = None \<and> i_activeToken i = None))"
proof -
  let ?f = "\<lambda>i. i\<lparr>i_runtime := Some UnknownRuntime\<rparr>"
  let ?g = "\<lambda>i. i\<lparr>i_activeTask := None, i_activeToken := None, i_activeExpires := None\<rparr>"
  let ?i1 = "update (\<lambda>i. i_owner i = owner \<and> hostedOn nid i) ?f (instances d)"
  have inst: "instances d' = (if isol = [] then ?i1 else update (\<lambda>i. i_node i = Some nid) ?g ?i1)"
    using r h by (cases "isol = []"; cases "filter (\<lambda>t. hostedTask owner nid d t \<and> t_status t = TaskRunning) (tasks d) = []")
      (auto simp del: filter_empty_conv simp: isolateTasks_def Let_def)
  have ts: "tasks d' = map (revokedTask owner nid d) (tasks d)"
  proof -
    have "tasks d' = update (\<lambda>t. hostedTask owner nid d t \<and> t_status t = TaskRunning) (closedTask TaskReview (now d))
        (update (\<lambda>t. hostedTask owner nid d t \<and> t_status t = TaskPending) (closedTask TaskCanceled (now d)) (tasks d))"
      using r h by (auto simp: isolateTasks_def Let_def)
    moreover have "t_status (closedTask TaskCanceled (now d) t) = TaskCanceled" for t by (simp add: closedTask_def)
    ultimately show ?thesis by (simp add: update_def revokedTask_def)
  qed
  have f: "map k (instances d') = map k (instances d)" if "\<And>i. k (?f i) = k i" "\<And>i. k (?g i) = k i" for k :: "inst \<Rightarrow> 'a"
    using that by (simp add: inst map_update)
  have g: "map i_status (instances d') = map i_status (instances d)"
    "ownership d' = ownership d"
    by (simp_all add: ownership_def inst map_update)
  have one: "i_runtime i = Some UnknownRuntime" if "i \<in> set ?i1" "i_owner i = owner" "hostedOn nid i" for i
  proof -
    have "\<exists>j. i = (if i_owner j = owner \<and> hostedOn nid j then ?f j else j)" using that(1) unfolding in_update by blast
    then obtain j where "i = (if i_owner j = owner \<and> hostedOn nid j then ?f j else j)" by blast
    then show ?thesis using that(2,3) by (simp split: if_splits)
  qed
  have row: "\<exists>j \<in> set ?i1. i = (if isol \<noteq> [] \<and> i_node j = Some nid then ?g j else j)" if "i \<in> set (instances d')" for i
    using that unfolding inst by (cases "isol = []") (simp_all add: in_update)
  have rt: "i_runtime i = Some UnknownRuntime" if m: "i \<in> set (instances d')" "i_owner i = owner" "hostedOn nid i" for i
  proof -
    obtain j where j: "j \<in> set ?i1" "i = (if isol \<noteq> [] \<and> i_node j = Some nid then ?g j else j)" using row [OF m(1)] by blast
    then have "i_owner j = i_owner i" "hostedOn nid j = hostedOn nid i" "i_runtime j = i_runtime i" by (simp_all add: hostedOn_def)
    then show ?thesis using one [OF j(1)] m(2,3) by simp
  qed
  have lk: "i_activeTask i = None \<and> i_activeToken i = None" if m: "isol \<noteq> []" "i \<in> set (instances d')" "i_node i = Some nid" for i
  proof -
    obtain j where "i = (if isol \<noteq> [] \<and> i_node j = Some nid then ?g j else j)" using row [OF m(2)] by blast
    then show ?thesis using m(1,3) by (simp split: if_splits)
  qed
  have "can = map t_id (filter (\<lambda>t. hostedTask owner nid d t \<and> t_status t = TaskPending) (tasks d))"
    "isol = map t_id (filter (\<lambda>t. hostedTask owner nid d t \<and> t_status t = TaskRunning) (tasks d))"
    using r h by (auto simp: isolateTasks_def Let_def)
  then show ?thesis using ts g rt lk by blast
qed

section \<open>Properties\<close>

text \<open>C16. An enrollment token binds one device. Once \<open>enroll\<close> has accepted it, every later attempt with the
  same token fails, whatever key it names and whatever calls come between.\<close>

theorem token_single_use:
  assumes f: "fleetOk d" and e: "enroll sha keyOk b token key d = Inr (x, d1)"
  shows "\<exists>err. enroll sha keyOk b' token key' (fold (tunnelRun sha keyOk ttl) cs d1) = Inl err"
proof -
  obtain r where r: "r \<in> set (enrollTokens d1)" "et_hash r = sha token" "deadToken (now d1) r" using spent_row [OF e] by blast
  then show ?thesis by (rule dead_token [rotated 1]) (use enroll_fleet [OF f e] in blast)
qed

text \<open>C14. A revocation is final. After a revocation that names a device, and after any calls, no handshake
  opens a tunnel for that device, its route is disabled, its node accepts no request of any account, and no
  life-cycle task of an instance on the node reaches the Agent: it fails and writes nothing.\<close>

theorem revocation_final:
  assumes f: "fleetOk d" and v: "revokeSelfHostedDevice owner req d = Inr (rv, d1)" "rv_device rv \<noteq> []"
    and e: "e = fold (tunnelRun sha keyOk ttl) cs d1"
  shows "fst (connect sha' keyOk' proves b h e) \<noteq> Inr (rv_device rv) \<and>
    list_ex (\<lambda>r. tr_device r = rv_device rv \<and> tr_status r = RouteDisabled) (tunnelRoutes e) \<and>
    ownNode user (rv_node rv) e = Inl (Msg ''no such node'') \<and>
    (lifecycleTask (t_action t) \<and> (\<forall>x \<in> set (tasks e). \<forall>i \<in> set (instances e).
        t_id x = t_id t \<and> i_id i = t_instance x \<longrightarrow> i_node i = Some (rv_node rv)) \<longrightarrow>
      (\<exists>err. executeTask call fresh t e = (Some err, e)))"
proof -
  note later = revoked_later [OF f v e]
  have "fst (connect sha' keyOk' proves b h e) \<noteq> Inr (rv_device rv)" using connect_enabled later(2,3) by fastforce
  moreover have "list_ex (\<lambda>r. tr_device r = rv_device rv \<and> tr_status r = RouteDisabled) (tunnelRoutes e)"
  proof -
    obtain x where x: "x \<in> set (devices e)" "dv_id x = rv_device rv" using later(2) by force
    then have "routed (tunnelRoutes e) x" "dv_status x = DeviceRevoked" using later(1,3) by (auto simp: fleetOk_def)
    then show ?thesis using x(2) by (auto simp: routed_def list_ex_iff)
  qed
  moreover have "ownNode user (rv_node rv) e = Inl (Msg ''no such node'')"
    using later(4) by (auto simp: ownNode_def orElse_def select_None split: option.split dest!: select_SomeD)
  moreover have "\<exists>err. executeTask call fresh t e = (Some err, e)"
    if "lifecycleTask (t_action t)" "\<forall>x \<in> set (tasks e). \<forall>i \<in> set (instances e). t_id x = t_id t \<and> i_id i = t_instance x \<longrightarrow> i_node i = Some (rv_node rv)"
    by (rule fence_refused [OF that later(4)])
  ultimately show ?thesis by blast
qed

text \<open>What a revocation does. Exactly the open tasks of the owner's instances on the node are closed: those
  not started are cancelled, those running are put up for review, their lease and the locks on the node
  withdrawn; none of them is left open, every other task is as it was, and no instance changes its status,
  only what is known of its runtime.\<close>

theorem revocation_exact:
  assumes f: "fleetOk d" and v: "revokeSelfHostedDevice owner req d = Inr (rv, d1)" "rv_device rv \<noteq> []"
  shows "tasks d1 = map (revokedTask owner (rv_node rv) d) (tasks d) \<and>
    rv_cancelled rv = map t_id (filter (\<lambda>t. hostedTask owner (rv_node rv) d t \<and> t_status t = TaskPending) (tasks d)) \<and>
    rv_isolated rv = map t_id (filter (\<lambda>t. hostedTask owner (rv_node rv) d t \<and> t_status t = TaskRunning) (tasks d)) \<and>
    filter (\<lambda>t. hostedTask owner (rv_node rv) d1 t \<and> t_status t \<in> {TaskPending, TaskRunning}) (tasks d1) = [] \<and>
    map i_status (instances d1) = map i_status (instances d) \<and>
    list_all (\<lambda>i. i_runtime i = Some UnknownRuntime) (filter (\<lambda>i. i_owner i = owner \<and> hostedOn (rv_node rv) i) (instances d1)) \<and>
    (rv_isolated rv = [] \<or> list_all (\<lambda>i. i_activeTask i = None \<and> i_activeToken i = None) (filter (\<lambda>i. i_node i = Some (rv_node rv)) (instances d1)))"
proof -
  let ?u = "unbind owner (trimSpace req) (rv_node rv) (rv_device rv) d"
  obtain n where n: "n \<in> set (nodes d)" "boundNode owner (trimSpace req) d n" "n_id n = rv_node rv" using revoked_node [OF f v] by blast
  then have "(if retires (rv_node rv) n then retired n else n) \<in> set (nodes ?u)" unfolding unbind_rows by (intro update_member)
  moreover have "n_id (if b then retired n else n) = rv_node rv \<and> n_kind (if b then retired n else n) = SelfHosted" for b
    using n by (simp add: retired_def boundNode_def)
  ultimately have h: "list_ex (\<lambda>n. n_id n = rv_node rv \<and> n_kind n = SelfHosted) (nodes ?u)" unfolding list_ex_iff by blast
  obtain d2 where i: "isolateTasks owner (rv_node rv) ?u = ((rv_cancelled rv, rv_isolated rv), d2)"
    and d1: "tasks d1 = tasks d2" "instances d1 = instances d2"
    using revoke_Inr [OF v(1)] by (cases "isolateTasks owner (rv_node rv) ?u") auto
  have same: "hostedTask owner (rv_node rv) ?u t = hostedTask owner (rv_node rv) d t" for t by (rule hosted_rows) (simp add: ownership_def unbind_rows)
  then have rt: "revokedTask owner (rv_node rv) ?u = revokedTask owner (rv_node rv) d" by (auto simp: revokedTask_def unbind_rows)
  note x = isolate_exact [OF h i, unfolded same rt unbind_rows]
  have h2: "hostedTask owner (rv_node rv) d1 t = hostedTask owner (rv_node rv) d t" for t by (rule hosted_rows) (use x d1 in \<open>simp add: ownership_def unbind_rows\<close>)
  have "filter (\<lambda>t. hostedTask owner (rv_node rv) d1 t \<and> t_status t \<in> {TaskPending, TaskRunning}) (tasks d1) = []"
    using x unfolding d1 h2 by (auto simp: filter_empty_conv revokedTask_def closedTask_def)
  then show ?thesis using x unfolding d1 list_all_iff by auto
qed

text \<open>A credential is shown once: after a poll has answered with the credential of a device, no later poll of
  the same authorisation answers with one, whoever asks and whatever happened in between.\<close>

theorem credential_once:
  assumes f: "fleetOk d" and p: "controlAuthorizationPoll sha aid token d = Inr (Some c, d1)"
  shows "controlAuthorizationPoll sha aid token' (fold (tunnelRun sha keyOk ttl) cs d1) \<noteq> Inr (Some c', d2)"
proof
  let ?e = "fold (tunnelRun sha keyOk ttl) cs d1"
  assume q: "controlAuthorizationPoll sha aid token' ?e = Inr (Some c', d2)"
  obtain r where r: "r \<in> set (authorizations d)" "au_id r = aid" "au_status r = AuthApproved"
    and d1: "authorizations d1 = update (\<lambda>x. au_id x = aid) (\<lambda>x. x\<lparr>au_delivered := Some (now d), au_credential := None\<rparr>) (authorizations d)"
    using p by (auto simp: controlAuthorizationPoll_def resultE dest!: select_SomeD split: if_splits)
  let ?r = "r\<lparr>au_delivered := Some (now d), au_credential := None\<rparr>"
  have in1: "?r \<in> set (authorizations d1)"
    using update_member [OF r(1), where p = "\<lambda>x. au_id x = aid" and f = "\<lambda>x. x\<lparr>au_delivered := Some (now d), au_credential := None\<rparr>"] r(2)
    by (simp add: d1)
  have st: "fleetStep d1 ?e" "fleetOk ?e" using runs_fleet poll_fleet [OF f p] by blast+
  obtain s where s: "s \<in> set (authorizations ?e)" "authStep ?r s" using grown_row [OF _ in1] st(1) unfolding fleetStep_def by blast
  obtain u where u: "u \<in> set (authorizations ?e)" "au_id u = aid" "au_delivered u = None"
    using q by (auto simp: controlAuthorizationPoll_def resultE dest!: select_SomeD split: if_splits)
  have "u = s" using s u same_key [of au_id "authorizations ?e" u s] fleet_distinct [OF st(2)] r(2) by (auto simp: authStep_def)
  then show False using s(2) u(3) r(3) by (auto simp: authStep_def)
qed


text \<open>A failed proof spends the token: if a handshake with a good token fails the proof of possession, the answer
  is an error, and yet the device is enrolled and the token is used up - the client must get a new one.\<close>

theorem handshake_burns_token:
  assumes f: "fleetOk d" and h: "h_protocol h" "h_device h = []" "h_token h \<noteq> []" "\<not> proves (h_key h)"
    and e: "enroll sha keyOk b (h_token h) (h_key h) d = Inr (x, d1)"
  shows "connect sha keyOk proves b h d = (Inl (Msg ''proof''), d1) \<and> b_device b \<in> dv_id ` set (devices d1) \<and>
    (\<exists>err. fst (connect sha keyOk proves' b' h d1) = Inl err)"
proof -
  have "connect sha keyOk proves b h d = (Inl (Msg ''proof''), d1)" using h e by (simp add: connect_def split: prod.split)
  moreover obtain own nm b2 d0 where b: "bindDevice sha b2 own (h_key h) nm d = Inr d0" "b_device b2 = b_device b" "devices d1 = devices d0"
    using enroll_rows [OF e] by fastforce
  then have "b_device b \<in> dv_id ` set (devices d1)" using bind_rows [OF b(1)] by (auto simp: deviceRow_def)
  moreover obtain err where "enroll sha keyOk b' (h_token h) (h_key h) d1 = Inl err"
    using dead_token [OF conjunct2 [OF enroll_fleet [OF f e]], of _ sha "h_token h" keyOk b' "h_key h" sha keyOk 0 "[]"]
    by (metis fold_simps(1) spent_row [OF e])
  ultimately show ?thesis using h by (simp add: connect_def)
qed

section \<open>A concrete fleet\<close>

text \<open>One customer with an open token and a node that runs one instance, whose update is under way.\<close>

definition exampleToken :: enrollToken where
  "exampleToken = \<lparr>et_id = ''k'', et_owner = ''u'', et_hash = ''secret'', et_node = ''home'', et_expires = 99, et_used = None,
     et_revoked = None, et_device = None\<rparr>"

definition exampleDevice :: device where
  "exampleDevice = \<lparr>dv_id = ''d'', dv_owner = ''u'', dv_key = ''key'', dv_credential = ''c'', dv_status = DeviceEnabled,
     dv_rebind = False, dv_heartbeat = None\<rparr>"

definition exampleHosted :: inst where
  "exampleHosted = blankInst\<lparr>i_id := ''i'', i_owner := ''u'', i_status := Running, i_runtime := Some Running, i_node := Some ''n'',
     i_selfhosted := True, i_activeTask := Some ''t'', i_activeToken := Some ''x'', i_activeExpires := Some 90\<rparr>"

definition exampleWork :: controlTask where
  "exampleWork = (newTask ''t'' ''i'' Update (SelfHostedKey ''i'') 1 1)\<lparr>t_status := TaskRunning, t_worker := Some ''w'',
     t_token := Some ''x'', t_claimExpires := Some 90\<rparr>"

definition exampleFleet :: db where
  "exampleFleet = (emptyDb 5)\<lparr>users := [\<lparr>u_id = ''u'', u_hostAllowed = False\<rparr>], enrollTokens := [exampleToken], devices := [exampleDevice],
     tunnelRoutes := [\<lparr>tr_id = ''r'', tr_owner = ''u'', tr_device = ''d'', tr_key = ''route'', tr_status = RoutePaused\<rparr>],
     nodes := [(selfHostedRow ''n'' ''home'' ''u'' ''d'')\<lparr>n_autoQuota := False, n_cpuQuota := 4, n_memQuota := 4096\<rparr>],
     instances := [exampleHosted], tasks := [exampleWork],
     authorizations := [\<lparr>au_id = ''a'', au_name = ''pc'', au_key = ''key'', au_poll = ''p'', au_status = AuthApproved, au_expires = 99,
       au_owner = Some ''u'', au_device = Some ''d'', au_credential = Some ''c'', au_delivered = None\<rparr>]\<rparr>"

definition exampleBinding :: binding where
  "exampleBinding = \<lparr>b_device = ''d2'', b_route = ''r2'', b_node = ''n2'', b_credential = ''z''\<rparr>"

lemma fleet_rows:
  "now exampleFleet = 5" "users exampleFleet = [\<lparr>u_id = ''u'', u_hostAllowed = False\<rparr>]" "enrollTokens exampleFleet = [exampleToken]"
  "devices exampleFleet = [exampleDevice]" "instances exampleFleet = [exampleHosted]" "tasks exampleFleet = [exampleWork]"
  "nodes exampleFleet = [(selfHostedRow ''n'' ''home'' ''u'' ''d'')\<lparr>n_autoQuota := False, n_cpuQuota := 4, n_memQuota := 4096\<rparr>]"
  "tunnelRoutes exampleFleet = [\<lparr>tr_id = ''r'', tr_owner = ''u'', tr_device = ''d'', tr_key = ''route'', tr_status = RoutePaused\<rparr>]"
  "authorizations exampleFleet = [\<lparr>au_id = ''a'', au_name = ''pc'', au_key = ''key'', au_poll = ''p'', au_status = AuthApproved, au_expires = 99,
       au_owner = Some ''u'', au_device = Some ''d'', au_credential = Some ''c'', au_delivered = None\<rparr>]"
  by (simp_all add: exampleFleet_def emptyDb_def)

lemmas example_fleet = exampleToken_def exampleDevice_def exampleHosted_def exampleWork_def exampleBinding_def selfHostedRow_def

lemma example_ok: "fleetOk exampleFleet"
  by (simp add: fleetOk_def fleet_rows example_fleet nodeBound_def routed_def oneNode_def)

lemma example_quota: "quotaOk exampleFleet"
proof -
  have "round2 1 = 1" "round2 4 = 4" by (auto simp: round2_iff intro: exI [of _ 100] exI [of _ 400])
  then show ?thesis
    by (simp add: quotaOk_def quotaRow_def hostedCpu_def hostedMem_def hostedOn_def fleet_rows example_fleet blankInst_def)
qed

lemma example_enroll: "\<exists>x d1. enroll (\<lambda>x. x) (\<lambda>_. True) exampleBinding ''secret'' ''key2'' exampleFleet = Inr (x, d1)"
  by (simp add: enroll_def bindDevice_def insertDevice_def insertRoute_def insertNode_def deviceRow_def routeRow_def routeKey_def
      fleet_rows example_fleet Let_def trimSpace_def trimLeft_def trimRight_def isSpace_def)

lemma example_revoke: "\<exists>rv d1. revokeSelfHostedDevice ''u'' ''n'' exampleFleet = Inr (rv, d1) \<and> rv_device rv = ''d'' \<and> rv_node rv = ''n''"
  by (simp add: revokeSelfHostedDevice_def revokeTarget_def boundNode_def countRows_def fleet_rows example_fleet trimSpace_def
      trimLeft_def trimRight_def isSpace_def Let_def)

theorem token_single_use_witness:
  "\<exists>x d1 err. enroll (\<lambda>x. x) (\<lambda>_. True) exampleBinding ''secret'' ''key2'' exampleFleet = Inr (x, d1) \<and>
     enroll (\<lambda>x. x) (\<lambda>_. True) (exampleBinding\<lparr>b_device := ''d3''\<rparr>) ''secret'' ''key3'' d1 = Inl err"
proof -
  obtain x d1 where e: "enroll (\<lambda>x. x) (\<lambda>_. True) exampleBinding ''secret'' ''key2'' exampleFleet = Inr (x, d1)" using example_enroll by blast
  from token_single_use [OF example_ok e, where cs = "[]" and ttl = 0] e show ?thesis by fastforce
qed

theorem revocation_final_witness:
  "\<exists>rv d1 err. revokeSelfHostedDevice ''u'' ''n'' exampleFleet = Inr (rv, d1) \<and>
     fst (connect (\<lambda>x. x) (\<lambda>_. True) (\<lambda>_. True) exampleBinding \<lparr>h_device = ''d'', h_credential = ''c'', h_token = [], h_key = [], h_protocol = True\<rparr> d1)
       \<noteq> Inr ''d'' \<and>
     executeTask (\<lambda>_ _ _ d. (d, Inl (Msg []))) (\<lambda>_ _. []) exampleWork d1 = (Some err, d1)"
proof -
  obtain rv d1 where v: "revokeSelfHostedDevice ''u'' ''n'' exampleFleet = Inr (rv, d1)" "rv_device rv = ''d''" "rv_node rv = ''n''"
    using example_revoke by blast
  then have ne: "rv_device rv \<noteq> []" by simp
  have "ownership d1 = ownership exampleFleet"
    using isolate_exact revoke_Inr(2) [OF v(1)] by (auto simp: isolateTasks_def unbind_rows Let_def ownership_def map_update)
  then have on: "\<forall>i \<in> set (instances d1). i_node i = Some ''n''"
    by (auto simp: ownership_def fleet_rows example_fleet blankInst_def map_eq_Cons_conv)
  note final = revocation_final [OF example_ok v(1) ne, where cs = "[]" and ttl = 0 and sha = "\<lambda>x. x" and keyOk = "\<lambda>_. True", OF refl]
  have "lifecycleTask (t_action exampleWork)" by (simp add: example_fleet newTask_def)
  then show ?thesis using v on final by fastforce
qed

theorem revocation_exact_witness:
  "\<exists>rv d1. revokeSelfHostedDevice ''u'' ''n'' exampleFleet = Inr (rv, d1) \<and> map t_status (tasks d1) = [TaskReview] \<and> rv_isolated rv = [''t'']"
proof -
  obtain rv d1 where v: "revokeSelfHostedDevice ''u'' ''n'' exampleFleet = Inr (rv, d1)" "rv_device rv = ''d''" "rv_node rv = ''n''"
    using example_revoke by blast
  then have ne: "rv_device rv \<noteq> []" by simp
  from revocation_exact [OF example_ok v(1) ne] v show ?thesis
    by (auto simp: revokedTask_def hostedTask_def closedTask_def fleet_rows example_fleet newTask_def blankInst_def)
qed

theorem credential_once_witness:
  "\<exists>d1. controlAuthorizationPoll (\<lambda>x. x) ''a'' ''p'' exampleFleet = Inr (Some (''d'', ''c''), d1) \<and>
     (\<nexists>c d2. controlAuthorizationPoll (\<lambda>x. x) ''a'' ''p'' d1 = Inr (Some c, d2))"
proof -
  obtain d1 where p: "controlAuthorizationPoll (\<lambda>x. x) ''a'' ''p'' exampleFleet = Inr (Some (''d'', ''c''), d1)"
    by (simp add: controlAuthorizationPoll_def fleet_rows)
  from credential_once [OF example_ok p, where cs = "[]" and ttl = 0 and keyOk = "\<lambda>_. True"] p show ?thesis by auto
qed


theorem handshake_burns_token_witness:
  "\<exists>d1. connect (\<lambda>x. x) (\<lambda>_. True) (\<lambda>_. False) exampleBinding
       \<lparr>h_device = [], h_credential = [], h_token = ''secret'', h_key = ''key2'', h_protocol = True\<rparr> exampleFleet = (Inl (Msg ''proof''), d1) \<and>
     ''d2'' \<in> dv_id ` set (devices d1)"
proof -
  obtain x d1 where e: "enroll (\<lambda>x. x) (\<lambda>_. True) exampleBinding ''secret'' ''key2'' exampleFleet = Inr (x, d1)" using example_enroll by blast
  let ?h = "\<lparr>h_device = [], h_credential = [], h_token = ''secret'', h_key = ''key2'', h_protocol = True\<rparr>"
  from handshake_burns_token [OF example_ok, of ?h "\<lambda>_. False" "\<lambda>x. x" "\<lambda>_. True" exampleBinding] e show ?thesis
    by (auto simp: exampleBinding_def)
qed

section \<open>The quota race\<close>

text \<open>The quota handler checks the allocation and stores the quota in two statements. An instance created between
  them is not counted: the node then carries more than its quota allows.\<close>

theorem quota_race:
  assumes c: "checkQuota user nid cpu mem d = Inr n" "createSelfHostedInstance sha ttl iid tid user nid b d = Inr (t, d1)"
    and over: "round2 cpu < hostedCpu nid d + round2 (hr_cpu b)"
  shows "\<not> quotaOk (storeQuota user nid cpu mem d1)"
proof
  assume q: "quotaOk (storeQuota user nid cpu mem d1)"
  have n: "n \<in> set (nodes d)" "n_id n = nid" "n_kind n = SelfHosted"
    using c(1) own_Inr by (auto simp: checkQuota_def resultE)
  obtain m i where m: "ownNode user nid d = Inr m"
    and i: "instances d1 = instances d @ [i]" "i_cpu i = round2 (hr_cpu b)" "hostedOn (n_id m) i" and d1: "nodes d1 = nodes d"
    using c(2) by (auto simp: createSelfHostedInstance_def resultE insertE Let_def hostedRow_def hostedOn_def not_less split: prod.splits)
  let ?f = "\<lambda>x :: node. x\<lparr>n_cpuQuota := round2 cpu, n_memQuota := mem, n_autoQuota := False\<rparr>"
  let ?e = "storeQuota user nid cpu mem d1"
  have "n_id m = nid" using own_Inr [OF m] by simp
  then have "hostedCpu nid ?e = hostedCpu nid d + round2 (hr_cpu b)" using i by (simp add: hostedCpu_def storeQuota_def)
  moreover have "(if n_id n = nid then ?f n else n) \<in> set (nodes ?e)"
    using update_member [OF n(1), where p = "\<lambda>x. n_id x = nid" and f = ?f] by (simp add: storeQuota_def d1)
  then have "quotaRow ?e (?f n)" using q n(2) by (simp add: quotaOk_def)
  ultimately show False using n over by (simp add: quotaRow_def)
qed

definition exampleRoom :: db where
  "exampleRoom = exampleFleet\<lparr>nodes := [(selfHostedRow ''n'' ''home'' ''u'' ''d'')\<lparr>n_autoQuota := False, n_cpuQuota := 4, n_memQuota := 4096,
       n_cpuDetected := 8, n_memDetected := 8192, n_ready := True, n_heartbeat := Some 5\<rparr>],
     images := [\<lparr>g_id = ''g'', g_ref = ''repo'', g_digest = [], g_version = ''1'', g_enabled = True, g_terminalOnly = False\<rparr>],
     imageVersions := [\<lparr>v_id = ''v'', v_image = ''g'', v_tag = ''1'', v_digest = [], v_enabled = True, v_status = ''ready'',
       v_lastError = None, v_publishedAt = None\<rparr>]\<rparr>"

theorem quota_race_witness:
  "\<exists>n t d1. checkQuota ''u'' ''n'' 1 1024 exampleRoom = Inr n \<and>
     createSelfHostedInstance (\<lambda>x. x) 60 ''j'' ''s'' ''u'' ''n'' \<lparr>hr_name = ''bot'', hr_image = ''g'', hr_version = ''1'', hr_cpu = 1, hr_mem = 512\<rparr> exampleRoom
       = Inr (t, d1) \<and> \<not> quotaOk (storeQuota ''u'' ''n'' 1 1024 d1)"
proof -
  let ?b = "\<lparr>hr_name = ''bot'', hr_image = ''g'', hr_version = ''1'', hr_cpu = 1, hr_mem = 512\<rparr>"
  have rows: "nodes exampleRoom = [(selfHostedRow ''n'' ''home'' ''u'' ''d'')\<lparr>n_autoQuota := False, n_cpuQuota := 4, n_memQuota := 4096,
       n_cpuDetected := 8, n_memDetected := 8192, n_ready := True, n_heartbeat := Some 5\<rparr>]"
    "instances exampleRoom = [exampleHosted]" "now exampleRoom = 5" "tasks exampleRoom = [exampleWork]"
    "images exampleRoom = [\<lparr>g_id = ''g'', g_ref = ''repo'', g_digest = [], g_version = ''1'', g_enabled = True, g_terminalOnly = False\<rparr>]"
    "imageVersions exampleRoom = [\<lparr>v_id = ''v'', v_image = ''g'', v_tag = ''1'', v_digest = [], v_enabled = True, v_status = ''ready'',
       v_lastError = None, v_publishedAt = None\<rparr>]"
    by (simp_all add: exampleRoom_def fleet_rows)
  have sums: "hostedCpu ''n'' exampleRoom = 1" "hostedMem ''n'' exampleRoom = 1024"
    by (simp_all add: hostedCpu_def hostedMem_def hostedOn_def rows exampleHosted_def blankInst_def)
  have one: "round2 1 = 1" by (auto simp: round2_iff intro: exI [of _ 100])
  have tag: "validImageTag ''1''" by code_simp
  have trim: "trimSpace ''bot'' = ''bot''" by code_simp
  obtain n where c: "checkQuota ''u'' ''n'' 1 1024 exampleRoom = Inr n"
    by (simp add: checkQuota_def ownNode_def rows selfHostedRow_def sums)
  obtain t d1 where k: "createSelfHostedInstance (\<lambda>x. x) 60 ''j'' ''s'' ''u'' ''n'' ?b exampleRoom = Inr (t, d1)"
    by (simp add: createSelfHostedInstance_def ownNode_def rows selfHostedRow_def sums releaseOf_def tag trim insertInst_def insertTask_def
        exampleHosted_def exampleWork_def blankInst_def newTask_def hostedRow_def routeKey_def one time_sub_def minDuration64_def maxDuration_def Let_def)
  show ?thesis using quota_race [OF c k] c k by (simp add: sums one)
qed

end
