(* ===== verification/Frames.thy ===== *)
theory Frames
  imports Prelude "HOL-Library.Word"
begin

text \<open>
  The frames of the tunnel between a gateway and a host agent: \<open>writeFrame\<close> and \<open>readFrame\<close> of
  \<open>gateway/main.go\<close> and their twins \<open>writeV2\<close> and \<open>readV2\<close> of \<open>control/v2.go\<close>. A message of the WebSocket is its
  type (binary or not) and its bytes. Lengths travel in 16 and 32 bits; a longer identifier or header is
  written with its length reduced, which the theorems below make precise.
\<close>

type_synonym byte = "8 word"

datatype frame = Frame (fkind: byte) (fid: "byte list") (fmeta: "byte list") (fdata: "byte list")

section \<open>Numbers\<close>

text \<open>\<open>binary.BigEndian\<close>: the most significant byte first.\<close>

definition putUint16 :: "16 word \<Rightarrow> byte list" where
  "putUint16 w = [ucast (drop_bit 8 w), ucast w]"

definition putUint32 :: "32 word \<Rightarrow> byte list" where
  "putUint32 w = [ucast (drop_bit 24 w), ucast (drop_bit 16 w), ucast (drop_bit 8 w), ucast w]"

fun uint16 :: "byte list \<Rightarrow> nat" where
  "uint16 [a, b] = unat a * 256 + unat b"
| "uint16 _ = 0"

fun uint32 :: "byte list \<Rightarrow> nat" where
  "uint32 [a, b, c, d] = ((unat a * 256 + unat b) * 256 + unat c) * 256 + unat d"
| "uint32 _ = 0"

lemma length_put [simp]: "length (putUint16 w) = 2" "length (putUint32 v) = 4"
  by (simp_all add: putUint16_def putUint32_def)

lemma unat_ucast_byte: "unat (ucast w :: byte) = unat w mod 256"
  by (simp add: unsigned_ucast_eq take_bit_eq_mod)

lemma unat_shift: "unat (drop_bit n w) = unat w div 2 ^ n" for w :: "'a :: len word"
  unfolding unat_drop_bit_eq by (rule drop_bit_eq_div)

lemma uint16_put: "uint16 (putUint16 w) = unat w"
proof -
  have "unat w < 65536" using unsigned_less [of w, where ?'a = nat] by simp
  then have "unat w div 256 mod 256 = unat w div 256" by simp
  then show ?thesis unfolding putUint16_def uint16.simps unat_ucast_byte unat_shift by simp
qed

lemma uint32_put: "uint32 (putUint32 w) = unat w"
proof -
  have b: "unat w < 4294967296" using unsigned_less [of w, where ?'a = nat] by simp
  define n where "n = unat w"
  have q: "n div 65536 = n div 256 div 256" "n div 16777216 = n div 256 div 256 div 256" by (simp_all add: div_mult2_eq [symmetric])
  have "n div 256 div 256 div 256 mod 256 = n div 256 div 256 div 256" using b by (simp add: n_def)
  then have "((n div 256 div 256 div 256 mod 256 * 256 + n div 256 div 256 mod 256) * 256 + n div 256 mod 256) * 256 + n mod 256 = n"
    by (simp only: div_mult_mod_eq)
  then show ?thesis unfolding putUint32_def uint32.simps unat_ucast_byte unat_shift n_def [symmetric] using q by simp
qed

section \<open>Writing and reading\<close>

definition writeFrame :: "frame \<Rightarrow> bool \<times> byte list" where
  "writeFrame f = (True, fkind f # putUint16 (of_nat (length (fid f))) @ putUint32 (of_nat (length (fmeta f))) @ fid f @ fmeta f @ fdata f)"

definition readFrame :: "bool \<times> byte list \<Rightarrow> error + frame" where
  "readFrame = (\<lambda>(binary, data).
     guardE (binary \<and> 7 \<le> length data) (Msg ''invalid tunnel frame'')
     (let il = uint16 (take 2 (drop 1 data)); ml = uint32 (take 4 (drop 3 data))
      in guardE (7 + il + ml \<le> length data) (Msg ''truncated tunnel frame'')
         (Inr (Frame (data ! 0) (take il (drop 7 data)) (take ml (drop (7 + il) data)) (drop (7 + il + ml) data)))))"

text \<open>The host agent's side: the same layout, its own messages.\<close>

definition writeV2 :: "frame \<Rightarrow> bool \<times> byte list" where
  "writeV2 f = (True, [fkind f] @ putUint16 (of_nat (length (fid f))) @ putUint32 (of_nat (length (fmeta f))) @ fid f @ fmeta f @ fdata f)"

definition readV2 :: "bool \<times> byte list \<Rightarrow> error + frame" where
  "readV2 = (\<lambda>(binary, data).
     guardE (binary \<and> 7 \<le> length data) (Msg ''tunnel frame invalid'')
     (let il = uint16 (take 2 (drop 1 data)); ml = uint32 (take 4 (drop 3 data))
      in guardE (7 + il + ml \<le> length data) (Msg ''tunnel frame cut off'')
         (Inr (Frame (data ! 0) (take il (drop 7 data)) (take ml (drop (7 + il) data)) (drop (7 + il + ml) data)))))"

section \<open>The codec\<close>

lemma unat_small: "n < 2 ^ LENGTH('a) \<Longrightarrow> unat (of_nat n :: 'a :: len word) = n"
  by (simp add: unsigned_of_nat take_bit_nat_eq_self)

lemma digits:
  assumes "a < 256" "b < 256" "c < 256" "d < (256 :: nat)" and n: "n = ((a * 256 + b) * 256 + c) * 256 + d"
  shows "n < 4294967296 \<and> n mod 256 = d \<and> n div 256 mod 256 = c \<and> n div 65536 mod 256 = b \<and> n div 16777216 mod 256 = a"
proof -
  have low: "(x * 256 + y) mod 256 = y" "(x * 256 + y) div 256 = x" if "y < 256" for x y :: nat using that by simp_all
  have e: "n div 256 = (a * 256 + b) * 256 + c" unfolding n by (rule low(2) [OF assms(4)])
  then have "n div 256 div 256 = a * 256 + b" using low(2) [OF assms(3)] by simp
  moreover have "n div 65536 = n div 256 div 256" "n div 16777216 = n div 256 div 256 div 256" by (simp_all add: div_mult2_eq [symmetric])
  moreover have "n mod 256 = d" unfolding n by (rule low(1) [OF assms(4)])
  moreover have "n div 256 mod 256 = c" unfolding e by (rule low(1) [OF assms(3)])
  ultimately show ?thesis using low [OF assms(2)] assms by simp
qed

lemma byte_less: "unat (a :: byte) < 256"
  using unsigned_less [of a, where ?'a = nat] by simp

lemma put_uint16: "length bs = 2 \<Longrightarrow> putUint16 (of_nat (uint16 bs)) = bs"
proof -
  assume "length bs = 2"
  then obtain a b where bs: "bs = [a, b]" by (auto simp: length_Suc_conv numeral_2_eq_2)
  let ?n = "unat a * 256 + unat b"
  have "?n < 65536" using byte_less [of a] byte_less [of b] by linarith
  then have n: "unat (of_nat ?n :: 16 word) = ?n" by (intro unat_small) simp
  have "unat (ucast (drop_bit 8 (of_nat ?n :: 16 word)) :: byte) = unat a"
    unfolding unat_ucast_byte unat_shift n using byte_less [of a] byte_less [of b] by simp
  moreover have "unat (ucast (of_nat ?n :: 16 word) :: byte) = unat b"
    unfolding unat_ucast_byte n using byte_less [of b] by simp
  ultimately have "ucast (drop_bit 8 (of_nat ?n :: 16 word)) = a" "(ucast (of_nat ?n :: 16 word) :: byte) = b"
    by (simp_all only: word_unat_eq_iff)
  then show ?thesis unfolding bs putUint16_def uint16.simps by (simp only:)
qed

lemma put_uint32: "length bs = 4 \<Longrightarrow> putUint32 (of_nat (uint32 bs)) = bs"
proof -
  assume "length bs = 4"
  then obtain a b c d where bs: "bs = [a, b, c, d]" by (auto simp: length_Suc_conv eval_nat_numeral)
  let ?n = "((unat a * 256 + unat b) * 256 + unat c) * 256 + unat d"
  have q: "?n < 4294967296 \<and> ?n mod 256 = unat d \<and> ?n div 256 mod 256 = unat c \<and> ?n div 65536 mod 256 = unat b \<and> ?n div 16777216 mod 256 = unat a"
    by (rule digits [OF byte_less byte_less byte_less byte_less refl])
  then have n: "unat (of_nat ?n :: 32 word) = ?n" by (intro unat_small) simp
  have e: "unat (ucast (drop_bit 24 (of_nat ?n :: 32 word)) :: byte) = unat a" "unat (ucast (drop_bit 16 (of_nat ?n :: 32 word)) :: byte) = unat b"
    "unat (ucast (drop_bit 8 (of_nat ?n :: 32 word)) :: byte) = unat c" "unat (ucast (of_nat ?n :: 32 word) :: byte) = unat d"
    unfolding unat_ucast_byte unat_shift n using q by (simp_all del: mult_Suc_right)
  have "ucast (drop_bit 24 (of_nat ?n :: 32 word)) = a" "ucast (drop_bit 16 (of_nat ?n :: 32 word)) = b"
    "ucast (drop_bit 8 (of_nat ?n :: 32 word)) = c" "(ucast (of_nat ?n :: 32 word) :: byte) = d"
    using e by (simp_all only: word_unat_eq_iff)
  then show ?thesis unfolding bs putUint32_def uint32.simps by (simp only:)
qed

lemma header_parts:
  assumes "7 \<le> length data"
  shows "data = data ! 0 # take 2 (drop 1 data) @ take 4 (drop 3 data) @ drop 7 data"
proof -
  have "data = hd data # drop 1 data" using assms by (cases data) simp_all
  also have "drop 1 data = take 2 (drop 1 data) @ drop 3 data" using append_take_drop_id [of 2 "drop 1 data"] by simp
  also have "drop 3 data = take 4 (drop 3 data) @ drop 7 data" using append_take_drop_id [of 4 "drop 3 data"] by simp
  finally show ?thesis using assms by (metis hd_conv_nth le_zero_eq length_0_conv zero_neq_numeral)
qed

lemma writeV2_same: "writeV2 = writeFrame"
  by (simp add: writeV2_def writeFrame_def fun_eq_iff)

lemma readV2_same: "(\<exists>e. readV2 m = Inl e) = (\<exists>e. readFrame m = Inl e) \<and> (readV2 m = Inr f) = (readFrame m = Inr f)"
  by (cases m) (auto simp: readV2_def readFrame_def Let_def guardE_def)

lemma three_parts: "take i xs @ take m (drop i xs) @ drop (i + m) xs = xs"
  using append_take_drop_id [of m "drop i xs"] by (simp add: add.commute)

lemma read_written:
  assumes "length (fid f) < 2 ^ 16" "length (fmeta f) < 2 ^ 32"
  shows "readFrame (writeFrame f) = Inr f"
proof -
  have u: "uint16 (putUint16 (of_nat (length (fid f)))) = length (fid f)" "uint32 (putUint32 (of_nat (length (fmeta f)))) = length (fmeta f)"
    using assms by (simp_all add: uint16_put uint32_put unat_small)
  obtain p where p: "putUint16 (of_nat (length (fid f))) = p" "length p = 2" by simp
  obtain q where q: "putUint32 (of_nat (length (fmeta f))) = q" "length q = 4" by simp
  have hdr: "drop (7 + n) (x # p @ q @ rest) = drop n rest" for n x rest
    using drop_drop [of n 7 "x # p @ q @ rest"] by (simp add: p(2) q(2) add.commute)
  show ?thesis using u unfolding writeFrame_def readFrame_def p(1) q(1)
    by (cases f) (simp add: p(2) q(2) Let_def hdr hdr [of 0, simplified] add.assoc)
qed

lemma written_read:
  assumes "readFrame m = Inr f"
  shows "m = writeFrame f \<and> length (fid f) < 2 ^ 16 \<and> length (fmeta f) < 2 ^ 32"
proof -
  obtain data where m: "m = (True, data)" "7 \<le> length data" using assms by (cases m) (auto simp: readFrame_def guardE_Inr_iff)
  define il ml where l: "il = uint16 (take 2 (drop 1 data))" "ml = uint32 (take 4 (drop 3 data))"
  have f: "7 + il + ml \<le> length data"
    "f = Frame (data ! 0) (take il (drop 7 data)) (take ml (drop (7 + il) data)) (drop (7 + il + ml) data)"
    using assms m by (auto simp: readFrame_def guardE_Inr_iff Let_def l)
  have len: "length (take il (drop 7 data)) = il" "length (take ml (drop (7 + il) data)) = ml" using f(1) by simp_all
  have p: "putUint16 (of_nat il) = take 2 (drop 1 data)" "putUint32 (of_nat ml) = take 4 (drop 3 data)"
    using put_uint16 put_uint32 m(2) by (simp_all add: l)
  have "drop 7 data = take il (drop 7 data) @ take ml (drop (7 + il) data) @ drop (7 + il + ml) data"
    using three_parts [of il "drop 7 data" ml] by (simp add: ac_simps)
  then have "data = snd (writeFrame f)" using header_parts [OF m(2)] f(1) by (simp add: writeFrame_def f(2) p min_absorb2)
  moreover have "il < 2 ^ 16" "ml < 2 ^ 32"
    using unsigned_less [of "of_nat il :: 16 word", where ?'a = nat] uint16_put [of "of_nat il"] uint32_put [of "of_nat ml"] p
      unsigned_less [of "of_nat ml :: 32 word", where ?'a = nat] by (simp_all add: l)
  ultimately show ?thesis using m(1) len by (simp add: writeFrame_def f(2))
qed

section \<open>Properties\<close>

text \<open>C33. The two ends of the tunnel understand each other. A message either end accepts is exactly what the other
  end would write for the frame read from it, so no two messages carry the same frame and nothing is lost or
  added; and every frame whose identifier and header fit their length fields arrives as it was sent.\<close>

theorem tunnel_codec:
  "(readFrame m = Inr f \<longleftrightarrow> m = writeV2 f \<and> length (fid f) < 2 ^ 16 \<and> length (fmeta f) < 2 ^ 32) \<and>
   (readV2 m = Inr f \<longleftrightarrow> m = writeFrame f \<and> length (fid f) < 2 ^ 16 \<and> length (fmeta f) < 2 ^ 32)"
  using read_written written_read readV2_same writeV2_same by metis

end
