(* ===== verification/Workspace.thy ===== *)
theory Workspace
  imports Prelude "HOL-Library.AList" "HOL-Library.Sublist" "HOL-Library.List_Lexorder" "HOL-Library.Char_ord"
begin

text \<open>
  The rules both host agents share (\<open>agent-core/core.go\<close>): names of managed instances, paths below a
  workspace, and reading, writing and listing files there. The file system is the list of its paths with
  what they hold; the system calls resolve symbolic links as the kernel does, at most 40 of them. Modes, times
  and the limits of the file system (full disk, long names) are not modelled. The workspace is mounted into a
  container, which may put any link into it.
\<close>

section \<open>Names\<close>

definition lowerAlnum :: "char \<Rightarrow> bool" where
  "lowerAlnum c \<longleftrightarrow> (let n = (of_char c :: nat) in (97 \<le> n \<and> n \<le> 122) \<or> (48 \<le> n \<and> n \<le> 57))"

definition lowerHex :: "char \<Rightarrow> bool" where
  "lowerHex c \<longleftrightarrow> (let n = (of_char c :: nat) in (48 \<le> n \<and> n \<le> 57) \<or> (97 \<le> n \<and> n \<le> 102))"

text \<open>\<open>^xcloud-[a-z0-9]{8,32}$\<close> and \<open>^r[0-9a-f]{16}$\<close>.\<close>

definition ValidName :: "string \<Rightarrow> bool" where
  "ValidName v \<longleftrightarrow> take 7 v = ''xcloud-'' \<and> 8 \<le> length (drop 7 v) \<and> length (drop 7 v) \<le> 32 \<and> list_all lowerAlnum (drop 7 v)"

definition ValidRoute :: "string \<Rightarrow> bool" where
  "ValidRoute v \<longleftrightarrow> take 1 v = ''r'' \<and> length (drop 1 v) = 16 \<and> list_all lowerHex (drop 1 v)"

text \<open>The gateway's own check, a loop over the bytes.\<close>

definition validRoute :: "string \<Rightarrow> bool" where
  "validRoute v \<longleftrightarrow> (if length v \<noteq> 17 \<or> v ! 0 \<noteq> CHR ''r'' then False
     else list_all (\<lambda>c. let n = (of_char c :: nat) in (48 \<le> n \<and> n \<le> 57) \<or> (97 \<le> n \<and> n \<le> 102)) (tl v))"

section \<open>Paths\<close>

type_synonym path = "string list"

definition dot :: string where "dot = ''.''"
definition dotdot :: string where "dotdot = ''..''"

text \<open>\<open>filepath.Clean\<close>, segment by segment: \<open>out\<close> is what has been kept so far.\<close>

definition cleanStep :: "bool \<Rightarrow> path \<Rightarrow> string \<Rightarrow> path" where
  "cleanStep rooted out s =
     (if s = [] \<or> s = dot then out
      else if s = dotdot then
        (if out \<noteq> [] \<and> last out \<noteq> dotdot then butlast out else if rooted then out else out @ [dotdot])
      else out @ [s])"

definition clean :: "string \<Rightarrow> string" where
  "clean p = (if p = [] then dot
     else let rooted = hd p = CHR ''/''; s = joinWith (CHR ''/'') (foldl (cleanStep rooted) [] (splitOn (CHR ''/'') p))
          in if rooted then CHR ''/'' # s else if s = [] then dot else s)"

definition segments :: "string \<Rightarrow> path" where
  "segments p = filter (\<lambda>s. s \<noteq> []) (splitOn (CHR ''/'') p)"

text \<open>A name a directory can hold.\<close>

definition okSeg :: "string \<Rightarrow> bool" where
  "okSeg s \<longleftrightarrow> s \<noteq> [] \<and> s \<noteq> dot \<and> s \<noteq> dotdot \<and> CHR ''/'' \<notin> set s"

definition InstanceDir :: "path \<Rightarrow> string \<Rightarrow> error + path" where
  "InstanceDir base name = guardE (ValidName name) (Msg ''managed name invalid'') (Inr (base @ [name]))"

section \<open>The file system\<close>

text \<open>A link holds whether its target is absolute, and the target's segments.\<close>

datatype fsNode = Directory | File string | Symlink bool path

type_synonym fs = "(path \<times> fsNode) list"

datatype fsError = ENOENT | ENOTDIR | ELOOP | EISDIR | EEXIST

definition maxLinks :: nat where "maxLinks = 40"

text \<open>The kernel's path walk: from the directory \<open>cur\<close> along the remaining segments, with \<open>n\<close> links left to
  follow. The last segment may be missing, and if it is a link it is followed only on demand.\<close>

fun resolve :: "nat \<Rightarrow> fs \<Rightarrow> bool \<Rightarrow> path \<Rightarrow> path \<Rightarrow> fsError + path" where
  "resolve n f follow cur [] = Inr cur"
| "resolve n f follow cur (s # rest) =
     (if s = [] \<or> s = dot then resolve n f follow cur rest
      else if s = dotdot then resolve n f follow (butlast cur) rest
      else (case map_of f (cur @ [s]) of
          None \<Rightarrow> if rest = [] then Inr (cur @ [s]) else Inl ENOENT
        | Some (File _) \<Rightarrow> if rest = [] then Inr (cur @ [s]) else Inl ENOTDIR
        | Some Directory \<Rightarrow> resolve n f follow (cur @ [s]) rest
        | Some (Symlink absolute target) \<Rightarrow>
            if rest = [] \<and> \<not> follow then Inr (cur @ [s])
            else (case n of 0 \<Rightarrow> Inl ELOOP
                  | Suc m \<Rightarrow> resolve m f follow (if absolute then [] else cur) (target @ rest))))"

definition lookup :: "bool \<Rightarrow> fs \<Rightarrow> path \<Rightarrow> fsError + fsNode" where
  "lookup follow f p = (case resolve maxLinks f follow [] p of Inl e \<Rightarrow> Inl e
     | Inr q \<Rightarrow> (case map_of f q of None \<Rightarrow> Inl ENOENT | Some x \<Rightarrow> Inr x))"

definition lstat :: "fs \<Rightarrow> path \<Rightarrow> fsError + fsNode" where "lstat = lookup False"
definition stat :: "fs \<Rightarrow> path \<Rightarrow> fsError + fsNode" where "stat = lookup True"

definition readFile :: "fs \<Rightarrow> path \<Rightarrow> fsError + string" where
  "readFile f p = (case stat f p of Inl e \<Rightarrow> Inl e | Inr (File c) \<Rightarrow> Inr c | Inr Directory \<Rightarrow> Inl EISDIR | Inr (Symlink _ _) \<Rightarrow> Inl ELOOP)"

text \<open>\<open>os.WriteFile\<close> opens with \<open>O_CREAT\<close>: a missing file is created, also behind a link.\<close>

definition writeFile :: "fs \<Rightarrow> path \<Rightarrow> string \<Rightarrow> fsError + fs" where
  "writeFile f p c = (case resolve maxLinks f True [] p of Inl e \<Rightarrow> Inl e
     | Inr q \<Rightarrow> (case map_of f q of
           Some Directory \<Rightarrow> Inl EISDIR
         | Some (Symlink _ _) \<Rightarrow> Inl ELOOP
         | _ \<Rightarrow> Inr (AList.update q (File c) f)))"

definition mkdir :: "fs \<Rightarrow> path \<Rightarrow> fsError + fs" where
  "mkdir f p = (case resolve maxLinks f False [] p of Inl e \<Rightarrow> Inl e
     | Inr q \<Rightarrow> (case map_of f q of None \<Rightarrow> Inr (AList.update q Directory f) | Some _ \<Rightarrow> Inl EEXIST))"

text \<open>\<open>os.MkdirAll\<close>: every missing directory on the way; a failure leaves those already made.\<close>

fun mkdirs :: "fs \<Rightarrow> path \<Rightarrow> path \<Rightarrow> fsError option \<times> fs" where
  "mkdirs f cur [] = (None, f)"
| "mkdirs f cur (s # rest) = (case stat f (cur @ [s]) of
       Inr Directory \<Rightarrow> mkdirs f (cur @ [s]) rest
     | Inr _ \<Rightarrow> (Some ENOTDIR, f)
     | Inl _ \<Rightarrow> (case mkdir f (cur @ [s]) of Inl e \<Rightarrow> (Some e, f) | Inr g \<Rightarrow> mkdirs g (cur @ [s]) rest))"

definition mkdirAll :: "fs \<Rightarrow> path \<Rightarrow> fsError option \<times> fs" where
  "mkdirAll f p = mkdirs f [] p"

definition removeAll :: "fs \<Rightarrow> path \<Rightarrow> fs" where
  "removeAll f p = filter (\<lambda>(q, _). \<not> prefix p q) f"

definition readDir :: "fs \<Rightarrow> path \<Rightarrow> fsError + (string \<times> fsNode) list" where
  "readDir f p = (case resolve maxLinks f True [] p of Inl e \<Rightarrow> Inl e
     | Inr q \<Rightarrow> (case map_of f q of
           None \<Rightarrow> Inl ENOENT
         | Some Directory \<Rightarrow> Inr (sort_key fst (map (\<lambda>(r, x). (last r, x)) (filter (\<lambda>(r, x). r \<noteq> [] \<and> butlast r = q) f)))
         | Some _ \<Rightarrow> Inl ENOTDIR))"

section \<open>Inside the workspace\<close>

text \<open>\<open>WorkspacePath\<close>: the loop that rejects a link on the way and stops at the first missing segment.\<close>

fun checkLinks :: "fs \<Rightarrow> path \<Rightarrow> path \<Rightarrow> bool" where
  "checkLinks f cur [] = True"
| "checkLinks f cur (s # rest) = (case lstat f (cur @ [s]) of
       Inl ENOENT \<Rightarrow> True
     | Inl _ \<Rightarrow> False
     | Inr (Symlink _ _) \<Rightarrow> False
     | Inr _ \<Rightarrow> checkLinks f (cur @ [s]) rest)"

definition WorkspacePath :: "path \<Rightarrow> string \<Rightarrow> fs \<Rightarrow> error + path \<times> string" where
  "WorkspacePath base raw f =
     (let c = clean (trimSpace raw); rel = (if c = dot then [] else c)
      in guardE (\<not> (take 1 rel = ''/'' \<or> rel = dotdot \<or> take 3 rel = ''../'')) (Msg ''workspace path invalid'')
         (guardE (checkLinks f base (segments rel)) (Msg ''workspace path invalid'')
         (Inr (base @ segments rel, rel))))"

definition textLimit :: nat where "textLimit = 1024 * 1024"
definition uploadLimit :: nat where "uploadLimit = 8 * 1024 * 1024"

text \<open>\<open>utf8.Valid\<close>: well-formed sequences of one to four bytes, without surrogates and overlong forms.\<close>

definition contByte :: "nat \<Rightarrow> bool" where "contByte n \<longleftrightarrow> 128 \<le> n \<and> n \<le> 191"

fun utf8Bytes :: "nat list \<Rightarrow> bool" where
  "utf8Bytes [] = True"
| "utf8Bytes (a # r) =
     (if a < 128 then utf8Bytes r
      else (case r of [] \<Rightarrow> False | b # r2 \<Rightarrow>
        if 194 \<le> a \<and> a \<le> 223 then contByte b \<and> utf8Bytes r2
        else (case r2 of [] \<Rightarrow> False | c # r3 \<Rightarrow>
          if 224 \<le> a \<and> a \<le> 239 then
            contByte b \<and> (a = 224 \<longrightarrow> 160 \<le> b) \<and> (a = 237 \<longrightarrow> b \<le> 159) \<and> contByte c \<and> utf8Bytes r3
          else (case r3 of [] \<Rightarrow> False | d # r4 \<Rightarrow>
            240 \<le> a \<and> a \<le> 244 \<and> contByte b \<and> (a = 240 \<longrightarrow> 144 \<le> b) \<and> (a = 244 \<longrightarrow> b \<le> 143) \<and>
            contByte c \<and> contByte d \<and> utf8Bytes r4))))"

definition utf8Valid :: "string \<Rightarrow> bool" where
  "utf8Valid s = utf8Bytes (map of_char s)"

definition ReadWorkspaceText :: "path \<Rightarrow> string \<Rightarrow> fs \<Rightarrow> error + string \<times> nat" where
  "ReadWorkspaceText base raw f =
     bindE (WorkspacePath base raw f) (\<lambda>(p, _).
       case lstat f p of
         Inr (File c) \<Rightarrow>
           guardE (length c \<le> textLimit) (Msg ''larger than 1 MB'')
           (case readFile f p of
              Inl _ \<Rightarrow> Inl (Msg ''only UTF-8 text'')
            | Inr content \<Rightarrow> guardE (utf8Valid content) (Msg ''only UTF-8 text'') (Inr (content, length c)))
       | _ \<Rightarrow> Inl (Msg ''no such file''))"

text \<open>The second half of a write, after \<open>WorkspacePath\<close> has answered: what fails leaves the directories
  made so far.\<close>

definition writeChecked :: "path \<Rightarrow> string \<Rightarrow> string \<Rightarrow> fs \<Rightarrow> (error + string) \<times> fs" where
  "writeChecked p rel content f =
     (case lstat f p of Inr (Symlink _ _) \<Rightarrow> (Inl (Msg ''workspace path invalid''), f)
      | _ \<Rightarrow> (case mkdirAll f (butlast p) of
            (Some _, g) \<Rightarrow> (Inl (Msg ''mkdir''), g)
          | (None, g) \<Rightarrow> (case writeFile g p content of Inl _ \<Rightarrow> (Inl (Msg ''write''), g) | Inr h \<Rightarrow> (Inr rel, h))))"

definition WriteWorkspaceText :: "path \<Rightarrow> string \<Rightarrow> string \<Rightarrow> fs \<Rightarrow> (error + string) \<times> fs" where
  "WriteWorkspaceText base raw content f =
     (if length content > textLimit then (Inl (Msg ''content larger than 1 MB''), f)
      else (case WorkspacePath base raw f of Inl e \<Rightarrow> (Inl e, f) | Inr (p, rel) \<Rightarrow> writeChecked p rel content f))"

text \<open>\<open>base64.StdEncoding\<close>: line breaks are skipped, the padding ends the text.\<close>

definition base64Value :: "char \<Rightarrow> nat option" where
  "base64Value c = (let n = (of_char c :: nat) in
     if 65 \<le> n \<and> n \<le> 90 then Some (n - 65) else if 97 \<le> n \<and> n \<le> 122 then Some (n - 71)
     else if 48 \<le> n \<and> n \<le> 57 then Some (n + 4) else if c = CHR ''+'' then Some 62 else if c = CHR ''/'' then Some 63 else None)"

fun base64Quads :: "string \<Rightarrow> string option" where
  "base64Quads [] = Some []"
| "base64Quads (a # b # c # d # rest) =
     (if d = CHR ''='' then
        (if rest \<noteq> [] then None
         else if c = CHR ''='' then (case (base64Value a, base64Value b) of
           (Some x, Some y) \<Rightarrow> Some [char_of (x * 4 + y div 16)] | _ \<Rightarrow> None)
         else (case (base64Value a, base64Value b, base64Value c) of
           (Some x, Some y, Some z) \<Rightarrow> Some [char_of (x * 4 + y div 16), char_of (y mod 16 * 16 + z div 4)] | _ \<Rightarrow> None))
      else (case (base64Value a, base64Value b, base64Value c, base64Value d, base64Quads rest) of
        (Some x, Some y, Some z, Some w, Some r) \<Rightarrow>
          Some (char_of (x * 4 + y div 16) # char_of (y mod 16 * 16 + z div 4) # char_of (z mod 4 * 64 + w) # r)
      | _ \<Rightarrow> None))"
| "base64Quads _ = None"

definition base64Decode :: "string \<Rightarrow> string option" where
  "base64Decode s = base64Quads (filter (\<lambda>c. c \<noteq> CHR 0x0A \<and> c \<noteq> CHR 0x0D) s)"

definition UploadWorkspaceBase64 :: "path \<Rightarrow> string \<Rightarrow> string \<Rightarrow> fs \<Rightarrow> (error + string \<times> nat) \<times> fs" where
  "UploadWorkspaceBase64 base raw encoded f =
     (case base64Decode encoded of
        None \<Rightarrow> (Inl (Msg ''upload invalid or larger than 8 MB''), f)
      | Some content \<Rightarrow>
          if length content > uploadLimit then (Inl (Msg ''upload invalid or larger than 8 MB''), f)
          else (case WorkspacePath base raw f of Inl e \<Rightarrow> (Inl e, f)
            | Inr (p, rel) \<Rightarrow> (case writeChecked p rel content f of
                (Inl e, g) \<Rightarrow> (Inl e, g) | (Inr r, g) \<Rightarrow> (Inr (r, length content), g))))"

record WorkspaceEntry =
  we_name :: string
  we_path :: string
  we_directory :: bool
  we_size :: "nat option"

text \<open>The size of a directory is the host's business: \<open>None\<close>.\<close>

definition listEntry :: "string \<Rightarrow> string \<times> fsNode \<Rightarrow> WorkspaceEntry option" where
  "listEntry rel = (\<lambda>(name, x). let child = (if rel \<noteq> [] then rel @ CHR ''/'' # name else name) in
     (case x of Symlink _ _ \<Rightarrow> None
      | Directory \<Rightarrow> Some \<lparr>we_name = name, we_path = child, we_directory = True, we_size = None\<rparr>
      | File c \<Rightarrow> Some \<lparr>we_name = name, we_path = child, we_directory = False, we_size = Some (length c)\<rparr>))"

definition ListWorkspace :: "path \<Rightarrow> string \<Rightarrow> fs \<Rightarrow> error + string \<times> WorkspaceEntry list" where
  "ListWorkspace base raw f =
     bindE (WorkspacePath base raw f) (\<lambda>(p, rel).
       case readDir f p of Inl _ \<Rightarrow> Inl (Msg ''readdir'')
       | Inr es \<Rightarrow> Inr (rel, List.map_filter (listEntry rel) es))"

definition TerminalDockerArgs :: "string \<Rightarrow> error + string list" where
  "TerminalDockerArgs name = guardE (ValidName name) (Msg ''managed name invalid'')
     (Inr [''exec'', ''-i'', ''-t'', ''-e'', ''TERM=xterm-256color'', ''-e'', ''COLORTERM=truecolor'', name, ''/bin/sh'', ''-c'',
       ''if [ -x /bin/bash ]; then exec /bin/bash -i; elif [ -x /usr/bin/bash ]; then exec /usr/bin/bash -i; else exec /bin/sh -i; fi''])"

section \<open>Clean paths\<close>

text \<open>What \<open>clean\<close> keeps of a relative path: some \<open>..\<close>, then names.\<close>

definition climbs :: "path \<Rightarrow> bool" where
  "climbs out \<longleftrightarrow> (\<exists>ds oks. out = ds @ oks \<and> list_all (\<lambda>s. s = dotdot) ds \<and> list_all okSeg oks)"

lemma seg_simps [simp]: "dot \<noteq> []" "dotdot \<noteq> []" "dot \<noteq> dotdot" "dotdot \<noteq> dot" "[] \<noteq> dot" "[] \<noteq> dotdot" "\<not> okSeg dotdot" "\<not> okSeg dot" "\<not> okSeg []"
  "CHR ''/'' \<notin> set dot" "CHR ''/'' \<notin> set dotdot"
  by (simp_all add: dot_def dotdot_def okSeg_def)

lemma okSegD: "okSeg s \<Longrightarrow> s \<noteq> [] \<and> s \<noteq> dot \<and> s \<noteq> dotdot \<and> CHR ''/'' \<notin> set s"
  by (simp add: okSeg_def)

lemma climbs_step:
  assumes "climbs out" "CHR ''/'' \<notin> set s"
  shows "climbs (cleanStep False out s)"
proof -
  obtain ds oks where o: "out = ds @ oks" "list_all (\<lambda>s. s = dotdot) ds" "list_all okSeg oks" using assms(1) by (auto simp: climbs_def)
  show ?thesis
  proof (cases "s = [] \<or> s = dot")
    case True
    then show ?thesis using assms(1) by (simp add: cleanStep_def)
  next
    case f: False
    show ?thesis
    proof (cases "s = dotdot")
      case True
      show ?thesis
      proof (cases "out \<noteq> [] \<and> last out \<noteq> dotdot")
        case True
        then have "oks \<noteq> []" using o by (auto simp: list_all_iff)
        then have "butlast out = ds @ butlast oks" using o(1) by (simp add: butlast_append)
        moreover have "list_all okSeg (butlast oks)" using o(3) by (auto simp: list_all_iff dest: in_set_butlastD)
        ultimately show ?thesis using True \<open>s = dotdot\<close> o(2) by (auto simp: cleanStep_def climbs_def)
      next
        case False
        then have "oks = [] \<or> last oks = dotdot" using o(1) by (cases "oks = []") auto
        then have "oks = []" using o(3) last_in_set [of oks] seg_simps(7) by (metis list_all_iff)
        moreover have "cleanStep False out s = out @ [dotdot]" using False True f by (auto simp: cleanStep_def)
        ultimately show ?thesis using o unfolding climbs_def by (intro exI [of _ "ds @ [dotdot]"] exI [of _ "[]"]) simp
      qed
    next
      case False
      then have "cleanStep False out s = ds @ (oks @ [s])" "okSeg s" using o(1) f assms(2) by (simp_all add: cleanStep_def okSeg_def)
      then show ?thesis using o unfolding climbs_def by (intro exI [of _ ds] exI [of _ "oks @ [s]"]) simp
    qed
  qed
qed

lemma climbs_fold: "climbs out \<Longrightarrow> \<forall>s \<in> set ss. CHR ''/'' \<notin> set s \<Longrightarrow> climbs (foldl (cleanStep False) out ss)"
  by (induction ss arbitrary: out) (simp_all add: climbs_step)

lemma segments_join: "list_all okSeg ss \<Longrightarrow> segments (joinWith (CHR ''/'') ss) = ss"
proof (cases "ss = []")
  case False
  assume a: "list_all okSeg ss"
  then have "\<forall>w \<in> set ss. CHR ''/'' \<notin> set w" by (auto simp: list_all_iff okSeg_def)
  then have "splitOn (CHR ''/'') (joinWith (CHR ''/'') ss) = ss" by (rule splitOn_joinWith [OF False])
  moreover have "filter (\<lambda>s. s \<noteq> []) ss = ss" using a by (auto simp: list_all_iff okSeg_def filter_id_conv)
  ultimately show ?thesis by (simp add: segments_def)
qed (simp add: segments_def)

lemma join_dots:
  assumes "dotdot # ds = out"
  shows "joinWith (CHR ''/'') out = dotdot \<or> take 3 (joinWith (CHR ''/'') out) = ''../''"
  using assms by (cases ds) (auto simp: dotdot_def)

text \<open>A path \<open>WorkspacePath\<close> accepts has only names below the workspace, and no link on the way.\<close>

lemma workspace_path:
  assumes "WorkspacePath base raw f = Inr (p, rel)"
  shows "\<exists>ss. list_all okSeg ss \<and> rel = joinWith (CHR ''/'') ss \<and> segments rel = ss \<and> p = base @ ss \<and> checkLinks f base ss"
proof -
  let ?t = "trimSpace raw"
  let ?out = "foldl (cleanStep False) [] (splitOn (CHR ''/'') ?t)"
  define rel0 where "rel0 = (if clean ?t = dot then [] else clean ?t)"
  have r: "\<not> (take 1 rel0 = ''/'' \<or> rel0 = dotdot \<or> take 3 rel0 = ''../'')" "checkLinks f base (segments rel0)"
    "rel = rel0" "p = base @ segments rel0"
    using assms by (auto simp: WorkspacePath_def Let_def rel0_def guardE_Inr_iff simp del: take_eq_Nil)
  have "climbs ?out" by (rule climbs_fold) (auto simp: climbs_def dest: splitOn_noSep)
  then obtain ds oks where o: "?out = ds @ oks" "list_all (\<lambda>s. s = dotdot) ds" "list_all okSeg oks" by (auto simp: climbs_def)
  have c: "rel0 = joinWith (CHR ''/'') ?out \<and> ds = []"
  proof (cases "?t = []")
    case True
    then have "?out = []" by (simp add: cleanStep_def)
    then show ?thesis using True o by (simp add: rel0_def clean_def)
  next
    case False
    have ne: "hd ?t \<noteq> CHR ''/''"
    proof
      assume "hd ?t = CHR ''/''"
      then have "take 1 (clean ?t) = ''/''" "clean ?t \<noteq> dot" using False by (simp_all add: clean_def dot_def Let_def)
      then show False using r(1) by (simp add: rel0_def)
    qed
    let ?j = "joinWith (CHR ''/'') ?out"
    have cl: "clean ?t = (if ?j = [] then dot else ?j)" using False ne by (simp add: clean_def Let_def)
    have "?j \<noteq> dot"
    proof
      assume j: "?j = dot"
      then have "splitOn (CHR ''/'') ?j = [dot]" by (simp add: dot_def)
      moreover have "?out \<noteq> []" using j by auto
      moreover have "\<forall>w \<in> set ?out. CHR ''/'' \<notin> set w" using o by (auto simp: list_all_iff okSeg_def)
      ultimately have "?out = [dot]" using splitOn_joinWith by metis
      then show False using o by (auto simp: append_eq_Cons_conv)
    qed
    then have e: "rel0 = ?j" using cl by (simp add: rel0_def)
    moreover have "ds = []"
    proof (rule ccontr)
      assume "ds \<noteq> []"
      then obtain ds' where "ds = dotdot # ds'" using o(2) by (cases ds) auto
      then have "dotdot # (ds' @ oks) = ?out" using o(1) by simp
      then show False using join_dots r(1) e by metis
    qed
    ultimately show ?thesis by blast
  qed
  then have "rel0 = joinWith (CHR ''/'') oks" using o(1) by simp
  then show ?thesis using r o(3) segments_join by metis
qed

section \<open>Walks\<close>

text \<open>A file system is a tree: what exists lies in a directory.\<close>

definition treeFs :: "fs \<Rightarrow> bool" where
  "treeFs f \<longleftrightarrow> (\<forall>p s. map_of f (p @ [s]) \<noteq> None \<longrightarrow> p = [] \<or> map_of f p = Some Directory)"

text \<open>Every segment of the path is a directory, and no link.\<close>

definition plain :: "fs \<Rightarrow> path \<Rightarrow> bool" where
  "plain f p \<longleftrightarrow> list_all okSeg p \<and> (\<forall>k < length p. map_of f (take (Suc k) p) = Some Directory)"

lemma plain_Nil [simp]: "plain f []"
  by (simp add: plain_def)

lemma plain_snoc: "plain f (p @ [s]) \<longleftrightarrow> plain f p \<and> okSeg s \<and> map_of f (p @ [s]) = Some Directory"
  by (auto simp: plain_def less_Suc_eq)

lemma plain_append: "plain f (p @ q) \<Longrightarrow> plain f p"
  by (induction q rule: rev_induct) (simp_all flip: append_assoc add: plain_snoc)

text \<open>A walk along plain directories follows no link.\<close>

lemma resolve_plain: "plain f (cur @ p) \<Longrightarrow> resolve n f fl cur (p @ rest) = resolve n f fl (cur @ p) rest"
proof (induction p arbitrary: cur)
  case (Cons s p)
  have "plain f (cur @ [s])" using plain_append [of f "cur @ [s]" p] Cons.prems by simp
  then have "map_of f (cur @ [s]) = Some Directory" "okSeg s" by (simp_all add: plain_snoc)
  then show ?case using Cons.IH [of "cur @ [s]"] Cons.prems okSegD [of s] by simp
qed simp

lemma resolve_last:
  assumes "plain f p" "okSeg s" "\<And>a t. map_of f (p @ [s]) \<noteq> Some (Symlink a t) \<or> \<not> fl"
  shows "resolve n f fl [] (p @ [s]) = Inr (p @ [s])"
  using resolve_plain [of f "[]" p n fl "[s]"] assms okSegD [OF assms(2)] by (auto split: option.split fsNode.split)

lemma resolve_dir: "plain f p \<Longrightarrow> resolve n f fl [] p = Inr p"
  using resolve_plain [of f "[]" p n fl "[]"] by simp

lemma lookup_plain:
  assumes "plain f p" "okSeg s" "\<And>a t. map_of f (p @ [s]) \<noteq> Some (Symlink a t) \<or> \<not> fl"
  shows "lookup fl f (p @ [s]) = (case map_of f (p @ [s]) of None \<Rightarrow> Inl ENOENT | Some x \<Rightarrow> Inr x)"
  by (simp add: lookup_def resolve_last [OF assms])

lemma lstat_plain: "plain f p \<Longrightarrow> okSeg s \<Longrightarrow> lstat f (p @ [s]) = (case map_of f (p @ [s]) of None \<Rightarrow> Inl ENOENT | Some x \<Rightarrow> Inr x)"
  by (simp add: lstat_def lookup_plain)

lemma lstat_behind_file:
  assumes "plain f p" "okSeg s" "map_of f (p @ [s]) = Some (File c)"
  shows "lstat f (p @ [s, r]) = Inl ENOTDIR"
  using resolve_plain [of f "[]" p maxLinks False "[s, r]"] assms okSegD [OF assms(2)] by (simp add: lstat_def lookup_def)

text \<open>What the loop of \<open>WorkspacePath\<close> finds out, on the tree: directories up to the first segment that is
  missing, or a file at the very end.\<close>

fun openWay :: "fs \<Rightarrow> path \<Rightarrow> path \<Rightarrow> bool" where
  "openWay f cur [] = True"
| "openWay f cur (s # rest) = (case map_of f (cur @ [s]) of None \<Rightarrow> True | Some Directory \<Rightarrow> openWay f (cur @ [s]) rest
     | Some (File _) \<Rightarrow> rest = [] | Some (Symlink _ _) \<Rightarrow> False)"

lemma checkLinks_openWay: "plain f cur \<Longrightarrow> list_all okSeg ss \<Longrightarrow> checkLinks f cur ss = openWay f cur ss"
proof (induction ss arbitrary: cur)
  case (Cons s rest)
  then have s: "okSeg s" "list_all okSeg rest" by simp_all
  note l = lstat_plain [OF Cons.prems(1) s(1)]
  show ?case
  proof (cases "map_of f (cur @ [s])")
    case None
    then show ?thesis by (simp add: l)
  next
    case (Some x)
    show ?thesis
    proof (cases x)
      case Directory
      then have "plain f (cur @ [s])" using Some Cons.prems(1) s by (simp add: plain_snoc)
      then show ?thesis using Cons.IH s(2) Some Directory by (simp add: l)
    next
      case (File c)
      then show ?thesis using lstat_behind_file [OF Cons.prems(1) s(1)] Some by (cases rest) (simp_all add: l)
    next
      case (Symlink a t)
      then show ?thesis using Some by (simp add: l)
    qed
  qed
qed simp

lemma missing_below:
  assumes "treeFs f" "map_of f p = None" "p \<noteq> []"
  shows "map_of f (p @ q) = None"
proof (induction q rule: rev_induct)
  case (snoc s q)
  have "p @ q \<noteq> []" using assms(3) by simp
  then show ?case using assms(1) snoc unfolding treeFs_def by (metis append_assoc option.distinct(1))
qed (use assms(2) in simp)

lemma openWay_end:
  assumes "treeFs f" "plain f cur" "openWay f cur (ss @ [s])" "list_all okSeg (ss @ [s])"
  shows "\<not> (\<exists>a t. map_of f (cur @ ss @ [s]) = Some (Symlink a t)) \<and>
    (map_of f (cur @ ss @ [s]) \<noteq> None \<longrightarrow> plain f (cur @ ss))"
  using assms(2-4)
proof (induction ss arbitrary: cur)
  case Nil
  then show ?case by (auto split: option.splits fsNode.splits)
next
  case (Cons r ss)
  show ?case
  proof (cases "map_of f (cur @ [r])")
    case None
    then have "map_of f ((cur @ [r]) @ ss @ [s]) = None" using missing_below [OF assms(1) None, of "ss @ [s]"] by simp
    then show ?thesis by simp
  next
    case (Some x)
    then have x: "x = Directory" "openWay f (cur @ [r]) (ss @ [s])" using Cons.prems(2) by (auto split: fsNode.splits)
    then have "plain f (cur @ [r])" using Some Cons.prems by (simp add: plain_snoc)
    then show ?thesis using Cons.IH [OF _ x(2)] Cons.prems(3) by simp
  qed
qed

text \<open>Making the directories of an open way adds directories below \<open>cur\<close> and nothing else.\<close>

lemma treeFs_add:
  assumes "treeFs f" "plain f p" "map_of f (p @ [s]) = None"
  shows "treeFs (AList.update (p @ [s]) x f)"
  unfolding treeFs_def
proof (intro allI impI)
  fix q r assume a: "map_of (AList.update (p @ [s]) x f) (q @ [r]) \<noteq> None"
  have below: "map_of f ((p @ [s]) @ [r]) = None" using missing_below [OF assms(1,3)] by simp
  have dir: "p = [] \<or> map_of f p = Some Directory"
    using assms(2) by (cases p rule: rev_cases) (simp_all add: plain_snoc)
  have "p \<noteq> p @ [s]" by simp
  show "q = [] \<or> map_of (AList.update (p @ [s]) x f) q = Some Directory"
  proof (cases "q @ [r] = p @ [s]")
    case True
    then show ?thesis using dir by (auto simp: update_conv')
  next
    case False
    then have "map_of f (q @ [r]) \<noteq> None" using a by (auto simp: update_conv' split: if_splits)
    then have "q = [] \<or> map_of f q = Some Directory" "q \<noteq> p @ [s]" using assms(1) below by (auto simp: treeFs_def)
    then show ?thesis by (auto simp: update_conv')
  qed
qed

lemma plain_add: "map_of f q = None \<Longrightarrow> plain f p \<Longrightarrow> plain (AList.update q x f) p"
  by (auto simp: plain_def update_conv')

lemma mkdir_plain:
  assumes "plain f p" "okSeg s" "map_of f (p @ [s]) = None"
  shows "mkdir f (p @ [s]) = Inr (AList.update (p @ [s]) Directory f)"
  using resolve_last [OF assms(1,2), of False] assms(3) by (simp add: mkdir_def)

definition onlyDirsBelow :: "path \<Rightarrow> fs \<Rightarrow> fs \<Rightarrow> bool" where
  "onlyDirsBelow cur f g \<longleftrightarrow> (\<forall>p. map_of g p = map_of f p \<or>
     strict_prefix cur p \<and> map_of f p = None \<and> map_of g p = Some Directory)"

lemma strict_below: "prefix (cur @ [r]) p \<Longrightarrow> strict_prefix cur p"
  by (auto simp: prefix_def strict_prefix_def)

lemma onlyDirs_up: "onlyDirsBelow (cur @ [r]) f g \<Longrightarrow> onlyDirsBelow cur f g"
  unfolding onlyDirsBelow_def
proof (rule allI)
  fix p assume "\<forall>p. map_of g p = map_of f p \<or> strict_prefix (cur @ [r]) p \<and> map_of f p = None \<and> map_of g p = Some Directory"
  then have "map_of g p = map_of f p \<or> strict_prefix (cur @ [r]) p \<and> map_of f p = None \<and> map_of g p = Some Directory" ..
  then show "map_of g p = map_of f p \<or> strict_prefix cur p \<and> map_of f p = None \<and> map_of g p = Some Directory"
    using strict_below [of cur r p] by (auto simp: strict_prefix_def)
qed

lemma mkdirs_open:
  assumes "treeFs f" "plain f cur" "list_all okSeg (ss @ [s])" "openWay f cur (ss @ [s])"
  shows "\<exists>g. mkdirs f cur ss = (None, g) \<and> treeFs g \<and> plain g (cur @ ss) \<and> onlyDirsBelow cur f g \<and>
    map_of g (cur @ ss @ [s]) = map_of f (cur @ ss @ [s])"
  using assms
proof (induction ss arbitrary: f cur)
  case Nil
  then show ?case by (simp add: onlyDirsBelow_def)
next
  case (Cons r ss)
  have r: "okSeg r" using Cons.prems(3) by simp
  have st: "stat f (cur @ [r]) = (case map_of f (cur @ [r]) of None \<Rightarrow> Inl ENOENT | Some x \<Rightarrow> Inr x)"
    unfolding stat_def using Cons.prems(4) by (intro lookup_plain [OF Cons.prems(2) r]) (auto split: option.splits)
  show ?case
  proof (cases "map_of f (cur @ [r])")
    case None
    let ?g = "AList.update (cur @ [r]) Directory f"
    have g: "treeFs ?g" "plain ?g (cur @ [r])"
      using treeFs_add [OF Cons.prems(1,2) None] plain_add [OF None Cons.prems(2)] r by (simp_all add: plain_snoc update_conv')
    have new: "map_of ?g ((cur @ [r]) @ q) = None" if "q \<noteq> []" for q
      using missing_below [OF Cons.prems(1) None, of q] that by (simp add: update_conv')
    have "openWay ?g (cur @ [r]) (ss @ [s])" using new by (cases ss) simp_all
    then obtain h where h: "mkdirs ?g (cur @ [r]) ss = (None, h)" "treeFs h" "plain h ((cur @ [r]) @ ss)" "onlyDirsBelow (cur @ [r]) ?g h"
      "map_of h ((cur @ [r]) @ ss @ [s]) = map_of ?g ((cur @ [r]) @ ss @ [s])"
      using Cons.IH [OF g] Cons.prems(3) by auto
    have "onlyDirsBelow cur f h"
      unfolding onlyDirsBelow_def
    proof
      fix p
      have "map_of h p = map_of ?g p \<or> strict_prefix (cur @ [r]) p \<and> map_of ?g p = None \<and> map_of h p = Some Directory"
        using h(4) by (simp add: onlyDirsBelow_def)
      moreover note strict_below [of cur r p]
      ultimately show "map_of h p = map_of f p \<or> strict_prefix cur p \<and> map_of f p = None \<and> map_of h p = Some Directory"
        using None by (auto simp: update_conv' strict_prefix_def split: if_splits)
    qed
    moreover have "map_of h ((cur @ [r]) @ ss @ [s]) = map_of f ((cur @ [r]) @ ss @ [s])"
      using h(5) new [of "ss @ [s]"] missing_below [OF Cons.prems(1) None, of "ss @ [s]"] by simp
    ultimately show ?thesis using h st None mkdir_plain [OF Cons.prems(2) r None] by simp
  next
    case (Some x)
    then have x: "x = Directory" "openWay f (cur @ [r]) (ss @ [s])" using Cons.prems(4) by (auto split: fsNode.splits)
    then have "plain f (cur @ [r])" using Some Cons.prems(2) r by (simp add: plain_snoc)
    then obtain h where h: "mkdirs f (cur @ [r]) ss = (None, h)" "treeFs h" "plain h ((cur @ [r]) @ ss)" "onlyDirsBelow (cur @ [r]) f h"
      "map_of h ((cur @ [r]) @ ss @ [s]) = map_of f ((cur @ [r]) @ ss @ [s])"
      using Cons.IH [OF Cons.prems(1) _ _ x(2)] Cons.prems(3) by auto
    moreover have "onlyDirsBelow cur f h"
      using h(4) by (rule onlyDirs_up)
    ultimately show ?thesis using st Some x by simp
  qed
qed

lemma mkdirs_plain: "plain f (cur @ p) \<Longrightarrow> mkdirs f cur (p @ ss) = mkdirs f (cur @ p) ss"
proof (induction p arbitrary: cur)
  case (Cons s p)
  have "plain f (cur @ [s])" using plain_append [of f "cur @ [s]" p] Cons.prems by simp
  then have s: "plain f cur" "okSeg s" "map_of f (cur @ [s]) = Some Directory" by (simp_all add: plain_snoc)
  then have "stat f (cur @ [s]) = Inr Directory" unfolding stat_def by (subst lookup_plain) simp_all
  then show ?case using Cons.IH [of "cur @ [s]"] Cons.prems by simp
qed simp

lemma lstat_missing:
  assumes "treeFs f" "plain f cur" "list_all okSeg (ss @ [s])" "openWay f cur (ss @ [s])" "map_of f (cur @ ss @ [s]) = None"
  shows "lstat f (cur @ ss @ [s]) = Inl ENOENT"
  using assms(2-5)
proof (induction ss arbitrary: cur)
  case Nil
  then show ?case using lstat_plain [of f cur s] by simp
next
  case (Cons r ss)
  show ?case
  proof (cases "map_of f (cur @ [r])")
    case None
    then show ?thesis
      using resolve_plain [of f "[]" cur maxLinks False "r # ss @ [s]"] Cons.prems(1,2) okSegD [of r] by (simp add: lstat_def lookup_def)
  next
    case (Some x)
    then have x: "x = Directory" "openWay f (cur @ [r]) (ss @ [s])" using Cons.prems(3) by (auto split: fsNode.splits)
    then have "plain f (cur @ [r])" using Some Cons.prems by (simp add: plain_snoc)
    then show ?thesis using Cons.IH [OF _ _ x(2)] Cons.prems(2,4) by simp
  qed
qed

text \<open>A write to a path below a plain workspace, after the check: either it was a directory and nothing is
  written, or the file is there, at that place and no other.\<close>

lemma write_below:
  assumes t: "treeFs f" and b: "plain f base" and ok: "list_all okSeg (ss @ [s])" and w: "openWay f base (ss @ [s])"
  defines "p \<equiv> base @ ss @ [s]"
  shows "\<exists>g. treeFs g \<and> plain g (base @ ss) \<and> onlyDirsBelow base f g \<and> map_of g p = map_of f p \<and>
    writeChecked p rel content f =
      (if map_of f p = Some Directory then (Inl (Msg ''write''), g) else (Inr rel, AList.update p (File content) g))"
proof -
  obtain g where g: "mkdirs f base ss = (None, g)" "treeFs g" "plain g (base @ ss)" "onlyDirsBelow base f g" "map_of g p = map_of f p"
    using mkdirs_open [OF t b ok w] by (auto simp: p_def)
  have mk: "mkdirAll f (butlast p) = (None, g)" using mkdirs_plain [of f "[]" base ss] b g(1) by (simp add: mkdirAll_def p_def butlast_append)
  have nolink: "map_of f p \<noteq> Some (Symlink a u)" for a u using openWay_end [OF t b w ok] by (auto simp: p_def)
  have pp: "p = (base @ ss) @ [s]" by (simp add: p_def)
  have "resolve maxLinks g True [] p = Inr p"
    unfolding pp using g(3,5) nolink ok by (intro resolve_last) (simp_all add: p_def)
  then have wr: "writeFile g p content = (if map_of f p = Some Directory then Inl EISDIR else Inr (AList.update p (File content) g))"
    using nolink by (auto simp: writeFile_def g(5) split: option.split fsNode.split)
  have ls: "lstat f p \<noteq> Inr (Symlink a u)" for a u
  proof (cases "map_of f p = None")
    case False
    then have "plain f (base @ ss)" using openWay_end [OF t b w ok] by (simp add: p_def)
    then show ?thesis using nolink lstat_plain [of f "base @ ss" s] ok by (auto simp: pp split: option.split)
  next
    case True
    then show ?thesis using lstat_missing [OF t b ok w] by (simp add: p_def)
  qed
  have "writeChecked p rel content f =
      (if map_of f p = Some Directory then (Inl (Msg ''write''), g) else (Inr rel, AList.update p (File content) g))"
    using ls by (auto simp: writeChecked_def mk wr split: sum.split fsNode.split)
  then show ?thesis using g by (intro exI [of _ g]) simp
qed

lemma checked_way:
  assumes "WorkspacePath base raw f = Inr (p, rel)" "plain f base"
  shows "\<exists>ss. p = base @ ss \<and> list_all okSeg ss \<and> openWay f base ss"
  using workspace_path [OF assms(1)] checkLinks_openWay [OF assms(2)] by blast

lemma write_base:
  assumes "plain f base" "base \<noteq> []"
  shows "writeChecked base rel content f = (Inl (Msg ''write''), f)"
proof -
  have d: "resolve n f fl [] base = Inr base" for n fl by (rule resolve_dir [OF assms(1)])
  obtain q s where q: "base = q @ [s]" using assms(2) by (cases base rule: rev_cases) auto
  then have "map_of f base = Some Directory" "plain f (butlast base)" using assms(1) by (simp_all add: plain_snoc)
  moreover have "mkdirAll f (butlast base) = (None, f)" if "plain f (butlast base)"
    using mkdirs_plain [of f "[]" "butlast base" "[]"] that by (simp add: mkdirAll_def)
  ultimately show ?thesis using d by (simp add: writeChecked_def lstat_def lookup_def writeFile_def)
qed

lemma onlyDirs_refl [simp]: "onlyDirsBelow base f f"
  by (simp add: onlyDirsBelow_def)

lemma write_effect:
  assumes t: "treeFs f" and b: "plain f base" "base \<noteq> []" and w: "WorkspacePath base raw f = Inr (p, rel)"
  shows "\<exists>g. treeFs g \<and> onlyDirsBelow base f g \<and>
    (writeChecked p rel content f = (Inl (Msg ''write''), g) \<or>
     writeChecked p rel content f = (Inr rel, AList.update p (File content) g) \<and>
       (\<exists>ss s. p = base @ ss @ [s] \<and> list_all okSeg (ss @ [s]) \<and> plain g (base @ ss) \<and> map_of g p \<noteq> Some Directory))"
proof -
  obtain ss where ss: "p = base @ ss" "list_all okSeg ss" "openWay f base ss" using checked_way [OF w b(1)] by blast
  show ?thesis
  proof (cases ss rule: rev_cases)
    case Nil
    then have "writeChecked p rel content f = (Inl (Msg ''write''), f)" using write_base [OF b] ss(1) by simp
    then show ?thesis using t by (intro exI [of _ f]) simp
  next
    case (snoc xs s)
    have p: "p = base @ xs @ [s]" using ss(1) snoc by simp
    obtain g where g: "treeFs g" "plain g (base @ xs)" "onlyDirsBelow base f g" "map_of g p = map_of f p"
      "writeChecked p rel content f = (if map_of f p = Some Directory then (Inl (Msg ''write''), g) else (Inr rel, AList.update p (File content) g))"
      using write_below [OF t b(1) ss(2) [unfolded snoc] ss(3) [unfolded snoc], of rel content] unfolding p by blast
    show ?thesis
    proof (cases "map_of f p = Some Directory")
      case True
      then show ?thesis using g by (intro exI [of _ g]) simp
    next
      case False
      have "\<exists>ss s. p = base @ ss @ [s] \<and> list_all okSeg (ss @ [s]) \<and> plain g (base @ ss) \<and> map_of g p \<noteq> Some Directory"
        using p ss(2) snoc g(2,4) False by (intro exI [of _ xs] exI [of _ s]) simp
      then show ?thesis using g(1,3,5) False by (intro exI [of _ g]) simp
    qed
  qed
qed

lemma write_outside:
  assumes "treeFs f" "plain f base" "base \<noteq> []" "WorkspacePath base raw f = Inr (p, rel)" "\<not> prefix base q"
  shows "map_of (snd (writeChecked p rel content f)) q = map_of f q"
proof -
  obtain g where g: "onlyDirsBelow base f g"
    "writeChecked p rel content f = (Inl (Msg ''write''), g) \<or>
     writeChecked p rel content f = (Inr rel, AList.update p (File content) g) \<and> prefix base p"
    using write_effect [OF assms(1-4), of content] by auto
  have "map_of g q = map_of f q" using g(1) assms(5) by (auto simp: onlyDirsBelow_def strict_prefix_def)
  then show ?thesis using g(2) assms(5) by (auto simp: update_conv')
qed

lemma read_inside:
  assumes "treeFs f" "plain f base" "base \<noteq> []" "ReadWorkspaceText base raw f = Inr (c, n)"
  shows "\<exists>ss. ss \<noteq> [] \<and> list_all okSeg ss \<and> plain f (base @ butlast ss) \<and> map_of f (base @ ss) = Some (File c) \<and> n = length c"
proof -
  obtain p rel where w: "WorkspacePath base raw f = Inr (p, rel)" using assms(4) by (auto simp: ReadWorkspaceText_def bindE_Inr_iff)
  obtain c0 where c: "lstat f p = Inr (File c0)" "readFile f p = Inr c" "n = length c0"
    using assms(4) w by (auto simp: ReadWorkspaceText_def guardE_Inr_iff split: sum.splits fsNode.splits)
  obtain ss where ss: "p = base @ ss" "list_all okSeg ss" "openWay f base ss" using checked_way [OF w assms(2)] by blast
  obtain xs s where x: "ss = xs @ [s]"
  proof (cases ss rule: rev_cases)
    case Nil
    then have "lstat f p = Inr Directory"
      using resolve_dir [OF assms(2)] assms(2,3) ss(1) by (cases base rule: rev_cases) (simp_all add: lstat_def lookup_def plain_snoc)
    then show ?thesis using c by simp
  qed
  note e = openWay_end [OF assms(1,2) ss(3) [unfolded x] ss(2) [unfolded x]]
  have ne: "map_of f p \<noteq> None"
  proof
    assume "map_of f p = None"
    then show False using lstat_missing [OF assms(1,2) ss(2) [unfolded x] ss(3) [unfolded x]] c(1) by (simp add: ss(1) x)
  qed
  then have pl: "plain f (base @ xs)" using e by (simp add: ss(1) x)
  have s: "okSeg s" using ss(2) by (simp add: x)
  have "map_of f ((base @ xs) @ [s]) = Some (File c0)"
    using c(1) lstat_plain [OF pl s] by (auto simp: ss(1) x split: option.splits)
  moreover have "stat f ((base @ xs) @ [s]) = Inr (File c0)" unfolding stat_def using calculation by (subst lookup_plain [OF pl s]) simp_all
  then have "c = c0" using c(2) by (simp add: readFile_def ss(1) x)
  ultimately show ?thesis using c(3) pl ss(2) x by (intro exI [of _ ss]) simp
qed

lemma openWay_file:
  "plain f (cur @ ss) \<Longrightarrow> map_of f (cur @ ss @ [s]) = Some (File c) \<Longrightarrow> openWay f cur (ss @ [s])"
proof (induction ss arbitrary: cur)
  case (Cons r ss)
  have "plain f (cur @ [r])" using plain_append [of f "cur @ [r]" ss] Cons.prems(1) by simp
  then have "map_of f (cur @ [r]) = Some Directory" by (simp add: plain_snoc)
  then show ?case using Cons.IH [of "cur @ [r]"] Cons.prems by simp
qed simp

lemma path_again:
  assumes "WorkspacePath base raw f = Inr (p, rel)" "p = base @ ss" "list_all okSeg ss" "plain h base" "openWay h base ss"
  shows "WorkspacePath base raw h = Inr (p, rel)"
proof -
  have "segments rel = ss" using assms(1,2) workspace_path by blast
  then show ?thesis using assms checkLinks_openWay [OF assms(4,3)] by (auto simp: WorkspacePath_def Let_def guardE_Inr_iff)
qed

section \<open>Properties\<close>

text \<open>C28. The workspace is a boundary. Whatever path is asked for and whatever links the container has left in
  its workspace, a write or an upload changes nothing outside the workspace, and what a read returns is the
  content of a regular file inside it, reached through directories only.\<close>

theorem workspace_confined:
  assumes "treeFs f" "plain f base" "base \<noteq> []"
  shows "(\<forall>q. \<not> prefix base q \<longrightarrow> map_of (snd (WriteWorkspaceText base raw content f)) q = map_of f q \<and>
      map_of (snd (UploadWorkspaceBase64 base raw content f)) q = map_of f q) \<and>
    (\<forall>c n. ReadWorkspaceText base raw f = Inr (c, n) \<longrightarrow>
      (\<exists>ss. ss \<noteq> [] \<and> list_all okSeg ss \<and> plain f (base @ butlast ss) \<and> map_of f (base @ ss) = Some (File c)))"
proof (intro conjI allI impI)
  fix q assume q: "\<not> prefix base q"
  note out = write_outside [OF assms _ q]
  show "map_of (snd (WriteWorkspaceText base raw content f)) q = map_of f q"
    using out by (auto simp: WriteWorkspaceText_def split: sum.split)
  have "map_of g q = map_of f q" if "WorkspacePath base raw f = Inr (p, rel)" "writeChecked p rel x f = (r, g)" for p rel x r g
    using out [OF that(1), of x] that(2) by simp
  then show "map_of (snd (UploadWorkspaceBase64 base raw content f)) q = map_of f q"
    by (auto simp: UploadWorkspaceBase64_def split: option.split sum.split prod.split)
next
  fix c n assume "ReadWorkspaceText base raw f = Inr (c, n)"
  then show "\<exists>ss. ss \<noteq> [] \<and> list_all okSeg ss \<and> plain f (base @ butlast ss) \<and> map_of f (base @ ss) = Some (File c)"
    using read_inside [OF assms] by blast
qed

text \<open>C39. What is written is what is read: after a successful write of UTF-8 text the same path reads back the text, and
  every other file in the tree has kept its content.\<close>

theorem write_then_read:
  assumes "treeFs f" "plain f base" "base \<noteq> []" and w: "WriteWorkspaceText base raw content f = (Inr rel, h)" and u: "utf8Valid content"
  shows "ReadWorkspaceText base raw h = Inr (content, length content) \<and>
    (\<forall>q c. q \<noteq> base @ segments rel \<and> map_of f q = Some (File c) \<longrightarrow> map_of h q = Some (File c))"
proof -
  have l: "length content \<le> textLimit" using w by (auto simp: WriteWorkspaceText_def split: if_splits)
  obtain p rel0 where wp: "WorkspacePath base raw f = Inr (p, rel0)" and wc: "writeChecked p rel0 content f = (Inr rel, h)"
    using w l by (auto simp: WriteWorkspaceText_def split: sum.splits)
  obtain g ss s where g: "onlyDirsBelow base f g" "rel0 = rel" "h = AList.update p (File content) g"
    and p: "p = base @ ss @ [s]" "list_all okSeg (ss @ [s])" "plain g (base @ ss)"
    using write_effect [OF assms(1-3) wp, of content] wc by auto
  have "take k (base @ ss) \<noteq> p" for k
  proof
    assume "take k (base @ ss) = p"
    then have "length (take k (base @ ss)) = length p" by simp
    then show False by (simp add: p(1))
  qed
  then have ph: "plain h (base @ ss)" using p(3) by (simp add: plain_def g(3) update_conv' del: take_append)
  have fh: "map_of h ((base @ ss) @ [s]) = Some (File content)" by (simp add: g(3) p(1) update_conv')
  have "openWay h base (ss @ [s])" by (rule openWay_file [OF ph]) (use fh in simp)
  then have wh: "WorkspacePath base raw h = Inr (p, rel)"
    using path_again [OF wp p(1,2)] plain_append [OF ph] g(2) by simp
  have pp: "p = (base @ ss) @ [s]" and s: "okSeg s" using p by simp_all
  have "lstat h p = Inr (File content)" "stat h p = Inr (File content)"
    unfolding pp stat_def lstat_plain [OF ph s] using fh by (simp, subst lookup_plain [OF ph s], simp_all)
  then have "ReadWorkspaceText base raw h = Inr (content, length content)"
    using l u by (simp add: ReadWorkspaceText_def wh readFile_def)
  moreover have "map_of h q = Some (File c)" if "q \<noteq> base @ segments rel" "map_of f q = Some (File c)" for q c
  proof -
    have "p = base @ segments rel" using workspace_path [OF wh] by auto
    then show ?thesis using g(1) [unfolded onlyDirsBelow_def, rule_format, of q] that by (auto simp: g(3) update_conv')
  qed
  ultimately show ?thesis by blast
qed

text \<open>C40. The check and the write are two steps. A container that swaps a directory for a link between them makes
  the agent write outside the workspace: here into a directory of the host.\<close>

theorem symlink_race_escapes:
  "\<exists>f f' p rel h. treeFs f \<and> plain f [''w''] \<and> WorkspacePath [''w''] ''d/passwd'' f = Inr (p, rel) \<and>
     filter (\<lambda>(q, _). \<not> prefix [''w''] q) f' = filter (\<lambda>(q, _). \<not> prefix [''w''] q) f \<and> plain f' [''w''] \<and>
     writeChecked p rel content f' = (Inr rel, h) \<and>
     map_of f [''etc'', ''passwd''] = None \<and> map_of h [''etc'', ''passwd''] = Some (File content)"
proof -
  let ?f = "[([''w''], Directory), ([''w'', ''d''], Directory), ([''etc''], Directory)]"
  let ?f' = "[([''w''], Directory), ([''w'', ''d''], Symlink True [''etc'']), ([''etc''], Directory)]"
  have t: "treeFs ?f" by (auto simp: treeFs_def append_eq_Cons_conv split: if_splits)
  have pl: "plain ?f [''w'']" "plain ?f' [''w'']" by (simp_all add: plain_def okSeg_def dot_def dotdot_def)
  have wp: "WorkspacePath [''w''] ''d/passwd'' ?f = Inr ([''w'', ''d'', ''passwd''], ''d/passwd'')" by code_simp
  have wc: "writeChecked [''w'', ''d'', ''passwd''] ''d/passwd'' content ?f' =
      (Inr ''d/passwd'', AList.update [''etc'', ''passwd''] (File content) ?f')"
    by (simp add: writeChecked_def lstat_def lookup_def mkdirAll_def stat_def writeFile_def maxLinks_def dot_def dotdot_def eval_nat_numeral)
  have out: "filter (\<lambda>(q, _). \<not> prefix [''w''] q) ?f' = filter (\<lambda>(q, _). \<not> prefix [''w''] q) ?f" by simp
  show ?thesis
    by (intro exI [of _ ?f] exI [of _ ?f'] exI [of _ "[''w'', ''d'', ''passwd'']"] exI [of _ "''d/passwd''"]
        exI [of _ "AList.update [''etc'', ''passwd''] (File content) ?f'"] conjI t pl wp wc) (use out in simp_all)
qed

text \<open>A file whose name begins with a space is listed, with a path under which it cannot be opened.\<close>

lemma spaced_name_unreachable:
  "\<exists>es. ListWorkspace [''w''] [] [([''w''], Directory), ([''w'', '' a''], File c)] = Inr ([], es) \<and> map we_path es = ['' a''] \<and>
     ReadWorkspaceText [''w''] '' a'' [([''w''], Directory), ([''w'', '' a''], File c)] = Inl (Msg ''no such file'')"
proof -
  have c: "clean (trimSpace []) = dot" "clean (trimSpace '' a'') = ''a''" by code_simp+
  show ?thesis
    by (simp add: ListWorkspace_def ReadWorkspaceText_def WorkspacePath_def c dot_def dotdot_def readDir_def segments_def listEntry_def
        List.map_filter_def lstat_def lookup_def Let_def)
qed

text \<open>The gateway's check of a route and the agents' agree, and a route names a managed instance.\<close>

theorem route_checks_agree: "validRoute v = ValidRoute v"
  by (cases v) (auto simp: validRoute_def ValidRoute_def lowerHex_def Let_def fun_eq_iff list_all_iff)

lemma route_names_instance:
  assumes "ValidRoute r"
  shows "ValidName (''xcloud-'' @ r)"
proof -
  obtain cs where r: "r = CHR ''r'' # cs" "length cs = 16" "list_all lowerHex cs" using assms by (cases r) (auto simp: ValidRoute_def)
  have "lowerHex c \<Longrightarrow> lowerAlnum c" for c by (auto simp: lowerHex_def lowerAlnum_def Let_def)
  then have "list_all lowerAlnum cs" using r(3) by (auto simp: list_all_iff)
  then show ?thesis by (simp add: ValidName_def r(1,2) lowerAlnum_def)
qed

section \<open>A concrete workspace\<close>

text \<open>A container has put a link to a directory of the host into its workspace.\<close>

definition exampleTree :: fs where
  "exampleTree = [([''w''], Directory), ([''w'', ''link''], Symlink True [''etc'']), ([''w'', ''notes''], File ''old''),
     ([''etc''], Directory), ([''etc'', ''passwd''], File ''secret'')]"

lemma example_tree: "treeFs exampleTree" "plain exampleTree [''w'']"
  by (auto simp: treeFs_def plain_def exampleTree_def okSeg_def dot_def dotdot_def append_eq_Cons_conv split: if_splits)

theorem workspace_confined_witness:
  "map_of (snd (WriteWorkspaceText [''w''] ''link/passwd'' ''x'' exampleTree)) [''etc'', ''passwd''] = Some (File ''secret'') \<and>
   \<not> (\<exists>n. ReadWorkspaceText [''w''] ''link/passwd'' exampleTree = Inr (''secret'', n))"
proof -
  have ne: "[''w''] \<noteq> []" by simp
  note c = workspace_confined [OF example_tree ne, where raw = "''link/passwd''" and content = "''x''"]
  have "map_of (snd (WriteWorkspaceText [''w''] ''link/passwd'' ''x'' exampleTree)) [''etc'', ''passwd''] = map_of exampleTree [''etc'', ''passwd'']"
    using c by simp
  moreover have "map_of exampleTree ([''w''] @ ss) \<noteq> Some (File ''secret'')" for ss by (auto simp: exampleTree_def)
  ultimately show ?thesis using c by (auto simp: exampleTree_def)
qed

theorem write_then_read_witness:
  "\<exists>h. WriteWorkspaceText [''w''] ''sub/../sub/./new'' ''text'' exampleTree = (Inr ''sub/new'', h) \<and>
     ReadWorkspaceText [''w''] ''sub/../sub/./new'' h = Inr (''text'', 4)"
proof -
  obtain h where h: "WriteWorkspaceText [''w''] ''sub/../sub/./new'' ''text'' exampleTree = (Inr ''sub/new'', h)"
  proof -
    have "WorkspacePath [''w''] ''sub/../sub/./new'' exampleTree = Inr ([''w'', ''sub'', ''new''], ''sub/new'')" by code_simp
    moreover have "fst (writeChecked [''w'', ''sub'', ''new''] ''sub/new'' ''text'' exampleTree) = Inr ''sub/new''" by code_simp
    ultimately have "fst (WriteWorkspaceText [''w''] ''sub/../sub/./new'' ''text'' exampleTree) = Inr ''sub/new''"
      by (simp add: WriteWorkspaceText_def textLimit_def)
    then show ?thesis using that by (metis prod.collapse)
  qed
  have "utf8Valid ''text''" by code_simp
  from write_then_read [OF example_tree _ h this] show ?thesis using h by auto
qed

end
