(* ===== verification/Compose.thy ===== *)
theory Compose
  imports Workspace
begin

text \<open>
  The Compose file an agent writes for an instance (\<open>Compose\<close> in \<open>agent-core/core.go\<close>) and the quoting it relies on
  (\<open>strconv.Quote\<close>, the verb \<open>%q\<close>). Parameters: \<open>printable\<close>, Unicode's table of printable code points above
  ASCII, and \<open>fmtCPU\<close>, the shortest decimal text of a float. The text is built line by line: what the line says,
  and the value in quotes at its end, if it has one.
\<close>

section \<open>Quoting\<close>

text \<open>The rune at the head of a byte sequence and how many bytes follow its first, if it is well formed.\<close>

fun decodeRune :: "nat list \<Rightarrow> (nat \<times> nat) option" where
  "decodeRune (a # b # r) =
     (if 194 \<le> a \<and> a \<le> 223 then (if contByte b then Some ((a - 192) * 64 + (b - 128), 1) else None)
      else (case r of [] \<Rightarrow> None | c # r2 \<Rightarrow>
        if 224 \<le> a \<and> a \<le> 239 then
          (if contByte b \<and> (a = 224 \<longrightarrow> 160 \<le> b) \<and> (a = 237 \<longrightarrow> b \<le> 159) \<and> contByte c
           then Some (((a - 224) * 64 + (b - 128)) * 64 + (c - 128), 2) else None)
        else (case r2 of [] \<Rightarrow> None | d # _ \<Rightarrow>
          if 240 \<le> a \<and> a \<le> 244 \<and> contByte b \<and> (a = 240 \<longrightarrow> 144 \<le> b) \<and> (a = 244 \<longrightarrow> b \<le> 143) \<and> contByte c \<and> contByte d
          then Some ((((a - 240) * 64 + (b - 128)) * 64 + (c - 128)) * 64 + (d - 128), 3) else None)))"
| "decodeRune _ = None"

definition hexByte :: "nat \<Rightarrow> nat" where
  "hexByte n = (if n mod 16 < 10 then 48 + n mod 16 else 87 + n mod 16)"

fun hexDigits :: "nat \<Rightarrow> nat \<Rightarrow> nat list" where
  "hexDigits 0 n = []"
| "hexDigits (Suc k) n = hexDigits k (n div 16) @ [hexByte n]"

text \<open>One ASCII character (34 is the quote, 92 the backslash), and a rune that is not printable.\<close>

definition escapeAscii :: "nat \<Rightarrow> nat list" where
  "escapeAscii a = (if a = 34 \<or> a = 92 then [92, a] else if 32 \<le> a \<and> a < 127 then [a]
     else if a = 7 then [92, 97] else if a = 8 then [92, 98] else if a = 12 then [92, 102] else if a = 10 then [92, 110]
     else if a = 13 then [92, 114] else if a = 9 then [92, 116] else if a = 11 then [92, 118]
     else [92, 120] @ hexDigits 2 a)"

definition escapeRune :: "nat \<Rightarrow> nat list" where
  "escapeRune u = (if u < 65536 then [92, 117] @ hexDigits 4 u else [92, 85] @ hexDigits 8 u)"

fun quoteBytes :: "(nat \<Rightarrow> bool) \<Rightarrow> nat list \<Rightarrow> nat list" where
  "quoteBytes printable [] = []"
| "quoteBytes printable (a # r) =
     (if a < 128 then escapeAscii a @ quoteBytes printable r
      else (case decodeRune (a # r) of
          None \<Rightarrow> [92, 120] @ hexDigits 2 a @ quoteBytes printable r
        | Some (u, k) \<Rightarrow> (if printable u then a # take k r else escapeRune u) @ quoteBytes printable (drop k r)))"

definition goQuote :: "(nat \<Rightarrow> bool) \<Rightarrow> string \<Rightarrow> string" where
  "goQuote printable s = map char_of (34 # quoteBytes printable (map of_char s) @ [34])"

section \<open>The file\<close>

fun showNat :: "nat \<Rightarrow> string" where
  "showNat n = (if n < 10 then [char_of (48 + n)] else showNat (n div 10) @ [char_of (48 + n mod 10)])"

record composeInput =
  ci_name :: string
  ci_image :: string
  ci_route :: string
  ci_data :: string
  ci_workspace :: string
  ci_network :: string
  ci_cpu :: rat
  ci_memory :: int
  ci_terminal :: bool
  ci_hostAccess :: bool

definition heapMB :: "int \<Rightarrow> int" where
  "heapMB memory = (let heap = memory * 3 div 4 in if heap < 128 then 128 else heap)"

definition composeLines :: "(rat \<Rightarrow> string) \<Rightarrow> composeInput \<Rightarrow> (string \<times> string option) list" where
  "composeLines fmtCPU i =
     (let cpu = fmtCPU (ci_cpu i); mem = showNat (nat (ci_memory i)) @ ''m'';
          network = (if ci_network i = [] then ''xcloud_network'' else ci_network i)
      in [(''# Managed by xCloud. Manual edits are overwritten on the next lifecycle action.'', None),
          (''name: xcloud-'' @ ci_route i, None), (''services:'', None), (''  alemonx:'', None),
          (''    container_name: '', Some (ci_name i)), (''    image: '', Some (ci_image i)),
          (''    restart: unless-stopped'', None), (''    init: true'', None), (''    cpus: '', Some cpu),
          (''    mem_limit: '', Some mem), (''    memswap_limit: '', Some mem), (''    shm_size: 1g'', None)] @
         (if ci_terminal i then [(''    stdin_open: true'', None), (''    tty: true'', None)] else []) @
         (if ci_hostAccess i then [(''    extra_hosts:'', None), (''      - \"host.docker.internal:host-gateway\"'', None)] else []) @
         [(''    healthcheck:'', None),
          (''      test: [\"CMD-SHELL\", \"curl -fsS http://127.0.0.1:17390/healthz >/dev/null\"]'', None),
          (''      interval: 30s'', None), (''      timeout: 5s'', None), (''      retries: 3'', None), (''      start_period: 20s'', None),
          (''    environment:'', None), (''      TZ: \"Asia/Shanghai\"'', None), (''      HOME: \"/root\"'', None),
          (''      XDG_CONFIG_HOME: \"/root/config\"'', None), (''      XDG_CACHE_HOME: \"/root/cache\"'', None),
          (''      ALX_DEPLOYMENT: \"production\"'', None), (''      ALX_OPS_STORAGE: \"sqlite\"'', None), (''      ALX_CONTAINER: \"1\"'', None),
          (''      ALX_WORKSPACE: \"/app/workspace\"'', None), (''      ALEMONJS_SETUP_ROOTS: \"/app/workspace\"'', None),
          (''      ALX_PRIVILEGED_MODE: \"enabled\"'', None), (''      GOMAXPROCS: '', Some cpu),
          (''      NODE_OPTIONS: '', Some (''--max-old-space-size='' @ showNat (nat (heapMB (ci_memory i))))),
          (''      UV_THREADPOOL_SIZE: '', Some cpu), (''      OMP_NUM_THREADS: '', Some cpu), (''      MKL_NUM_THREADS: '', Some cpu),
          (''      OPENBLAS_NUM_THREADS: '', Some cpu), (''      NUMEXPR_MAX_THREADS: '', Some cpu), (''      PYTHONUNBUFFERED: \"1\"'', None),
          (''    volumes:'', None), (''      - '', Some (ci_data i @ '':/root'')), (''      - '', Some (ci_workspace i @ '':/app/workspace'')),
          (''    labels:'', None), (''      xcloud.managed: \"true\"'', None), (''      xcloud.route: '', Some (ci_route i)),
          (''    networks:'', None), (''      - xcloud_network'', None), (''networks:'', None), (''  xcloud_network:'', None),
          (''    external: true'', None), (''    name: '', Some network)])"

definition newline :: char where "newline = CHR 0x0A"

definition renderLine :: "(nat \<Rightarrow> bool) \<Rightarrow> string \<times> string option \<Rightarrow> string" where
  "renderLine printable l = fst l @ (case snd l of None \<Rightarrow> [] | Some v \<Rightarrow> goQuote printable v)"

definition Compose :: "(nat \<Rightarrow> bool) \<Rightarrow> (rat \<Rightarrow> string) \<Rightarrow> composeInput \<Rightarrow> error + string" where
  "Compose printable fmtCPU i =
     guardE (ValidName (ci_name i) \<and> ValidRoute (ci_route i) \<and> trimSpace (ci_image i) \<noteq> [] \<and> 0 < ci_cpu i \<and> 256 \<le> ci_memory i \<and>
             ci_data i \<noteq> [] \<and> ci_workspace i \<noteq> []) (Msg ''instance configuration invalid'')
     (Inr (concat (map (\<lambda>l. renderLine printable l @ [newline]) (composeLines fmtCPU i))))"

section \<open>What quoting promises\<close>

text \<open>Reading a double-quoted scalar after its opening quote: a backslash takes the next character with it,
  and the first quote that is not taken ends the scalar, with nothing after it.\<close>

fun closes :: "nat list \<Rightarrow> bool" where
  "closes [] = False"
| "closes (a # r) = (if a = 34 then r = [] else if a = 92 then (case r of [] \<Rightarrow> False | _ # r2 \<Rightarrow> closes r2) else closes r)"

definition scalar :: "string \<Rightarrow> bool" where
  "scalar s \<longleftrightarrow> (case map of_char s of [] \<Rightarrow> False | a # r \<Rightarrow> a = (34 :: nat) \<and> closes r)"

text \<open>Bytes that neither end the scalar nor a line.\<close>

definition tame :: "nat \<Rightarrow> bool" where
  "tame a \<longleftrightarrow> a \<noteq> 34 \<and> a \<noteq> 92 \<and> a \<noteq> 10 \<and> a < 256"

lemma closes_tame: "list_all tame xs \<Longrightarrow> closes (xs @ r) = closes r"
  by (induction xs) (simp_all add: tame_def)

lemma hexByte_tame: "tame (hexByte n)"
proof -
  have "n mod 16 < 16" by simp
  then show ?thesis unfolding hexByte_def tame_def by (cases "n mod 16 < 10") simp_all
qed

lemma hexDigits_tame: "list_all tame (hexDigits k n)"
  by (induction k arbitrary: n) (simp_all add: hexByte_tame)

text \<open>An escape is a backslash, one character, and tame bytes; any other piece is tame.\<close>

definition piece :: "nat list \<Rightarrow> bool" where
  "piece xs \<longleftrightarrow> list_all tame xs \<or> (\<exists>c r. xs = 92 # c # r \<and> c \<noteq> 10 \<and> c < 256 \<and> list_all tame r)"

text \<open>Text that leaves the scalar as it was.\<close>

definition harmless :: "nat list \<Rightarrow> bool" where
  "harmless xs \<longleftrightarrow> (\<forall>r. closes (xs @ r) = closes r) \<and> 10 \<notin> set xs \<and> (\<forall>a \<in> set xs. a < 256)"

lemma harmless_Nil [simp]: "harmless []"
  by (simp add: harmless_def)

lemma harmless_append: "harmless xs \<Longrightarrow> harmless ys \<Longrightarrow> harmless (xs @ ys)"
  by (auto simp: harmless_def)

lemma tame_harmless: "list_all tame xs \<Longrightarrow> harmless xs"
  unfolding harmless_def by (simp add: closes_tame) (auto simp: list_all_iff tame_def)

lemma piece_harmless:
  assumes "piece xs"
  shows "harmless xs"
proof (cases "list_all tame xs")
  case False
  then obtain c r where xs: "xs = 92 # c # r" "c \<noteq> 10" "c < 256" and r: "harmless r"
    using assms tame_harmless by (auto simp: piece_def)
  show ?thesis using xs(2,3) r unfolding xs(1) harmless_def by simp
qed (rule tame_harmless)

lemma ascii_piece: "a < 128 \<Longrightarrow> piece (escapeAscii a)"
proof -
  assume a: "a < 128"
  have "piece ([92, 120] @ hexDigits 2 a)" using hexDigits_tame [of 2 a] by (simp add: piece_def)
  then show ?thesis using a by (auto simp: escapeAscii_def piece_def tame_def)
qed

lemma rune_piece: "piece (escapeRune u)"
  using hexDigits_tame [of 4 u] hexDigits_tame [of 8 u] by (simp add: escapeRune_def piece_def)

lemma cont_tame: "contByte b \<Longrightarrow> tame b"
  by (simp add: contByte_def tame_def)

lemma decode_tame:
  assumes "decodeRune (a # r) = Some (u, k)"
  shows "list_all tame (a # take k r)"
proof -
  obtain b r1 where r: "r = b # r1" using assms by (cases r) simp_all
  show ?thesis
  proof (cases "194 \<le> a \<and> a \<le> 223")
    case True
    then have "contByte b" "k = 1" using assms by (simp_all add: r split: if_splits)
    then show ?thesis using True cont_tame by (simp add: r) (simp add: tame_def)
  next
    case f: False
    have two: "(194 \<le> a \<and> a \<le> 223) = False" using f by blast
    obtain c r2 where r1: "r1 = c # r2" using assms unfolding r decodeRune.simps two by (cases r1) simp_all
    show ?thesis
    proof (cases "224 \<le> a \<and> a \<le> 239")
      case True
      then have "contByte b" "contByte c" "k = 2" using assms unfolding r r1 decodeRune.simps two by (simp_all split: if_splits)
      then show ?thesis using True cont_tame by (simp add: r r1) (simp add: tame_def)
    next
      case g: False
      have three: "(224 \<le> a \<and> a \<le> 239) = False" using g by blast
      obtain d r3 where r2: "r2 = d # r3" using assms unfolding r r1 decodeRune.simps list.case two three by (cases r2) simp_all
      have "contByte b" "contByte c" "contByte d" "k = 3" "240 \<le> a \<and> a \<le> 244"
        using assms unfolding r r1 r2 decodeRune.simps list.case two three by (simp_all split: if_splits)
      then show ?thesis using cont_tame by (simp add: r r1 r2) (simp add: tame_def)
    qed
  qed
qed

lemma quote_harmless: "(\<forall>a \<in> set s. a < 256) \<Longrightarrow> harmless (quoteBytes pr s)"
proof (induction pr s rule: quoteBytes.induct)
  case (2 pr a s)
  show ?case
  proof (cases "a < 128")
    case True
    have "harmless (quoteBytes pr s)" using 2(1) [OF True] 2(4) by simp
    then show ?thesis using True harmless_append [OF piece_harmless [OF ascii_piece [OF True]]] by simp
  next
    case False
    show ?thesis
    proof (cases "decodeRune (a # s)")
      case None
      have q: "harmless (quoteBytes pr s)" using 2(2) [OF False None] 2(4) by simp
      have "harmless ([92, 120] @ hexDigits 2 a)" using hexDigits_tame [of 2 a] by (intro piece_harmless) (simp add: piece_def)
      from harmless_append [OF this q] have "harmless (([92, 120] @ hexDigits 2 a) @ quoteBytes pr s)" .
      then show ?thesis using False None by (simp only: quoteBytes.simps if_False option.case append_assoc)
    next
      case (Some uk)
      obtain u k where uk: "uk = (u, k)" by (cases uk)
      let ?p = "if pr u then a # take k s else escapeRune u"
      have "harmless ?p" using piece_harmless decode_tame [of a s u k] Some uk rune_piece by (simp add: piece_def)
      moreover have "\<forall>a \<in> set (drop k s). a < 256" using 2(4) by (meson in_set_dropD list.set_intros(2))
      then have "harmless (quoteBytes pr (drop k s))" using 2(3) [OF False Some uk [symmetric]] by blast
      ultimately have "harmless (?p @ quoteBytes pr (drop k s))" by (rule harmless_append)
      then show ?thesis using False Some uk by (simp only: quoteBytes.simps if_False option.case prod.case)
    qed
  qed
qed simp

lemma quote_scalar: "scalar (goQuote pr v) \<and> newline \<notin> set (goQuote pr v)"
proof -
  let ?b = "quoteBytes pr (map of_char v)"
  have h: "harmless ?b" by (rule quote_harmless) simp
  then have "map (of_char :: char \<Rightarrow> nat) (map char_of ?b) = ?b" by (auto simp: harmless_def intro!: map_idI)
  moreover have "closes (?b @ [34])" using h by (simp add: harmless_def)
  ultimately have "scalar (goQuote pr v)" by (simp add: scalar_def goQuote_def)
  moreover have "newline \<notin> set (goQuote pr v)"
  proof
    assume "newline \<in> set (goQuote pr v)"
    then obtain a where a: "a \<in> set (34 # ?b @ [34])" "newline = char_of a" unfolding goQuote_def set_map by blast
    have "a < 256" "a \<noteq> 10" using a(1) h by (auto simp: harmless_def)
    moreover have "of_char (char_of a :: char) = (10 :: nat)" unfolding a(2) [symmetric] by (simp add: newline_def)
    ultimately show False by simp
  qed
  ultimately show ?thesis by blast
qed

section \<open>Properties\<close>

lemma split_lines:
  "(\<forall>l \<in> set ls. newline \<notin> set l) \<Longrightarrow> splitOn newline (concat (map (\<lambda>l. l @ [newline]) ls)) = ls @ [[]]"
proof (induction ls)
  case (Cons l ls)
  have "splitOn newline (w @ newline # s) = w # splitOn newline s" if "newline \<notin> set w" for w s
    using that by (induction w) auto
  then show ?case using Cons by simp
qed simp

lemma skeleton_same:
  "ci_route i = ci_route j \<Longrightarrow> ci_terminal i = ci_terminal j \<Longrightarrow> ci_hostAccess i = ci_hostAccess j \<Longrightarrow>
     map fst (composeLines f i) = map fst (composeLines f j)"
  by (simp add: composeLines_def Let_def)

lemma skeleton_lines: "ValidRoute (ci_route i) \<Longrightarrow> (\<forall>p \<in> set (map fst (composeLines f i)). newline \<notin> set p)"
proof -
  assume "ValidRoute (ci_route i)"
  then have "newline \<notin> set (ci_route i)"
    by (cases "ci_route i") (auto simp: ValidRoute_def newline_def lowerHex_def Let_def list_all_iff)
  then show ?thesis by (cases "ci_terminal i"; cases "ci_hostAccess i") (simp_all add: composeLines_def Let_def newline_def)
qed

text \<open>C32. No value breaks out of its place. The file written for an instance has the same lines, up to the value each one
  ends with, as the file for any other instance with the same route, terminal and host access; and each value is one
  double-quoted scalar that ends at the end of its line, whatever image, name, path or network was asked for.\<close>

theorem compose_contained:
  assumes c: "Compose printable fmtCPU i = Inr t"
    and same: "ci_route i = ci_route j" "ci_terminal i = ci_terminal j" "ci_hostAccess i = ci_hostAccess j"
  shows "\<exists>vs. splitOn newline t = map2 (@) (map fst (composeLines fmtCPU j)) vs @ [[]] \<and>
    length vs = length (composeLines fmtCPU j) \<and> list_all (\<lambda>v. v = [] \<or> scalar v) vs"
proof -
  let ?ls = "composeLines fmtCPU i"
  let ?v = "\<lambda>l. case snd l of None \<Rightarrow> [] | Some x \<Rightarrow> goQuote printable x"
  have t: "t = concat (map (\<lambda>l. l @ [newline]) (map (renderLine printable) ?ls))" and r: "ValidRoute (ci_route i)"
    using c by (auto simp: Compose_def guardE_Inr_iff comp_def)
  have "newline \<notin> set (renderLine printable l)" if "l \<in> set ?ls" for l
    using skeleton_lines [OF r, of fmtCPU] that quote_scalar by (auto simp: renderLine_def split: option.split)
  then have "splitOn newline t = map (renderLine printable) ?ls @ [[]]" unfolding t by (intro split_lines) auto
  moreover have "map (renderLine printable) ls = map2 (@) (map fst ls) (map ?v ls)" for ls
    by (induction ls) (simp_all add: renderLine_def)
  moreover have "length ?ls = length (composeLines fmtCPU j)" using skeleton_same [OF same] by (metis length_map)
  moreover have "list_all (\<lambda>v. v = [] \<or> scalar v) (map ?v ?ls)" using quote_scalar by (auto simp: list_all_iff split: option.split)
  ultimately show ?thesis unfolding skeleton_same [OF same, symmetric] by (intro exI [of _ "map ?v ?ls"]) simp
qed

definition exampleCompose :: composeInput where
  "exampleCompose = \<lparr>ci_name = ''xcloud-r0123456789abcdef'', ci_image = ''img\"'' @ [newline] @ ''privileged: true'', ci_route = ''r0123456789abcdef'',
     ci_data = ''/d'', ci_workspace = ''/w'', ci_network = [], ci_cpu = 1, ci_memory = 512, ci_terminal = False, ci_hostAccess = False\<rparr>"

theorem compose_contained_witness:
  "\<exists>t vs. Compose (\<lambda>_. True) (\<lambda>_. ''1'') exampleCompose = Inr t \<and>
     splitOn newline t = map2 (@) (map fst (composeLines (\<lambda>_. ''1'') (exampleCompose\<lparr>ci_image := ''other''\<rparr>))) vs @ [[]]"
proof -
  have v: "ValidName ''xcloud-r0123456789abcdef''" "ValidRoute ''r0123456789abcdef''" by code_simp+
  have "trimSpace (''img\"'' @ [newline] @ ''privileged: true'') \<noteq> []" by code_simp
  then obtain t where t: "Compose (\<lambda>_. True) (\<lambda>_. ''1'') exampleCompose = Inr t" using v by (simp add: Compose_def exampleCompose_def)
  from compose_contained [OF t, of "exampleCompose\<lparr>ci_image := ''other''\<rparr>"] t show ?thesis by auto
qed

end
