(* ===== verification/HostAgent.thy ===== *)
theory HostAgent
  imports Compose
begin

text \<open>
  The agent on a customer's node (\<open>control/v2.go\<close>, \<open>agent-core/stats.go\<close>): the commands the tunnel delivers, the
  record it keeps of every operation, and the Docker commands it runs. Docker is a parameter: a function from the
  arguments and the host to success, output and the host afterwards, so it may change anything that is not forbidden
  by a hypothesis. The record files of operations, \<open>operations/<name>/<id>.json\<close>, are a table by path, replaced by a
  rename and so never half written; \<open>h_recording\<close> says whether they can be written at the moment, for a failed
  write is silent; \<open>cancelled\<close> tells from the host whether the control plane has cancelled the command; \<open>decode\<close> is the JSON decoder of \<open>docker stats\<close>.
\<close>

record managedOperation =
  mo_id :: string
  mo_action :: string
  mo_desired :: string
  mo_status :: string
  mo_observed :: string
  mo_error :: string
  mo_started :: int
  mo_finished :: "int option"

record managedPayload =
  p_name :: string
  p_image :: string
  p_cpu :: rat
  p_memory :: int
  p_route :: string
  p_keepStopped :: bool
  p_hostAccess :: bool
  p_path :: string
  p_content :: string
  p_tail :: string
  p_operation :: string

record 'w host =
  h_files :: fs
  h_ops :: "(path \<times> managedOperation) list"
  h_recording :: bool
  h_now :: int
  h_docker :: 'w

type_synonym 'w docker = "string list \<Rightarrow> 'w host \<Rightarrow> (bool \<times> string) \<times> 'w host"

text \<open>The environment of the process.\<close>

record agentConfig =
  ac_root :: path
  ac_network :: string
  ac_printable :: "nat \<Rightarrow> bool"
  ac_fmtCPU :: "rat \<Rightarrow> string"

datatype opError = Plain string | OpError (op_code: string) (op_message: string) (op_diagnostic: string)

type_synonym 'w act = "'w host \<Rightarrow> opError option \<times> 'w host"

definition andThen :: "'w act \<Rightarrow> 'w act \<Rightarrow> 'w act" where
  "andThen a b h = (case a h of (Some e, g) \<Rightarrow> (Some e, g) | (None, g) \<Rightarrow> b g)"

section \<open>Names and texts\<close>

definition safeManagedName :: "string \<Rightarrow> bool" where
  "safeManagedName v = ValidName v"

definition managedDir :: "agentConfig \<Rightarrow> string \<Rightarrow> opError + path" where
  "managedDir cfg name = guardE (safeManagedName name) (Plain ''managed name invalid'')
     (case InstanceDir (ac_root cfg) name of Inl _ \<Rightarrow> Inl (Plain ''managed name invalid'') | Inr d \<Rightarrow> Inr d)"

definition opChar :: "char \<Rightarrow> bool" where
  "opChar c \<longleftrightarrow> (let n = (of_char c :: nat) in (97 \<le> n \<and> n \<le> 122) \<or> (65 \<le> n \<and> n \<le> 90) \<or> (48 \<le> n \<and> n \<le> 57) \<or>
     c = CHR ''-'' \<or> c = CHR ''_'')"

definition managedOperationPath :: "agentConfig \<Rightarrow> string \<Rightarrow> string \<Rightarrow> opError + path" where
  "managedOperationPath cfg name oid =
     guardE (safeManagedName name \<and> 8 \<le> length oid \<and> length oid \<le> 128 \<and> list_all opChar oid) (Plain ''operation id invalid'')
     (Inr (ac_root cfg @ [''operations'', name, oid @ ''.json'']))"

definition desiredManagedState :: "string \<Rightarrow> string" where
  "desiredManagedState action = (if action = ''stop'' then ''stopped''
     else if action = ''destroy'' \<or> action = ''purge'' then ''absent'' else ''running'')"

definition limitedDiagnostic :: "string \<Rightarrow> string" where
  "limitedDiagnostic value = (let v = trimSpace value in if length v \<le> 16384 then v else take 16384 v @ ''(cut off)'')"

definition truncateOperationMessage :: "string \<Rightarrow> string" where
  "truncateOperationMessage value = (let v = trimSpace value in if length v > 512 then take 512 v else v)"

definition containsText :: "string \<Rightarrow> string \<Rightarrow> bool" where
  "containsText s t = list_ex (\<lambda>k. take (length t) (drop k s) = t) [0..<Suc (length s)]"

definition pathText :: "path \<Rightarrow> string" where
  "pathText p = CHR ''/'' # joinWith (CHR ''/'') p"

definition composeFile :: "path \<Rightarrow> path" where
  "composeFile dir = dir @ [''docker-compose.yml'']"

section \<open>Records of operations\<close>

definition writeManagedOperation :: "agentConfig \<Rightarrow> string \<Rightarrow> managedOperation \<Rightarrow> 'w host \<Rightarrow> 'w host" where
  "writeManagedOperation cfg name oper h = (case managedOperationPath cfg name (mo_id oper) of Inl _ \<Rightarrow> h
     | Inr p \<Rightarrow> if h_recording h then h\<lparr>h_ops := AList.update p oper (h_ops h)\<rparr> else h)"

definition beginManagedOperation ::
  "agentConfig \<Rightarrow> managedPayload \<Rightarrow> string \<Rightarrow> 'w host \<Rightarrow> managedOperation option \<times> 'w host" where
  "beginManagedOperation cfg p action h =
     (if trimSpace (p_operation p) = [] then (None, h)
      else let oper = \<lparr>mo_id = p_operation p, mo_action = action,
                 mo_desired = (if p_keepStopped p then ''stopped'' else desiredManagedState action),
                 mo_status = ''running'', mo_observed = [], mo_error = [], mo_started = h_now h, mo_finished = None\<rparr>
           in (Some oper, writeManagedOperation cfg (p_name p) oper h))"

definition finishManagedOperation ::
  "agentConfig \<Rightarrow> string \<Rightarrow> managedOperation option \<Rightarrow> string \<Rightarrow> string \<Rightarrow> string \<Rightarrow> 'w host \<Rightarrow> 'w host" where
  "finishManagedOperation cfg name oper status observed message h =
     (case oper of None \<Rightarrow> h
      | Some x \<Rightarrow> writeManagedOperation cfg name (x\<lparr>mo_status := status, mo_observed := observed,
           mo_error := truncateOperationMessage message, mo_finished := Some (h_now h)\<rparr>) h)"

definition inspectManagedState :: "'w docker \<Rightarrow> string \<Rightarrow> 'w host \<Rightarrow> string \<times> 'w host" where
  "inspectManagedState docker name h =
     (if \<not> safeManagedName name then ([], h)
      else case docker [''inspect'', ''--format'', ''{{.State.Status}}'', name] h of
        ((ok, out), g) \<Rightarrow>
          (if \<not> ok then ''absent''
           else let s = trimSpace out in if s \<in> {''running'', ''exited'', ''created'', ''paused''} then s else ''unknown'', g))"

definition readManagedOperation :: "agentConfig \<Rightarrow> 'w docker \<Rightarrow> string \<Rightarrow> string \<Rightarrow> 'w host \<Rightarrow> (opError + managedOperation) \<times> 'w host" where
  "readManagedOperation cfg docker name oid h =
     (case managedOperationPath cfg name oid of Inl e \<Rightarrow> (Inl e, h)
      | Inr p \<Rightarrow> (case inspectManagedState docker name h of (observed, g) \<Rightarrow>
          (case map_of (h_ops h) p of
             None \<Rightarrow> (Inr \<lparr>mo_id = oid, mo_action = [], mo_desired = [], mo_status = ''unknown'', mo_observed = observed,
                 mo_error = ''no local record'', mo_started = 0, mo_finished = None\<rparr>, g)
           | Some oper \<Rightarrow> (Inr (oper\<lparr>mo_observed := observed\<rparr>), g))))"

text \<open>The file is as old as its last write: the start of the operation, or its end.\<close>

definition recordTime :: "managedOperation \<Rightarrow> int" where
  "recordTime x = (case mo_finished x of None \<Rightarrow> mo_started x | Some t \<Rightarrow> t)"

definition cleanupManagedOperations :: "'w host \<Rightarrow> 'w host" where
  "cleanupManagedOperations h =
     h\<lparr>h_ops := filter (\<lambda>(_, x). \<not> recordTime x < h_now h - 30 * day) (h_ops h)\<rparr>"

section \<open>Readiness\<close>

definition controlDockerCommand :: "'w docker \<Rightarrow> string list \<Rightarrow> 'w host \<Rightarrow> (bool \<times> string) \<times> 'w host" where
  "controlDockerCommand docker args h = (case docker args h of ((ok, out), g) \<Rightarrow> ((ok, trimSpace out), g))"

definition networkChar :: "char \<Rightarrow> bool" where
  "networkChar c \<longleftrightarrow> (let n = (of_char c :: nat) in (97 \<le> n \<and> n \<le> 122) \<or> (65 \<le> n \<and> n \<le> 90) \<or> (48 \<le> n \<and> n \<le> 57) \<or>
     c = CHR ''_'' \<or> c = CHR ''-'' \<or> c = CHR ''.'')"

definition safeDockerNetwork :: "string \<Rightarrow> bool" where
  "safeDockerNetwork v \<longleftrightarrow> v \<noteq> [] \<and> length v \<le> 128 \<and> hd v \<notin> {CHR ''.'', CHR ''_'', CHR ''-''} \<and> list_all networkChar v"

definition managedDockerNetwork :: "agentConfig \<Rightarrow> opError + string" where
  "managedDockerNetwork cfg =
     (let name = (if trimSpace (ac_network cfg) = [] then ''xcloud_network'' else trimSpace (ac_network cfg))
      in guardE (safeDockerNetwork name) (OpError ''network_invalid'' ''network name invalid'' ''invalid XCLOUD_DOCKER_NETWORK'') (Inr name))"

definition ensureManagedDockerNetwork :: "agentConfig \<Rightarrow> 'w docker \<Rightarrow> 'w act" where
  "ensureManagedDockerNetwork cfg docker h =
     (case managedDockerNetwork cfg of Inl e \<Rightarrow> (Some e, h)
      | Inr name \<Rightarrow>
         (case controlDockerCommand docker [''network'', ''inspect'', name] h of
            ((True, _), g) \<Rightarrow> (None, g)
          | ((False, _), g) \<Rightarrow>
             (case controlDockerCommand docker [''network'', ''create'', ''--driver'', ''bridge'', name] g of
                ((True, _), g2) \<Rightarrow> (None, g2)
              | ((False, created), g2) \<Rightarrow>
                 (case controlDockerCommand docker [''network'', ''inspect'', name] g2 of
                    ((True, _), g3) \<Rightarrow> (None, g3)
                  | ((False, _), g3) \<Rightarrow> (Some (OpError ''network_unavailable'' ''network unavailable'' (limitedDiagnostic created)), g3)))))"

text \<open>The first issue found, if any: the callers look at no other.\<close>

definition writableDataRoot :: "agentConfig \<Rightarrow> 'w host \<Rightarrow> bool \<times> 'w host" where
  "writableDataRoot cfg h = (case mkdirAll (h_files h) (ac_root cfg) of (e, f) \<Rightarrow> (e = None, h\<lparr>h_files := f\<rparr>))"

definition checkRuntimeReadiness :: "agentConfig \<Rightarrow> 'w docker \<Rightarrow> 'w host \<Rightarrow> (string \<times> string) list \<times> 'w host" where
  "checkRuntimeReadiness cfg docker h =
     (let (issues, h1) = (case controlDockerCommand docker [''info'', ''--format'', ''{{.ServerVersion}}''] h of
            ((False, _), g) \<Rightarrow> ([(''docker_unavailable'', ''Docker unavailable'')], g)
          | ((True, _), g) \<Rightarrow> (case controlDockerCommand docker [''compose'', ''version'', ''--short''] g of
                ((ok, _), g2) \<Rightarrow> (if ok then [] else [(''compose_unavailable'', ''Compose unavailable'')], g2)));
          (writable, h2) = writableDataRoot cfg h1;
          issues2 = issues @ (if writable then [] else [(''data_root_unavailable'', ''data root not writable'')])
      in if issues2 \<noteq> [] then (issues2, h2)
         else case ensureManagedDockerNetwork cfg docker h2 of
             (None, h3) \<Rightarrow> ([], h3) | (Some e, h3) \<Rightarrow> ([(op_code e, op_message e)], h3))"

section \<open>Compose commands\<close>

text \<open>Why a command failed: by what Docker printed.\<close>

definition classify :: "string \<Rightarrow> opError" where
  "classify diagnostic =
     (let lower = toLower diagnostic
      in if containsText lower ''network'' \<and> containsText lower ''not found'' then OpError ''network_unavailable'' ''network unavailable'' diagnostic
         else if containsText lower ''no space left'' then OpError ''disk_full'' ''disk full'' diagnostic
         else if containsText lower ''pull access denied'' \<or> containsText lower ''manifest unknown'' \<or> containsText lower ''failed to pull''
           then OpError ''image_unavailable'' ''image unavailable'' diagnostic
         else if containsText lower ''cannot connect to the docker daemon'' then OpError ''docker_unavailable'' ''Docker unavailable'' diagnostic
         else OpError ''compose_failed'' ''compose failed'' diagnostic)"

text \<open>\<open>cmd.Dir\<close> must be a directory, or the process does not start.\<close>

definition composeCommand :: "'w docker \<Rightarrow> ('w host \<Rightarrow> bool) \<Rightarrow> path \<Rightarrow> string \<Rightarrow> string list \<Rightarrow> 'w act" where
  "composeCommand docker cancelled dir name args h =
     (case (if stat (h_files h) dir \<noteq> Inr Directory then ((False, []), h)
            else docker ([''compose'', ''--project-name'', name, ''--file'', pathText (composeFile dir)] @ args) h) of
        ((True, _), g) \<Rightarrow> (None, g)
      | ((False, out), g) \<Rightarrow>
          (Some (if cancelled g then OpError ''command_cancelled'' ''cancelled'' ''docker compose command cancelled''
                 else classify (limitedDiagnostic out)), g))"

definition dockerObjectNotFound :: "string \<Rightarrow> bool" where
  "dockerObjectNotFound out \<longleftrightarrow> containsText (toLower out) ''no such container'' \<or> containsText (toLower out) ''no such object''"

definition removeManagedRuntime :: "'w docker \<Rightarrow> ('w host \<Rightarrow> bool) \<Rightarrow> path \<Rightarrow> string \<Rightarrow> 'w act" where
  "removeManagedRuntime docker cancelled dir name =
     andThen (\<lambda>h. case stat (h_files h) (composeFile dir) of
           Inr _ \<Rightarrow> composeCommand docker cancelled dir name [''down'', ''--remove-orphans''] h
         | Inl ENOENT \<Rightarrow> (None, h)
         | Inl _ \<Rightarrow> (Some (Plain ''cannot check the compose file''), h))
       (\<lambda>h. case docker [''rm'', ''-f'', name] h of
           ((ok, out), g) \<Rightarrow> (if ok \<or> dockerObjectNotFound out then None else Some (Plain ''container not removed''), g))"

definition makeDir :: "path \<Rightarrow> 'w act" where
  "makeDir p h = (case mkdirAll (h_files h) p of (e, f) \<Rightarrow> (case e of None \<Rightarrow> None | Some _ \<Rightarrow> Some (Plain ''mkdir''), h\<lparr>h_files := f\<rparr>))"

definition putFile :: "path \<Rightarrow> string \<Rightarrow> 'w act" where
  "putFile p c h = (case writeFile (h_files h) p c of Inl _ \<Rightarrow> (Some (Plain ''write''), h) | Inr f \<Rightarrow> (None, h\<lparr>h_files := f\<rparr>))"

definition writeCompose :: "agentConfig \<Rightarrow> managedPayload \<Rightarrow> path \<Rightarrow> 'w act" where
  "writeCompose cfg p dir =
     (if p_image p = [] \<or> p_cpu p \<le> 0 \<or> p_memory p \<le> 0 \<or> \<not> safeManagedName (p_name p) then (\<lambda>h. (Some (Plain ''configuration invalid''), h))
      else andThen (makeDir dir) (andThen (makeDir (dir @ [''data''])) (andThen (makeDir (dir @ [''workspace'']))
        (case managedDockerNetwork cfg of Inl e \<Rightarrow> (\<lambda>h. (Some e, h))
         | Inr network \<Rightarrow>
            (case Compose (ac_printable cfg) (ac_fmtCPU cfg)
                  \<lparr>ci_name = p_name p, ci_image = p_image p, ci_route = p_route p, ci_data = pathText (dir @ [''data'']),
                   ci_workspace = pathText (dir @ [''workspace'']), ci_network = network, ci_cpu = p_cpu p, ci_memory = p_memory p,
                   ci_terminal = False, ci_hostAccess = p_hostAccess p\<rparr> of
               Inl _ \<Rightarrow> (\<lambda>h. (Some (Plain ''configuration invalid''), h))
             | Inr text \<Rightarrow> putFile (composeFile dir) text)))))"

definition managedActions :: "string list" where
  "managedActions = [''create'', ''start'', ''stop'', ''restart'', ''destroy'', ''purge'', ''resize'', ''reinstall'', ''pull-image'']"

definition upActions :: "string list" where
  "upActions = [''create'', ''resize'', ''reinstall'', ''start'', ''restart'']"

text \<open>\<open>runManagedCompose\<close> between the two records of the operation.\<close>

definition composeAction :: "agentConfig \<Rightarrow> 'w docker \<Rightarrow> ('w host \<Rightarrow> bool) \<Rightarrow> string \<Rightarrow> managedPayload \<Rightarrow> path \<Rightarrow> 'w act" where
  "composeAction cfg docker cancelled action p dir h =
     (case checkRuntimeReadiness cfg docker h of
        ((code, message) # _, h1) \<Rightarrow> (Some (OpError code message (''runtime preflight failed: '' @ code)), h1)
      | ([], h1) \<Rightarrow>
         if action = ''pull-image'' then
           (if p_image p = [] then (Some (Plain ''image invalid''), h1)
            else case docker [''pull'', p_image p] h1 of ((ok, out), g) \<Rightarrow> (if ok then None else Some (Plain ''pull failed''), g))
         else andThen (if action \<in> set upActions then writeCompose cfg p dir else (\<lambda>h. (None, h)))
           (\<lambda>h2. if action = ''purge'' then
               andThen (composeCommand docker cancelled dir (p_name p) [''down'', ''--remove-orphans'', ''--volumes''])
                 (\<lambda>h3. (None, h3\<lparr>h_files := removeAll (h_files h3) dir\<rparr>)) h2
             else if action = ''destroy'' then removeManagedRuntime docker cancelled dir (p_name p) h2
             else if action = ''stop'' then composeCommand docker cancelled dir (p_name p) [''stop''] h2
             else if p_keepStopped p then composeCommand docker cancelled dir (p_name p) [''up'', ''-d'', ''--no-start''] h2
             else composeCommand docker cancelled dir (p_name p) [''up'', ''-d'', ''--remove-orphans''] h2) h1)"

text \<open>The verdict the record keeps, and the text of an error.\<close>

definition opVerdict :: "bool \<Rightarrow> opError option \<Rightarrow> string" where
  "opVerdict cancelled e = (if cancelled then ''unknown'' else if e = None then ''succeeded'' else ''failed'')"

definition errorText :: "opError option \<Rightarrow> string" where
  "errorText e = (case e of None \<Rightarrow> [] | Some (Plain m) \<Rightarrow> m | Some (OpError _ m _) \<Rightarrow> m)"

definition runManagedCompose :: "agentConfig \<Rightarrow> 'w docker \<Rightarrow> ('w host \<Rightarrow> bool) \<Rightarrow> string \<Rightarrow> managedPayload \<Rightarrow> 'w act" where
  "runManagedCompose cfg docker cancelled action p h =
     (case managedDir cfg (p_name p) of Inl e \<Rightarrow> (Some e, h)
      | Inr dir \<Rightarrow>
         if action \<notin> set managedActions then (Some (Plain ''unsupported action''), h)
         else (case beginManagedOperation cfg p action h of (oper, h1) \<Rightarrow>
           (case composeAction cfg docker cancelled action p dir h1 of (e, h2) \<Rightarrow>
             if oper = None then (e, h2)
             else (case inspectManagedState docker (p_name p) h2 of (observed, h3) \<Rightarrow>
               (e, finishManagedOperation cfg (p_name p) oper (opVerdict (cancelled h3) e) observed
                   (if cancelled h3 then ''cancelled, waiting for the state of the container'' else truncateOperationMessage (errorText e)) h3)))))"

section \<open>The command set\<close>

record containerStats =
  cs_cpu :: string
  cs_memory :: string
  cs_memoryPercent :: string
  cs_network :: string
  cs_block :: string
  cs_pids :: string

definition ParseContainerStats :: "(string \<Rightarrow> containerStats option) \<Rightarrow> string \<Rightarrow> opError + containerStats" where
  "ParseContainerStats decode raw = bindE (orElse (decode raw) (Plain ''stats invalid'')) (\<lambda>r.
     guardE (trimSpace (cs_cpu r) \<noteq> [] \<and> trimSpace (cs_memory r) \<noteq> []) (Plain ''stats invalid'') (Inr r))"

definition ReadContainerStats ::
  "(string \<Rightarrow> containerStats option) \<Rightarrow> 'w docker \<Rightarrow> string \<Rightarrow> 'w host \<Rightarrow> (opError + containerStats) \<times> 'w host" where
  "ReadContainerStats decode docker name h =
     (if \<not> ValidName name then (Inl (Plain ''managed name invalid''), h)
      else case docker [''stats'', ''--no-stream'', ''--format'', ''{{json .}}'', name] h of
        ((ok, out), g) \<Rightarrow> (if ok then ParseContainerStats decode out else Inl (Plain ''stats failed''), g))"

datatype answer = Nothing | Operation managedOperation | Stats containerStats | Lines "string list" string
  | FileText string string nat | Written string | Uploaded string nat | Listing string "WorkspaceEntry list"

definition fileCommand :: "string \<Rightarrow> managedPayload \<Rightarrow> path \<Rightarrow> fs \<Rightarrow> (opError + answer) \<times> fs" where
  "fileCommand action p base f =
     (if action = ''file-read'' then
        ((case ReadWorkspaceText base (p_path p) f of Inl _ \<Rightarrow> Inl (Plain ''no such file'')
          | Inr (content, n) \<Rightarrow>
              Inr (FileText (case WorkspacePath base (p_path p) f of Inl _ \<Rightarrow> [] | Inr (_, rel) \<Rightarrow> rel) content n)), f)
      else if action = ''file-write'' then
        (case WriteWorkspaceText base (p_path p) (p_content p) f of
           (Inl (Msg m), g) \<Rightarrow> (Inl (Plain m), g) | (Inl _, g) \<Rightarrow> (Inl (Plain []), g) | (Inr rel, g) \<Rightarrow> (Inr (Written rel), g))
      else if action = ''file-upload'' then
        (case UploadWorkspaceBase64 base (p_path p) (p_content p) f of
           (Inl (Msg m), g) \<Rightarrow> (Inl (Plain m), g) | (Inl _, g) \<Rightarrow> (Inl (Plain []), g) | (Inr (rel, n), g) \<Rightarrow> (Inr (Uploaded rel n), g))
      else (case ListWorkspace base (p_path p) f of Inl _ \<Rightarrow> (Inl (Plain ''no such directory''), f) | Inr (rel, es) \<Rightarrow> (Inr (Listing rel es), f)))"

definition logCommand :: "'w docker \<Rightarrow> managedPayload \<Rightarrow> 'w host \<Rightarrow> (opError + answer) \<times> 'w host" where
  "logCommand docker p h =
     (if \<not> safeManagedName (p_name p) then (Inl (Plain ''managed name invalid''), h)
      else let tail = (if p_tail p = [] then ''300'' else p_tail p)
           in case docker [''logs'', ''--tail'', tail, ''--timestamps'', p_name p] h of
             ((ok, out), g) \<Rightarrow>
               (if \<not> ok then Inl (Plain ''logs failed'')
                else Inr (Lines (if trimSpace out = [] then [] else splitOn newline (trimSpace out)) tail), g))"

definition runManagedCommand ::
  "agentConfig \<Rightarrow> (string \<Rightarrow> containerStats option) \<Rightarrow> 'w docker \<Rightarrow> ('w host \<Rightarrow> bool) \<Rightarrow> string \<Rightarrow> managedPayload \<Rightarrow> 'w host \<Rightarrow>
   (opError + answer) \<times> 'w host" where
  "runManagedCommand cfg decode docker cancelled action p h =
     (if action = ''operation-status'' then
        (if \<not> safeManagedName (p_name p) \<or> trimSpace (p_operation p) = [] then (Inl (Plain ''operation id invalid''), h)
         else case readManagedOperation cfg docker (p_name p) (p_operation p) h of (r, g) \<Rightarrow> (bindE r (\<lambda>x. Inr (Operation x)), g))
      else if action = ''stats'' then
        (case ReadContainerStats decode docker (p_name p) h of (r, g) \<Rightarrow> (bindE r (\<lambda>x. Inr (Stats x)), g))
      else if action = ''logs'' then logCommand docker p h
      else if action \<in> {''files'', ''file-read'', ''file-write'', ''file-upload''} then
        (case managedDir cfg (p_name p) of Inl e \<Rightarrow> (Inl e, h)
         | Inr dir \<Rightarrow> (case fileCommand action p (dir @ [''workspace'']) (h_files h) of (r, f) \<Rightarrow> (r, h\<lparr>h_files := f\<rparr>)))
      else (case runManagedCompose cfg docker cancelled action p h of (Some e, g) \<Rightarrow> (Inl e, g) | (None, g) \<Rightarrow> (Inr Nothing, g)))"

section \<open>Routes and terminals\<close>

text \<open>The address of a managed container, by the labels Docker reports.\<close>

definition routeInspect :: string where
  "routeInspect = ''{{ index .Config.Labels \"xcloud.managed\" }}|{{ index .Config.Labels \"xcloud.route\" }}|{{range .NetworkSettings.Networks}}{{.IPAddress}}{{end}}''"

definition bar :: char where "bar = CHR 0x7C"

definition managedRouteTarget :: "'w docker \<Rightarrow> string \<Rightarrow> 'w host \<Rightarrow> (opError + string) \<times> 'w host" where
  "managedRouteTarget docker route h =
     (if length route \<noteq> 17 \<or> take 1 route \<noteq> ''r'' then (Inl (Plain ''route invalid''), h)
      else (case docker [''inspect'', ''-f'', routeInspect, ''xcloud-'' @ route] h of
        ((False, _), g) \<Rightarrow> (Inl (Plain ''instance offline''), g)
      | ((True, out), g) \<Rightarrow>
          ((case splitOn bar (trimSpace out) of
              [managed, r, ip] \<Rightarrow> (if managed \<noteq> ''true'' \<or> r \<noteq> route \<or> ip = [] then Inl (Plain ''instance check failed'')
                                   else Inr (''http://'' @ ip @ '':17390''))
            | _ \<Rightarrow> Inl (Plain ''instance check failed'')), g)))"

text \<open>\<open>handleV2Terminal\<close> up to the start of the process: the arguments \<open>docker\<close> is run with.\<close>

definition terminalArgs :: "'w docker \<Rightarrow> string \<Rightarrow> string \<Rightarrow> 'w host \<Rightarrow> string list option \<times> 'w host" where
  "terminalArgs docker name route h =
     (if \<not> safeManagedName name \<or> length route \<noteq> 17 then (None, h)
      else (case managedRouteTarget docker route h of
          (Inl _, g) \<Rightarrow> (None, g)
        | (Inr _, g) \<Rightarrow> ((case TerminalDockerArgs name of Inl _ \<Rightarrow> None | Inr args \<Rightarrow> Some args), g)))"

section \<open>What the host keeps\<close>

lemma lowerAlnum_not_slash: "list_all lowerAlnum v \<Longrightarrow> CHR ''/'' \<notin> set v"
  by (induction v) (auto simp: lowerAlnum_def)

lemma ValidName_split: "ValidName v \<Longrightarrow> \<exists>r. v = ''xcloud-'' @ r \<and> list_all lowerAlnum r"
  by (metis ValidName_def append_take_drop_id)

lemma ValidName_okSeg: "ValidName v \<Longrightarrow> okSeg v"
  using lowerAlnum_not_slash ValidName_split [of v] by (auto simp: okSeg_def dot_def dotdot_def)

definition noLink :: "fs \<Rightarrow> path \<Rightarrow> bool" where
  "noLink f r \<longleftrightarrow> (case map_of f r of Some (Symlink _ _) \<Rightarrow> False | _ \<Rightarrow> True)"

text \<open>Where no link is on the way, a walk ends where it says, or fails.\<close>

lemma resolve_noLink:
  assumes "\<And>r. prefix r (cur @ p) \<Longrightarrow> noLink f r" "list_all okSeg p" "resolve n f fl cur p = Inr q"
  shows "q = cur @ p"
  using assms
proof (induction p arbitrary: cur)
  case (Cons s p)
  have s: "s \<noteq> []" "s \<noteq> dot" "s \<noteq> dotdot" using Cons.prems(2) okSegD [of s] by auto
  have "noLink f (cur @ [s])" using Cons.prems(1) by simp
  then have l: "map_of f (cur @ [s]) \<noteq> Some (Symlink a t)" for a t by (auto simp: noLink_def)
  show ?case using Cons.IH [of "cur @ [s]"] Cons.prems s l
    by (auto split: option.splits fsNode.splits if_splits)
qed simp

text \<open>\<open>mkdirAll\<close> only adds directories, on the way to its argument.\<close>

lemma mkdir_grows:
  assumes "\<And>r. prefix r p \<Longrightarrow> noLink f r" "list_all okSeg p" "mkdir f p = Inr g"
  shows "map_of g r = map_of f r \<or> prefix r p \<and> map_of f r = None \<and> map_of g r = Some Directory"
proof -
  obtain q where q: "resolve maxLinks f False [] p = Inr q" "map_of f q = None" "g = AList.update q Directory f"
    using assms(3) by (auto simp: mkdir_def split: sum.splits option.splits)
  have "q = p" using resolve_noLink [of "[]" p f maxLinks False q] assms(1,2) q(1) by simp
  then show ?thesis using q(2,3) by (auto simp: update_conv')
qed

lemma mkdirs_grows:
  assumes "\<And>r. prefix r (cur @ p) \<Longrightarrow> noLink f r" "list_all okSeg (cur @ p)"
  shows "map_of (snd (mkdirs f cur p)) r = map_of f r \<or>
    prefix r (cur @ p) \<and> map_of f r = None \<and> map_of (snd (mkdirs f cur p)) r = Some Directory"
  using assms
proof (induction p arbitrary: f cur)
  case (Cons s p)
  show ?case
  proof (cases "\<exists>x. stat f (cur @ [s]) = Inr x")
    case True
    then show ?thesis using Cons.IH [of "cur @ [s]" f] Cons.prems by (auto split: fsNode.splits)
  next
    case False
    then obtain e where e: "stat f (cur @ [s]) = Inl e" by (cases "stat f (cur @ [s])") auto
    show ?thesis
    proof (cases "mkdir f (cur @ [s])")
      case (Inr g)
      have step: "map_of g r = map_of f r \<or> prefix r (cur @ [s]) \<and> map_of f r = None \<and> map_of g r = Some Directory" for r
        by (rule mkdir_grows [OF _ _ Inr]) (use Cons.prems in \<open>auto intro: prefix_order.trans\<close>)
      have "noLink g r" if r: "prefix r ((cur @ [s]) @ p)" for r
        using step [of r] Cons.prems(1) [of r] r by (auto simp: noLink_def)
      then have "map_of (snd (mkdirs g (cur @ [s]) p)) r = map_of g r \<or>
          prefix r ((cur @ [s]) @ p) \<and> map_of g r = None \<and> map_of (snd (mkdirs g (cur @ [s]) p)) r = Some Directory"
        using Cons.IH [of "cur @ [s]" g] Cons.prems(2) by simp
      moreover have "prefix r (cur @ s # p)" if "prefix r (cur @ [s])" using prefix_prefix [OF that, of p] by simp
      ultimately show ?thesis using e Inr step [of r] by auto
    qed (simp add: e)
  qed
qed simp

lemma writeFile_only:
  assumes "\<And>r. prefix r p \<Longrightarrow> noLink f r" "list_all okSeg p" "writeFile f p c = Inr g"
  shows "map_of g r = (if r = p then Some (File c) else map_of f r)"
proof -
  obtain q where q: "resolve maxLinks f True [] p = Inr q" "g = AList.update q (File c) f"
    using assms(3) by (auto simp: writeFile_def split: sum.splits option.splits fsNode.splits)
  have "q = p" using resolve_noLink [of "[]" p f maxLinks True q] assms(1,2) q(1) by simp
  then show ?thesis using q(2) by (simp add: update_conv')
qed

text \<open>The paths the agent itself walks for one instance, and what must hold of them: no link among them, and at \<open>q\<close>
  what was there, or nothing if nothing was and the agent has no business there.\<close>

definition agentPath :: "agentConfig \<Rightarrow> string \<Rightarrow> path \<Rightarrow> bool" where
  "agentPath cfg name r \<longleftrightarrow> (\<exists>t \<in> {''data'', ''workspace'', ''docker-compose.yml''}. prefix r (ac_root cfg @ [name, t]))"

definition safeHost :: "agentConfig \<Rightarrow> string \<Rightarrow> path \<Rightarrow> fsNode option \<Rightarrow> 'w host \<Rightarrow> bool" where
  "safeHost cfg name q x h \<longleftrightarrow> (\<forall>r. agentPath cfg name r \<longrightarrow> noLink (h_files h) r) \<and> map_of (h_files h) q = x \<and>
     (x = None \<longrightarrow> \<not> agentPath cfg name q)"

text \<open>What Docker does to the files: not to those of the agent, and not to \<open>q\<close>.\<close>

definition sparing :: "agentConfig \<Rightarrow> string \<Rightarrow> path \<Rightarrow> 'w docker \<Rightarrow> bool" where
  "sparing cfg name q docker \<longleftrightarrow> (\<forall>args h r. agentPath cfg name r \<or> r = q \<longrightarrow>
     map_of (h_files (snd (docker args h))) r = map_of (h_files h) r)"

definition keepsHost :: "agentConfig \<Rightarrow> string \<Rightarrow> path \<Rightarrow> fsNode option \<Rightarrow> 'w act \<Rightarrow> bool" where
  "keepsHost cfg name q x a \<longleftrightarrow> (\<forall>h. safeHost cfg name q x h \<longrightarrow> safeHost cfg name q x (snd (a h)))"


lemma keepsHost_then:
  assumes "keepsHost cfg name q x a" "keepsHost cfg name q x b"
  shows "keepsHost cfg name q x (andThen a b)"
  using assms by (fastforce simp: keepsHost_def andThen_def split: prod.split option.split)

lemma keepsHost_skip [simp]: "keepsHost cfg name q x (\<lambda>h. (e, h))"
  by (simp add: keepsHost_def)

lemma safeHost_docker:
  assumes "sparing cfg name q docker" "safeHost cfg name q x h" "docker args h = (v, g)"
  shows "safeHost cfg name q x g"
proof -
  have "map_of (h_files g) r = map_of (h_files h) r" if "agentPath cfg name r \<or> r = q" for r
    using assms(1) that assms(3) unfolding sparing_def by (metis snd_conv)
  then show ?thesis using assms(2) by (simp add: safeHost_def noLink_def)
qed

lemma agentPath_below: "agentPath cfg name p \<Longrightarrow> prefix r p \<Longrightarrow> agentPath cfg name r"
  unfolding agentPath_def by (meson prefix_order.trans)

lemma agentPath_ok:
  assumes "list_all okSeg (ac_root cfg)" "okSeg name" "agentPath cfg name p"
  shows "list_all okSeg p"
proof -
  obtain t where t: "t \<in> {''data'', ''workspace'', ''docker-compose.yml''}" "prefix p (ac_root cfg @ [name, t])"
    using assms(3) by (auto simp: agentPath_def)
  have "okSeg t" using t(1) by (auto simp: okSeg_def dot_def dotdot_def)
  then have "list_all okSeg (ac_root cfg @ [name, t])" using assms(1,2) by simp
  then show ?thesis using set_mono_prefix [OF t(2)] by (meson list.pred_set subset_iff list_all_iff)
qed

lemma safeHost_mkdirAll:
  assumes "list_all okSeg (ac_root cfg)" "okSeg name" "agentPath cfg name p" "safeHost cfg name q x h" "mkdirAll (h_files h) p = (e, f)"
  shows "safeHost cfg name q x (h\<lparr>h_files := f\<rparr>)"
proof -
  have n: "noLink (h_files h) r" if "agentPath cfg name r" for r using assms(4) that by (simp add: safeHost_def)
  have "map_of f r = map_of (h_files h) r \<or> prefix r p \<and> map_of (h_files h) r = None \<and> map_of f r = Some Directory" for r
    using mkdirs_grows [of "[]" p "h_files h" r] agentPath_below [OF assms(3)] n agentPath_ok [OF assms(1-3)] assms(5)
    by (simp add: mkdirAll_def)
  note m = this
  have "noLink f r" if "agentPath cfg name r" for r
    using n [OF that] m [of r] by (auto simp: noLink_def)
  moreover have "map_of f q = x"
    using m [of q] assms(4) agentPath_below [OF assms(3), of q] by (auto simp: safeHost_def)
  ultimately show ?thesis using assms(4) by (simp add: safeHost_def)
qed

lemma keepsHost_makeDir:
  assumes "list_all okSeg (ac_root cfg)" "okSeg name" "agentPath cfg name p"
  shows "keepsHost cfg name q x (makeDir p)"
  using safeHost_mkdirAll [OF assms] by (auto simp: keepsHost_def makeDir_def split: prod.split)

lemma keepsHost_putFile:
  assumes "list_all okSeg (ac_root cfg)" "okSeg name" "agentPath cfg name p" "q \<noteq> p"
  shows "keepsHost cfg name q x (putFile p c)"
  unfolding keepsHost_def
proof (intro allI impI)
  fix h :: "'a host" assume h: "safeHost cfg name q x h"
  then have n: "noLink (h_files h) r" if "agentPath cfg name r" for r using that by (simp add: safeHost_def)
  show "safeHost cfg name q x (snd (putFile p c h))"
  proof (cases "writeFile (h_files h) p c")
    case (Inr f)
    have "map_of f r = (if r = p then Some (File c) else map_of (h_files h) r)" for r
      by (rule writeFile_only [OF _ agentPath_ok [OF assms(1-3)] Inr]) (blast intro: n agentPath_below [OF assms(3)])
    then show ?thesis using h assms(4) Inr by (simp add: putFile_def safeHost_def noLink_def)
  qed (simp add: putFile_def h)
qed

lemma keepsHost_docker:
  assumes "sparing cfg name q docker"
  shows "keepsHost cfg name q x (\<lambda>h. case docker args h of (v, g) \<Rightarrow> (k v g, g))"
  using safeHost_docker [OF assms] by (auto simp: keepsHost_def split: prod.split)

lemma keepsHost_compose:
  assumes "sparing cfg name q docker"
  shows "keepsHost cfg name q x (composeCommand docker cancelled dir n args)"
  using safeHost_docker [OF assms]
  by (auto simp: keepsHost_def composeCommand_def split: prod.split bool.split)

lemma keepsHost_runtime:
  assumes "sparing cfg name q docker"
  shows "keepsHost cfg name q x (removeManagedRuntime docker cancelled dir n)"
  unfolding removeManagedRuntime_def
proof (rule keepsHost_then)
  show "keepsHost cfg name q x (\<lambda>h. case stat (h_files h) (composeFile dir) of
      Inr _ \<Rightarrow> composeCommand docker cancelled dir n [''down'', ''--remove-orphans''] h
    | Inl ENOENT \<Rightarrow> (None, h) | Inl _ \<Rightarrow> (Some (Plain ''cannot check the compose file''), h))"
    using keepsHost_compose [OF assms] by (auto simp: keepsHost_def split: sum.split fsError.split)
  show "keepsHost cfg name q x (\<lambda>h. case docker [''rm'', ''-f'', n] h of
      ((ok, out), g) \<Rightarrow> (if ok \<or> dockerObjectNotFound out then None else Some (Plain ''container not removed''), g))"
    using safeHost_docker [OF assms] by (auto simp: keepsHost_def split: prod.split)
qed

lemma keepsHost_network:
  assumes "sparing cfg name q docker"
  shows "keepsHost cfg name q x (ensureManagedDockerNetwork cfg docker)"
  unfolding keepsHost_def
proof (intro allI impI)
  fix h :: "'a host" assume h: "safeHost cfg name q x h"
  have c: "safeHost cfg name q x u" if "safeHost cfg name q x g" "controlDockerCommand docker args g = (v, u)" for g args v u
    using that safeHost_docker [OF assms that(1)] by (auto simp: controlDockerCommand_def split: prod.splits)
  show "safeHost cfg name q x (snd (ensureManagedDockerNetwork cfg docker h))"
    using h by (auto simp: ensureManagedDockerNetwork_def split: prod.split bool.split sum.split) (metis c)+
qed

lemma safeHost_readiness:
  assumes "sparing cfg name q docker" "list_all okSeg (ac_root cfg)" "okSeg name" "safeHost cfg name q x h"
    "checkRuntimeReadiness cfg docker h = (issues, g)"
  shows "safeHost cfg name q x g"
proof -
  have c: "safeHost cfg name q x u" if "safeHost cfg name q x g" "controlDockerCommand docker args g = (v, u)" for g args v u
    using that safeHost_docker [OF assms(1) that(1)] by (auto simp: controlDockerCommand_def split: prod.splits)
  have w: "safeHost cfg name q x u" if "safeHost cfg name q x g" "writableDataRoot cfg g = (v, u)" for g v u
    using that safeHost_mkdirAll [OF assms(2,3) _ that(1), of "ac_root cfg"]
    by (auto simp: writableDataRoot_def agentPath_def split: prod.splits)
  have n: "safeHost cfg name q x u" if "safeHost cfg name q x g" "ensureManagedDockerNetwork cfg docker g = (v, u)" for g v u
    using that keepsHost_network [OF assms(1)] unfolding keepsHost_def by (metis snd_conv)
  let ?probes = "case controlDockerCommand docker [''info'', ''--format'', ''{{.ServerVersion}}''] h of
      ((False, _), g) \<Rightarrow> ([(''docker_unavailable'', ''Docker unavailable'')], g)
    | ((True, _), g) \<Rightarrow> (case controlDockerCommand docker [''compose'', ''version'', ''--short''] g of
          ((ok, _), g2) \<Rightarrow> (if ok then [] else [(''compose_unavailable'', ''Compose unavailable'')], g2))"
  obtain i1 h1 where p: "?probes = (i1, h1)" by (cases "?probes")
  obtain b h2 where b: "writableDataRoot cfg h1 = (b, h2)" by (cases "writableDataRoot cfg h1")
  obtain e h3 where e: "ensureManagedDockerNetwork cfg docker h2 = (e, h3)" by (cases "ensureManagedDockerNetwork cfg docker h2")
  have "safeHost cfg name q x h1" using p assms(4) by (auto split: prod.splits bool.splits) (metis c)+
  then have h2: "safeHost cfg name q x h2" using b by (rule w)
  have "g = h2 \<or> g = h3"
    using assms(5) unfolding checkRuntimeReadiness_def p by (auto simp: b e split: if_splits option.splits)
  then show ?thesis using h2 n [OF h2 e] by auto
qed

lemma agentPaths [simp]:
  "agentPath cfg name (ac_root cfg @ [name])" "agentPath cfg name (ac_root cfg @ [name, ''data''])"
  "agentPath cfg name (ac_root cfg @ [name, ''workspace''])" "agentPath cfg name (ac_root cfg @ [name, ''docker-compose.yml''])"
  by (auto simp: agentPath_def)

lemma keepsHost_writeCompose:
  assumes "list_all okSeg (ac_root cfg)" "okSeg name" "q \<noteq> ac_root cfg @ [name, ''docker-compose.yml'']"
  shows "keepsHost cfg name q x (writeCompose cfg p (ac_root cfg @ [name]))"
  unfolding writeCompose_def
  by (auto simp: composeFile_def Let_def split: sum.split
      intro!: keepsHost_then keepsHost_makeDir [OF assms(1,2)] keepsHost_putFile [OF assms(1,2)] assms(3))

lemma safeHost_records [simp]:
  "safeHost cfg name q x (writeManagedOperation cfg n oper h) = safeHost cfg name q x h"
  "safeHost cfg name q x (finishManagedOperation cfg n oper2 st ob me h) = safeHost cfg name q x h"
  by (auto simp: safeHost_def finishManagedOperation_def writeManagedOperation_def split: sum.split option.split)

lemma safeHost_removed:
  assumes "safeHost cfg name q x h" "\<not> prefix dir q \<or> x = None"
  shows "safeHost cfg name q x (h\<lparr>h_files := removeAll (h_files h) dir\<rparr>)"
proof -
  have "map_of (removeAll f dir) r = (if prefix dir r then None else map_of f r)" for f r
    by (induction f) (auto simp: removeAll_def)
  then show ?thesis using assms by (auto simp: safeHost_def noLink_def)
qed

lemma keepsHost_action:
  assumes d: "sparing cfg name q docker" and r: "list_all okSeg (ac_root cfg)" "okSeg name"
    and q: "q \<noteq> ac_root cfg @ [name, ''docker-compose.yml'']" "action = ''purge'' \<longrightarrow> \<not> prefix (ac_root cfg @ [name]) q"
  shows "keepsHost cfg name q x (composeAction cfg docker cancelled action p (ac_root cfg @ [name]))"
proof -
  let ?dir = "ac_root cfg @ [name]"
  have first: "keepsHost cfg name q x (if action \<in> set upActions then writeCompose cfg p ?dir else (\<lambda>h. (None, h)))"
    by (simp add: keepsHost_writeCompose [OF r q(1)])
  have purge: "keepsHost cfg name q x (andThen (composeCommand docker cancelled ?dir (p_name p) [''down'', ''--remove-orphans'', ''--volumes''])
      (\<lambda>h3. (None, h3\<lparr>h_files := removeAll (h_files h3) ?dir\<rparr>)))" if "action = ''purge''"
    using q(2) that by (intro keepsHost_then keepsHost_compose [OF d]) (simp add: keepsHost_def safeHost_removed)
  have second: "keepsHost cfg name q x (\<lambda>h2. if action = ''purge'' then
               andThen (composeCommand docker cancelled ?dir (p_name p) [''down'', ''--remove-orphans'', ''--volumes''])
                 (\<lambda>h3. (None, h3\<lparr>h_files := removeAll (h_files h3) ?dir\<rparr>)) h2
             else if action = ''destroy'' then removeManagedRuntime docker cancelled ?dir (p_name p) h2
             else if action = ''stop'' then composeCommand docker cancelled ?dir (p_name p) [''stop''] h2
             else if p_keepStopped p then composeCommand docker cancelled ?dir (p_name p) [''up'', ''-d'', ''--no-start''] h2
             else composeCommand docker cancelled ?dir (p_name p) [''up'', ''-d'', ''--remove-orphans''] h2)"
    using purge keepsHost_runtime [OF d] keepsHost_compose [OF d] by (simp add: keepsHost_def)
  show ?thesis
    unfolding keepsHost_def
  proof (intro allI impI)
    fix h :: "'a host" assume h: "safeHost cfg name q x h"
    obtain issues h1 where c: "checkRuntimeReadiness cfg docker h = (issues, h1)" by (cases "checkRuntimeReadiness cfg docker h")
    have h1: "safeHost cfg name q x h1" by (rule safeHost_readiness [OF d r h c])
    show "safeHost cfg name q x (snd (composeAction cfg docker cancelled action p ?dir h))"
      using keepsHost_then [OF first second] h1 safeHost_docker [OF d h1]
      unfolding keepsHost_def composeAction_def c by (cases issues) (auto split: prod.split)
  qed
qed

lemma keepsHost_run:
  assumes d: "sparing cfg (p_name p) q docker" and r: "list_all okSeg (ac_root cfg)"
    and q: "q \<noteq> ac_root cfg @ [p_name p, ''docker-compose.yml'']" "action = ''purge'' \<longrightarrow> \<not> prefix (ac_root cfg @ [p_name p]) q"
  shows "keepsHost cfg (p_name p) q x (runManagedCompose cfg docker cancelled action p)"
proof (cases "ValidName (p_name p) \<and> action \<in> set managedActions")
  case True
  have dir: "managedDir cfg (p_name p) = Inr (ac_root cfg @ [p_name p])"
    using True by (simp add: managedDir_def safeManagedName_def InstanceDir_def)
  note act = keepsHost_action [OF d r ValidName_okSeg q, of x cancelled p]
  show ?thesis
    unfolding keepsHost_def
  proof (intro allI impI)
    fix h :: "'a host" assume h: "safeHost cfg (p_name p) q x h"
    obtain oper h1 where b: "beginManagedOperation cfg p action h = (oper, h1)" by (cases "beginManagedOperation cfg p action h")
    have "safeHost cfg (p_name p) q x h1" using b h by (auto simp: beginManagedOperation_def Let_def split: if_splits)
    moreover obtain e h2 where c: "composeAction cfg docker cancelled action p (ac_root cfg @ [p_name p]) h1 = (e, h2)"
      by (cases "composeAction cfg docker cancelled action p (ac_root cfg @ [p_name p]) h1")
    ultimately have h2: "safeHost cfg (p_name p) q x h2" using act True unfolding keepsHost_def by (metis snd_conv)
    obtain ob h3 where i: "inspectManagedState docker (p_name p) h2 = (ob, h3)" by (cases "inspectManagedState docker (p_name p) h2")
    have "safeHost cfg (p_name p) q x h3"
      using i h2 safeHost_docker [OF d h2] by (auto simp: inspectManagedState_def split: if_splits prod.splits)
    then show "safeHost cfg (p_name p) q x (snd (runManagedCompose cfg docker cancelled action p h))"
      using h2 True by (simp add: runManagedCompose_def dir b c i)
  qed
next
  case False
  then show ?thesis
    by (auto simp: keepsHost_def runManagedCompose_def managedDir_def safeManagedName_def InstanceDir_def guardE_def split: if_splits)
qed

section \<open>What the record says\<close>

lemma opChar_not_space: "opChar c \<Longrightarrow> \<not> isSpace c"
  by (auto simp: opChar_def isSpace_def Let_def)

lemma opChars_trimmed:
  assumes "list_all opChar s"
  shows "trimSpace s = s"
proof -
  have "dropWhile isSpace t = t" if "list_all opChar t" for t
    using that opChar_not_space by (cases t) auto
  then show ?thesis using assms by (simp add: trimSpace_def trimLeft_def trimRight_def list.pred_set)
qed

lemma operation_path:
  assumes "managedOperationPath cfg name oid = Inr path"
  shows "ValidName name" "trimSpace oid \<noteq> []" "managedDir cfg name = Inr (ac_root cfg @ [name])"
proof -
  have v: "safeManagedName name" "8 \<le> length oid" "list_all opChar oid"
    using assms by (auto simp: managedOperationPath_def guardE_Inr_iff)
  then show "ValidName name" "managedDir cfg name = Inr (ac_root cfg @ [name])"
    by (simp_all add: safeManagedName_def managedDir_def InstanceDir_def)
  show "trimSpace oid \<noteq> []" using v by (auto simp: opChars_trimmed)
qed

lemma message_short: "length (truncateOperationMessage v) \<le> 512"
  by (simp add: truncateOperationMessage_def Let_def)

section \<open>Which commands are run\<close>

text \<open>The argument lists of Docker that name this instance, its compose file, its image and the configured network, and
  nothing else; the two probes name nothing.\<close>

definition ownCommand :: "agentConfig \<Rightarrow> managedPayload \<Rightarrow> string list \<Rightarrow> bool" where
  "ownCommand cfg p args \<longleftrightarrow> ValidName (p_name p) \<and>
     (args = [''info'', ''--format'', ''{{.ServerVersion}}''] \<or> args = [''compose'', ''version'', ''--short''] \<or>
      (\<exists>network. managedDockerNetwork cfg = Inr network \<and>
         (args = [''network'', ''inspect'', network] \<or> args = [''network'', ''create'', ''--driver'', ''bridge'', network])) \<or>
      args = [''pull'', p_image p] \<or> args = [''rm'', ''-f'', p_name p] \<or>
      args = [''inspect'', ''--format'', ''{{.State.Status}}'', p_name p] \<or>
      args = [''stats'', ''--no-stream'', ''--format'', ''{{json .}}'', p_name p] \<or>
      args = [''logs'', ''--tail'', if p_tail p = [] then ''300'' else p_tail p, ''--timestamps'', p_name p] \<or>
      (\<exists>tail. tail \<in> set [[''down'', ''--remove-orphans''], [''down'', ''--remove-orphans'', ''--volumes''], [''stop''],
           [''up'', ''-d'', ''--no-start''], [''up'', ''-d'', ''--remove-orphans'']] \<and>
         args = [''compose'', ''--project-name'', p_name p, ''--file'', pathText (composeFile (ac_root cfg @ [p_name p]))] @ tail))"

definition agree :: "agentConfig \<Rightarrow> managedPayload \<Rightarrow> 'w docker \<Rightarrow> 'w docker \<Rightarrow> bool" where
  "agree cfg p docker docker2 \<longleftrightarrow> (\<forall>args h. ownCommand cfg p args \<longrightarrow> docker args h = docker2 args h)"

lemma agreeD: "agree cfg p docker docker2 \<Longrightarrow> ownCommand cfg p args \<Longrightarrow> docker args = docker2 args"
  by (rule ext) (simp add: agree_def)

lemma agree_readiness:
  assumes "agree cfg p docker docker2" "ValidName (p_name p)"
  shows "checkRuntimeReadiness cfg docker h = checkRuntimeReadiness cfg docker2 h"
proof -
  have i: "docker [''info'', ''--format'', ''{{.ServerVersion}}''] = docker2 [''info'', ''--format'', ''{{.ServerVersion}}'']"
    "docker [''compose'', ''version'', ''--short''] = docker2 [''compose'', ''version'', ''--short'']"
    by (rule agreeD [OF assms(1)]; simp add: ownCommand_def assms(2))+
  have e: "ensureManagedDockerNetwork cfg docker = ensureManagedDockerNetwork cfg docker2"
  proof (cases "managedDockerNetwork cfg")
    case (Inr m)
    have n: "docker [''network'', ''inspect'', m] = docker2 [''network'', ''inspect'', m]"
      "docker [''network'', ''create'', ''--driver'', ''bridge'', m] = docker2 [''network'', ''create'', ''--driver'', ''bridge'', m]"
      by (rule agreeD [OF assms(1)]; simp add: ownCommand_def assms(2) Inr)+
    show ?thesis unfolding ensureManagedDockerNetwork_def controlDockerCommand_def Inr sum.case n ..
  qed (simp add: ensureManagedDockerNetwork_def fun_eq_iff)
  show ?thesis unfolding checkRuntimeReadiness_def controlDockerCommand_def i e ..
qed

lemma agree_compose:
  assumes "agree cfg p docker docker2" "ValidName (p_name p)"
    "tail \<in> set [[''down'', ''--remove-orphans''], [''down'', ''--remove-orphans'', ''--volumes''], [''stop''],
       [''up'', ''-d'', ''--no-start''], [''up'', ''-d'', ''--remove-orphans'']]"
  shows "composeCommand docker cancelled (ac_root cfg @ [p_name p]) (p_name p) tail =
    composeCommand docker2 cancelled (ac_root cfg @ [p_name p]) (p_name p) tail"
proof -
  have "docker ([''compose'', ''--project-name'', p_name p, ''--file'', pathText (composeFile (ac_root cfg @ [p_name p]))] @ tail) =
    docker2 ([''compose'', ''--project-name'', p_name p, ''--file'', pathText (composeFile (ac_root cfg @ [p_name p]))] @ tail)"
    by (rule agreeD [OF assms(1)]) (use assms(2,3) in \<open>auto simp: ownCommand_def\<close>)
  then show ?thesis by (simp add: composeCommand_def fun_eq_iff)
qed

lemma agree_inspect:
  assumes "agree cfg p docker docker2"
  shows "inspectManagedState docker (p_name p) = inspectManagedState docker2 (p_name p)"
proof (cases "ValidName (p_name p)")
  case True
  then have "docker [''inspect'', ''--format'', ''{{.State.Status}}'', p_name p] = docker2 [''inspect'', ''--format'', ''{{.State.Status}}'', p_name p]"
    by (intro agreeD [OF assms(1)]) (simp add: ownCommand_def)
  then show ?thesis by (simp add: inspectManagedState_def fun_eq_iff)
qed (simp add: inspectManagedState_def safeManagedName_def fun_eq_iff)

lemma agree_action:
  assumes a: "agree cfg p docker docker2" and v: "ValidName (p_name p)"
  shows "composeAction cfg docker cancelled action p (ac_root cfg @ [p_name p]) =
    composeAction cfg docker2 cancelled action p (ac_root cfg @ [p_name p])"
proof -
  have pr: "docker [''pull'', p_image p] = docker2 [''pull'', p_image p]" "docker [''rm'', ''-f'', p_name p] = docker2 [''rm'', ''-f'', p_name p]"
    by (rule agreeD [OF a]; simp add: ownCommand_def v)+
  have c: "composeCommand docker cancelled (ac_root cfg @ [p_name p]) (p_name p) tail =
      composeCommand docker2 cancelled (ac_root cfg @ [p_name p]) (p_name p) tail"
    if "tail \<in> set [[''down'', ''--remove-orphans''], [''down'', ''--remove-orphans'', ''--volumes''], [''stop''],
       [''up'', ''-d'', ''--no-start''], [''up'', ''-d'', ''--remove-orphans'']]" for tail
    by (rule agree_compose [OF a v that])
  note cs = c [of "[''down'', ''--remove-orphans'']", simplified] c [of "[''down'', ''--remove-orphans'', ''--volumes'']", simplified]
    c [of "[''stop'']", simplified] c [of "[''up'', ''-d'', ''--no-start'']", simplified] c [of "[''up'', ''-d'', ''--remove-orphans'']", simplified]
  show ?thesis
    unfolding composeAction_def removeManagedRuntime_def agree_readiness [OF a v] pr cs ..
qed

lemma agree_run:
  assumes a: "agree cfg p docker docker2"
  shows "runManagedCompose cfg docker cancelled action p h = runManagedCompose cfg docker2 cancelled action p h"
proof (cases "ValidName (p_name p)")
  case True
  then have d: "managedDir cfg (p_name p) = Inr (ac_root cfg @ [p_name p])"
    by (simp add: managedDir_def safeManagedName_def InstanceDir_def)
  show ?thesis unfolding runManagedCompose_def d sum.case agree_action [OF a True] agree_inspect [OF a] ..
qed (simp add: runManagedCompose_def managedDir_def safeManagedName_def)

section \<open>Properties\<close>


text \<open>C29. No command but a file write or upload, and no failure in the middle of one, loses a file of the host: what
  lies anywhere, in the data and workspace of this instance or of another, is there afterwards unchanged, except the
  compose file that the agent writes itself and, for a purge, what lies below the instance's directory. In particular
  \<open>reinstall\<close> keeps the data. Asked is that Docker itself spares this file and the agent's own paths, and that no link
  stands on those paths.\<close>

theorem data_survives:
  assumes "sparing cfg (p_name p) q docker" "list_all okSeg (ac_root cfg)" "safeHost cfg (p_name p) q (Some x) h"
    "q \<noteq> ac_root cfg @ [p_name p, ''docker-compose.yml'']" "action = ''purge'' \<longrightarrow> \<not> prefix (ac_root cfg @ [p_name p]) q"
    "action \<noteq> ''file-write''" "action \<noteq> ''file-upload''"
  shows "map_of (h_files (snd (runManagedCommand cfg decode docker cancelled action p h))) q = Some x"
proof -
  note d = safeHost_docker [OF assms(1,3)]
  have run: "safeHost cfg (p_name p) q (Some x) (snd (runManagedCompose cfg docker cancelled action p h))"
    using keepsHost_run [OF assms(1,2,4,5)] assms(3) by (simp add: keepsHost_def)
  have i: "safeHost cfg (p_name p) q (Some x) g" if "readManagedOperation cfg docker (p_name p) oid h = (v, g)" for oid v g
    using that assms(3) d
    by (auto simp: readManagedOperation_def inspectManagedState_def split: sum.splits prod.splits if_splits option.splits)
  have st: "safeHost cfg (p_name p) q (Some x) g" if "ReadContainerStats decode docker (p_name p) h = (v, g)" for v g
    using that assms(3) d by (auto simp: ReadContainerStats_def split: prod.splits if_splits)
  have lg: "safeHost cfg (p_name p) q (Some x) (snd (logCommand docker p h))"
    using assms(3) d by (auto simp: logCommand_def Let_def split: prod.split)
  have fl: "snd (fileCommand action p base f) = f" for base f
    using assms(6,7) by (auto simp: fileCommand_def split: sum.split)
  have fc: "map_of g q = Some x" if "fileCommand action p base (h_files h) = (v, g)" for base v g
    using fl [of base "h_files h"] that assms(3) by (simp add: safeHost_def)
  have sh: "map_of (h_files g) q = Some x" if "safeHost cfg (p_name p) q (Some x) g" for g :: "'a host"
    using that by (simp add: safeHost_def)
  have "map_of (h_files h) q = Some x" using assms(3) by (rule sh)
  then show ?thesis
    using sh [OF run] sh [OF lg] sh [OF i] sh [OF st] fc
    by (auto simp: runManagedCommand_def split: prod.split sum.split option.split)
qed

text \<open>C31. The tunnel cannot make the agent touch a container, a project, a network or an image other than its command's
  own: two Dockers that behave alike on the argument lists of \<open>ownCommand\<close> give the same answer and the same host for
  every action and every payload, however they differ on all others.\<close>

theorem commands_confined:
  assumes "agree cfg p docker docker2"
  shows "runManagedCommand cfg decode docker cancelled action p h = runManagedCommand cfg decode docker2 cancelled action p h"
proof -
  have st: "ReadContainerStats decode docker (p_name p) h = ReadContainerStats decode docker2 (p_name p) h"
  proof (cases "ValidName (p_name p)")
    case True
    then have "docker [''stats'', ''--no-stream'', ''--format'', ''{{json .}}'', p_name p] = docker2 [''stats'', ''--no-stream'', ''--format'', ''{{json .}}'', p_name p]"
      by (intro agreeD [OF assms]) (simp add: ownCommand_def)
    then show ?thesis by (simp add: ReadContainerStats_def)
  qed (simp add: ReadContainerStats_def)
  have lg: "logCommand docker p h = logCommand docker2 p h"
  proof (cases "ValidName (p_name p)")
    case True
    then have "docker [''logs'', ''--tail'', if p_tail p = [] then ''300'' else p_tail p, ''--timestamps'', p_name p] =
        docker2 [''logs'', ''--tail'', if p_tail p = [] then ''300'' else p_tail p, ''--timestamps'', p_name p]"
      by (intro agreeD [OF assms]) (simp only: ownCommand_def simp_thms)
    then show ?thesis by (simp add: logCommand_def Let_def)
  qed (simp add: logCommand_def safeManagedName_def)
  have rd: "readManagedOperation cfg docker (p_name p) oid h = readManagedOperation cfg docker2 (p_name p) oid h" for oid
    unfolding readManagedOperation_def agree_inspect [OF assms] ..
  show ?thesis unfolding runManagedCommand_def st lg rd agree_run [OF assms] ..
qed

section \<open>Examples\<close>

definition exampleDocker :: "unit docker" where
  "exampleDocker args h = ((True, ''running''), h)"

text \<open>The same on the commands of the payload, but destructive on all others.\<close>

definition wildDocker :: "agentConfig \<Rightarrow> managedPayload \<Rightarrow> unit docker" where
  "wildDocker cfg p args h = (if ownCommand cfg p args then exampleDocker args h else ((True, []), h\<lparr>h_files := []\<rparr>))"

definition exampleAgent :: agentConfig where
  "exampleAgent = \<lparr>ac_root = [''srv''], ac_network = [], ac_printable = (\<lambda>_. True), ac_fmtCPU = (\<lambda>_. ''1.00'')\<rparr>"

definition examplePayload :: managedPayload where
  "examplePayload = \<lparr>p_name = ''xcloud-r0123456789abcdef'', p_image = ''nginx'', p_cpu = 1, p_memory = 512, p_route = ''r0123456789abcdef'',
     p_keepStopped = False, p_hostAccess = False, p_path = [], p_content = [], p_tail = [], p_operation = ''op-00001''\<rparr>"

definition exampleData :: path where
  "exampleData = [''srv'', ''xcloud-r0123456789abcdef'', ''data'', ''db'']"

definition exampleHost :: "unit host" where
  "exampleHost = \<lparr>h_files = [([''srv''], Directory), ([''srv'', ''xcloud-r0123456789abcdef''], Directory),
     ([''srv'', ''xcloud-r0123456789abcdef'', ''data''], Directory), (exampleData, File ''rows'')],
     h_ops = [], h_recording = True, h_now = 0, h_docker = ()\<rparr>"


lemma example_safe: "sparing exampleAgent (p_name examplePayload) exampleData exampleDocker" "list_all okSeg (ac_root exampleAgent)"
  "safeHost exampleAgent (p_name examplePayload) exampleData (Some (File ''rows'')) exampleHost"
proof -
  show "sparing exampleAgent (p_name examplePayload) exampleData exampleDocker" by (simp add: sparing_def exampleDocker_def)
  show "list_all okSeg (ac_root exampleAgent)" by code_simp
  show "safeHost exampleAgent (p_name examplePayload) exampleData (Some (File ''rows'')) exampleHost"
    by (simp add: safeHost_def noLink_def exampleHost_def exampleData_def)
qed

theorem data_survives_witness:
  "map_of (h_files (snd (runManagedCommand exampleAgent (\<lambda>_. None) exampleDocker (\<lambda>_. False) ''reinstall'' examplePayload exampleHost)))
     exampleData = Some (File ''rows'')"
  by (rule data_survives [OF example_safe]) (simp_all add: exampleData_def)

theorem commands_confined_witness:
  "runManagedCommand exampleAgent (\<lambda>_. None) exampleDocker (\<lambda>_. False) ''destroy'' examplePayload exampleHost =
   runManagedCommand exampleAgent (\<lambda>_. None) (wildDocker exampleAgent examplePayload) (\<lambda>_. False) ''destroy'' examplePayload exampleHost"
  by (rule commands_confined) (simp add: agree_def wildDocker_def)

text \<open>A purge whose answer got lost cannot be repeated: the compose command has no directory to start in.\<close>

lemma purge_only_once:
  "(let (e, g) = runManagedCompose exampleAgent exampleDocker (\<lambda>_. False) ''purge'' examplePayload exampleHost
    in (e, fst (runManagedCompose exampleAgent exampleDocker (\<lambda>_. False) ''purge'' examplePayload g))) =
   (None, Some (OpError ''compose_failed'' ''compose failed'' []))"
  by code_simp

text \<open>The terminal checks the container of the route and opens the container of the name.\<close>

lemma terminal_name_unchecked:
  assumes "managedRouteTarget docker route h = (Inr url, g)" "ValidName name"
  shows "\<exists>args. terminalArgs docker name route h = (Some args, g) \<and> name \<in> set args"
  using assms by (auto simp: terminalArgs_def safeManagedName_def TerminalDockerArgs_def managedRouteTarget_def split: if_splits)

text \<open>A route leads only to a container that carries both labels.\<close>

lemma route_target_labelled:
  assumes "managedRouteTarget docker route h = (Inr url, g)"
  shows "\<exists>out ip. docker [''inspect'', ''-f'', routeInspect, ''xcloud-'' @ route] h = ((True, out), g) \<and>
    splitOn bar (trimSpace out) = [''true'', route, ip] \<and> ip \<noteq> [] \<and> url = ''http://'' @ ip @ '':17390''"
  using assms by (auto simp: managedRouteTarget_def split: if_splits prod.splits bool.splits list.splits)

end
