(* ===== verification/Layout.thy ===== *)
theory Layout
  imports Workspace "HOL-Library.Multiset"
begin

text \<open>
  The directory of an instance on a platform node (\<open>agent/main.go\<close>): atomic writes, the preparation of the directories,
  and the migration of the old layout, in which the instance's directory itself was mounted into the container, to the
  one with a \<open>data\<close> directory. A migration may be cut off after any of its changes and is taken up by the next run.
\<close>

section \<open>System calls\<close>

text \<open>\<open>os.Rename\<close>. A directory is never replaced: the code renames onto a directory nowhere on purpose.\<close>

definition moved :: "path \<Rightarrow> path \<Rightarrow> path \<Rightarrow> path" where
  "moved p q r = (if prefix p r then q @ drop (length p) r else r)"

definition rename :: "fs \<Rightarrow> path \<Rightarrow> path \<Rightarrow> fsError + fs" where
  "rename f p q = (case resolve maxLinks f False [] p of Inl e \<Rightarrow> Inl e
     | Inr p2 \<Rightarrow> (case resolve maxLinks f False [] q of Inl e \<Rightarrow> Inl e
       | Inr q2 \<Rightarrow> (if map_of f p2 = None then Inl ENOENT
           else if map_of f q2 = Some Directory then Inl EEXIST
           else Inr (map (\<lambda>(r, x). (moved p2 q2 r, x)) (filter (\<lambda>(r, _). r \<noteq> q2) f)))))"

text \<open>\<open>os.Remove\<close> of a file.\<close>

definition removeFile :: "fs \<Rightarrow> path \<Rightarrow> fsError + fs" where
  "removeFile f p = (case resolve maxLinks f False [] p of Inl e \<Rightarrow> Inl e
     | Inr q \<Rightarrow> (case map_of f q of None \<Rightarrow> Inl ENOENT | Some Directory \<Rightarrow> Inl EISDIR
       | Some _ \<Rightarrow> Inr (filter (\<lambda>(r, _). r \<noteq> q) f)))"

text \<open>A temporary file of a new name, renamed onto the destination: a file or a link there is replaced.\<close>

definition writeFileAtomically :: "path \<Rightarrow> string \<Rightarrow> fs \<Rightarrow> bool \<times> fs" where
  "writeFileAtomically p c f = (case mkdirAll f (butlast p) of (Some _, g) \<Rightarrow> (False, g)
     | (None, g) \<Rightarrow> (case resolve maxLinks g False [] p of Inl _ \<Rightarrow> (False, g)
         | Inr q \<Rightarrow> (if map_of g q = Some Directory then (False, g) else (True, AList.update q (File c) g))))"

section \<open>The layout of an instance\<close>

definition instanceComposeFile :: string where "instanceComposeFile = ''docker-compose.yml''"
definition instanceMigrationMarker :: string where "instanceMigrationMarker = ''.xcloud-layout-v2-migrating''"

definition instancePaths :: "path \<Rightarrow> string \<Rightarrow> path \<times> path \<times> path" where
  "instancePaths base name = (base @ [name], base @ [name, ''data''], base @ [name, ''workspace''])"

text \<open>Entries that stay where they are.\<close>

definition managedEntry :: "string \<Rightarrow> bool" where
  "managedEntry e \<longleftrightarrow> e = instanceComposeFile \<or> e = ''workspace'' \<or> e = ''data'' \<or> e = instanceMigrationMarker"

fun moveEntries :: "path \<Rightarrow> path \<Rightarrow> string list \<Rightarrow> fs \<Rightarrow> bool \<times> fs" where
  "moveEntries dir home [] f = (True, f)"
| "moveEntries dir home (e # es) f =
     (if managedEntry e then moveEntries dir home es f
      else (case lstat f (home @ [e]) of
          Inl ENOENT \<Rightarrow> (case rename f (dir @ [e]) (home @ [e]) of Inl _ \<Rightarrow> (False, f) | Inr g \<Rightarrow> moveEntries dir home es g)
        | _ \<Rightarrow> (False, f)))"

text \<open>The part after the marker is there.\<close>

definition continueMigration :: "path \<Rightarrow> path \<Rightarrow> fs \<Rightarrow> bool \<times> fs" where
  "continueMigration dir home f = (case mkdirAll f home of (Some _, g) \<Rightarrow> (False, g)
     | (None, g) \<Rightarrow> (case readDir g dir of Inl _ \<Rightarrow> (False, g)
         | Inr entries \<Rightarrow> (case moveEntries dir home (map fst entries) g of (False, h) \<Rightarrow> (False, h)
             | (True, h) \<Rightarrow> (case removeFile h (dir @ [instanceMigrationMarker]) of Inl _ \<Rightarrow> (False, h) | Inr k \<Rightarrow> (True, k)))))"

definition markerText :: string where "markerText = ''legacy instance data migration in progress'' @ [CHR 0x0A]"

definition migrateLegacyInstanceData :: "path \<Rightarrow> path \<Rightarrow> fs \<Rightarrow> bool \<times> fs" where
  "migrateLegacyInstanceData dir home f =
     (case stat f (dir @ [instanceMigrationMarker]) of
        Inr _ \<Rightarrow> continueMigration dir home f
      | Inl ENOENT \<Rightarrow>
         (case stat f home of
            Inr _ \<Rightarrow> (True, f)
          | Inl ENOENT \<Rightarrow>
             (case stat f (dir @ [instanceComposeFile]) of
                Inl ENOENT \<Rightarrow> (True, f)
              | Inl _ \<Rightarrow> (False, f)
              | Inr _ \<Rightarrow> (case writeFileAtomically (dir @ [instanceMigrationMarker]) markerText f of
                    (False, g) \<Rightarrow> (False, g) | (True, g) \<Rightarrow> continueMigration dir home g))
          | Inl _ \<Rightarrow> (False, f))
      | Inl _ \<Rightarrow> (False, f))"

definition prepareInstanceDirs :: "path \<times> path \<times> path \<Rightarrow> fs \<Rightarrow> bool \<times> fs" where
  "prepareInstanceDirs = (\<lambda>(dir, home, workspace) f.
     (case mkdirAll f dir of (Some _, g) \<Rightarrow> (False, g)
      | (None, g) \<Rightarrow> (case migrateLegacyInstanceData dir home g of (False, h) \<Rightarrow> (False, h)
          | (True, h) \<Rightarrow> (case mkdirAll h home of (Some _, k) \<Rightarrow> (False, k)
              | (None, k) \<Rightarrow> (case mkdirAll k workspace of (e, l) \<Rightarrow> (e = None, l))))))"

section \<open>A migration that is cut off\<close>

text \<open>What is on the disk when the process dies after the first \<open>k\<close> renames of the loop: the marker and the data
  directory are there, the entries before that point are moved. With no entry left to move the marker still stands.\<close>

fun moveSome :: "nat \<Rightarrow> path \<Rightarrow> path \<Rightarrow> string list \<Rightarrow> fs \<Rightarrow> fs" where
  "moveSome k dir home [] f = f"
| "moveSome k dir home (e # es) f =
     (if managedEntry e then moveSome k dir home es f
      else (case k of 0 \<Rightarrow> f
        | Suc j \<Rightarrow> (case lstat f (home @ [e]) of
            Inl ENOENT \<Rightarrow> (case rename f (dir @ [e]) (home @ [e]) of Inl _ \<Rightarrow> f | Inr g \<Rightarrow> moveSome j dir home es g)
          | _ \<Rightarrow> f)))"

text \<open>The moments at which a run may be cut off: before it writes the marker, before the data directory, after some
  renames.\<close>

datatype cut = BeforeMarker | BeforeData | AfterMoves nat

definition cutMigration :: "cut \<Rightarrow> path \<Rightarrow> path \<Rightarrow> fs \<Rightarrow> fs" where
  "cutMigration c dir home f =
     (let started = (case stat f (dir @ [instanceMigrationMarker]) of Inr _ \<Rightarrow> True | Inl _ \<Rightarrow> False);
          pending = (\<not> started \<and> stat f home = Inl ENOENT \<and> (case stat f (dir @ [instanceComposeFile]) of Inr _ \<Rightarrow> True | Inl _ \<Rightarrow> False));
          marked = (if pending then snd (writeFileAtomically (dir @ [instanceMigrationMarker]) markerText f) else f)
      in if \<not> started \<and> \<not> pending then f
         else (case c of BeforeMarker \<Rightarrow> f | BeforeData \<Rightarrow> marked
           | AfterMoves k \<Rightarrow> (case mkdirAll marked home of (_, g) \<Rightarrow>
               (case readDir g dir of Inl _ \<Rightarrow> g | Inr entries \<Rightarrow> moveSome k dir home (map fst entries) g))))"

text \<open>The tree after the migration: what lay in the instance's directory lies in its data directory.\<close>

definition migrated :: "path \<Rightarrow> string set \<Rightarrow> fs \<Rightarrow> path \<Rightarrow> fsNode option" where
  "migrated dir names f r =
     (if r = dir @ [''data''] then Some Directory
      else if prefix (dir @ [''data'']) r then
        (if r ! Suc (length dir) \<in> names then map_of f (dir @ drop (Suc (length dir)) r) else None)
      else if strict_prefix dir r \<and> r ! length dir \<in> names then None
      else map_of f r)"

definition legacyNames :: "path \<Rightarrow> fs \<Rightarrow> string set" where
  "legacyNames dir f = {e. map_of f (dir @ [e]) \<noteq> None \<and> \<not> managedEntry e}"

text \<open>A tree whose paths are paths, and an instance in it that is still in the old layout.\<close>

definition soundFs :: "fs \<Rightarrow> bool" where
  "soundFs f \<longleftrightarrow> treeFs f \<and> distinct (map fst f) \<and> (\<forall>r \<in> fst ` set f. list_all okSeg r)"

definition legacy :: "path \<Rightarrow> fs \<Rightarrow> bool" where
  "legacy dir f \<longleftrightarrow> soundFs f \<and> plain f dir \<and> dir \<noteq> [] \<and> (\<exists>c. map_of f (dir @ [instanceComposeFile]) = Some (File c)) \<and>
     map_of f (dir @ [''data'']) = None \<and> map_of f (dir @ [instanceMigrationMarker]) = None"

text \<open>The tree in the middle: the marker stands and the entries \<open>names\<close> are moved.\<close>

definition halfway :: "path \<Rightarrow> fs \<Rightarrow> string set \<Rightarrow> fs \<Rightarrow> bool" where
  "halfway dir f names g \<longleftrightarrow> distinct (map fst g) \<and> names \<subseteq> legacyNames dir f \<and>
     map_of g = (migrated dir names f)(dir @ [instanceMigrationMarker] \<mapsto> File markerText)"

lemma entry_names [simp]: "okSeg ''data''" "okSeg ''workspace''" "okSeg instanceComposeFile" "okSeg instanceMigrationMarker"
  "managedEntry ''data''" "managedEntry instanceComposeFile" "managedEntry instanceMigrationMarker"
  "instanceMigrationMarker \<noteq> ''data''" "''data'' \<noteq> instanceMigrationMarker" "instanceComposeFile \<noteq> ''data''" "instanceMigrationMarker \<noteq> instanceComposeFile"
  by (simp_all add: okSeg_def dot_def dotdot_def instanceComposeFile_def instanceMigrationMarker_def managedEntry_def)

lemma migrated_simps:
  assumes "names \<subseteq> legacyNames dir f"
  shows "migrated dir names f (dir @ [''data'']) = Some Directory"
    "e \<notin> names \<Longrightarrow> e \<noteq> ''data'' \<Longrightarrow> migrated dir names f (dir @ e # t) = map_of f (dir @ e # t)"
    "e \<in> names \<Longrightarrow> migrated dir names f (dir @ e # t) = None"
    "e \<in> names \<Longrightarrow> migrated dir names f (dir @ ''data'' # e # t) = map_of f (dir @ e # t)"
    "e \<notin> names \<Longrightarrow> migrated dir names f (dir @ ''data'' # e # t) = None"
    "\<not> strict_prefix dir r \<Longrightarrow> migrated dir names f r = map_of f r"
proof -
  have d: "''data'' \<notin> names" using assms by (auto simp: legacyNames_def)
  show "migrated dir names f (dir @ [''data'']) = Some Directory"
    "e \<notin> names \<Longrightarrow> e \<noteq> ''data'' \<Longrightarrow> migrated dir names f (dir @ e # t) = map_of f (dir @ e # t)"
    "e \<in> names \<Longrightarrow> migrated dir names f (dir @ ''data'' # e # t) = map_of f (dir @ e # t)"
    "e \<notin> names \<Longrightarrow> migrated dir names f (dir @ ''data'' # e # t) = None"
    by (simp_all add: migrated_def nth_append)
  show "e \<in> names \<Longrightarrow> migrated dir names f (dir @ e # t) = None"
    using d by (auto simp: migrated_def nth_append strict_prefix_def)
  show "\<not> strict_prefix dir r \<Longrightarrow> migrated dir names f r = map_of f r"
    by (auto simp: migrated_def strict_prefix_def prefix_def)
qed

lemma map_of_moved:
  assumes "\<And>r. r \<in> fst ` set g \<Longrightarrow> \<not> prefix q r"
  shows "map_of (map (\<lambda>(r, x). (moved p q r, x)) g) r =
    (if prefix q r then map_of g (p @ drop (length q) r) else if prefix p r then None else map_of g r)"
  using assms
proof (induction g)
  case (Cons y g)
  obtain k x where y: "y = (k, x)" by (cases y)
  have k: "\<not> prefix q k" using Cons.prems y by simp
  have e: "moved p q k = r \<longleftrightarrow> (if prefix q r then k = p @ drop (length q) r else \<not> prefix p r \<and> k = r)"
    using k by (auto simp: moved_def prefix_def)
  have IH: "map_of (map (\<lambda>(r, x). (moved p q r, x)) g) r =
      (if prefix q r then map_of g (p @ drop (length q) r) else if prefix p r then None else map_of g r)"
    using Cons by simp
  have "map_of (map (\<lambda>(r, x). (moved p q r, x)) (y # g)) r =
      (if moved p q k = r then Some x else map_of (map (\<lambda>(r, x). (moved p q r, x)) g) r)" by (auto simp: y)
  then show ?case unfolding e IH by (auto simp: y)
qed simp

lemma distinct_moved:
  assumes "\<And>r. r \<in> fst ` set g \<Longrightarrow> \<not> prefix q r" "distinct (map fst g)"
  shows "distinct (map fst (map (\<lambda>(r, x). (moved p q r, x)) g))"
proof -
  have "inj_on (moved p q) (fst ` set g)"
    using assms(1) by (auto simp: inj_on_def moved_def prefix_def split: if_splits)
  then show ?thesis using assms(2) by (simp add: comp_def case_prod_unfold distinct_map inj_on_def)
qed

section \<open>Half way\<close>

lemma migrated_plain:
  assumes "map_of g = migrated dir names f" "plain f dir"
  shows "plain g dir"
proof -
  have "map_of g (take (Suc k) dir) = map_of f (take (Suc k) dir)" for k
  proof -
    have "length (take (Suc k) dir) \<le> length dir" by simp
    then have "\<not> prefix (dir @ [''data'']) (take (Suc k) dir)" "\<not> strict_prefix dir (take (Suc k) dir)"
      using prefix_length_less [of dir "take (Suc k) dir"] prefix_length_le [of "dir @ [''data'']" "take (Suc k) dir"] by fastforce+
    then show ?thesis by (auto simp: assms(1) migrated_def)
  qed
  then show ?thesis using assms(2) by (simp add: plain_def)
qed

lemma halfway_plain:
  assumes "legacy dir f" "halfway dir f names g"
  shows "plain g dir" "plain g (dir @ [''data''])"
proof -
  have h: "names \<subseteq> legacyNames dir f" "map_of g = (migrated dir names f)(dir @ [instanceMigrationMarker] \<mapsto> File markerText)"
    using assms(2) by (simp_all add: halfway_def)
  have "map_of g (take (Suc k) dir) = map_of f (take (Suc k) dir)" if "k < length dir" for k
  proof -
    have l: "length (take (Suc k) dir) \<le> length dir" by simp
    have "\<not> strict_prefix dir (take (Suc k) dir)" using prefix_length_less [of dir "take (Suc k) dir"] l by linarith
    moreover have "take (Suc k) dir \<noteq> dir @ [instanceMigrationMarker]" using l by (auto dest: arg_cong [where f = length])
    ultimately show ?thesis by (simp add: h(2) migrated_simps(6) [OF h(1)])
  qed
  then show d: "plain g dir" using assms(1) by (simp add: legacy_def plain_def)
  have "map_of g (dir @ [''data'']) = Some Directory" by (simp add: h(2) migrated_simps(1) [OF h(1)])
  then show "plain g (dir @ [''data''])" using d by (simp add: plain_snoc)
qed

lemma halfway_entry:
  assumes "legacy dir f" "halfway dir f names g" "\<not> managedEntry e"
  shows "map_of g (dir @ [e]) = (if e \<in> names then None else map_of f (dir @ [e]))"
    "e \<in> legacyNames dir f \<Longrightarrow> okSeg e"
proof -
  have h: "names \<subseteq> legacyNames dir f" "map_of g = (migrated dir names f)(dir @ [instanceMigrationMarker] \<mapsto> File markerText)"
    using assms(2) by (simp_all add: halfway_def)
  have e: "e \<noteq> ''data''" "e \<noteq> instanceMigrationMarker" using assms(3) by (auto simp: managedEntry_def)
  show "map_of g (dir @ [e]) = (if e \<in> names then None else map_of f (dir @ [e]))"
    using migrated_simps(2,3) [OF h(1), of e "[]"] e by (simp add: h(2))
  assume "e \<in> legacyNames dir f"
  then have "dir @ [e] \<in> fst ` set f" by (auto simp: legacyNames_def) (metis fst_conv image_eqI map_of_SomeD)
  then have "list_all okSeg (dir @ [e])" using assms(1) by (simp only: legacy_def soundFs_def)
  then show "okSeg e" by simp
qed

lemma halfway_free:
  assumes "legacy dir f" "halfway dir f names g" "e \<notin> names" "r \<in> fst ` set g"
  shows "\<not> prefix (dir @ [''data'', e]) r"
proof
  have h: "names \<subseteq> legacyNames dir f" "map_of g = (migrated dir names f)(dir @ [instanceMigrationMarker] \<mapsto> File markerText)"
    using assms(2) by (simp_all add: halfway_def)
  assume "prefix (dir @ [''data'', e]) r"
  then obtain t where r: "r = dir @ ''data'' # e # t" by (auto simp: prefix_def)
  have "map_of g r = None" using migrated_simps(5) [OF h(1) assms(3)] by (simp add: h(2) r)
  then show False using assms(4) by (simp add: map_of_eq_None_iff)
qed

text \<open>One entry is moved.\<close>

lemma halfway_move:
  assumes l: "legacy dir f" and g: "halfway dir f names g" and e: "e \<in> legacyNames dir f" "e \<notin> names"
  shows "lstat g (dir @ [''data'', e]) = Inl ENOENT"
    "\<exists>k. rename g (dir @ [e]) (dir @ [''data'', e]) = Inr k \<and> halfway dir f (insert e names) k"
proof -
  have m: "\<not> managedEntry e" using e(1) by (simp add: legacyNames_def)
  have ok: "okSeg e" by (rule halfway_entry(2) [OF l g m e(1)])
  note pl = halfway_plain [OF l g]
  have free: "\<And>r. r \<in> fst ` set g \<Longrightarrow> \<not> prefix (dir @ [''data'', e]) r" by (rule halfway_free [OF l g e(2)])
  have no: "map_of g (dir @ [''data'', e]) = None" using free [of "dir @ [''data'', e]"] by (auto simp: map_of_eq_None_iff)
  show "lstat g (dir @ [''data'', e]) = Inl ENOENT" using lstat_plain [OF pl(2) ok] no by simp
  have res: "resolve maxLinks g False [] (dir @ [e]) = Inr (dir @ [e])"
    "resolve maxLinks g False [] (dir @ [''data'', e]) = Inr (dir @ [''data'', e])"
    using resolve_last [OF pl(1) ok, of False] resolve_last [OF pl(2) ok, of False] by simp_all
  have some: "map_of g (dir @ [e]) \<noteq> None" using halfway_entry(1) [OF l g m] e by (simp add: legacyNames_def)
  have fil: "filter (\<lambda>(r, _). r \<noteq> dir @ [''data'', e]) g = g"
    using no by (force simp: filter_id_conv map_of_eq_None_iff)
  let ?k = "map (\<lambda>(r, x). (moved (dir @ [e]) (dir @ [''data'', e]) r, x)) g"
  have h: "names \<subseteq> legacyNames dir f" "map_of g = (migrated dir names f)(dir @ [instanceMigrationMarker] \<mapsto> File markerText)" "distinct (map fst g)"
    using g by (simp_all add: halfway_def)
  have mm: "map_of ?k r = (if prefix (dir @ [''data'', e]) r then map_of g ((dir @ [e]) @ drop (length (dir @ [''data'', e])) r)
      else if prefix (dir @ [e]) r then None else map_of g r)" for r
    by (rule map_of_moved) (rule free)
  have dm: "distinct (map fst ?k)" by (rule distinct_moved [OF _ h(3)]) (rule free)
  have hi: "insert e names \<subseteq> legacyNames dir f" using h(1) e(1) by simp
  have ed: "e \<noteq> ''data''" "e \<noteq> instanceMigrationMarker" using m by (auto simp: managedEntry_def)
  have "map_of ?k r = ((migrated dir (insert e names) f)(dir @ [instanceMigrationMarker] \<mapsto> File markerText)) r" for r
  proof (cases "prefix (dir @ [''data'', e]) r")
    case True
    then obtain t where r: "r = dir @ ''data'' # e # t" by (auto simp: prefix_def)
    have "map_of ?k r = map_of g (dir @ e # t)" using mm [of r] True by (simp add: r)
    also have "\<dots> = map_of f (dir @ e # t)" using migrated_simps(2) [OF h(1) e(2) ed(1)] ed by (simp add: h(2))
    finally show ?thesis using migrated_simps(4) [OF hi, of e t] by (simp add: r)
  next
    case False
    show ?thesis
    proof (cases "prefix (dir @ [e]) r")
      case True
      then obtain t where r: "r = dir @ e # t" by (auto simp: prefix_def)
      show ?thesis using mm [of r] False True migrated_simps(3) [OF hi, of e t] ed by (simp add: r)
    next
      case f2: False
      have "migrated dir names f r = migrated dir (insert e names) f r"
      proof (cases "strict_prefix dir r")
        case True
        then obtain z where z: "r = dir @ z" "z \<noteq> []" by (auto simp: strict_prefix_def prefix_def)
        then obtain d t where r: "r = dir @ d # t" by (cases z) auto
        have "d \<noteq> e" using f2 by (auto simp: r)
        moreover have "t ! 0 \<noteq> e" if "d = ''data''" "t \<noteq> []"
          using False that by (cases t) (auto simp: r)
        ultimately show ?thesis by (auto simp: migrated_def r nth_append)
      qed (simp add: migrated_simps(6) [OF h(1)] migrated_simps(6) [OF hi])
      then show ?thesis using mm [of r] False f2 by (simp add: h(2))
    qed
  qed
  then have "halfway dir f (insert e names) ?k"
    using hi dm unfolding halfway_def by blast
  then show "\<exists>k. rename g (dir @ [e]) (dir @ [''data'', e]) = Inr k \<and> halfway dir f (insert e names) k"
    using some no by (simp add: rename_def res fil)
qed

text \<open>All entries, or some of them before the process dies.\<close>

lemma halfway_all:
  assumes "legacy dir f" "halfway dir f names g" "distinct es" "\<And>e. e \<in> set es \<Longrightarrow> \<not> managedEntry e \<Longrightarrow> e \<in> legacyNames dir f - names"
  shows "\<exists>k. moveEntries dir (dir @ [''data'']) es g = (True, k) \<and> halfway dir f (names \<union> {e \<in> set es. \<not> managedEntry e}) k"
  using assms(2-)
proof (induction es arbitrary: g names)
  case (Cons e es)
  show ?case
  proof (cases "managedEntry e")
    case True
    moreover have "{x. (x = e \<or> x \<in> set es) \<and> \<not> managedEntry x} = {x \<in> set es. \<not> managedEntry x}" using True by auto
    ultimately show ?thesis using Cons.IH [OF Cons.prems(1)] Cons.prems(2,3) by simp
  next
    case False
    then have e: "e \<in> legacyNames dir f" "e \<notin> names" using Cons.prems(3) [of e] by auto
    obtain h where h: "rename g (dir @ [e]) (dir @ [''data'', e]) = Inr h" "halfway dir f (insert e names) h"
      using halfway_move(2) [OF assms(1) Cons.prems(1) e] by blast
    have "x \<in> legacyNames dir f - insert e names" if "x \<in> set es" "\<not> managedEntry x" for x
      using Cons.prems(2) Cons.prems(3) [of x] that by auto
    then obtain k where k: "moveEntries dir (dir @ [''data'']) es h = (True, k)"
        "halfway dir f (insert e names \<union> {x \<in> set es. \<not> managedEntry x}) k"
      using Cons.IH [OF h(2)] Cons.prems(2) by auto
    moreover have "insert e names \<union> {x \<in> set es. \<not> managedEntry x} = names \<union> {x \<in> set (e # es). \<not> managedEntry x}" using False by auto
    ultimately show ?thesis using halfway_move(1) [OF assms(1) Cons.prems(1) e] h(1) False by auto
  qed
qed simp

lemma halfway_some:
  assumes "legacy dir f" "halfway dir f names g" "distinct es" "\<And>e. e \<in> set es \<Longrightarrow> \<not> managedEntry e \<Longrightarrow> e \<in> legacyNames dir f - names"
  shows "\<exists>more. halfway dir f more (moveSome n dir (dir @ [''data'']) es g)"
  using assms(2-)
proof (induction es arbitrary: g names n)
  case (Cons e es)
  have tail: "x \<in> legacyNames dir f - insert e names" if "x \<in> set es" "\<not> managedEntry x" for x
    using Cons.prems(2) Cons.prems(3) [of x] that by auto
  show ?case
  proof (cases "managedEntry e \<or> n = 0")
    case True
    then show ?thesis using Cons.IH [OF Cons.prems(1)] Cons.prems by (cases "managedEntry e") auto
  next
    case False
    then obtain j where n: "n = Suc j" "\<not> managedEntry e" by (cases n) auto
    then have e: "e \<in> legacyNames dir f" "e \<notin> names" using Cons.prems(3) [of e] by auto
    obtain h where h: "rename g (dir @ [e]) (dir @ [''data'', e]) = Inr h" "halfway dir f (insert e names) h"
      using halfway_move(2) [OF assms(1) Cons.prems(1) e] by blast
    have "\<exists>more. halfway dir f more (moveSome j dir (dir @ [''data'']) es h)" using Cons.IH [OF h(2)] Cons.prems(2) tail by simp
    then show ?thesis using halfway_move(1) [OF assms(1) Cons.prems(1) e] h(1) n by simp
  qed
qed auto

text \<open>What the loop reads.\<close>

lemma halfway_entries:
  assumes l: "legacy dir f" and g: "halfway dir f names g"
  shows "\<exists>entries. readDir g dir = Inr entries \<and> distinct (map fst entries) \<and>
    {e \<in> fst ` set entries. \<not> managedEntry e} = legacyNames dir f - names"
proof -
  note pl = halfway_plain(1) [OF l g]
  have d: "distinct (map fst g)" "names \<subseteq> legacyNames dir f" using g by (simp_all add: halfway_def)
  have dir: "map_of g dir = Some Directory"
    using pl l by (cases dir rule: rev_cases) (auto simp: legacy_def plain_snoc)
  let ?es = "map (\<lambda>(r, x). (last r, x)) (filter (\<lambda>(r, x). r \<noteq> [] \<and> butlast r = dir) g)"
  have rd: "readDir g dir = Inr (sort_key fst ?es)" by (simp add: readDir_def resolve_dir [OF pl] dir)
  have names: "fst ` set (sort_key fst ?es) = {e. map_of g (dir @ [e]) \<noteq> None}"
  proof (intro set_eqI iffI)
    fix e assume "e \<in> fst ` set (sort_key fst ?es)"
    then obtain r x where r: "(r, x) \<in> set g" "r \<noteq> []" "butlast r = dir" "e = last r" by auto
    then have "r = dir @ [e]" by (metis append_butlast_last_id)
    then show "e \<in> {e. map_of g (dir @ [e]) \<noteq> None}" using r(1) d(1) by (auto simp: map_of_eq_Some_iff)
  next
    fix e assume "e \<in> {e. map_of g (dir @ [e]) \<noteq> None}"
    then obtain x where "(dir @ [e], x) \<in> set g" using map_of_SomeD by fastforce
    then show "e \<in> fst ` set (sort_key fst ?es)" by force
  qed
  have fs: "distinct (map fst (filter (\<lambda>(r, x). r \<noteq> [] \<and> butlast r = dir) g))" using d(1) by (rule distinct_map_filter)
  have inj: "inj_on last {r. r \<noteq> [] \<and> butlast r = dir}"
    by (intro inj_onI) (metis (mono_tags, lifting) append_butlast_last_id mem_Collect_eq)
  have "inj_on last (set (map fst (filter (\<lambda>(r, x). r \<noteq> [] \<and> butlast r = dir) g)))"
    by (rule inj_on_subset [OF inj]) auto
  then have "distinct (map last (map fst (filter (\<lambda>(r, x). r \<noteq> [] \<and> butlast r = dir) g)))"
    unfolding distinct_map [of last] using fs by blast
  moreover have "map fst ?es = map last (map fst (filter (\<lambda>(r, x). r \<noteq> [] \<and> butlast r = dir) g))" by (simp add: comp_def case_prod_unfold)
  ultimately have ds: "distinct (map fst ?es)" by (simp only:)
  have "mset (map fst (sort_key fst ?es)) = mset (map fst ?es)" by (simp only: mset_map mset_sort)
  then have "distinct (map fst (sort_key fst ?es))" using ds mset_eq_imp_distinct_iff by blast
  moreover have "{e \<in> fst ` set (sort_key fst ?es). \<not> managedEntry e} = legacyNames dir f - names"
    unfolding names using halfway_entry(1) [OF l g] by (auto simp: legacyNames_def split: if_splits)
  ultimately show ?thesis using rd by blast
qed

section \<open>From any point to the end\<close>

definition markedTree :: "path \<Rightarrow> fs \<Rightarrow> fs" where
  "markedTree dir f = AList.update (dir @ [instanceMigrationMarker]) (File markerText) f"

lemma mkdirAll_plain: "plain f p \<Longrightarrow> mkdirAll f p = (None, f)"
  using mkdirs_plain [of f "[]" p "[]"] by (simp add: mkdirAll_def)

lemma stat_plain: "plain f p \<Longrightarrow> okSeg s \<Longrightarrow> (\<And>a t. map_of f (p @ [s]) \<noteq> Some (Symlink a t)) \<Longrightarrow>
    stat f (p @ [s]) = (case map_of f (p @ [s]) of None \<Rightarrow> Inl ENOENT | Some x \<Rightarrow> Inr x)"
  unfolding stat_def by (rule lookup_plain) auto

lemma legacy_start:
  assumes "legacy dir f"
  shows "stat f (dir @ [instanceMigrationMarker]) = Inl ENOENT" "stat f (dir @ [''data'']) = Inl ENOENT"
    "\<exists>c. stat f (dir @ [instanceComposeFile]) = Inr (File c)"
    "writeFileAtomically (dir @ [instanceMigrationMarker]) markerText f = (True, markedTree dir f)"
proof -
  have l: "plain f dir" "map_of f (dir @ [''data'']) = None" "map_of f (dir @ [instanceMigrationMarker]) = None"
    "\<exists>c. map_of f (dir @ [instanceComposeFile]) = Some (File c)"
    using assms by (simp_all add: legacy_def)
  then show "stat f (dir @ [instanceMigrationMarker]) = Inl ENOENT" "stat f (dir @ [''data'']) = Inl ENOENT"
    "\<exists>c. stat f (dir @ [instanceComposeFile]) = Inr (File c)"
    by (auto simp: stat_plain)
  show "writeFileAtomically (dir @ [instanceMigrationMarker]) markerText f = (True, markedTree dir f)"
    using l by (simp add: writeFileAtomically_def mkdirAll_plain resolve_last markedTree_def)
qed

lemma marked_next:
  assumes "legacy dir f"
  shows "stat (markedTree dir f) (dir @ [instanceMigrationMarker]) = Inr (File markerText)"
    "\<exists>g. mkdirAll (markedTree dir f) (dir @ [''data'']) = (None, g) \<and> halfway dir f {} g"
proof -
  let ?m = "markedTree dir f"
  have l: "plain f dir" "map_of f (dir @ [''data'']) = None" "map_of f (dir @ [instanceMigrationMarker]) = None" "distinct (map fst f)" "treeFs f"
    using assms by (simp_all add: legacy_def soundFs_def)
  have pm: "plain ?m dir" unfolding markedTree_def by (rule plain_add [OF l(3,1)])
  have m: "map_of ?m r = (if r = dir @ [instanceMigrationMarker] then Some (File markerText) else map_of f r)" for r
    by (simp add: markedTree_def update_conv')
  show "stat ?m (dir @ [instanceMigrationMarker]) = Inr (File markerText)" by (simp add: stat_plain pm m)
  let ?g = "AList.update (dir @ [''data'']) Directory ?m"
  have "mkdirAll ?m (dir @ [''data'']) = (None, ?g)"
    using mkdirs_plain [of ?m "[]" dir "[''data'']"] pm
    by (simp add: mkdirAll_def stat_plain m l(2) mkdir_def resolve_last)
  moreover have "map_of f (dir @ ''data'' # t) = None" for t
  proof (induction t rule: rev_induct)
    case (snoc a t)
    then show ?case using l(5) unfolding treeFs_def by (metis Cons_eq_appendI Nil_is_append_conv append_assoc list.distinct(1) option.distinct(1))
  qed (rule l(2))
  then have "map_of ?g r = ((migrated dir {} f)(dir @ [instanceMigrationMarker] \<mapsto> File markerText)) r" for r
    by (auto simp: update_conv' m migrated_def prefix_def)
  then have "halfway dir f {} ?g" using l(4) by (simp add: halfway_def fun_eq_iff markedTree_def distinct_update)
  ultimately show "\<exists>g. mkdirAll ?m (dir @ [''data'']) = (None, g) \<and> halfway dir f {} g" by blast
qed

lemma halfway_stat:
  assumes "legacy dir f" "halfway dir f names g"
  shows "stat g (dir @ [instanceMigrationMarker]) = Inr (File markerText)" "mkdirAll g (dir @ [''data'']) = (None, g)"
  using halfway_plain [OF assms] assms(2) by (simp_all add: stat_plain mkdirAll_plain halfway_def)

lemma continue_done:
  assumes l: "legacy dir f" and g: "halfway dir f names g"
  shows "\<exists>k. continueMigration dir (dir @ [''data'']) g = (True, k) \<and> map_of k = migrated dir (legacyNames dir f) f"
proof -
  obtain entries where e: "readDir g dir = Inr entries" "distinct (map fst entries)"
      "{e \<in> fst ` set entries. \<not> managedEntry e} = legacyNames dir f - names"
    using halfway_entries [OF l g] by blast
  have "names \<union> (legacyNames dir f - names) = legacyNames dir f" using g by (auto simp: halfway_def)
  moreover obtain h where h: "moveEntries dir (dir @ [''data'']) (map fst entries) g = (True, h)"
      "halfway dir f (names \<union> {e \<in> set (map fst entries). \<not> managedEntry e}) h"
    using halfway_all [OF l g e(2)] e(3) by auto
  ultimately have hh: "halfway dir f (legacyNames dir f) h" using e(3) by simp
  let ?k = "filter (\<lambda>(r, _). r \<noteq> dir @ [instanceMigrationMarker]) h"
  have hm: "map_of h = (migrated dir (legacyNames dir f) f)(dir @ [instanceMigrationMarker] \<mapsto> File markerText)" using hh by (simp add: halfway_def)
  have "instanceMigrationMarker \<notin> legacyNames dir f" by (simp add: legacyNames_def)
  then have mk: "migrated dir (legacyNames dir f) f (dir @ [instanceMigrationMarker]) = None"
    using migrated_simps(2) [OF subset_refl, of instanceMigrationMarker dir f "[]"] l by (simp add: legacy_def)
  have "map_of ?k r = (if r = dir @ [instanceMigrationMarker] then None else map_of h r)" for r
    by (induction h) auto
  then have "map_of ?k = migrated dir (legacyNames dir f) f" using mk by (auto simp: hm fun_eq_iff)
  moreover have "removeFile h (dir @ [instanceMigrationMarker]) = Inr ?k"
    using halfway_plain(1) [OF l hh] by (simp add: removeFile_def resolve_last hm)
  ultimately show ?thesis
    using halfway_stat(2) [OF l g] e(1) h(1) by (simp add: continueMigration_def)
qed

definition onTheWay :: "path \<Rightarrow> fs \<Rightarrow> fs \<Rightarrow> bool" where
  "onTheWay dir f g \<longleftrightarrow> g = f \<or> g = markedTree dir f \<or> (\<exists>names. halfway dir f names g)"

lemma way_loop:
  assumes "legacy dir f" "halfway dir f names g"
  shows "\<exists>more. halfway dir f more (case readDir g dir of Inl _ \<Rightarrow> g | Inr entries \<Rightarrow> moveSome n dir (dir @ [''data'']) (map fst entries) g)"
proof -
  obtain entries where e: "readDir g dir = Inr entries" "distinct (map fst entries)"
      "{e \<in> fst ` set entries. \<not> managedEntry e} = legacyNames dir f - names"
    using halfway_entries [OF assms] by blast
  have "\<exists>more. halfway dir f more (moveSome n dir (dir @ [''data'']) (map fst entries) g)"
    by (rule halfway_some [OF assms e(2)]) (use e(3) in auto)
  then show ?thesis by (simp add: e(1))
qed

lemma way_cut:
  assumes l: "legacy dir f" and w: "onTheWay dir f g"
  shows "onTheWay dir f (cutMigration c dir (dir @ [''data'']) g)"
proof -
  obtain g1 where g1: "mkdirAll (markedTree dir f) (dir @ [''data'']) = (None, g1)" "halfway dir f {} g1"
    using marked_next(2) [OF l] by blast
  consider "g = f" | "g = markedTree dir f" | names where "halfway dir f names g" using w by (auto simp: onTheWay_def)
  then show ?thesis
  proof cases
    case 1
    show ?thesis using way_loop [OF l g1(2)] legacy_start [OF l] g1(1)
      by (auto simp: 1 cutMigration_def onTheWay_def Let_def split: cut.split)
  next
    case 2
    show ?thesis using way_loop [OF l g1(2)] marked_next(1) [OF l] g1(1)
      by (auto simp: 2 cutMigration_def onTheWay_def Let_def split: cut.split)
  next
    case 3
    then show ?thesis using way_loop [OF l 3] halfway_stat [OF l 3]
      by (auto simp: cutMigration_def onTheWay_def Let_def split: cut.split)
  qed
qed

lemma way_done:
  assumes l: "legacy dir f" and w: "onTheWay dir f g"
  shows "\<exists>k. migrateLegacyInstanceData dir (dir @ [''data'']) g = (True, k) \<and> map_of k = migrated dir (legacyNames dir f) f"
proof -
  obtain g1 where g1: "mkdirAll (markedTree dir f) (dir @ [''data'']) = (None, g1)" "halfway dir f {} g1"
    using marked_next(2) [OF l] by blast
  have same: "continueMigration dir (dir @ [''data'']) (markedTree dir f) = continueMigration dir (dir @ [''data'']) g1"
    by (simp add: continueMigration_def g1(1) halfway_stat(2) [OF l g1(2)])
  consider "g = f" | "g = markedTree dir f" | names where "halfway dir f names g" using w by (auto simp: onTheWay_def)
  then show ?thesis
  proof cases
    case 1
    show ?thesis using continue_done [OF l g1(2)] legacy_start [OF l] same by (auto simp: 1 migrateLegacyInstanceData_def)
  next
    case 2
    show ?thesis using continue_done [OF l g1(2)] marked_next(1) [OF l] same by (auto simp: 2 migrateLegacyInstanceData_def)
  next
    case 3
    then show ?thesis using continue_done [OF l 3] halfway_stat(1) [OF l 3] by (auto simp: migrateLegacyInstanceData_def)
  qed
qed

section \<open>Properties\<close>


text \<open>An instance of the old layout in which the user has made a directory \<open>data\<close> of his own counts as migrated: his other
  files stay where no container sees them.\<close>

lemma own_data_directory_skips:
  assumes "soundFs f" "plain f (dir @ [''data''])" "map_of f (dir @ [instanceMigrationMarker]) = None"
  shows "migrateLegacyInstanceData dir (dir @ [''data'']) f = (True, f)"
proof -
  have "plain f dir" "map_of f (dir @ [''data'']) = Some Directory" using assms(2) by (simp_all add: plain_snoc)
  then show ?thesis using assms(3) by (simp add: migrateLegacyInstanceData_def stat_plain)
qed

definition exampleLegacy :: fs where
  "exampleLegacy = [([''srv''], Directory), ([''srv'', ''i''], Directory), ([''srv'', ''i'', ''docker-compose.yml''], File ''yml''),
     ([''srv'', ''i'', ''notes''], File ''text''), ([''srv'', ''i'', ''app''], Directory), ([''srv'', ''i'', ''app'', ''db''], File ''rows'')]"


end
