(* ===== verification/Routes.thy ===== *)
theory Routes
  imports HostAgent Layout
begin

text \<open>
  The route cache of a platform node (\<open>agent/main.go\<close>): which address the proxy sends the requests of an instance's
  route to. Entries come from Docker, are good for a minute, may be used for ten while a refresh runs in the
  background, and are dropped when a connection fails. \<open>validIP\<close> is \<open>net.ParseIP\<close>.
\<close>

record cachedRouteTarget =
  ct_ip :: string
  ct_expires :: int
  ct_stale :: int

type_synonym routeCache = "string \<rightharpoonup> cachedRouteTarget"

definition minute :: int where "minute = 60 * 1000000000"

definition storeRouteTarget :: "string \<Rightarrow> string \<Rightarrow> int \<Rightarrow> routeCache \<Rightarrow> routeCache" where
  "storeRouteTarget route ip t c = c(route \<mapsto> \<lparr>ct_ip = ip, ct_expires = t + minute, ct_stale = t + 10 * minute\<rparr>)"

definition invalidateRouteTarget :: "string \<Rightarrow> string \<Rightarrow> routeCache \<Rightarrow> routeCache" where
  "invalidateRouteTarget route expected c =
     (case c route of None \<Rightarrow> c | Some x \<Rightarrow> if expected = [] \<or> ct_ip x = expected then c(route := None) else c)"

text \<open>The address, and whether a refresh is asked for.\<close>

definition resolveRouteTarget :: "string \<Rightarrow> int \<Rightarrow> routeCache \<Rightarrow> string option \<times> bool" where
  "resolveRouteTarget route t c =
     (case c route of None \<Rightarrow> (None, True)
      | Some x \<Rightarrow> if t < ct_expires x then (Some (ct_ip x), False)
                   else if t < ct_stale x then (Some (ct_ip x), True) else (None, True))"

text \<open>\<open>strings.SplitN(line, "|", 2)\<close> when it has two parts.\<close>

definition splitOnce :: "string \<Rightarrow> (string \<times> string) option" where
  "splitOnce s = (if bar \<in> set s then Some (takeWhile (\<lambda>c. c \<noteq> bar) s, tl (dropWhile (\<lambda>c. c \<noteq> bar) s)) else None)"

definition listedRoutes :: "string \<Rightarrow> (string \<times> string) list" where
  "listedRoutes out = filter (\<lambda>(name, route). ValidName name \<and> ValidRoute route)
     (List.map_filter splitOnce (splitOn newline (trimSpace out)))"

text \<open>\<open>routesByName\<close>: a name that is listed twice has its last route.\<close>

definition routeOf :: "(string \<times> string) list \<Rightarrow> string \<Rightarrow> string option" where
  "routeOf rs name = map_of (rev rs) name"

definition trimSlash :: "string \<Rightarrow> string" where
  "trimSlash s = (if take 1 s = ''/'' then drop 1 s else s)"

definition inspectedRoutes :: "(string \<Rightarrow> bool) \<Rightarrow> (string \<times> string) list \<Rightarrow> string \<Rightarrow> (string \<times> string) list" where
  "inspectedRoutes validIP rs out = List.map_filter (\<lambda>line. case splitOnce line of None \<Rightarrow> None
     | Some (a, b) \<Rightarrow> (case routeOf rs (trimSlash (trimSpace a)) of None \<Rightarrow> None
         | Some route \<Rightarrow> if validIP (trimSpace b) then Some (route, trimSpace b) else None))
     (splitOn newline (trimSpace out))"

definition storeAll :: "int \<Rightarrow> (string \<times> string) list \<Rightarrow> routeCache \<Rightarrow> routeCache" where
  "storeAll t rs c = fold (\<lambda>(route, ip). storeRouteTarget route ip t) rs c"

definition psArgs :: "string list" where
  "psArgs = [''ps'', ''--filter'', ''label=xcloud.managed=true'', ''--format'', ''{{.Names}}|{{.Label \"xcloud.route\"}}'']"

definition refreshArgs :: "string list \<Rightarrow> string list" where
  "refreshArgs names = [''inspect'', ''--format'', ''{{.Name}}|{{range .NetworkSettings.Networks}}{{.IPAddress}}{{end}}''] @ names"

definition refreshRouteTargetCache :: "(string \<Rightarrow> bool) \<Rightarrow> 'w docker \<Rightarrow> 'w host \<Rightarrow> routeCache \<Rightarrow> 'w host \<times> routeCache" where
  "refreshRouteTargetCache validIP docker h c =
     (case docker psArgs h of
        ((False, _), g) \<Rightarrow> (g, c)
      | ((True, out), g) \<Rightarrow>
          (let rs = listedRoutes out
           in if rs = [] then (g, c)
              else (case docker (refreshArgs (map fst rs)) g of
                  ((False, _), k) \<Rightarrow> (k, c)
                | ((True, out2), k) \<Rightarrow> (k, storeAll (h_now k) (inspectedRoutes validIP rs out2) c))))"

definition cacheRouteTarget :: "(string \<Rightarrow> bool) \<Rightarrow> 'w docker \<Rightarrow> string \<Rightarrow> string \<Rightarrow> 'w host \<Rightarrow> routeCache \<Rightarrow> 'w host \<times> routeCache" where
  "cacheRouteTarget validIP docker name route h c =
     (if \<not> ValidName name \<or> \<not> ValidRoute route then (h, c)
      else (case docker [''inspect'', ''--format'', ''{{range .NetworkSettings.Networks}}{{.IPAddress}}{{end}}'', name] h of
        ((ok, out), g) \<Rightarrow> (g, if ok \<and> validIP (trimSpace out) then storeRouteTarget route (trimSpace out) (h_now g) c else c)))"

text \<open>\<open>isUpstreamConnectionFailure\<close>, by the text of the error and whether it wraps one of the three errnos.\<close>

definition isUpstreamConnectionFailure :: "bool \<Rightarrow> string \<Rightarrow> bool" where
  "isUpstreamConnectionFailure errno message \<longleftrightarrow> errno \<or> containsText (toLower message) ''connection refused'' \<or>
     containsText (toLower message) ''connection reset'' \<or> containsText (toLower message) ''broken pipe''"

text \<open>The error handler of the proxy.\<close>

definition proxyFailed :: "string \<Rightarrow> string \<Rightarrow> bool \<Rightarrow> string \<Rightarrow> routeCache \<Rightarrow> routeCache" where
  "proxyFailed route ip errno message c =
     (if isUpstreamConnectionFailure errno message then invalidateRouteTarget route ip c else c)"

text \<open>\<open>proxyContainer\<close>: where a request goes.\<close>

definition proxyTarget :: "string \<Rightarrow> int \<Rightarrow> routeCache \<Rightarrow> int + string" where
  "proxyTarget route t c =
     (if \<not> ValidRoute route then Inl 400
      else (case fst (resolveRouteTarget route t c) of None \<Rightarrow> Inl 502 | Some ip \<Rightarrow> Inr (''http://'' @ ip @ '':17390'')))"

section \<open>Histories\<close>

text \<open>What may happen to the cache: something is learnt at a time, an entry is dropped, time passes. \<open>seen\<close> records what
  was learnt.\<close>

inductive routeRun :: "(int \<times> string \<times> string) set \<Rightarrow> int \<Rightarrow> routeCache \<Rightarrow> bool" where
  start: "routeRun {} t Map.empty"
| learn: "routeRun seen t c \<Longrightarrow> routeRun (insert (t, route, ip) seen) t (storeRouteTarget route ip t c)"
| drop: "routeRun seen t c \<Longrightarrow> routeRun seen t (invalidateRouteTarget route ip c)"
| wait: "routeRun seen t c \<Longrightarrow> t \<le> u \<Longrightarrow> routeRun seen u c"

inductive_cases routeRun_emptyE: "routeRun {} t c"

lemma run_past: "routeRun seen t c \<Longrightarrow> (u, route, ip) \<in> seen \<Longrightarrow> u \<le> t"
  by (induction rule: routeRun.induct) auto

lemma run_entry:
  "routeRun seen t c \<Longrightarrow> c route = Some x \<Longrightarrow>
     \<exists>u. (u, route, ct_ip x) \<in> seen \<and> ct_expires x = u + minute \<and> ct_stale x = u + 10 * minute \<and>
       (\<forall>v ip. (v, route, ip) \<in> seen \<longrightarrow> v \<le> u)"
proof (induction arbitrary: x rule: routeRun.induct)
  case (learn seen t c r ip)
  show ?case
  proof (cases "route = r")
    case True
    then have "x = \<lparr>ct_ip = ip, ct_expires = t + minute, ct_stale = t + 10 * minute\<rparr>"
      using learn.prems by (simp add: storeRouteTarget_def)
    then show ?thesis using True run_past [OF learn.hyps] by (intro exI [of _ t]) auto
  next
    case False
    then show ?thesis using learn.IH learn.prems by (auto simp: storeRouteTarget_def)
  qed
next
  case (drop seen t c r ip)
  then show ?case by (auto simp: invalidateRouteTarget_def split: option.splits if_splits)
qed auto

text \<open>The code's operations are such histories: they learn only what Docker says of a container whose name and route are
  valid.\<close>

lemma run_storeAll: "routeRun seen t c \<Longrightarrow> routeRun (seen \<union> {(t, r, ip) |r ip. (r, ip) \<in> set rs}) t (storeAll t rs c)"
proof (induction rs arbitrary: seen c)
  case (Cons y rs)
  obtain r ip where y: "y = (r, ip)" by (cases y)
  have "insert (t, r, ip) seen \<union> {(t, r, ip) |r ip. (r, ip) \<in> set rs} = seen \<union> {(t, r, ip) |r ip. (r, ip) \<in> set (y # rs)}" by (auto simp: y)
  then show ?case using Cons.IH [OF routeRun.learn [OF Cons.prems, of r ip]] by (simp add: storeAll_def y)
qed (simp add: storeAll_def)

text \<open>Docker's answers take time, and the clock does not go back.\<close>

definition steady :: "'w docker \<Rightarrow> bool" where
  "steady docker \<longleftrightarrow> (\<forall>args h. h_now h \<le> h_now (snd (docker args h)))"

lemma cache_is_run:
  assumes "steady docker" "routeRun seen (h_now h) c" "cacheRouteTarget validIP docker name route h c = (g, c2)"
  shows "\<exists>more. routeRun (seen \<union> more) (h_now g) c2 \<and> (\<forall>(t, r, ip) \<in> more. r = route \<and> ValidRoute r \<and> ValidName name \<and> validIP ip)"
proof (cases "ValidName name \<and> ValidRoute route")
  case True
  obtain ok out where d: "docker [''inspect'', ''--format'', ''{{range .NetworkSettings.Networks}}{{.IPAddress}}{{end}}'', name] h = ((ok, out), g)"
    using assms(3) True by (auto simp: cacheRouteTarget_def split: prod.splits)
  have r: "routeRun seen (h_now g) c"
    using assms(1) d routeRun.wait [OF assms(2)] unfolding steady_def by (metis snd_conv)
  show ?thesis
  proof (cases "ok \<and> validIP (trimSpace out)")
    case t: True
    then have "c2 = storeRouteTarget route (trimSpace out) (h_now g) c" using assms(3) True d by (simp add: cacheRouteTarget_def)
    then show ?thesis using routeRun.learn [OF r, of route "trimSpace out"] True t
      by (intro exI [of _ "{(h_now g, route, trimSpace out)}"]) simp
  next
    case False
    then have "c2 = c" using assms(3) True d by (auto simp: cacheRouteTarget_def)
    then show ?thesis using r by (intro exI [of _ "{}"]) simp
  qed
next
  case False
  then have "g = h" "c2 = c" using assms(3) by (auto simp: cacheRouteTarget_def)
  then show ?thesis using assms(2) by (intro exI [of _ "{}"]) simp
qed

lemma listed_valid: "(name, route) \<in> set (listedRoutes out) \<Longrightarrow> ValidName name \<and> ValidRoute route"
  by (simp add: listedRoutes_def)

lemma inspected_listed:
  "(route, ip) \<in> set (inspectedRoutes validIP rs out) \<Longrightarrow> (\<exists>name. (name, route) \<in> set rs) \<and> validIP ip"
  by (force simp: inspectedRoutes_def List.map_filter_def routeOf_def split: option.splits prod.splits if_splits dest: map_of_SomeD)

lemma refresh_is_run:
  assumes "steady docker" "routeRun seen (h_now h) c" "refreshRouteTargetCache validIP docker h c = (g, c2)"
  shows "\<exists>more. routeRun (seen \<union> more) (h_now g) c2 \<and>
    (\<forall>(t, r, ip) \<in> more. ValidRoute r \<and> validIP ip \<and> (\<exists>name out k. ValidName name \<and> docker psArgs h = ((True, out), k) \<and> (name, r) \<in> set (listedRoutes out)))"
proof -
  obtain ok out k where d: "docker psArgs h = ((ok, out), k)" by (cases "docker psArgs h") auto
  have rk: "routeRun seen (h_now k) c"
    using assms(1) d routeRun.wait [OF assms(2)] unfolding steady_def by (metis snd_conv)
  let ?rs = "listedRoutes out"
  obtain ok2 out2 l where d2: "docker (refreshArgs (map fst ?rs)) k = ((ok2, out2), l)" by (cases "docker (refreshArgs (map fst ?rs)) k") auto
  have rl: "routeRun seen (h_now l) c"
    using assms(1) d2 routeRun.wait [OF rk] unfolding steady_def by (metis snd_conv)
  consider "g = k" "c2 = c" | "g = l" "c2 = c"
    | "ok" "g = l" "c2 = storeAll (h_now l) (inspectedRoutes validIP ?rs out2) c"
    using assms(3) d d2 by (auto simp: refreshRouteTargetCache_def Let_def split: bool.splits if_splits)
  then show ?thesis
  proof cases
    case 1
    then show ?thesis using rk by (intro exI [of _ "{}"]) simp
  next
    case 2
    then show ?thesis using rl by (intro exI [of _ "{}"]) simp
  next
    case 3
    let ?more = "{(h_now l, r, ip) |r ip. (r, ip) \<in> set (inspectedRoutes validIP ?rs out2)}"
    have "routeRun (seen \<union> ?more) (h_now g) c2" using run_storeAll [OF rl] by (simp add: 3(2,3))
    moreover have "ValidRoute r \<and> validIP ip \<and> (\<exists>name out k. ValidName name \<and> docker psArgs h = ((True, out), k) \<and> (name, r) \<in> set (listedRoutes out))"
      if "(t, r, ip) \<in> ?more" for t r ip
      using that inspected_listed [of r ip validIP ?rs out2] listed_valid [of _ r out] d 3(1) by auto
    ultimately show ?thesis by blast
  qed
qed

lemma proxyFailed_is_run: "routeRun seen t c \<Longrightarrow> routeRun seen t (proxyFailed route ip errno message c)"
  by (simp add: proxyFailed_def routeRun.drop)

text \<open>C37. In every history of the cache a request of a route goes to the address that was learnt last for this very route, less
  than ten minutes ago, and less than a minute ago unless a refresh is under way.\<close>

theorem route_target_fresh:
  assumes "routeRun seen t c" "resolveRouteTarget route t c = (Some ip, refresh)"
  shows "\<exists>u. (u, route, ip) \<in> seen \<and> u \<le> t \<and> t < u + 10 * minute \<and> (refresh \<or> t < u + minute) \<and>
    (\<forall>v other. (v, route, other) \<in> seen \<longrightarrow> v \<le> u)"
proof -
  obtain x where x: "c route = Some x" "ip = ct_ip x" "t < ct_expires x \<or> refresh \<and> t < ct_stale x"
    using assms(2) by (auto simp: resolveRouteTarget_def split: option.splits if_splits)
  obtain u where u: "(u, route, ip) \<in> seen" "ct_expires x = u + minute" "ct_stale x = u + 10 * minute"
      "\<forall>v other. (v, route, other) \<in> seen \<longrightarrow> v \<le> u"
    using run_entry [OF assms(1) x(1)] x(2) by blast
  have "0 < minute" by (simp add: minute_def)
  then show ?thesis using u x(3) run_past [OF assms(1) u(1)] by (intro exI [of _ u]) auto
qed

theorem route_target_fresh_witness:
  "\<exists>c u. resolveRouteTarget ''r1'' (2 * minute) c = (Some ''10.0.0.2'', True) \<and> u \<le> 2 * minute \<and> 2 * minute < u + 10 * minute"
proof -
  have m: "0 < minute" by (simp add: minute_def)
  let ?c = "storeRouteTarget ''r1'' ''10.0.0.2'' 0 Map.empty"
  have r: "routeRun {(0, ''r1'', ''10.0.0.2'')} (2 * minute) ?c"
    by (rule routeRun.wait [OF routeRun.learn [OF routeRun.start]]) (use m in simp)
  have a: "resolveRouteTarget ''r1'' (2 * minute) ?c = (Some ''10.0.0.2'', True)"
    using m by (simp add: resolveRouteTarget_def storeRouteTarget_def)
  show ?thesis using route_target_fresh [OF r a] a by blast
qed

text \<open>An address that Docker gives to another container serves two routes: nothing removes the old entry.\<close>

lemma reused_address_serves_both:
  assumes "old \<noteq> new" "t \<le> u" "u < t + 10 * minute"
  shows "fst (resolveRouteTarget old u (storeRouteTarget new ip u (storeRouteTarget old ip t c))) = Some ip"
    "fst (resolveRouteTarget new u (storeRouteTarget new ip u (storeRouteTarget old ip t c))) = Some ip"
  using assms by (auto simp: resolveRouteTarget_def storeRouteTarget_def minute_def)

end
