(* ===== verification/Agent.thy ===== *)
theory Agent
  imports Routes
begin

text \<open>
  The agent of a platform node (\<open>agent/main.go\<close>): the handlers behind the control token that create, restart, resize,
  reinstall, stop, destroy and purge an instance, the pinned image, and the readings of Docker's output. A request
  whose JSON does not bind is \<open>None\<close>. Docker is the parameter of \<open>HostAgent\<close>; time limits of a request are part of it.
\<close>

record createRequest =
  cr_name :: string
  cr_image :: string
  cr_cpu :: rat
  cr_memory :: int
  cr_route :: string
  cr_terminal :: bool
  cr_hostAccess :: bool
  cr_keepStopped :: bool

record 'w platform =
  pl_host :: "'w host"
  pl_cache :: routeCache

text \<open>The status code and the status text of an answer.\<close>

datatype reply = Reply (r_code: nat) (r_status: string)

type_synonym 'w phase = "'w platform \<Rightarrow> bool \<times> 'w platform"
type_synonym 'w handler = "'w platform \<Rightarrow> reply \<times> 'w platform"

text \<open>A phase that may fail, the answer if it does, and the rest of the handler.\<close>

definition attempt :: "'w phase \<Rightarrow> reply \<Rightarrow> 'w handler \<Rightarrow> 'w handler" where
  "attempt a r k s = (case a s of (True, t) \<Rightarrow> k t | (False, t) \<Rightarrow> (r, t))"

definition answer :: "nat \<Rightarrow> string \<Rightarrow> 'w handler" where
  "answer code status s = (Reply code status, s)"

definition dockerOk :: "'w docker \<Rightarrow> string list \<Rightarrow> 'w phase" where
  "dockerOk docker args s = (case docker args (pl_host s) of ((ok, _), g) \<Rightarrow> (ok, s\<lparr>pl_host := g\<rparr>))"

definition onTree :: "(fs \<Rightarrow> bool \<times> fs) \<Rightarrow> 'w phase" where
  "onTree a s = (case a (h_files (pl_host s)) of (ok, f) \<Rightarrow> (ok, s\<lparr>pl_host := pl_host s\<lparr>h_files := f\<rparr>\<rparr>))"

section \<open>Images and requests\<close>

function splitText :: "string \<Rightarrow> string \<Rightarrow> string list" where
  "splitText sep s = (if s = [] \<or> sep = [] then [s]
     else if take (length sep) s = sep then [] # splitText sep (drop (length sep) s)
     else (case splitText sep (tl s) of [] \<Rightarrow> [[hd s]] | w # ws \<Rightarrow> (hd s # w) # ws))"
  by auto
termination by (relation "measure (\<lambda>(sep, s). length s)") auto

declare splitText.simps [simp del]

definition validImage :: "string \<Rightarrow> bool" where
  "validImage v \<longleftrightarrow> length v \<le> 255 \<and> \<not> containsAny v ('' ;&|`$()'' @ [CHR 0x09, CHR 0x0A, CHR 0x0D])"

definition validDigestImage :: "string \<Rightarrow> bool" where
  "validDigestImage v = (case splitText ''@sha256:'' v of
       [ref, digest] \<Rightarrow> validImage ref \<and> length digest = 64 \<and> list_all lowerHex digest
     | _ \<Rightarrow> False)"

definition validManagedImage :: "string \<Rightarrow> bool" where
  "validManagedImage v =
     (if validDigestImage v then True
      else let parts = splitOn (CHR '':'') v
           in if length parts < 2 then False
              else last parts \<noteq> [] \<and> validImage (joinWith (CHR '':'') (butlast parts)) \<and>
                   \<not> containsAny (last parts) ('' /@'' @ [CHR 0x09, CHR 0x0A, CHR 0x0D]))"

definition validCreateRequest :: "createRequest \<Rightarrow> bool" where
  "validCreateRequest i \<longleftrightarrow> ValidName (cr_name i) \<and> ValidRoute (cr_route i) \<and> validManagedImage (cr_image i) \<and>
     0 < cr_cpu i \<and> cr_cpu i \<le> 64 \<and> 256 \<le> cr_memory i \<and> cr_memory i \<le> 262144"

text \<open>\<open>requireControlToken\<close>: a header without the prefix is compared as it is.\<close>

definition requireControlToken :: "string \<Rightarrow> string \<Rightarrow> bool" where
  "requireControlToken expected header \<longleftrightarrow> expected \<noteq> [] \<and>
     (if take 7 header = ''Bearer '' then drop 7 header else header) = expected"

definition composeProject :: "string \<Rightarrow> string" where "composeProject route = ''xcloud-'' @ route"

definition instanceCompose :: "agentConfig \<Rightarrow> createRequest \<Rightarrow> string" where
  "instanceCompose cfg i = (case instancePaths (ac_root cfg) (cr_name i) of (_, home, workspace) \<Rightarrow>
     (case Compose (ac_printable cfg) (ac_fmtCPU cfg)
         \<lparr>ci_name = cr_name i, ci_image = cr_image i, ci_route = cr_route i, ci_data = pathText home, ci_workspace = pathText workspace,
          ci_network = (if ac_network cfg = [] then ''xcloud_network'' else ac_network cfg), ci_cpu = cr_cpu i, ci_memory = cr_memory i,
          ci_terminal = cr_terminal i, ci_hostAccess = cr_hostAccess i\<rparr> of Inl _ \<Rightarrow> [] | Inr t \<Rightarrow> t))"

text \<open>What a retired shaping rule may borrow: never more than 100 Gbit, and no overflow on the way.\<close>

definition burstBandwidthMbps :: "int option \<Rightarrow> int \<Rightarrow> int" where
  "burstBandwidthMbps configured rate =
     (let m = (case configured of None \<Rightarrow> 4 | Some v \<Rightarrow> if v < 1 \<or> 20 < v then 4 else v)
      in if 100000 div m < rate then 100000 else rate * m)"

lemma burst_bounded:
  assumes "0 \<le> rate"
  shows "0 \<le> burstBandwidthMbps configured rate" "burstBandwidthMbps configured rate \<le> 100000"
proof -
  have m: "rate * m \<le> 100000" if "1 \<le> m" "\<not> 100000 div m < rate" for m :: int
  proof -
    have "rate * m \<le> 100000 div m * m" using that by (intro mult_right_mono) auto
    moreover have "100000 div m * m \<le> 100000" using that(1) pos_mod_sign [of m 100000] by (simp add: minus_mod_eq_div_mult [symmetric])
    ultimately show ?thesis by simp
  qed
  show "0 \<le> burstBandwidthMbps configured rate" using assms by (auto simp: burstBandwidthMbps_def Let_def split: option.split)
  show "burstBandwidthMbps configured rate \<le> 100000" using m by (auto simp: burstBandwidthMbps_def Let_def split: option.split)
qed

definition ensurePinnedImageAvailable :: "'w docker \<Rightarrow> string \<Rightarrow> 'w phase" where
  "ensurePinnedImageAvailable docker img s =
     (if \<not> validDigestImage img then (True, s)
      else (case dockerOk docker [''image'', ''inspect'', img] s of (True, t) \<Rightarrow> (True, t)
        | (False, t) \<Rightarrow> (case dockerOk docker [''pull'', img] t of (False, u) \<Rightarrow> (False, u)
            | (True, u) \<Rightarrow> dockerOk docker [''image'', ''inspect'', img] u)))"

section \<open>Handlers\<close>

definition cached :: "(string \<Rightarrow> bool) \<Rightarrow> 'w docker \<Rightarrow> string \<Rightarrow> string \<Rightarrow> nat \<Rightarrow> string \<Rightarrow> 'w handler" where
  "cached validIP docker name route code status s =
     (case cacheRouteTarget validIP docker name route (pl_host s) (pl_cache s) of
        (h, c) \<Rightarrow> (Reply code status, s\<lparr>pl_host := h, pl_cache := c\<rparr>))"

definition checked :: "string \<Rightarrow> 'w handler \<Rightarrow> 'w handler" where
  "checked name k s = (if ValidName name then k s else (Reply 400 ''name invalid'', s))"

definition instanceFile :: "agentConfig \<Rightarrow> string \<Rightarrow> path" where
  "instanceFile cfg name = fst (instancePaths (ac_root cfg) name) @ [instanceComposeFile]"

text \<open>What create, restart, resize and reinstall share: the directories, the compose file, \<open>compose up\<close>.\<close>

definition composeUp ::
  "agentConfig \<Rightarrow> (string \<Rightarrow> bool) \<Rightarrow> 'w docker \<Rightarrow> createRequest \<Rightarrow> string list \<Rightarrow> nat \<Rightarrow> string \<Rightarrow> 'w handler" where
  "composeUp cfg validIP docker i args code status =
     attempt (onTree (prepareInstanceDirs (instancePaths (ac_root cfg) (cr_name i)))) (Reply 500 ''directories'')
    (attempt (onTree (writeFileAtomically (instanceFile cfg (cr_name i)) (instanceCompose cfg i))) (Reply 500 ''compose file'')
    (attempt (dockerOk docker ([''compose'', ''-p'', composeProject (cr_route i), ''-f'', pathText (instanceFile cfg (cr_name i)), ''up''] @ args))
        (Reply 502 ''compose up'')
    (cached validIP docker (cr_name i) (cr_route i) code status)))"

definition createContainer :: "agentConfig \<Rightarrow> (string \<Rightarrow> bool) \<Rightarrow> 'w docker \<Rightarrow> createRequest option \<Rightarrow> 'w handler" where
  "createContainer cfg validIP docker input =
     (case input of None \<Rightarrow> answer 400 ''parameters invalid''
      | Some i \<Rightarrow> if \<not> validCreateRequest i then answer 400 ''parameters invalid''
          else attempt (ensurePinnedImageAvailable docker (cr_image i)) (Reply 502 ''image'')
            (\<lambda>s. case dockerOk docker [''inspect'', cr_name i] s of
                (True, t) \<Rightarrow> cached validIP docker (cr_name i) (cr_route i) 200 ''existing'' t
              | (False, t) \<Rightarrow> composeUp cfg validIP docker i [''-d'', ''--remove-orphans''] 201 ''running'' t))"

definition restartContainer :: "agentConfig \<Rightarrow> (string \<Rightarrow> bool) \<Rightarrow> 'w docker \<Rightarrow> string \<Rightarrow> createRequest option \<Rightarrow> 'w handler" where
  "restartContainer cfg validIP docker name input =
     checked name (case input of None \<Rightarrow> answer 400 ''configuration missing''
      | Some i0 \<Rightarrow> let i = i0\<lparr>cr_name := name\<rparr> in
          if \<not> validCreateRequest i then answer 400 ''configuration invalid''
          else attempt (ensurePinnedImageAvailable docker (cr_image i)) (Reply 502 ''image'')
            (composeUp cfg validIP docker i [''-d'', ''--pull'', ''never'', ''--remove-orphans''] 200 ''restarted''))"

definition resizeContainer :: "agentConfig \<Rightarrow> (string \<Rightarrow> bool) \<Rightarrow> 'w docker \<Rightarrow> string \<Rightarrow> createRequest option \<Rightarrow> 'w handler" where
  "resizeContainer cfg validIP docker name input =
     checked name (case input of None \<Rightarrow> answer 400 ''configuration missing''
      | Some i0 \<Rightarrow> let i = i0\<lparr>cr_name := name\<rparr> in
          if \<not> validCreateRequest i then answer 400 ''configuration invalid''
          else attempt (ensurePinnedImageAvailable docker (cr_image i)) (Reply 502 ''image'')
            (composeUp cfg validIP docker i ([''--pull'', ''never'', ''--remove-orphans''] @ [if cr_keepStopped i then ''--no-start'' else ''-d''])
               200 ''resized''))"

text \<open>\<open>docker compose down\<close> if there is a compose file.\<close>

definition composeDown :: "agentConfig \<Rightarrow> 'w docker \<Rightarrow> string \<Rightarrow> 'w phase" where
  "composeDown cfg docker name = dockerOk docker [''compose'', ''-f'', pathText (instanceFile cfg name), ''down'', ''--remove-orphans'']"

definition clearDir :: "agentConfig \<Rightarrow> string \<Rightarrow> 'w phase" where
  "clearDir cfg name = onTree (\<lambda>f. (True, removeAll f (fst (instancePaths (ac_root cfg) name))))"

definition reinstallContainer :: "agentConfig \<Rightarrow> (string \<Rightarrow> bool) \<Rightarrow> 'w docker \<Rightarrow> string \<Rightarrow> createRequest option \<Rightarrow> 'w handler" where
  "reinstallContainer cfg validIP docker name input =
     checked name (case input of None \<Rightarrow> answer 400 ''configuration missing''
      | Some i0 \<Rightarrow> let i = i0\<lparr>cr_name := name\<rparr>;
            rest = attempt (clearDir cfg name) (Reply 500 ''not cleared'') (composeUp cfg validIP docker i [''-d'', ''--remove-orphans''] 200 ''reinstalled'')
          in if \<not> validCreateRequest i then answer 400 ''configuration invalid''
          else attempt (ensurePinnedImageAvailable docker (cr_image i)) (Reply 502 ''image'')
            (\<lambda>s. case stat (h_files (pl_host s)) (instanceFile cfg name) of
                Inr _ \<Rightarrow> attempt (composeDown cfg docker name) (Reply 502 ''compose down'') rest s
              | Inl ENOENT \<Rightarrow> (case dockerOk docker [''inspect'', name] s of
                    (True, t) \<Rightarrow> attempt (dockerOk docker [''rm'', ''-f'', name]) (Reply 502 ''rm'') rest t
                  | (False, t) \<Rightarrow> rest t)
              | Inl _ \<Rightarrow> (Reply 500 ''compose file'', s)))"

definition deleteContainer :: "agentConfig \<Rightarrow> 'w docker \<Rightarrow> string \<Rightarrow> bool \<Rightarrow> 'w handler" where
  "deleteContainer cfg docker name purge =
     checked name (if purge then
       (\<lambda>s. case stat (h_files (pl_host s)) (instanceFile cfg name) of
           Inr _ \<Rightarrow> attempt (composeDown cfg docker name) (Reply 502 ''compose down'') (attempt (clearDir cfg name) (Reply 500 ''not cleared'') (answer 204 [])) s
         | Inl _ \<Rightarrow> attempt (dockerOk docker [''rm'', ''-f'', name]) (Reply 502 ''rm'') (attempt (clearDir cfg name) (Reply 500 ''not cleared'') (answer 204 [])) s)
      else attempt (dockerOk docker [''rm'', ''-f'', name]) (Reply 502 ''rm'') (answer 204 []))"

definition destroyContainer :: "agentConfig \<Rightarrow> 'w docker \<Rightarrow> string \<Rightarrow> 'w handler" where
  "destroyContainer cfg docker name =
     checked name (\<lambda>s. case stat (h_files (pl_host s)) (instanceFile cfg name) of
         Inr _ \<Rightarrow> attempt (composeDown cfg docker name) (Reply 502 ''compose down'') (answer 204 []) s
       | Inl _ \<Rightarrow> (case dockerOk docker [''rm'', ''-f'', name] s of
             (True, t) \<Rightarrow> answer 204 [] t
           | (False, t) \<Rightarrow> (case dockerOk docker [''inspect'', name] t of
                 (True, u) \<Rightarrow> (Reply 502 ''rm'', u) | (False, u) \<Rightarrow> answer 204 [] u)))"

text \<open>\<open>bandwidthShapingEnabled\<close> is constantly false, so a start or a restart restores no bandwidth rule.\<close>

definition bandwidthShapingEnabled :: bool where "bandwidthShapingEnabled = False"

definition containerAction :: "'w docker \<Rightarrow> string \<Rightarrow> string \<Rightarrow> 'w handler" where
  "containerAction docker action name =
     checked name (attempt (dockerOk docker [action, name]) (Reply 502 ''docker'') (answer 200 action))"

section \<open>Readings\<close>

text \<open>\<open>strings.SplitN(s, "|", n)\<close>.\<close>

fun splitBars :: "nat \<Rightarrow> string \<Rightarrow> string list" where
  "splitBars 0 s = [s]"
| "splitBars (Suc n) s = (if n = 0 then [s] else (case splitOnce s of None \<Rightarrow> [s] | Some (a, b) \<Rightarrow> a # splitBars n b))"

definition healthFormat :: string where
  "healthFormat = ''{{.State.Status}}|{{if .State.Health}}{{.State.Health.Status}}{{else}}none{{end}}''"

text \<open>Status and health, or the container does not exist.\<close>

definition containerStatus :: "'w docker \<Rightarrow> string \<Rightarrow> 'w platform \<Rightarrow> (reply + string \<times> string) \<times> 'w platform" where
  "containerStatus docker name s =
     (if \<not> ValidName name then (Inl (Reply 400 ''name invalid''), s)
      else (case docker [''inspect'', ''--format'', healthFormat, name] (pl_host s) of
          ((False, _), g) \<Rightarrow> (Inl (Reply 404 ''no container''), s\<lparr>pl_host := g\<rparr>)
        | ((True, out), g) \<Rightarrow>
            (Inr (case splitBars 2 (trimSpace out) of [a, b] \<Rightarrow> (a, b) | a # _ \<Rightarrow> (a, ''none'') | [] \<Rightarrow> ([], ''none'')), s\<lparr>pl_host := g\<rparr>)))"

text \<open>Seven facts of the life cycle, as many as Docker printed.\<close>

definition inspectFormat :: string where
  "inspectFormat = healthFormat @ ''|{{.Image}}|{{.Created}}|{{.RestartCount}}|{{.HostConfig.NanoCpus}}|{{.HostConfig.Memory}}''"

definition inspectContainer :: "'w docker \<Rightarrow> string \<Rightarrow> 'w platform \<Rightarrow> (reply + (string \<times> string) list) \<times> 'w platform" where
  "inspectContainer docker name s =
     (if \<not> ValidName name then (Inl (Reply 400 ''name invalid''), s)
      else (case docker [''inspect'', ''--format'', inspectFormat, name] (pl_host s) of
          ((False, _), g) \<Rightarrow> (Inl (Reply 404 ''no container''), s\<lparr>pl_host := g\<rparr>)
        | ((True, out), g) \<Rightarrow>
            (Inr ((''name'', name) # zip [''status'', ''health'', ''imageID'', ''createdAt'', ''restartCount'', ''nanoCPUs'', ''memoryBytes'']
                (splitBars 7 (trimSpace out))), s\<lparr>pl_host := g\<rparr>)))"

text \<open>The memory of the host from \<open>/proc/meminfo\<close>, in MB; \<open>fields\<close> is \<open>strings.Fields\<close>.\<close>

fun fieldsFrom :: "string \<Rightarrow> string \<Rightarrow> string list" where
  "fieldsFrom w [] = (if w = [] then [] else [rev w])"
| "fieldsFrom w (c # cs) = (if isSpace c then (if w = [] then fieldsFrom [] cs else rev w # fieldsFrom [] cs) else fieldsFrom (c # w) cs)"

definition hostMemoryMB :: "(string \<Rightarrow> int option) \<Rightarrow> string option \<Rightarrow> int" where
  "hostMemoryMB atoi raw = (case raw of None \<Rightarrow> 0
     | Some text \<Rightarrow> (case List.map_filter (\<lambda>line. case fieldsFrom [] line of
           key # value # _ \<Rightarrow> if key = ''MemTotal:'' then atoi value else None | _ \<Rightarrow> None) (splitOn newline text) of
         [] \<Rightarrow> 0 | v # _ \<Rightarrow> (if v \<ge> 0 then v div 1024 else - ((- v) div 1024))))"

record localImageMetadata =
  im_id :: string
  im_repoDigests :: "string list"
  im_sizeBytes :: string

definition inspectLocalImage :: "'w docker \<Rightarrow> string \<Rightarrow> 'w platform \<Rightarrow> localImageMetadata option \<times> 'w platform" where
  "inspectLocalImage docker img s =
     (case docker [''image'', ''inspect'', ''--format'', ''{{.Id}}|{{join .RepoDigests \",\"}}|{{.Size}}'', img] (pl_host s) of
        ((False, _), g) \<Rightarrow> (None, s\<lparr>pl_host := g\<rparr>)
      | ((True, out), g) \<Rightarrow>
          (let parts = splitBars 3 (trimSpace out); field = (\<lambda>k. if k < length parts then parts ! k else [])
           in (Some \<lparr>im_id = field 0, im_repoDigests = (if field 1 = [] then [] else splitOn (CHR '','') (field 1)), im_sizeBytes = field 2\<rparr>,
               s\<lparr>pl_host := g\<rparr>)))"

definition pullImage :: "'w docker \<Rightarrow> string option \<Rightarrow> 'w platform \<Rightarrow> (reply + string \<times> localImageMetadata) \<times> 'w platform" where
  "pullImage docker input s =
     (case input of None \<Rightarrow> (Inl (Reply 400 ''image invalid''), s)
      | Some img \<Rightarrow> if img = [] \<or> \<not> validManagedImage img then (Inl (Reply 400 ''image invalid''), s)
          else (case dockerOk docker [''pull'', img] s of
              (False, t) \<Rightarrow> (Inl (Reply 502 ''pull failed''), t)
            | (True, t) \<Rightarrow> (case inspectLocalImage docker img t of
                  (None, u) \<Rightarrow> (Inl (Reply 502 ''digest unknown''), u) | (Some m, u) \<Rightarrow> (Inr (img, m), u))))"

definition inspectImage :: "'w docker \<Rightarrow> string \<Rightarrow> 'w platform \<Rightarrow> (reply + string \<times> localImageMetadata) \<times> 'w platform" where
  "inspectImage docker raw s =
     (let img = trimSpace raw
      in if \<not> validManagedImage img then (Inl (Reply 400 ''image invalid''), s)
         else (case inspectLocalImage docker img s of
             (None, t) \<Rightarrow> (Inl (Reply 404 ''not pulled''), t) | (Some m, t) \<Rightarrow> (Inr (img, m), t)))"

text \<open>The lines of \<open>listImages\<close> and \<open>listContainers\<close>.\<close>

definition imageLines :: "string \<Rightarrow> (string \<times> string \<times> string) list" where
  "imageLines out = List.map_filter (\<lambda>line. case splitBars 3 line of
       [a, b, c] \<Rightarrow> (if a = ''<none>:<none>'' then None else Some (a, b, c)) | _ \<Rightarrow> None) (splitOn newline (trimSpace out))"

definition containerLines :: "string \<Rightarrow> (string \<times> string \<times> string \<times> string) list" where
  "containerLines out = List.map_filter (\<lambda>line. case splitBars 4 line of
       [a, b, c, d] \<Rightarrow> (if ValidName a \<and> ValidRoute d then Some (a, b, c, d) else None) | _ \<Rightarrow> None) (splitOn newline (trimSpace out))"

definition listContainers :: "'w docker \<Rightarrow> 'w platform \<Rightarrow> (reply + (string \<times> string \<times> string \<times> string) list) \<times> 'w platform" where
  "listContainers docker s =
     (case docker [''ps'', ''-a'', ''--filter'', ''label=xcloud.managed=true'', ''--format'', ''{{.Names}}|{{.Status}}|{{.Image}}|{{.Label \"xcloud.route\"}}'']
        (pl_host s) of
        ((False, _), g) \<Rightarrow> (Inl (Reply 503 ''no list''), s\<lparr>pl_host := g\<rparr>) | ((True, out), g) \<Rightarrow> (Inr (containerLines out), s\<lparr>pl_host := g\<rparr>))"

definition listImages :: "'w docker \<Rightarrow> 'w platform \<Rightarrow> (reply + (string \<times> string \<times> string) list) \<times> 'w platform" where
  "listImages docker s =
     (case docker [''image'', ''ls'', ''--format'', ''{{.Repository}}:{{.Tag}}|{{.ID}}|{{.Size}}''] (pl_host s) of
        ((False, _), g) \<Rightarrow> (Inl (Reply 503 ''no list''), s\<lparr>pl_host := g\<rparr>) | ((True, out), g) \<Rightarrow> (Inr (imageLines out), s\<lparr>pl_host := g\<rparr>))"

text \<open>Logs: at most a thousand lines and 64 KB. \<open>atoi\<close>, \<open>parseTime\<close> and \<open>formatTime\<close> are Go's conversions.\<close>

definition logLimit :: nat where "logLimit = 64 * 1024"

definition containerLogs ::
  "(string \<Rightarrow> int option) \<Rightarrow> (string \<Rightarrow> int option) \<Rightarrow> (int \<Rightarrow> string) \<Rightarrow> 'w docker \<Rightarrow> string \<Rightarrow> string \<Rightarrow> string \<Rightarrow> 'w platform \<Rightarrow>
   (reply + string list \<times> int \<times> bool) \<times> 'w platform" where
  "containerLogs atoi parseTime formatTime docker name rawTail rawSince s =
     (if \<not> ValidName name then (Inl (Reply 400 ''name invalid''), s)
      else case (if trimSpace rawTail = [] then Some 300
                 else case atoi (trimSpace rawTail) of None \<Rightarrow> None | Some v \<Rightarrow> if v < 50 \<or> 1000 < v then None else Some v) of
        None \<Rightarrow> (Inl (Reply 400 ''tail''), s)
      | Some tail \<Rightarrow>
          (case (if trimSpace rawSince = [] then Some []
                 else case parseTime (trimSpace rawSince) of None \<Rightarrow> None
                   | Some t \<Rightarrow> if h_now (pl_host s) + minute < t then None else Some [''--since'', formatTime t]) of
             None \<Rightarrow> (Inl (Reply 400 ''since''), s)
           | Some since \<Rightarrow>
               (case docker ([''logs'', ''--tail'', showNat (nat tail), ''--timestamps''] @ since @ [name]) (pl_host s) of
                  ((False, _), g) \<Rightarrow> (Inl (Reply 502 ''logs''), s\<lparr>pl_host := g\<rparr>)
                | ((True, full), g) \<Rightarrow>
                    (let out = (if logLimit < length full then drop (length full - logLimit) full else full)
                     in (Inr (if trimSpace out = [] then [] else splitOn newline (trimSpace out), tail, logLimit \<le> length out),
                         s\<lparr>pl_host := g\<rparr>)))))"

section \<open>The workspace\<close>

definition agentWorkspace :: "agentConfig \<Rightarrow> string \<Rightarrow> path" where
  "agentWorkspace cfg name = snd (snd (instancePaths (ac_root cfg) name))"

definition writeWorkspaceFile :: "agentConfig \<Rightarrow> string \<Rightarrow> (string \<times> string) option \<Rightarrow> 'w handler" where
  "writeWorkspaceFile cfg name input =
     checked name (case input of None \<Rightarrow> answer 400 ''content invalid''
      | Some (path, content) \<Rightarrow> (\<lambda>s. case WriteWorkspaceText (agentWorkspace cfg name) path content (h_files (pl_host s)) of
            (Inl _, f) \<Rightarrow> (Reply 400 ''write'', s\<lparr>pl_host := pl_host s\<lparr>h_files := f\<rparr>\<rparr>)
          | (Inr rel, f) \<Rightarrow> (Reply 200 rel, s\<lparr>pl_host := pl_host s\<lparr>h_files := f\<rparr>\<rparr>)))"

definition uploadWorkspaceFile :: "agentConfig \<Rightarrow> string \<Rightarrow> (string \<times> string) option \<Rightarrow> 'w handler" where
  "uploadWorkspaceFile cfg name input =
     checked name (case input of None \<Rightarrow> answer 400 ''content invalid''
      | Some (path, content) \<Rightarrow> (\<lambda>s. case UploadWorkspaceBase64 (agentWorkspace cfg name) path content (h_files (pl_host s)) of
            (Inl _, f) \<Rightarrow> (Reply 400 ''upload'', s\<lparr>pl_host := pl_host s\<lparr>h_files := f\<rparr>\<rparr>)
          | (Inr (rel, _), f) \<Rightarrow> (Reply 201 rel, s\<lparr>pl_host := pl_host s\<lparr>h_files := f\<rparr>\<rparr>)))"

definition readWorkspaceFile :: "agentConfig \<Rightarrow> string \<Rightarrow> string \<Rightarrow> 'w platform \<Rightarrow> reply + string \<times> string \<times> nat" where
  "readWorkspaceFile cfg name path s =
     (if \<not> ValidName name then Inl (Reply 400 ''name invalid'')
      else case ReadWorkspaceText (agentWorkspace cfg name) path (h_files (pl_host s)) of
        Inl _ \<Rightarrow> Inl (Reply 404 ''no such file'') | Inr (content, n) \<Rightarrow> Inr (clean path, content, n))"

definition listWorkspaceFiles :: "agentConfig \<Rightarrow> string \<Rightarrow> string \<Rightarrow> 'w platform \<Rightarrow> reply + string \<times> WorkspaceEntry list" where
  "listWorkspaceFiles cfg name path s =
     (if \<not> ValidName name then Inl (Reply 400 ''name invalid'')
      else case WorkspacePath (agentWorkspace cfg name) path (h_files (pl_host s)) of
        Inl _ \<Rightarrow> Inl (Reply 400 ''path invalid'')
      | Inr _ \<Rightarrow> (case ListWorkspace (agentWorkspace cfg name) path (h_files (pl_host s)) of
            Inl _ \<Rightarrow> Inl (Reply 404 ''no such directory'') | Inr (_, es) \<Rightarrow> Inr (clean path, es)))"

section \<open>Requests\<close>

datatype request = Create "createRequest option" | Start string | Stop string | Restart string "createRequest option"
  | Resize string "createRequest option" | Reinstall string "createRequest option" | Destroy string | Delete string bool

definition serve :: "agentConfig \<Rightarrow> (string \<Rightarrow> bool) \<Rightarrow> 'w docker \<Rightarrow> request \<Rightarrow> 'w handler" where
  "serve cfg validIP docker r = (case r of
       Create i \<Rightarrow> createContainer cfg validIP docker i
     | Start name \<Rightarrow> containerAction docker ''start'' name
     | Stop name \<Rightarrow> containerAction docker ''stop'' name
     | Restart name i \<Rightarrow> restartContainer cfg validIP docker name i
     | Resize name i \<Rightarrow> resizeContainer cfg validIP docker name i
     | Reinstall name i \<Rightarrow> reinstallContainer cfg validIP docker name i
     | Destroy name \<Rightarrow> destroyContainer cfg docker name
     | Delete name purge \<Rightarrow> deleteContainer cfg docker name purge)"

section \<open>What a request keeps\<close>

definition target :: "request \<Rightarrow> string" where
  "target r = (case r of Create i \<Rightarrow> (case i of None \<Rightarrow> [] | Some c \<Rightarrow> cr_name c) | Start n \<Rightarrow> n | Stop n \<Rightarrow> n | Restart n _ \<Rightarrow> n
     | Resize n _ \<Rightarrow> n | Reinstall n _ \<Rightarrow> n | Destroy n \<Rightarrow> n | Delete n _ \<Rightarrow> n)"

text \<open>Requests that remove the instance's directory.\<close>

definition clears :: "request \<Rightarrow> bool" where
  "clears r = (case r of Reinstall _ _ \<Rightarrow> True | Delete _ purge \<Rightarrow> purge | _ \<Rightarrow> False)"

definition markerPath :: "agentConfig \<Rightarrow> string \<Rightarrow> path" where
  "markerPath cfg name = ac_root cfg @ [name, instanceMigrationMarker]"

text \<open>Docker leaves the agent's paths, the marker and \<open>q\<close> alone.\<close>

definition sparesInstance :: "agentConfig \<Rightarrow> string \<Rightarrow> path \<Rightarrow> 'w docker \<Rightarrow> bool" where
  "sparesInstance cfg name q docker \<longleftrightarrow> (\<forall>args h p. agentPath cfg name p \<or> p = markerPath cfg name \<or> p = q \<longrightarrow>
     map_of (h_files (snd (docker args h))) p = map_of (h_files h) p)"

text \<open>The instance is not in the old layout: it has a data directory, or no compose file yet.\<close>

definition currentLayout :: "agentConfig \<Rightarrow> string \<Rightarrow> fs \<Rightarrow> bool" where
  "currentLayout cfg name f \<longleftrightarrow> map_of f (markerPath cfg name) = None \<and>
     (map_of f (ac_root cfg @ [name, instanceComposeFile]) = None \<or> plain f (ac_root cfg @ [name, ''data'']))"

definition ready :: "agentConfig \<Rightarrow> string \<Rightarrow> path \<Rightarrow> fsNode option \<Rightarrow> 'w platform \<Rightarrow> bool" where
  "ready cfg name q v s \<longleftrightarrow> safeHost cfg name q v (pl_host s) \<and> currentLayout cfg name (h_files (pl_host s))"

definition safe :: "agentConfig \<Rightarrow> string \<Rightarrow> path \<Rightarrow> fsNode option \<Rightarrow> 'w platform \<Rightarrow> bool" where
  "safe cfg name q v s \<longleftrightarrow> safeHost cfg name q v (pl_host s)"

text \<open>\<open>I\<close> before gives \<open>J\<close> after, whatever the answer.\<close>

definition leads :: "('w platform \<Rightarrow> bool) \<Rightarrow> ('w platform \<Rightarrow> 'a \<times> 'w platform) \<Rightarrow> ('w platform \<Rightarrow> bool) \<Rightarrow> bool" where
  "leads I a J \<longleftrightarrow> (\<forall>s. I s \<longrightarrow> J (snd (a s)))"

lemma leads_attempt:
  assumes "leads I a J" "leads J k K" "\<And>s. J s \<Longrightarrow> K s"
  shows "leads I (attempt a r k) K"
  using assms by (fastforce simp: leads_def attempt_def split: prod.split bool.split)

lemma leads_answer [simp]: "(\<And>s. I s \<Longrightarrow> J s) \<Longrightarrow> leads I (answer code status) J"
  by (simp add: leads_def answer_def)

lemma ready_safe: "ready cfg name q v s \<Longrightarrow> safe cfg name q v s"
  by (simp add: ready_def safe_def)

lemma spares_sparing: "sparesInstance cfg name q docker \<Longrightarrow> sparing cfg name q docker"
  by (simp add: sparesInstance_def sparing_def)

lemma plain_prefix_same:
  assumes "\<And>r. prefix r p \<Longrightarrow> map_of g r = map_of f r"
  shows "plain g p = plain f p"
  using assms [OF take_is_prefix] by (simp add: plain_def)

lemma current_docker:
  assumes "sparesInstance cfg name q docker" "docker args h = (v, g)" "currentLayout cfg name (h_files h)"
  shows "currentLayout cfg name (h_files g)"
proof -
  have s: "map_of (h_files g) p = map_of (h_files h) p" if "agentPath cfg name p \<or> p = markerPath cfg name" for p
    using assms(1,2) that unfolding sparesInstance_def by (metis snd_conv)
  have "plain (h_files g) (ac_root cfg @ [name, ''data'']) = plain (h_files h) (ac_root cfg @ [name, ''data''])"
    by (rule plain_prefix_same) (auto intro!: s simp: agentPath_def)
  then show ?thesis using assms(3) s by (simp add: currentLayout_def instanceComposeFile_def)
qed

lemma ready_docker: "sparesInstance cfg name q docker \<Longrightarrow> leads (ready cfg name q v) (dockerOk docker args) (ready cfg name q v)"
  by (auto simp: leads_def dockerOk_def ready_def split: prod.split intro: current_docker safeHost_docker [OF spares_sparing])

lemma safe_docker: "sparesInstance cfg name q docker \<Longrightarrow> leads (safe cfg name q v) (dockerOk docker args) (safe cfg name q v)"
  by (auto simp: leads_def dockerOk_def safe_def split: prod.split intro: safeHost_docker [OF spares_sparing])

lemma leads_pinned:
  assumes "\<And>args. leads I (dockerOk docker args) I"
  shows "leads I (ensurePinnedImageAvailable docker img) I"
  unfolding leads_def
proof (intro allI impI)
  fix s assume i: "I s"
  have d: "I u" if "I t" "dockerOk docker args t = (b, u)" for t u b args
    using assms [of args] that unfolding leads_def by (metis snd_conv)
  obtain b1 t where t: "dockerOk docker [''image'', ''inspect'', img] s = (b1, t)" by (cases "dockerOk docker [''image'', ''inspect'', img] s")
  obtain b2 u where u: "dockerOk docker [''pull'', img] t = (b2, u)" by (cases "dockerOk docker [''pull'', img] t")
  obtain b3 w where w: "dockerOk docker [''image'', ''inspect'', img] u = (b3, w)" by (cases "dockerOk docker [''image'', ''inspect'', img] u")
  have "I t" "I u" "I w" using d [OF i t] d [OF _ u] d [OF _ w] by blast+
  then show "I (snd (ensurePinnedImageAvailable docker img s))"
    using i by (simp add: ensurePinnedImageAvailable_def t u w split: bool.split)
qed

lemma safe_cached:
  assumes "sparesInstance cfg name q docker"
  shows "leads (safe cfg name q v) (cached validIP docker n route code status) (safe cfg name q v)"
  using safeHost_docker [OF spares_sparing [OF assms]]
  by (auto simp: leads_def cached_def cacheRouteTarget_def safe_def split: prod.split)

text \<open>The directories and the compose file.\<close>

lemma stat_absent:
  assumes "\<And>r. prefix r p \<Longrightarrow> noLink f r" "list_all okSeg p" "map_of f p = None"
  shows "\<exists>e. stat f p = Inl e"
proof (cases "resolve maxLinks f True [] p")
  case (Inr q)
  then have "q = p" using resolve_noLink [of "[]" p f maxLinks True q] assms(1,2) by simp
  then show ?thesis using Inr assms(3) by (simp add: stat_def lookup_def)
qed (simp add: stat_def lookup_def)

lemma okSeg_paths [simp]: "okSeg ''docker-compose.yml''" "instanceComposeFile = ''docker-compose.yml''"
  by (simp_all add: okSeg_def dot_def dotdot_def instanceComposeFile_def)

lemma safe_prepare:
  assumes r: "list_all okSeg (ac_root cfg)" "okSeg name"
  shows "leads (ready cfg name q v) (onTree (prepareInstanceDirs (instancePaths (ac_root cfg) name))) (safe cfg name q v)"
  unfolding leads_def
proof (intro allI impI)
  fix s :: "'w platform" assume i: "ready cfg name q v s"
  let ?f = "h_files (pl_host s)" and ?dir = "ac_root cfg @ [name]" and ?home = "ac_root cfg @ [name, ''data'']"
  have h: "safeHost cfg name q v (pl_host s)" and c: "currentLayout cfg name ?f" using i by (simp_all add: ready_def)
  have mk: "safeHost cfg name q v (h\<lparr>h_files := f\<rparr>)" if "safeHost cfg name q v h" "agentPath cfg name p" "mkdirAll (h_files h) p = (e, f)"
    for h :: "'w host" and p e f by (rule safeHost_mkdirAll [OF r that(2,1,3)])
  obtain e g where g: "mkdirAll ?f ?dir = (e, g)" by (cases "mkdirAll ?f ?dir")
  note hg = mk [OF h agentPaths(1) g]
  have n: "noLink g p" if "agentPath cfg name p" for p using hg that by (simp add: safeHost_def)
  have n0: "noLink ?f p" if "agentPath cfg name p" for p using h that by (simp add: safeHost_def)
  have grow: "map_of g p = map_of ?f p \<or> prefix p ?dir \<and> map_of ?f p = None \<and> map_of g p = Some Directory" for p
    using mkdirs_grows [of "[]" ?dir ?f p] n0 agentPath_below [OF agentPaths(1)] r g by (simp add: mkdirAll_def)
  have mig: "snd (migrateLegacyInstanceData ?dir ?home g) = g"
  proof -
    have "map_of g (markerPath cfg name) = None"
      using grow [of "markerPath cfg name"] c by (auto simp: currentLayout_def markerPath_def prefix_def)
    moreover have "noLink g p" if "prefix p (markerPath cfg name)" for p
    proof (cases "p = markerPath cfg name")
      case False
      then have "prefix p ?dir" using that unfolding markerPath_def by (auto simp: prefix_def append_eq_Cons_conv append_eq_append_conv2 Cons_eq_append_conv)
      then show ?thesis using n agentPath_below [OF agentPaths(1)] by blast
    qed (simp add: noLink_def calculation)
    ultimately obtain e1 where m: "stat g (?dir @ [instanceMigrationMarker]) = Inl e1"
      using stat_absent [of "markerPath cfg name" g] r by (auto simp: markerPath_def)
    have "(\<exists>x. stat g ?home = Inr x) \<or> (\<exists>e. stat g (?dir @ [instanceComposeFile]) = Inl e)"
    proof (cases "map_of ?f (ac_root cfg @ [name, instanceComposeFile]) = None")
      case True
      then have "map_of g (ac_root cfg @ [name, ''docker-compose.yml'']) = None"
        using grow [of "ac_root cfg @ [name, ''docker-compose.yml'']"] by (auto simp: prefix_def)
      then show ?thesis using stat_absent [of "ac_root cfg @ [name, ''docker-compose.yml'']" g] n agentPath_below [OF agentPaths(4)] r by simp
    next
      case False
      then have "plain ?f ?home" using c by (auto simp: currentLayout_def)
      then have "plain g ?home" using grow by (auto simp: plain_def) (metis option.distinct(1))
      then have "plain g ?dir \<and> map_of g ?home = Some Directory" using plain_snoc [of g ?dir "''data''"] by simp
      then show ?thesis using stat_plain [of g ?dir "''data''"] by simp
    qed
    then show ?thesis using m by (auto simp: migrateLegacyInstanceData_def split: fsError.split sum.split)
  qed
  obtain ok where okm: "migrateLegacyInstanceData ?dir ?home g = (ok, g)" using mig by (metis prod.collapse)
  obtain e2 k where k: "mkdirAll g ?home = (e2, k)" by (cases "mkdirAll g ?home")
  have hk: "safeHost cfg name q v (pl_host s\<lparr>h_files := k\<rparr>)" using mk [OF hg agentPaths(2)] k by simp
  obtain e3 l where l: "mkdirAll k (ac_root cfg @ [name, ''workspace'']) = (e3, l)" by (cases "mkdirAll k (ac_root cfg @ [name, ''workspace''])")
  have hl: "safeHost cfg name q v (pl_host s\<lparr>h_files := l\<rparr>)" using mk [OF hk agentPaths(3)] l by simp
  show "safe cfg name q v (snd (onTree (prepareInstanceDirs (instancePaths (ac_root cfg) name)) s))"
    using hg hk hl by (simp add: onTree_def prepareInstanceDirs_def instancePaths_def g okm k l safe_def split: option.split bool.split)
qed

lemma safe_writeCompose:
  assumes r: "list_all okSeg (ac_root cfg)" "okSeg name" and q: "q \<noteq> ac_root cfg @ [name, ''docker-compose.yml'']"
  shows "leads (safe cfg name q v) (onTree (writeFileAtomically (instanceFile cfg name) c)) (safe cfg name q v)"
  unfolding leads_def
proof (intro allI impI)
  fix s :: "'w platform" assume "safe cfg name q v s"
  then have h: "safeHost cfg name q v (pl_host s)" by (simp add: safe_def)
  let ?p = "ac_root cfg @ [name, ''docker-compose.yml'']"
  have p: "instanceFile cfg name = ?p" "butlast ?p = ac_root cfg @ [name]" by (simp_all add: instanceFile_def instancePaths_def butlast_append)
  obtain e g where g: "mkdirAll (h_files (pl_host s)) (ac_root cfg @ [name]) = (e, g)" by (cases "mkdirAll (h_files (pl_host s)) (ac_root cfg @ [name])")
  have hg: "safeHost cfg name q v (pl_host s\<lparr>h_files := g\<rparr>)" by (rule safeHost_mkdirAll [OF r agentPaths(1) h g])
  have "safeHost cfg name q v (pl_host s\<lparr>h_files := AList.update ?p (File c) g\<rparr>)"
    using hg q by (auto simp: safeHost_def noLink_def update_conv')
  moreover have "t = ?p" if "resolve maxLinks g False [] ?p = Inr t" for t
    using resolve_noLink [of "[]" ?p g maxLinks False t] hg agentPath_below [OF agentPaths(4)] r that by (simp add: safeHost_def)
  ultimately show "safe cfg name q v (snd (onTree (writeFileAtomically (instanceFile cfg name) c) s))"
    using hg by (auto simp: onTree_def writeFileAtomically_def p g safe_def split: option.split sum.split)
qed

lemma safe_composeUp:
  assumes r: "list_all okSeg (ac_root cfg)" "okSeg name" and q: "q \<noteq> ac_root cfg @ [name, ''docker-compose.yml'']"
    and d: "sparesInstance cfg name q docker" and i: "cr_name i = name"
  shows "leads (ready cfg name q v) (composeUp cfg validIP docker i args code status) (safe cfg name q v)"
  unfolding composeUp_def i
  by (intro leads_attempt [OF safe_prepare [OF r]] leads_attempt [OF safe_writeCompose [OF r q]] leads_attempt [OF safe_docker [OF d]]
      safe_cached [OF d])

lemma ready_cleared:
  assumes "safe cfg name q v s" "\<not> prefix (ac_root cfg @ [name]) q \<or> v = None"
  shows "ready cfg name q v (snd (clearDir cfg name s))"
proof -
  have "map_of (removeAll f dir) r = (if prefix dir r then None else map_of f r)" for f dir r
    by (induction f) (auto simp: removeAll_def)
  then have "currentLayout cfg name (removeAll f (ac_root cfg @ [name]))" for f
    by (simp add: currentLayout_def markerPath_def)
  then show ?thesis
    using safeHost_removed [OF assms(1) [unfolded safe_def] assms(2)] by (simp add: ready_def clearDir_def onTree_def instancePaths_def)
qed

lemma leads_checked: "(ValidName name \<Longrightarrow> leads I k J) \<Longrightarrow> (\<And>s. I s \<Longrightarrow> J s) \<Longrightarrow> leads I (checked name k) J"
  by (auto simp: leads_def checked_def)

lemma leads_mono: "leads I a J \<Longrightarrow> (\<And>s. I2 s \<Longrightarrow> I s) \<Longrightarrow> leads I2 a J"
  by (simp add: leads_def)

lemma leadsD: "leads I a J \<Longrightarrow> I s \<Longrightarrow> a s = (x, t) \<Longrightarrow> J t"
  unfolding leads_def by (metis snd_conv)

lemma handler_create:
  assumes r: "list_all okSeg (ac_root cfg)" and q: "q \<noteq> ac_root cfg @ [cr_name i, ''docker-compose.yml'']"
    and d: "sparesInstance cfg (cr_name i) q docker"
  shows "leads (ready cfg (cr_name i) q v) (createContainer cfg validIP docker (Some i)) (safe cfg (cr_name i) q v)"
proof (cases "validCreateRequest i")
  case True
  then have n: "okSeg (cr_name i)" by (simp add: validCreateRequest_def ValidName_okSeg)
  have body: "leads (ready cfg (cr_name i) q v) (\<lambda>s. case dockerOk docker [''inspect'', cr_name i] s of
      (True, t) \<Rightarrow> cached validIP docker (cr_name i) (cr_route i) 200 ''existing'' t
    | (False, t) \<Rightarrow> composeUp cfg validIP docker i [''-d'', ''--remove-orphans''] 201 ''running'' t) (safe cfg (cr_name i) q v)"
    unfolding leads_def
  proof (intro allI impI)
    fix s :: "'a platform" assume s: "ready cfg (cr_name i) q v s"
    obtain b t where t: "dockerOk docker [''inspect'', cr_name i] s = (b, t)" by (cases "dockerOk docker [''inspect'', cr_name i] s")
    have i: "ready cfg (cr_name i) q v t" by (rule leadsD [OF ready_docker [OF d] s t])
    show "safe cfg (cr_name i) q v (snd (case dockerOk docker [''inspect'', cr_name i] s of
        (True, t) \<Rightarrow> cached validIP docker (cr_name i) (cr_route i) 200 ''existing'' t
      | (False, t) \<Rightarrow> composeUp cfg validIP docker i [''-d'', ''--remove-orphans''] 201 ''running'' t))"
      using safe_cached [OF d] safe_composeUp [OF r n q d refl] i ready_safe [OF i] by (simp add: t leads_def split: bool.split)
  qed
  show ?thesis
    using True leads_attempt [OF leads_pinned [OF ready_docker [OF d]] body ready_safe] by (simp add: createContainer_def)
next
  case False
  then have "createContainer cfg validIP docker (Some i) = answer 400 ''parameters invalid''" by (simp add: createContainer_def)
  then show ?thesis by (simp add: ready_safe)
qed

lemma handler_restart:
  assumes r: "list_all okSeg (ac_root cfg)" and q: "q \<noteq> ac_root cfg @ [name, ''docker-compose.yml'']" and d: "sparesInstance cfg name q docker"
  shows "leads (ready cfg name q v) (restartContainer cfg validIP docker name i) (safe cfg name q v)"
    "leads (ready cfg name q v) (resizeContainer cfg validIP docker name i) (safe cfg name q v)"
proof -
  have up: "leads (ready cfg name q v) (attempt (ensurePinnedImageAvailable docker img) re (composeUp cfg validIP docker c args code status)) (safe cfg name q v)"
    if "okSeg name" "cr_name c = name" for c img re args code status
    by (rule leads_attempt [OF leads_pinned [OF ready_docker [OF d]] safe_composeUp [OF r that(1) q d that(2)] ready_safe])
  show "leads (ready cfg name q v) (restartContainer cfg validIP docker name i) (safe cfg name q v)"
    "leads (ready cfg name q v) (resizeContainer cfg validIP docker name i) (safe cfg name q v)"
    unfolding restartContainer_def resizeContainer_def
    by (intro leads_checked ready_safe; auto simp: Let_def ready_safe ValidName_okSeg up split: option.split)+
qed

lemma handler_reinstall:
  assumes r: "list_all okSeg (ac_root cfg)" and q: "\<not> prefix (ac_root cfg @ [name]) q" and d: "sparesInstance cfg name q docker"
  shows "leads (ready cfg name q v) (reinstallContainer cfg validIP docker name i) (safe cfg name q v)"
proof -
  have q2: "q \<noteq> ac_root cfg @ [name, ''docker-compose.yml'']" using q by auto
  have clear: "leads (safe cfg name q v) (clearDir cfg name) (ready cfg name q v)"
    using q by (simp add: leads_def ready_cleared)
  have rest: "leads (ready cfg name q v) (attempt (clearDir cfg name) re (composeUp cfg validIP docker c args code status)) (safe cfg name q v)"
    if "okSeg name" "cr_name c = name" for c re args code status
    by (rule leads_attempt [OF leads_mono [OF clear ready_safe] safe_composeUp [OF r that(1) q2 d that(2)] ready_safe])
  have body: "leads (ready cfg name q v) (\<lambda>s. case stat (h_files (pl_host s)) (instanceFile cfg name) of
        Inr _ \<Rightarrow> attempt (composeDown cfg docker name) r1 k s
      | Inl ENOENT \<Rightarrow> (case dockerOk docker [''inspect'', name] s of
            (True, t) \<Rightarrow> attempt (dockerOk docker [''rm'', ''-f'', name]) r2 k t
          | (False, t) \<Rightarrow> k t)
      | Inl _ \<Rightarrow> (Reply 500 ''compose file'', s)) (safe cfg name q v)"
    if k: "leads (ready cfg name q v) k (safe cfg name q v)" for k r1 r2
    using k leads_attempt [OF ready_docker [OF d] k ready_safe] leadsD [OF ready_docker [OF d]]
    unfolding leads_def composeDown_def by (auto split: sum.split fsError.split prod.split bool.split intro: ready_safe)
  show ?thesis
    unfolding reinstallContainer_def
    by (intro leads_checked ready_safe; auto simp: Let_def ready_safe ValidName_okSeg split: option.split
        intro!: leads_attempt [OF leads_pinned [OF ready_docker [OF d]] body [OF rest] ready_safe])
qed

lemma handler_remove:
  assumes d: "sparesInstance cfg name q docker" and q: "purge \<longrightarrow> \<not> prefix (ac_root cfg @ [name]) q"
  shows "leads (safe cfg name q v) (deleteContainer cfg docker name purge) (safe cfg name q v)"
    "leads (safe cfg name q v) (destroyContainer cfg docker name) (safe cfg name q v)"
    "leads (safe cfg name q v) (containerAction docker action name) (safe cfg name q v)"
proof -
  have a: "leads (safe cfg name q v) (attempt (dockerOk docker args) re (answer code st)) (safe cfg name q v)" for args re code st
    by (rule leads_attempt [OF safe_docker [OF d]]) simp_all
  have c: "leads (safe cfg name q v) (clearDir cfg name) (safe cfg name q v)" if purge
    unfolding leads_def using q that ready_safe [OF ready_cleared] by blast
  have b: "leads (safe cfg name q v) (attempt (dockerOk docker args) re (attempt (clearDir cfg name) re2 (answer code st))) (safe cfg name q v)"
    if purge for args re re2 code st
    by (rule leads_attempt [OF safe_docker [OF d] leads_attempt [OF c [OF that]]]) simp_all
  show "leads (safe cfg name q v) (deleteContainer cfg docker name purge) (safe cfg name q v)"
    unfolding deleteContainer_def composeDown_def
    using a b by (intro leads_checked) (auto simp: leads_def split: sum.split)
  show "leads (safe cfg name q v) (destroyContainer cfg docker name) (safe cfg name q v)"
    unfolding destroyContainer_def composeDown_def
    using a leadsD [OF safe_docker [OF d]] by (intro leads_checked) (auto simp: leads_def answer_def split: sum.split prod.split bool.split, (metis leadsD [OF safe_docker [OF d]])+)
  show "leads (safe cfg name q v) (containerAction docker action name) (safe cfg name q v)"
    unfolding containerAction_def by (rule leads_checked [OF a])
qed


lemma attempt_ok: "attempt a e k s = (z, t) \<Longrightarrow> z \<noteq> e \<Longrightarrow> \<exists>u. a s = (True, u) \<and> k u = (z, t)"
  by (auto simp: attempt_def split: prod.splits bool.splits)

lemma below_not_agentPath:
  assumes "strict_prefix (ac_root cfg @ [name, ''data'']) q \<or> strict_prefix (ac_root cfg @ [name, ''workspace'']) q"
  shows "\<not> agentPath cfg name q"
proof
  assume "agentPath cfg name q"
  then have "length q \<le> length (ac_root cfg) + 2" by (auto simp: agentPath_def dest: prefix_length_le)
  then show False using assms by (auto dest: prefix_length_less)
qed

lemma cleared_gone:
  assumes "safe cfg name q v s" "prefix (ac_root cfg @ [name]) q" "\<not> agentPath cfg name q"
  shows "ready cfg name q None (snd (clearDir cfg name s))"
proof -
  have m: "map_of (removeAll f dir) r = (if prefix dir r then None else map_of f r)" for f dir r
    by (induction f) (auto simp: removeAll_def)
  then have c: "currentLayout cfg name (removeAll f (ac_root cfg @ [name]))" for f
    by (simp add: currentLayout_def markerPath_def)
  show ?thesis
    using assms m c by (auto simp: ready_def safe_def safeHost_def clearDir_def onTree_def instancePaths_def noLink_def)
qed

text \<open>C36. A reinstallation that reports success has removed everything that was in the data directory and the workspace:
  what is there afterwards Docker has put there.\<close>

theorem reinstall_clears:
  assumes "serve cfg validIP docker (Reinstall name input) s = (Reply 200 ''reinstalled'', t)"
    "sparesInstance cfg name q docker" "list_all okSeg (ac_root cfg)" "\<forall>r. agentPath cfg name r \<longrightarrow> noLink (h_files (pl_host s)) r"
    "strict_prefix (ac_root cfg @ [name, ''data'']) q \<or> strict_prefix (ac_root cfg @ [name, ''workspace'']) q"
  shows "map_of (h_files (pl_host t)) q = None"
proof -
  note d = assms(2) and na = below_not_agentPath [OF assms(5)]
  have below: "prefix (ac_root cfg @ [name]) q" using assms(5) by (auto simp: strict_prefix_def prefix_def)
  let ?v = "map_of (h_files (pl_host s)) q"
  have s: "safe cfg name q ?v s" using assms(4) na by (simp add: safe_def safeHost_def)
  note dk = leadsD [OF safe_docker [OF d]]
  obtain i0 where v: "ValidName name" "input = Some i0" "validCreateRequest (i0\<lparr>cr_name := name\<rparr>)"
    using assms(1) by (auto simp: serve_def reinstallContainer_def checked_def answer_def Let_def split: if_splits option.splits)
  let ?i = "i0\<lparr>cr_name := name\<rparr>"
  let ?rest = "attempt (clearDir cfg name) (Reply 500 ''not cleared'') (composeUp cfg validIP docker ?i [''-d'', ''--remove-orphans''] 200 ''reinstalled'')"
  let ?body = "\<lambda>s. case stat (h_files (pl_host s)) (instanceFile cfg name) of
        Inr _ \<Rightarrow> attempt (composeDown cfg docker name) (Reply 502 ''compose down'') ?rest s
      | Inl ENOENT \<Rightarrow> (case dockerOk docker [''inspect'', name] s of
            (True, w) \<Rightarrow> attempt (dockerOk docker [''rm'', ''-f'', name]) (Reply 502 ''rm'') ?rest w
          | (False, w) \<Rightarrow> ?rest w)
      | Inl _ \<Rightarrow> (Reply 500 ''compose file'', s)"
  have "attempt (ensurePinnedImageAvailable docker (cr_image ?i)) (Reply 502 ''image'') ?body s = (Reply 200 ''reinstalled'', t)"
    using assms(1) v by (simp add: serve_def reinstallContainer_def checked_def Let_def)
  from attempt_ok [OF this] obtain u where u: "ensurePinnedImageAvailable docker (cr_image ?i) s = (True, u)"
    "?body u = (Reply 200 ''reinstalled'', t)" by auto
  have su: "safe cfg name q ?v u" by (rule leadsD [OF leads_pinned [OF safe_docker [OF d]] s u(1)])
  have "\<exists>w. safe cfg name q ?v w \<and> ?rest w = (Reply 200 ''reinstalled'', t)"
    using u(2) su dk attempt_ok [of "dockerOk docker _" _ ?rest]
    by (auto simp: composeDown_def split: sum.splits fsError.splits prod.splits bool.splits) blast+
  then obtain w w2 where w: "safe cfg name q ?v w" "clearDir cfg name w = (True, w2)"
      "composeUp cfg validIP docker ?i [''-d'', ''--remove-orphans''] 200 ''reinstalled'' w2 = (Reply 200 ''reinstalled'', t)"
    using attempt_ok [of "clearDir cfg name"] by fastforce
  have "ready cfg name q None w2" using cleared_gone [OF w(1) below na] by (simp add: w(2))
  moreover have "q \<noteq> ac_root cfg @ [name, ''docker-compose.yml'']" using na by auto
  ultimately have "safe cfg name q None t"
    using leadsD [OF safe_composeUp [OF assms(3) ValidName_okSeg [OF v(1)] _ d] _ w(3)] by simp
  then show ?thesis by (simp add: safe_def safeHost_def)
qed

text \<open>A purge that is repeated after its answer got lost fails as soon as Docker reports the missing container as an error; a
  destroy asks whether the container is there.\<close>

lemma purge_again_fails:
  assumes "ValidName name" "stat (h_files (pl_host s)) (instanceFile cfg name) = Inl e" "docker [''rm'', ''-f'', name] (pl_host s) = ((False, out), g)"
    "docker [''inspect'', name] g = ((False, out2), g2)"
  shows "fst (deleteContainer cfg docker name True s) = Reply 502 ''rm''" "fst (destroyContainer cfg docker name s) = Reply 204 []"
  using assms by (simp_all add: deleteContainer_def destroyContainer_def checked_def attempt_def dockerOk_def answer_def)

text \<open>Destroying or purging an instance leaves its route where it was.\<close>

lemma attempt_cache:
  assumes "\<And>s. pl_cache (snd (a s)) = pl_cache s" "\<And>s. pl_cache (snd (k s)) = pl_cache s"
  shows "pl_cache (snd (attempt a r k s)) = pl_cache s"
  using assms(1) [of s] assms(2) by (auto simp: attempt_def split: prod.split bool.split)

lemma phase_cache [simp]: "pl_cache (snd (dockerOk docker args s)) = pl_cache s" "pl_cache (snd (onTree a s)) = pl_cache s"
  "pl_cache (snd (answer c t s)) = pl_cache s" "pl_cache (snd (clearDir cfg name s)) = pl_cache s" "pl_cache (snd (composeDown cfg docker name s)) = pl_cache s"
  by (auto simp: dockerOk_def onTree_def answer_def clearDir_def composeDown_def split: prod.split)

lemma removal_keeps_route:
  "pl_cache (snd (deleteContainer cfg docker name purge s)) = pl_cache s"
  "pl_cache (snd (destroyContainer cfg docker name s)) = pl_cache s"
proof -
  have d: "pl_cache t = pl_cache s" if "dockerOk docker args s = (b, t)" for args b s t
    using phase_cache(1) [of docker args s] that by simp
  show "pl_cache (snd (deleteContainer cfg docker name purge s)) = pl_cache s"
    by (auto simp: deleteContainer_def checked_def attempt_cache split: sum.split)
  show "pl_cache (snd (destroyContainer cfg docker name s)) = pl_cache s"
    using d by (auto simp: destroyContainer_def checked_def attempt_cache answer_def split: sum.split prod.split bool.split)
qed

section \<open>The compose file of a valid request\<close>

lemma splitText_some: "splitText sep s \<noteq> []"
  by (subst splitText.simps) (auto split: list.split)

lemma splitText_suffix: "splitText sep s = ws \<Longrightarrow> (\<exists>p. s = p @ last ws) \<and> (length ws = 1 \<longrightarrow> ws = [s])"
proof (induction sep s arbitrary: ws rule: splitText.induct)
  case (1 sep s)
  consider "s = [] \<or> sep = []" | "\<not> (s = [] \<or> sep = [])" "take (length sep) s = sep" | "\<not> (s = [] \<or> sep = [])" "take (length sep) s \<noteq> sep" by blast
  then show ?case
  proof cases
    case 1
    then have "ws = [s]" using \<open>splitText sep s = ws\<close> by (auto simp: splitText.simps [of sep s])
    then show ?thesis by simp
  next
    case 2
    then have ws: "ws = [] # splitText sep (drop (length sep) s)" using 1(3) by (auto simp: splitText.simps [of sep s])
    obtain p where "drop (length sep) s = p @ last (splitText sep (drop (length sep) s))" using 1(1) [OF 2 refl] by blast
    then have "s = (take (length sep) s @ p) @ last ws" using splitText_some [of sep] ws by (metis append.assoc append_take_drop_id last_ConsR)
    then have "\<exists>p. s = p @ last ws" by blast
    then show ?thesis using ws splitText_some [of sep] by auto
  next
    case 3
    obtain w ws2 where w: "splitText sep (tl s) = w # ws2" using splitText_some [of sep] by (cases "splitText sep (tl s)") auto
    have ws: "ws = (hd s # w) # ws2" using 1(3) 3 w by (auto simp: splitText.simps [of sep s])
    have ih: "\<exists>p. tl s = p @ last (w # ws2)" "length (w # ws2) = 1 \<longrightarrow> w # ws2 = [tl s]" using 1(2) [OF 3 w] by blast+
    have s: "s = hd s # tl s" using 3(1) by simp
    show ?thesis
    proof (cases "ws2 = []")
      case True
      then have "ws = [s]" using ih(2) s ws by simp
      then show ?thesis by simp
    next
      case False
      then have "\<exists>p. s = (hd s # p) @ last ws" using ih(1) s ws by auto
      then have "\<exists>p. s = p @ last ws" by blast
      then show ?thesis using False ws by simp
    qed
  qed
qed

lemma dropWhile_keeps: "c \<in> set xs \<Longrightarrow> \<not> P c \<Longrightarrow> c \<in> set (dropWhile P xs)"
  by (induction xs) auto

lemma trim_some: "c \<in> set v \<Longrightarrow> \<not> isSpace c \<Longrightarrow> trimSpace v \<noteq> []"
  using dropWhile_keeps [of c "rev (dropWhile isSpace v)" isSpace] dropWhile_keeps [of c v isSpace]
  by (auto simp: trimSpace_def trimLeft_def trimRight_def)

lemma splitOn_single: "c \<notin> set s \<Longrightarrow> splitOn c s = [s]"
  by (induction s) auto

lemma managed_image_some:
  assumes "validManagedImage v"
  shows "trimSpace v \<noteq> []"
proof (cases "validDigestImage v")
  case True
  then obtain ref digest where d: "splitText ''@sha256:'' v = [ref, digest]" "length digest = 64" "list_all lowerHex digest"
    by (auto simp: validDigestImage_def split: list.splits)
  obtain p where v: "v = p @ digest" using splitText_suffix [OF d(1)] by auto
  obtain c r where c: "digest = c # r" using d(2) by (cases digest) auto
  have "\<not> isSpace c" using d(3) c by (auto simp: lowerHex_def isSpace_def Let_def)
  then show ?thesis using trim_some [of c v] v c by simp
next
  case False
  then have "CHR '':'' \<in> set v" using assms splitOn_single [of "CHR '':''" v] by (force simp: validManagedImage_def Let_def)
  then show ?thesis using trim_some [of "CHR '':''" v] by (simp add: isSpace_def)
qed

lemma compose_some: "Compose pr fm inp = Inr t \<Longrightarrow> t \<noteq> []"
proof -
  assume "Compose pr fm inp = Inr t"
  then have t: "t = concat (map (\<lambda>l. renderLine pr l @ [newline]) (composeLines fm inp))" unfolding Compose_def guardE_Inr_iff by simp
  have "composeLines fm inp \<noteq> []" unfolding composeLines_def Let_def by simp
  then show "t \<noteq> []" unfolding t by (cases "composeLines fm inp") simp_all
qed

text \<open>C38. The agent never writes an empty compose file: for every request that passes its check the shared generator accepts
  the same name, route, image and limits, so \<open>instanceCompose\<close>, which turns an error into an empty text, returns the generated
  file.\<close>

theorem valid_request_composes:
  assumes "validCreateRequest i"
  shows "\<exists>input. Compose (ac_printable cfg) (ac_fmtCPU cfg) input = Inr (instanceCompose cfg i) \<and> instanceCompose cfg i \<noteq> [] \<and>
    ci_name input = cr_name i \<and> ci_route input = cr_route i \<and> ci_image input = cr_image i \<and>
    ci_cpu input = cr_cpu i \<and> ci_memory input = cr_memory i \<and>
    ci_data input = pathText (ac_root cfg @ [cr_name i, ''data'']) \<and> ci_workspace input = pathText (ac_root cfg @ [cr_name i, ''workspace''])"
proof -
  define inp where "inp = \<lparr>ci_name = cr_name i, ci_image = cr_image i, ci_route = cr_route i, ci_data = pathText (ac_root cfg @ [cr_name i, ''data'']),
    ci_workspace = pathText (ac_root cfg @ [cr_name i, ''workspace'']),
    ci_network = (if ac_network cfg = [] then ''xcloud_network'' else ac_network cfg), ci_cpu = cr_cpu i, ci_memory = cr_memory i,
    ci_terminal = cr_terminal i, ci_hostAccess = cr_hostAccess i\<rparr>"
  have ic: "instanceCompose cfg i = (case Compose (ac_printable cfg) (ac_fmtCPU cfg) inp of Inl _ \<Rightarrow> [] | Inr t \<Rightarrow> t)"
    by (simp add: instanceCompose_def instancePaths_def inp_def)
  have f: "ci_name inp = cr_name i" "ci_route inp = cr_route i" "ci_image inp = cr_image i" "ci_cpu inp = cr_cpu i" "ci_memory inp = cr_memory i"
    "ci_data inp = pathText (ac_root cfg @ [cr_name i, ''data''])" "ci_workspace inp = pathText (ac_root cfg @ [cr_name i, ''workspace''])"
    by (simp_all add: inp_def)
  have "ValidName (cr_name i)" "ValidRoute (cr_route i)" "trimSpace (cr_image i) \<noteq> []" "0 < cr_cpu i" "256 \<le> cr_memory i"
    using assms managed_image_some by (simp_all add: validCreateRequest_def)
  then have g: "(ValidName (ci_name inp) \<and> ValidRoute (ci_route inp) \<and> trimSpace (ci_image inp) \<noteq> [] \<and> 0 < ci_cpu inp \<and> 256 \<le> ci_memory inp \<and>
      ci_data inp \<noteq> [] \<and> ci_workspace inp \<noteq> []) = True" by (simp add: f pathText_def)
  obtain t where t: "Compose (ac_printable cfg) (ac_fmtCPU cfg) inp = Inr t" unfolding Compose_def g guardE_simps by blast
  have "t \<noteq> []" using compose_some [OF t] .
  then show ?thesis using t ic f by (intro exI [of _ inp]) simp
qed

section \<open>Examples\<close>

definition exampleRequest :: createRequest where
  "exampleRequest = \<lparr>cr_name = ''xcloud-r0123456789abcdef'', cr_image = ''nginx:1'', cr_cpu = 1, cr_memory = 512,
     cr_route = ''r0123456789abcdef'', cr_terminal = False, cr_hostAccess = False, cr_keepStopped = False\<rparr>"

definition examplePlatform :: "unit platform" where
  "examplePlatform = \<lparr>pl_host = exampleHost, pl_cache = Map.empty\<rparr>"

theorem valid_request_composes_witness:
  "\<exists>input. Compose (\<lambda>_. True) (\<lambda>_. ''1.00'') input = Inr (instanceCompose exampleAgent exampleRequest) \<and> ci_image input = ''nginx:1''"
proof -
  have v: "validCreateRequest exampleRequest" by code_simp
  show ?thesis using valid_request_composes [OF v, of exampleAgent] by (auto simp: exampleAgent_def exampleRequest_def)
qed


theorem reinstall_clears_witness:
  "map_of (h_files (pl_host (snd (serve exampleAgent (\<lambda>_. True) exampleDocker (Reinstall ''xcloud-r0123456789abcdef'' (Some exampleRequest)) examplePlatform))))
     exampleData = None"
proof -
  let ?n = "''xcloud-r0123456789abcdef''"
  let ?run = "serve exampleAgent (\<lambda>_. True) exampleDocker (Reinstall ?n (Some exampleRequest)) examplePlatform"
  have v: "validCreateRequest (exampleRequest\<lparr>cr_name := ?n\<rparr>)" by code_simp
  have "fst ?run = Reply 200 ''reinstalled''" by code_simp
  then have run: "?run = (Reply 200 ''reinstalled'', snd ?run)" by (metis prod.collapse)
  have l: "\<forall>r. agentPath exampleAgent ?n r \<longrightarrow> noLink (h_files (pl_host examplePlatform)) r"
    by (simp add: noLink_def examplePlatform_def exampleHost_def exampleData_def)
  show ?thesis
    by (rule reinstall_clears [OF run _ _ l])
      (simp_all add: sparesInstance_def exampleDocker_def example_safe exampleAgent_def exampleData_def okSeg_def dot_def dotdot_def)
qed

end
