(* ===== verification/Transport.thy ===== *)
theory Transport
  imports HostAgent
begin

text \<open>
  The command bridge from the control plane to a customer's node (\<open>selfhosted_transport.go\<close>, the self-hosted branch of
  \<open>nodeRequest\<close> in \<open>platform_upgrade.go\<close>): the action a method and a path stand for, and the JSON payload that travels
  through the gateway to the host agent, which decodes it into its \<open>managedPayload\<close>. JSON objects are maps; the
  decoder matches keys exactly.
\<close>

section \<open>Actions\<close>

definition hasSuffix :: "string \<Rightarrow> string \<Rightarrow> bool" where
  "hasSuffix s t \<longleftrightarrow> suffix t s"

definition selfHostedCommandAction :: "string \<Rightarrow> string \<Rightarrow> error + string" where
  "selfHostedCommandAction method path =
     (if method \<noteq> ''POST'' \<and> method \<noteq> ''DELETE'' \<and> method \<noteq> ''GET'' then Inl (Msg ''operation not supported'')
      else if containsText path ''/operation-status'' \<and> method = ''GET'' then Inr ''operation-status''
      else if path = ''/container/create'' then Inr ''create''
      else if path = ''/container/pull'' then Inr ''pull-image''
      else if hasSuffix path ''/stats'' \<and> method = ''GET'' then Inr ''stats''
      else if containsText path ''/logs'' \<and> method = ''GET'' then Inr ''logs''
      else if containsText path ''/files/content'' \<and> method = ''GET'' then Inr ''file-read''
      else if containsText path ''/files/content'' \<and> method = ''POST'' then Inr ''file-write''
      else if containsText path ''/files/upload'' \<and> method = ''POST'' then Inr ''file-upload''
      else if containsText path ''/files'' \<and> method = ''GET'' then Inr ''files''
      else if hasSuffix path ''/start'' then Inr ''start''
      else if hasSuffix path ''/stop'' then Inr ''stop''
      else if hasSuffix path ''/restart'' then Inr ''restart''
      else if hasSuffix path ''/resize'' then Inr ''resize''
      else if hasSuffix path ''/reinstall'' then Inr ''reinstall''
      else if containsText path ''?purge=true'' then Inr ''purge''
      else if hasSuffix path ''/destroy'' then Inr ''destroy''
      else Inl (Msg ''interface not supported''))"

section \<open>URLs\<close>

definition hexValue :: "char \<Rightarrow> nat option" where
  "hexValue c = (let n = (of_char c :: nat) in if 48 \<le> n \<and> n \<le> 57 then Some (n - 48) else if 97 \<le> n \<and> n \<le> 102 then Some (n - 87)
     else if 65 \<le> n \<and> n \<le> 70 then Some (n - 55) else None)"

text \<open>\<open>url.PathUnescape\<close>, and with \<open>q\<close> \<open>url.QueryUnescape\<close>.\<close>

fun unescape :: "bool \<Rightarrow> string \<Rightarrow> string option" where
  "unescape q [] = Some []"
| "unescape q (c # cs) =
     (if c = CHR ''%'' then (case cs of a # b # r \<Rightarrow>
          (case (hexValue a, hexValue b) of (Some x, Some y) \<Rightarrow> map_option ((#) (char_of (16 * x + y))) (unescape q r) | _ \<Rightarrow> None)
        | _ \<Rightarrow> None)
      else map_option ((#) (if q \<and> c = CHR ''+'' then CHR '' '' else c)) (unescape q cs))"

definition cutOnce :: "char \<Rightarrow> string \<Rightarrow> string \<times> string" where
  "cutOnce c s = (takeWhile (\<lambda>d. d \<noteq> c) s, tl (dropWhile (\<lambda>d. d \<noteq> c) s))"

definition controlChar :: "char \<Rightarrow> bool" where
  "controlChar c \<longleftrightarrow> (of_char c :: nat) < 32 \<or> (of_char c :: nat) = 127"

text \<open>The raw query of \<open>url.Parse\<close>; a fragment is cut off first.\<close>

definition rawQuery :: "string \<Rightarrow> string option" where
  "rawQuery s = (let u = fst (cutOnce (CHR ''#'') s); (path, query) = cutOnce (CHR ''?'') u
     in if list_ex controlChar s \<or> unescape False path = None then None else Some query)"

text \<open>\<open>Query().Get\<close>: the first well-formed pair with the key; a pair with a semicolon is dropped.\<close>

definition queryGet :: "string \<Rightarrow> string \<Rightarrow> string" where
  "queryGet query key =
     (case List.map_filter (\<lambda>piece. if piece = [] \<or> CHR '';'' \<in> set piece then None else
          (let (k, v) = cutOnce (CHR ''='') piece in
           (case (unescape True k, unescape True v) of (Some k2, Some v2) \<Rightarrow> if k2 = key then Some v2 else None | _ \<Rightarrow> None)))
        (splitOn (CHR ''&'') query) of [] \<Rightarrow> [] | v # _ \<Rightarrow> v)"

section \<open>The payload\<close>

datatype jvalue = JStr string | JNum rat | JBool bool | JOther

type_synonym jobject = "string \<rightharpoonup> jvalue"

text \<open>\<open>nodeRequest\<close> adds the operation of the task to the payload.\<close>

definition decorate :: "string \<Rightarrow> jobject option \<Rightarrow> jobject option" where
  "decorate oper payload = (if oper = [] then payload
     else Some ((case payload of None \<Rightarrow> Map.empty | Some m \<Rightarrow> m)(''operationId'' \<mapsto> JStr oper)))"

definition trimPrefix :: "string \<Rightarrow> string \<Rightarrow> string" where
  "trimPrefix p s = (if take (length p) s = p then drop (length p) s else s)"

definition pathName :: "string \<Rightarrow> string" where
  "pathName path = hd (splitOn (CHR ''/'') (trimPrefix ''/container/'' (fst (cutOnce (CHR ''?'') path))))"

definition commandPayload :: "string \<Rightarrow> jobject option \<Rightarrow> jobject" where
  "commandPayload path payload =
     (let m = (case payload of None \<Rightarrow> Map.empty | Some x \<Rightarrow> x);
          name = pathName path;
          m2 = (if name \<noteq> [] then m(''name'' \<mapsto> JStr (case unescape False name of None \<Rightarrow> [] | Some x \<Rightarrow> x)) else m)
      in (case rawQuery path of None \<Rightarrow> m2
          | Some q \<Rightarrow> m2(''path'' \<mapsto> JStr (queryGet q ''path''), ''tail'' \<mapsto> JStr (queryGet q ''tail''),
                         ''since'' \<mapsto> JStr (queryGet q ''since''), ''operationId'' \<mapsto> JStr (queryGet q ''operationId''))))"

text \<open>What the host agent reads: a value of another type leaves the field empty.\<close>

definition strField :: "jobject \<Rightarrow> string \<Rightarrow> string" where
  "strField m k = (case m k of Some (JStr s) \<Rightarrow> s | _ \<Rightarrow> [])"

definition boolField :: "jobject \<Rightarrow> string \<Rightarrow> bool" where
  "boolField m k = (case m k of Some (JBool b) \<Rightarrow> b | _ \<Rightarrow> False)"

definition numField :: "jobject \<Rightarrow> string \<Rightarrow> rat" where
  "numField m k = (case m k of Some (JNum r) \<Rightarrow> r | _ \<Rightarrow> 0)"

definition decodePayload :: "jobject \<Rightarrow> managedPayload" where
  "decodePayload m = \<lparr>p_name = strField m ''name'', p_image = strField m ''image'', p_cpu = numField m ''cpu'',
     p_memory = (let r = numField m ''memoryMB'' in if of_int \<lfloor>r\<rfloor> = r then \<lfloor>r\<rfloor> else 0), p_route = strField m ''route'',
     p_keepStopped = boolField m ''keepStopped'', p_hostAccess = boolField m ''hostAccess'', p_path = strField m ''path'',
     p_content = strField m ''content'', p_tail = strField m ''tail'', p_operation = strField m ''operationId''\<rparr>"

text \<open>A request of the control plane, when the gateway has handed it to the host agent.\<close>

definition selfHostedNodeRequest ::
  "agentConfig \<Rightarrow> (string \<Rightarrow> containerStats option) \<Rightarrow> 'w docker \<Rightarrow> ('w host \<Rightarrow> bool) \<Rightarrow> string \<Rightarrow> string \<Rightarrow> string \<Rightarrow> jobject option \<Rightarrow>
   'w host \<Rightarrow> (opError + answer) \<times> 'w host" where
  "selfHostedNodeRequest cfg decode docker cancelled oper method path payload h =
     (case selfHostedCommandAction method path of Inl _ \<Rightarrow> (Inl (Plain ''interface not supported''), h)
      | Inr action \<Rightarrow> runManagedCommand cfg decode docker cancelled action (decodePayload (commandPayload path (decorate oper payload))) h)"

section \<open>Which instance a request names\<close>

lemma hd_splitOn: "hd (splitOn c s) = takeWhile (\<lambda>d. d \<noteq> c) s"
proof (induction s)
  case (Cons a s)
  show ?case using Cons splitOn_nonempty [of c s] by (cases "splitOn c s") auto
qed simp

lemma lowerAlnum_plain: "lowerAlnum c \<Longrightarrow> c \<noteq> CHR ''/'' \<and> c \<noteq> CHR ''?'' \<and> c \<noteq> CHR ''%'' \<and> c \<noteq> CHR ''#''"
  by (auto simp: lowerAlnum_def)

lemma name_plain:
  assumes "ValidName name" "c \<in> set name"
  shows "c \<noteq> CHR ''/'' \<and> c \<noteq> CHR ''?'' \<and> c \<noteq> CHR ''%'' \<and> c \<noteq> CHR ''#''"
proof -
  obtain r where r: "name = ''xcloud-'' @ r" "list_all lowerAlnum r" using ValidName_split [OF assms(1)] by blast
  show ?thesis
  proof (cases "c \<in> set r")
    case True
    then show ?thesis using r(2) lowerAlnum_plain by (simp add: list_all_iff)
  next
    case False
    then have "c \<in> set ''xcloud-''" using assms(2) r(1) by simp
    then show ?thesis by auto
  qed
qed

lemma unescape_plain: "CHR ''%'' \<notin> set s \<Longrightarrow> unescape False s = Some s"
  by (induction s) auto

lemma takeWhile_until: "(\<And>c. c \<in> set xs \<Longrightarrow> P c) \<Longrightarrow> ys = [] \<or> \<not> P (hd ys) \<Longrightarrow> takeWhile P (xs @ ys) = xs"
  by (induction xs) (auto simp: takeWhile_eq_Nil_iff)

lemma trimPrefix_append: "trimPrefix p (p @ s) = s"
  by (simp add: trimPrefix_def)

lemma pathName_instance:
  assumes "ValidName name" "t = [] \<or> hd t = CHR ''/'' \<or> hd t = CHR ''?''"
  shows "pathName (''/container/'' @ name @ t) = name"
proof -
  have n: "c \<noteq> CHR ''/''" "c \<noteq> CHR ''?''" if "c \<in> set name" for c using name_plain [OF assms(1) that] by auto
  define u where "u = takeWhile (\<lambda>d. d \<noteq> CHR ''?'') t"
  have "takeWhile (\<lambda>d. d \<noteq> CHR ''?'') (name @ t) = name @ u" using n by (simp add: u_def)
  then have c: "fst (cutOnce (CHR ''?'') (''/container/'' @ name @ t)) = ''/container/'' @ name @ u" by (simp add: cutOnce_def)
  have "u = [] \<or> \<not> hd u \<noteq> CHR ''/''"
    using assms(2) by (cases t) (auto simp: u_def)
  then have "takeWhile (\<lambda>d. d \<noteq> CHR ''/'') (name @ u) = name" using n by (intro takeWhile_until) auto
  then show ?thesis unfolding pathName_def c trimPrefix_append hd_splitOn .
qed

lemma payload_name:
  assumes "pathName path = name" "name \<noteq> []" "CHR ''%'' \<notin> set name"
  shows "p_name (decodePayload (commandPayload path payload)) = name"
  using assms by (simp add: decodePayload_def commandPayload_def strField_def unescape_plain Let_def split: option.split)

definition bridgeActions :: "string list" where
  "bridgeActions = [''operation-status'', ''create'', ''pull-image'', ''stats'', ''logs'', ''file-read'', ''file-write'', ''file-upload'', ''files'',
     ''start'', ''stop'', ''restart'', ''resize'', ''reinstall'', ''purge'', ''destroy'']"

lemma bridge_closed: "selfHostedCommandAction method path = Inr action \<Longrightarrow> action \<in> set bridgeActions"
  by (auto simp: selfHostedCommandAction_def bridgeActions_def split: if_splits)

section \<open>Records of operations across the bridge\<close>

definition keepsOps :: "'w act \<Rightarrow> bool" where
  "keepsOps a \<longleftrightarrow> (\<forall>h. h_ops (snd (a h)) = h_ops h)"

lemma keepsOps_then: "keepsOps a \<Longrightarrow> keepsOps b \<Longrightarrow> keepsOps (andThen a b)"
  by (auto simp: keepsOps_def andThen_def split: prod.split option.split) (metis snd_conv)+

lemma keepsOps_files:
  "keepsOps (makeDir p)" "keepsOps (putFile p c)" "keepsOps (\<lambda>h. (e, h))" "keepsOps (\<lambda>h. (e, h\<lparr>h_files := f h\<rparr>))"
  by (auto simp: keepsOps_def makeDir_def putFile_def split: prod.split sum.split)

lemma keepsOps_compose:
  assumes "\<forall>args h. h_ops (snd (docker args h)) = h_ops h"
  shows "keepsOps (composeCommand docker cancelled dir n args)" "keepsOps (removeManagedRuntime docker cancelled dir n)"
    "keepsOps (ensureManagedDockerNetwork cfg docker)"
proof -
  have d: "h_ops g = h_ops h" if "docker args h = (v, g)" for args h v g using assms that by (metis snd_conv)
  have d2: "h_ops g = h_ops h" if "controlDockerCommand docker args h = (v, g)" for args h v g
    using that d by (auto simp: controlDockerCommand_def split: prod.splits)
  show c: "keepsOps (composeCommand docker cancelled dir n args)" for dir n args
    using d by (auto simp: keepsOps_def composeCommand_def split: prod.split bool.split)
  have "keepsOps (\<lambda>h. case docker [''rm'', ''-f'', n] h of
      ((ok, out), g) \<Rightarrow> (if ok \<or> dockerObjectNotFound out then None else Some (Plain ''container not removed''), g))"
    using d by (auto simp: keepsOps_def split: prod.split)
  moreover have "keepsOps (\<lambda>h. case stat (h_files h) (composeFile dir) of Inr _ \<Rightarrow> composeCommand docker cancelled dir n [''down'', ''--remove-orphans''] h
     | Inl ENOENT \<Rightarrow> (None, h) | Inl _ \<Rightarrow> (Some (Plain ''cannot check the compose file''), h))"
    using c by (auto simp: keepsOps_def split: sum.split fsError.split)
  ultimately show "keepsOps (removeManagedRuntime docker cancelled dir n)" unfolding removeManagedRuntime_def by (intro keepsOps_then)
  show "keepsOps (ensureManagedDockerNetwork cfg docker)"
    unfolding keepsOps_def ensureManagedDockerNetwork_def
    by (auto split: sum.split prod.split bool.split) (metis d2)+
qed

lemma keepsOps_write: "keepsOps (writeCompose cfg p dir)"
  unfolding writeCompose_def by (auto intro!: keepsOps_then keepsOps_files split: sum.split)

lemma readiness_ops:
  assumes "\<forall>args h. h_ops (snd (docker args h)) = h_ops h"
  shows "h_ops (snd (checkRuntimeReadiness cfg docker h)) = h_ops h"
proof -
  have d2: "h_ops g = h_ops h" if "controlDockerCommand docker args h = (v, g)" for args h v g
    using that assms by (auto simp: controlDockerCommand_def split: prod.splits) (metis snd_conv)
  let ?probes = "case controlDockerCommand docker [''info'', ''--format'', ''{{.ServerVersion}}''] h of
      ((False, _), g) \<Rightarrow> ([(''docker_unavailable'', ''Docker unavailable'')], g)
    | ((True, _), g) \<Rightarrow> (case controlDockerCommand docker [''compose'', ''version'', ''--short''] g of
          ((ok, _), g2) \<Rightarrow> (if ok then [] else [(''compose_unavailable'', ''Compose unavailable'')], g2))"
  obtain i1 h1 where p: "?probes = (i1, h1)" by (cases "?probes")
  obtain b h2 where b: "writableDataRoot cfg h1 = (b, h2)" by (cases "writableDataRoot cfg h1")
  obtain e h3 where e: "ensureManagedDockerNetwork cfg docker h2 = (e, h3)" by (cases "ensureManagedDockerNetwork cfg docker h2")
  have "h_ops h1 = h_ops h" using p by (auto split: prod.splits bool.splits) (metis d2)+
  moreover have "h_ops h2 = h_ops h1" using b by (auto simp: writableDataRoot_def split: prod.splits)
  moreover have "h_ops h3 = h_ops h2" using keepsOps_compose(3) [OF assms, of cfg] e unfolding keepsOps_def by (metis snd_conv)
  moreover have "snd (checkRuntimeReadiness cfg docker h) = h2 \<or> snd (checkRuntimeReadiness cfg docker h) = h3"
    unfolding checkRuntimeReadiness_def p by (auto simp: b e split: option.split)
  ultimately show ?thesis by auto
qed

lemma compose_ops:
  assumes d: "\<forall>args h. h_ops (snd (docker args h)) = h_ops h"
  shows "h_ops (snd (composeAction cfg docker cancelled action p dir h)) = h_ops h"
proof -
  have pull: "h_ops g = h_ops h" if "docker args h = (v, g)" for args h v g using d that by (metis snd_conv)
  obtain issues h1 where c: "checkRuntimeReadiness cfg docker h = (issues, h1)" by (cases "checkRuntimeReadiness cfg docker h")
  have h1: "h_ops h1 = h_ops h" using readiness_ops [OF d, of cfg h] c by simp
  have first: "keepsOps (if action \<in> set upActions then writeCompose cfg p dir else (\<lambda>h. (None, h)))"
    by (simp add: keepsOps_write) (simp add: keepsOps_def)
  have purge: "keepsOps (andThen (composeCommand docker cancelled dir (p_name p) [''down'', ''--remove-orphans'', ''--volumes''])
      (\<lambda>h3. (None, h3\<lparr>h_files := removeAll (h_files h3) dir\<rparr>)))"
    by (intro keepsOps_then keepsOps_compose(1) [OF d] keepsOps_files(4))
  have second: "keepsOps (\<lambda>h2. if action = ''purge'' then
               andThen (composeCommand docker cancelled dir (p_name p) [''down'', ''--remove-orphans'', ''--volumes''])
                 (\<lambda>h3. (None, h3\<lparr>h_files := removeAll (h_files h3) dir\<rparr>)) h2
             else if action = ''destroy'' then removeManagedRuntime docker cancelled dir (p_name p) h2
             else if action = ''stop'' then composeCommand docker cancelled dir (p_name p) [''stop''] h2
             else if p_keepStopped p then composeCommand docker cancelled dir (p_name p) [''up'', ''-d'', ''--no-start''] h2
             else composeCommand docker cancelled dir (p_name p) [''up'', ''-d'', ''--remove-orphans''] h2)"
    using purge keepsOps_compose [OF d] by (simp add: keepsOps_def)
  show ?thesis
    using keepsOps_then [OF first second] h1 pull unfolding keepsOps_def composeAction_def c
    by (cases issues) (auto split: prod.split)
qed

lemma unrecorded_run:
  assumes "\<forall>args h. h_ops (snd (docker args h)) = h_ops h" "trimSpace (p_operation p) = []"
  shows "h_ops (snd (runManagedCompose cfg docker cancelled action p h)) = h_ops h"
  using compose_ops [OF assms(1)] assms(2)
  by (auto simp: runManagedCompose_def beginManagedOperation_def split: sum.split prod.split)

lemma command_ops:
  assumes d: "\<forall>args h. h_ops (snd (docker args h)) = h_ops h" and o: "trimSpace (p_operation p) = []"
  shows "h_ops (snd (runManagedCommand cfg decode docker cancelled action p h)) = h_ops h"
proof -
  have k: "h_ops g = h_ops h" if "docker args h = (v, g)" for args h v g using d that by (metis snd_conv)
  have run: "h_ops g = h_ops h" if "runManagedCompose cfg docker cancelled action p h = (e, g)" for e g
    using unrecorded_run [OF d o, of cfg cancelled action h] that by simp
  have st: "h_ops g = h_ops h" if "ReadContainerStats decode docker n h = (e, g)" for n e g
    using that k by (auto simp: ReadContainerStats_def split: prod.splits if_splits)
  have lg: "h_ops (snd (logCommand docker p h)) = h_ops h" using k by (auto simp: logCommand_def Let_def split: prod.split)
  show ?thesis using o run st lg by (auto simp: runManagedCommand_def split: prod.split sum.split option.split)
qed

lemma queryGet_empty: "queryGet [] k = []"
  by (simp add: queryGet_def List.map_filter_def)

lemma no_query:
  assumes "list_all (\<lambda>c. c \<noteq> CHR ''?'' \<and> c \<noteq> CHR ''#'' \<and> c \<noteq> CHR ''%'' \<and> \<not> controlChar c) path"
  shows "rawQuery path = Some []"
proof -
  have t: "takeWhile (\<lambda>d. d \<noteq> CHR ''#'') path = path" "takeWhile (\<lambda>d. d \<noteq> CHR ''?'') path = path" "dropWhile (\<lambda>d. d \<noteq> CHR ''?'') path = []"
    using assms by (auto simp: takeWhile_eq_all_conv dropWhile_eq_Nil_conv list_all_iff)
  have "CHR ''%'' \<notin> set path" "\<not> list_ex controlChar path" using assms by (auto simp: list_all_iff list_ex_iff)
  then show ?thesis unfolding rawQuery_def cutOnce_def Let_def fst_conv t by (simp add: unescape_plain)
qed

section \<open>Properties\<close>

text \<open>C1. A request of the control plane acts on the instance its path names, and on nothing else: whatever the JSON payload says,
  the host agent reads the path's name, and the action is one of the closed table.\<close>

theorem bridge_names_instance:
  assumes "ValidName name" "t = [] \<or> hd t = CHR ''/'' \<or> hd t = CHR ''?''" "selfHostedCommandAction method (''/container/'' @ name @ t) = Inr action"
  shows "p_name (decodePayload (commandPayload (''/container/'' @ name @ t) payload)) = name \<and> action \<in> set bridgeActions"
proof -
  have "name \<noteq> []" "CHR ''%'' \<notin> set name" using assms(1) name_plain [OF assms(1)] by (auto simp: ValidName_def)
  then show ?thesis using payload_name [OF pathName_instance [OF assms(1,2)]] bridge_closed [OF assms(3)] by blast
qed

theorem bridge_names_instance_witness:
  "p_name (decodePayload (commandPayload ''/container/xcloud-r0123456789abcdef/restart'' (Some [''name'' \<mapsto> JStr ''xcloud-other0000'']))) =
     ''xcloud-r0123456789abcdef''"
proof -
  have v: "ValidName ''xcloud-r0123456789abcdef''" "selfHostedCommandAction ''POST'' (''/container/'' @ ''xcloud-r0123456789abcdef'' @ ''/restart'') = Inr ''restart''"
    by code_simp+
  show ?thesis using bridge_names_instance [OF v(1) _ v(2), of "Some [''name'' \<mapsto> JStr ''xcloud-other0000'']"] by simp
qed

text \<open>C1. A deployment on a customer's node can never succeed. The paths \<open>/container/create\<close> and \<open>/container/pull\<close> name no
  instance, but the bridge overwrites the payload's name with the path's second segment; the host agent is asked to
  create an instance called \<open>create\<close> and refuses, before anything is done, whatever payload, Docker and host are.\<close>

theorem selfhosted_deploy_refused:
  "selfHostedNodeRequest cfg decode docker cancelled oper ''POST'' ''/container/create'' payload h = (Inl (Plain ''managed name invalid''), h) \<and>
   selfHostedNodeRequest cfg decode docker cancelled oper ''POST'' ''/container/pull'' payload h = (Inl (Plain ''managed name invalid''), h)"
proof -
  have refused: "runManagedCommand cfg decode docker cancelled action p h = (Inl (Plain ''managed name invalid''), h)"
    if "\<not> ValidName (p_name p)" "action \<in> {''create'', ''pull-image''}" for action p
    using that by (auto simp: runManagedCommand_def runManagedCompose_def managedDir_def safeManagedName_def)
  have a: "selfHostedCommandAction ''POST'' ''/container/create'' = Inr ''create''" "selfHostedCommandAction ''POST'' ''/container/pull'' = Inr ''pull-image''"
    by code_simp+
  have n: "pathName ''/container/create'' = ''create''" "pathName ''/container/pull'' = ''pull''" by code_simp+
  have v: "\<not> ValidName ''create''" "\<not> ValidName ''pull''" by code_simp+
  show ?thesis
    using refused [of "decodePayload (commandPayload ''/container/create'' (decorate oper payload))" "''create''"]
      refused [of "decodePayload (commandPayload ''/container/pull'' (decorate oper payload))" "''pull-image''"]
      payload_name [OF n(1), of "decorate oper payload"] payload_name [OF n(2), of "decorate oper payload"] v
    by (simp add: selfHostedNodeRequest_def a)
qed

text \<open>C1. The identifier of the operation never arrives. The control plane puts it into the payload of every life-cycle
  request, the bridge replaces it by the \<open>operationId\<close> of the path's query, which these paths do not have; so the host
  agent begins no record, and the request leaves its records as they were.\<close>

theorem operation_id_lost:
  assumes "ValidName name" "t \<in> {''/start'', ''/stop'', ''/restart'', ''/resize'', ''/reinstall'', ''/destroy''}"
    "\<forall>args h. h_ops (snd (docker args h)) = h_ops h"
  shows "p_operation (decodePayload (commandPayload (''/container/'' @ name @ t) (decorate oper payload))) = [] \<and>
    h_ops (snd (selfHostedNodeRequest cfg decode docker cancelled oper ''POST'' (''/container/'' @ name @ t) payload h)) = h_ops h"
proof -
  let ?path = "''/container/'' @ name @ t"
  obtain r where r: "name = ''xcloud-'' @ r" "list_all lowerAlnum r" using ValidName_split [OF assms(1)] by blast
  have p: "lowerAlnum c \<Longrightarrow> \<not> controlChar c" for c by (auto simp: lowerAlnum_def controlChar_def Let_def)
  have "list_all (\<lambda>c. c \<noteq> CHR ''?'' \<and> c \<noteq> CHR ''#'' \<and> c \<noteq> CHR ''%'' \<and> \<not> controlChar c) r"
    using r(2) p lowerAlnum_plain by (simp add: list_all_iff)
  then have "list_all (\<lambda>c. c \<noteq> CHR ''?'' \<and> c \<noteq> CHR ''#'' \<and> c \<noteq> CHR ''%'' \<and> \<not> controlChar c) ?path"
    using assms(2) by (auto simp: r(1) controlChar_def)
  then have "rawQuery ?path = Some []" by (rule no_query)
  then have lost: "p_operation (decodePayload (commandPayload ?path (decorate oper payload))) = []"
    by (simp only: commandPayload_def Let_def) (simp add: decodePayload_def strField_def queryGet_empty)
  show ?thesis
  proof (cases "selfHostedCommandAction ''POST'' ?path")
    case (Inr action)
    have "h_ops (snd (runManagedCommand cfg decode docker cancelled action (decodePayload (commandPayload ?path (decorate oper payload))) h)) = h_ops h"
      using command_ops [OF assms(3)] lost by (simp add: trimSpace_def trimLeft_def trimRight_def)
    then show ?thesis using lost unfolding selfHostedNodeRequest_def Inr sum.case by blast
  qed (simp only: selfHostedNodeRequest_def sum.case snd_conv lost simp_thms)
qed

theorem operation_id_lost_witness:
  "p_operation (decodePayload (commandPayload ''/container/xcloud-r0123456789abcdef/stop'' (decorate ''aop_12345678'' None))) = []"
proof -
  have v: "ValidName ''xcloud-r0123456789abcdef''" by code_simp
  have d: "\<forall>args h. h_ops (snd (exampleDocker args h)) = h_ops h" by (simp add: exampleDocker_def)
  show ?thesis using operation_id_lost [OF v _ d, of "''/stop''" "''aop_12345678''" None exampleAgent "\<lambda>_. None" "\<lambda>_. False" exampleHost] by simp
qed

text \<open>A file cannot be saved on such a node: the console sends \<open>PUT\<close>, which the bridge refuses. An upload arrives without its
  path and is refused as a write to the workspace itself.\<close>

lemma save_refused: "selfHostedNodeRequest cfg decode docker cancelled oper ''PUT'' path payload h = (Inl (Plain ''interface not supported''), h)"
  by (simp add: selfHostedNodeRequest_def selfHostedCommandAction_def)

lemma upload_without_path:
  assumes "plain f base" "base \<noteq> []"
  shows "\<exists>e. fst (UploadWorkspaceBase64 base [] encoded f) = Inl e"
proof -
  obtain b s where b: "base = b @ [s]" using assms(2) by (cases base rule: rev_cases) auto
  have pl: "plain f b" "okSeg s" "map_of f (b @ [s]) = Some Directory" using assms(1) by (simp_all add: b plain_snoc)
  have c: "clean (trimSpace []) = dot" by code_simp
  have wp: "WorkspacePath base [] f = Inr (base, [])"
    by (simp add: WorkspacePath_def c Let_def dot_def dotdot_def segments_def)
  have "writeFile f base x = Inl EISDIR" for x
    using resolve_last [of f b s True maxLinks] pl by (simp add: writeFile_def b)
  then have "fst (writeChecked base [] x f) = Inl (Msg ''write'')" for x
    using lstat_plain [OF pl(1,2)] pl mkdirs_plain [of f "[]" b "[]"] by (simp add: writeChecked_def b mkdirAll_def)
  then show ?thesis
    by (auto simp: UploadWorkspaceBase64_def wp split: option.split prod.split sum.split) (metis fst_conv sum.distinct(1))+
qed

end
