(* ===== verification/Spec2Isabelle.thy ===== *)
theory Spec2Isabelle
  imports Money Console Declarative Tickets Fleet Frames Agent Transport
begin

text \<open>
  \<^bold>\<open>The control plane of the container cloud.\<close> The Go service under \<open>src/src\<close> sells container instances: users buy
  plans from a wallet, an executor drives Docker hosts through an Agent, background loops expire and
  destroy instances that are no longer paid for, and operators review what went wrong. All state is in
  MySQL; every request, worker and loop is a sequence of statements on it. The development models the
  state as one record of tables and every operation as a function on it.

  \<^bold>\<open>Conventions.\<close> \<open>db\<close> (theory \<open>Schema\<close>) is a record with one list of rows per table and the database's
  clock \<open>now\<close>; a row is a record with the columns the modelled code reads or writes. A \<open>SELECT\<close> of one row
  is \<open>select\<close>, an \<open>UPDATE\<close> is \<open>update\<close>, its \<open>RowsAffected\<close> is \<open>affected\<close>, which counts \<^emph>\<open>changed\<close> rows as MySQL
  does without \<open>clientFoundRows\<close>. A transaction returns \<open>error + result \<times> db\<close>: an error is a rollback.
  Handlers and the executor, which write outside a transaction, return \<open>error option \<times> db\<close>, so what was
  written before a failure stays. Identifiers from \<open>newID\<close> and random tokens are parameters (\<open>fresh\<close>, \<open>tid\<close>).
  Times are nanoseconds; amounts are integers in fen; \<open>prorateFen\<close> multiplies in 64-bit integers with the
  wrap-around written out; CPU shares are rationals. The texts of messages are English abbreviations. Errors of the
  database driver (lost connections) are not modelled, and transactions are serialised.

  \<^bold>\<open>The Agent\<close> on a Docker host (\<open>src/agent\<close>, reached through the tunnel or HTTP) is, for the control plane, a parameter: a function
  from the request and the database to an answer and the database after it, so other workers, loops and
  requests may act while it answers. Hypotheses on it name what a theorem needs of that concurrent
  activity (for example that it only applies queue operations of other workers). The agents themselves are modelled in
  the theories from \<open>Workspace\<close> to \<open>Agent\<close>, where Docker is the parameter.

  \<^bold>\<open>Theories.\<close>
  \<^item> \<open>GoStd\<close>: Go's integers, \<open>strings\<close> functions and durations. \<open>Prelude\<close>: tables (\<open>select\<close>, \<open>update\<close>, \<open>affected\<close>),
    errors (\<open>bindE\<close>, \<open>guardE\<close>), the locale of a table with a key and its lemmas.
  \<^item> \<open>Schema\<close>: the rows and the \<open>db\<close> record; \<open>insertTask\<close>, audit, notification and event rows.
  \<^item> \<open>Lifecycle\<close> (\<open>control_plane.go\<close>: \<open>transitionInstance\<close>): the state machine of an instance as the transition
    table and as an inductive step relation; no illegal transition, no resurrection.
  \<^item> \<open>Pricing\<close> (\<open>plan_change.go\<close>, \<open>refund.go\<close>, \<open>commercial_benefits.go\<close>): prorating and its overflow guard, price tiers.
  \<^item> \<open>Wallet\<close> (\<open>platform_upgrade.go\<close>): wallets, ledger entries, the contract \<open>balance = sum of entries\<close>.
  \<^item> \<open>Tasks\<close> (\<open>control_plane.go\<close>): claim, lease, fence and finish of a task. \<open>Worker\<close> (\<open>task_queue.go\<close>): one delivery
    from claim to verdict, recovery of expired leases, quarantine, and the bound on executions.
  \<^item> \<open>Benefits\<close> (\<open>commercial_benefits.go\<close>): discounts, budgets, grants. \<open>Catalog\<close>: images and their publication.
  \<^item> \<open>Orders\<close> (\<open>platform_upgrade.go\<close>, \<open>control_plane.go\<close>): purchase, renewal, payment review, choice of a node.
    \<open>Refund\<close> (\<open>refund.go\<close>) and \<open>PlanChange\<close> (\<open>plan_change.go\<close>): quotes and settlements.
  \<^item> \<open>Money\<close>: every operation that moves money as one call datatype, and the ledger invariant over all histories.
  \<^item> \<open>Executor\<close> (\<open>control_plane.go\<close>: \<open>executeTask\<close>): each action, its fence, its Agent request, its transition.
  \<^item> \<open>Scheduler\<close> (\<open>control_plane.go\<close>: \<open>scheduleLifecycle\<close>; \<open>control_loops.go\<close>): the background loops.
  \<^item> \<open>Console\<close> (\<open>control_handlers.go\<close>): what operators and owners may do with tasks and instances.
  \<^item> \<open>Declarative\<close> (\<open>declarative_instances.go\<close>, \<open>host_access.go\<close>): desired state, host access and its allow list.
  \<^item> \<open>Tickets\<close> (\<open>tickets.go\<close>): tickets and their transcripts, and the abstract help desk they refine.
  \<^item> \<open>SelfHosted\<close> (\<open>control_tunnel.go\<close>, \<open>selfhosted_nodes.go\<close>, \<open>gateway/main.go\<close>): enrollment tokens, browser
    authorisations, the handshake, heartbeats, quotas, revocation. \<open>Fleet\<close>: what every call keeps, over all histories.
  \<^item> \<open>Workspace\<close> (\<open>agent-core/core.go\<close>): names, clean paths, the link check, files below a workspace, on a file system
    with symbolic links resolved as the kernel does. \<open>Compose\<close> (\<open>agent-core/core.go\<close>): the compose file, with Go's quoting.
  \<^item> \<open>Frames\<close> (\<open>gateway/main.go\<close>, \<open>control/v2.go\<close>): the binary frames of the tunnel.
  \<^item> \<open>HostAgent\<close> (\<open>control/v2.go\<close>, \<open>agent-core/stats.go\<close>): the command set of the agent on a customer's node, its records
    of operations, its Docker commands; Docker is a function that may change the host.
  \<^item> \<open>Layout\<close>, \<open>Routes\<close>, \<open>Agent\<close> (\<open>agent/main.go\<close>): the agent of a platform node: directories and the migration of the
    old layout, with the points at which it may be cut off; the route cache, with its histories as an inductive relation;
    the handlers behind the control token.

  \<^bold>\<open>What is shown.\<close> Money: over any history the balance of each wallet is the sum of its ledger, never negative, and
  every ledger row records the balance after it; plan changes, refunds, purchases and renewals book exactly the
  quoted amounts and once. Tasks: two lifecycle tasks of an instance never hold it together, a worker that lost
  its lease writes nothing, no Agent request is made without the lock, an interrupted dangerous action is
  never replayed, attempts are bounded. Instances: every change of status follows the transition table,
  a destroyed instance stays destroyed, a purge never removes the data of a paid instance. Loops: exactly the overdue
  instances expire, exactly the due ones get a task. Access: host access needs the owner's place on the
  allow list at any time. Self-hosted nodes: a token binds one device, a credential is shown once, a revocation is final
  and closes exactly the open tasks of the node, quotas hold while requests run one at a time. Tickets: a user
  sees his own tickets and only his own words and an administrator's. Hosts: no path
  leaves the workspace and no value leaves its line of the compose file; the agent runs Docker on its own instance only,
  no command but a purge loses data, and the record of an operation says how it ended; frames are read as they were
  written; a migration that is cut off anywhere is completed by the next run; a route goes to the address learnt last. Several theorems state what the code does where that is not what its messages or
  comments say; they are listed in the manifest's findings.

  \<^bold>\<open>Interfaces.\<close> Each contract is a locale, interpreted on the model's definitions in the theory that provides
  them: the keyed tables (\<open>Prelude\<close>, \<open>Schema\<close>), ledger operations (\<open>Wallet\<close>, \<open>Money\<close>), life-cycle
  operations (\<open>Lifecycle\<close>, \<open>Executor\<close>, \<open>Console\<close>), access operations (\<open>Declarative\<close>), simulations (\<open>Tickets\<close>).

  \<^bold>\<open>Bounds.\<close> No definition uses fuel: every loop runs over the rows one statement selected, with the statement's
  \<open>LIMIT\<close> written out (100 expired leases, 500 discarded tasks); theorems that speak of all rows carry that limit
  as a hypothesis. The kernel's limit of 40 symbolic links is \<open>maxLinks\<close>, and a longer chain is the error \<open>ELOOP\<close>, as there.

  \<^bold>\<open>Not modelled.\<close> HTTP routing, sessions, JSON and the formatting of listings; RabbitMQ transport; the proxying of
  requests and terminals through the gateway; the agents' self-installation, the bytes of terminals, the retired bandwidth shaping; metrics and telemetry; migrations. The rounding of \<open>DATETIME\<close> columns
  to seconds is modelled only where a theorem depends on it (\<open>storedTime\<close> in \<open>Console\<close>).
\<close>

end
